(* ===== verification/Prelude.thy ===== *)
theory Prelude
  imports Main "HOL-Library.Word" "HOL-Library.Monad_Syntax"
begin

unbundle bit_operations_syntax

text \<open>
  Shared ground of the development: the machine types of the C sources, the error numbers the
  library returns, the macros of \<^verbatim>\<open>libexfat/exfat.h\<close> that are not tied to a data structure, the
  little-endian byte layout behind \<^verbatim>\<open>libexfat/byteorder.h\<close>, and the generic facts on lists, words
  and the option monad that the component theories use.

  Conventions used everywhere: a C function that may reach \<^verbatim>\<open>exfat_bug\<close> (which never returns)
  has a result of type \<open>'a option\<close>, and \<open>None\<close> is exactly that abort; an error return of the C
  function is a negative \<open>int\<close> inside \<open>Some\<close>.
\<close>

section \<open>Machine types and error numbers\<close>

type_synonym u8 = "8 word"
type_synonym u16 = "16 word"
type_synonym u32 = "32 word"
type_synonym u64 = "64 word"
type_synonym cluster_t = u32
type_synonym off_t = int
type_synonym time_t = int
type_synonym addr = nat

abbreviation (input) EPERM :: int where "EPERM \<equiv> 1"
abbreviation (input) ENOENT :: int where "ENOENT \<equiv> 2"
abbreviation (input) EIO :: int where "EIO \<equiv> 5"
abbreviation (input) ENOMEM :: int where "ENOMEM \<equiv> 12"
abbreviation (input) EACCES :: int where "EACCES \<equiv> 13"
abbreviation (input) EEXIST :: int where "EEXIST \<equiv> 17"
abbreviation (input) ENODEV :: int where "ENODEV \<equiv> 19"
abbreviation (input) ENOTDIR :: int where "ENOTDIR \<equiv> 20"
abbreviation (input) EISDIR :: int where "EISDIR \<equiv> 21"
abbreviation (input) EINVAL :: int where "EINVAL \<equiv> 22"
abbreviation (input) ENOSPC :: int where "ENOSPC \<equiv> 28"
abbreviation (input) EROFS :: int where "EROFS \<equiv> 30"
abbreviation (input) ENAMETOOLONG :: int where "ENAMETOOLONG \<equiv> 36"
abbreviation (input) ENOTEMPTY :: int where "ENOTEMPTY \<equiv> 39"
abbreviation (input) EILSEQ :: int where "EILSEQ \<equiv> 84"

text \<open>
  The rounding macros are used at several C types; the definition is polymorphic, so that at a
  word type the additions and multiplications wrap as they do in C.
\<close>

definition DIV_ROUND_UP :: "'a::{plus,minus,one,divide} \<Rightarrow> 'a \<Rightarrow> 'a" where
  "DIV_ROUND_UP x d = (x + d - 1) div d"

definition ROUND_UP :: "'a::{plus,minus,one,divide,times} \<Rightarrow> 'a \<Rightarrow> 'a" where
  "ROUND_UP x d = DIV_ROUND_UP x d * d"

section \<open>Little-endian layout\<close>

text \<open>
  \<open>le_bytes n w\<close> are the \<open>n\<close> bytes that a value \<open>w\<close> occupies in a little-endian field, and
  \<open>le_word\<close> reads such a field.  A value of type \<^verbatim>\<open>le16_t\<close>, \<^verbatim>\<open>le32_t\<close> or \<^verbatim>\<open>le64_t\<close> is kept in
  the model as the CPU value, and these two functions are applied where the struct is laid out
  in memory.
\<close>

primrec le_bytes :: "nat \<Rightarrow> 'a::len word \<Rightarrow> u8 list" where
  "le_bytes 0 w = []"
| "le_bytes (Suc n) w = ucast w # le_bytes n (drop_bit 8 w)"

primrec le_word :: "u8 list \<Rightarrow> 'a::len word" where
  "le_word [] = 0"
| "le_word (b # bs) = ucast b OR push_bit 8 (le_word bs)"

definition seg :: "'a list \<Rightarrow> nat \<Rightarrow> nat \<Rightarrow> 'a list" where
  "seg xs off n = take n (drop off xs)"

text \<open>What \<^verbatim>\<open>read()\<close> leaves in a buffer: the bytes that arrived, then what was there before.\<close>

definition fill :: "'a list \<Rightarrow> 'a list \<Rightarrow> 'a list" where
  "fill buffer bytes = bytes @ drop (length bytes) buffer"

section \<open>Generic facts\<close>

named_theorems layout "lengths and slices of the on-disk structures"
named_theorems run_simps "rewriting of monadic runs to their components"

lemmas [run_simps] = bind_eq_Some_conv

lemma unat_u8: "unat (x :: u8) < 256" and unat_u16: "unat (y :: u16) < 65536"
  and unat_u32: "unat (z :: u32) < 4294967296" and unat_u64: "unat (w :: u64) < 18446744073709551616"
  using unsigned_less [of x] unsigned_less [of y] unsigned_less [of z] unsigned_less [of w]
  by simp_all

lemma unat_of_nat_id: "n < 2 ^ LENGTH('a) \<Longrightarrow> unat (of_nat n :: 'a::len word) = n"
  by (simp add: unat_of_nat)

lemma unat_word_of_int: "0 \<le> x \<Longrightarrow> x < 2 ^ LENGTH('a) \<Longrightarrow> unat (word_of_int x :: 'a::len word) = nat x"
  by (simp add: unsigned_of_int take_bit_int_eq_self)

lemma uint_small: "0 \<le> x \<Longrightarrow> x < 2 ^ LENGTH('a) \<Longrightarrow> uint (word_of_int x :: 'a::len word) = x"
  by (simp add: uint_word_of_int_eq take_bit_int_eq_self)

lemmas unat_bounds = unat_u8 unat_u16 unat_u32 unat_u64

lemma u8_eqI: "(\<And>k. k \<in> {0,1,2,3,4,5,6,7} \<Longrightarrow> bit a k \<longleftrightarrow> bit b k) \<Longrightarrow> a = b" for a b :: u8
proof (rule bit_word_eqI)
  fix k assume *: "\<And>k. k \<in> {0,1,2,3,4,5,6,7} \<Longrightarrow> bit a k \<longleftrightarrow> bit b k" and k: "k < LENGTH(8)"
  from k have "k \<in> {0,1,2,3,4,5,6,7}" by auto
  then show "bit a k = bit b k" by (rule *)
qed

lemma bit_imp_power_le: "bit x k \<Longrightarrow> 2 ^ k \<le> unat x" for x :: "'a::len word"
proof (rule ccontr)
  assume "bit x k" and "\<not> 2 ^ k \<le> unat x"
  then have "take_bit k (unat x) = unat x" by (simp add: take_bit_nat_eq_self)
  then have "\<not> bit (unat x) k" by (metis bit_take_bit_iff order.irrefl)
  moreover have "bit (unat x) k" using \<open>bit x k\<close> by (simp add: bit_unsigned_iff bit_imp_le_length)
  ultimately show False by simp
qed

lemma bits_below: "unat x < 2 ^ n \<Longrightarrow> n \<le> k \<Longrightarrow> \<not> bit x k" for x :: "'a::len word"
  using bit_imp_power_le [of x k] power_increasing [of n k "2::nat"] by fastforce

lemma bit_neqI: "bit a k \<noteq> bit b k \<Longrightarrow> a \<noteq> b"
  by blast

text \<open>Three bit fields packed into one word, as the date and time fields are.\<close>

lemma pack_fields:
  fixes x y z :: "'a::len word"
  assumes "unat x < 2 ^ a" and "unat y < 2 ^ b" and "unat z < 2 ^ c" and "a + b + c \<le> LENGTH('a)"
  defines "w \<equiv> x OR push_bit a y OR push_bit (a + b) z"
  shows "w AND mask a = x" and "drop_bit a w AND mask b = y" and "drop_bit (a + b) w = z"
proof -
  have bits: "\<not> bit x k" if "a \<le> k" for k using bits_below [OF assms(1) that] .
  have bity: "\<not> bit y k" if "b \<le> k" for k using bits_below [OF assms(2) that] .
  have bitz: "\<not> bit z k" if "c \<le> k" for k using bits_below [OF assms(3) that] .
  show "w AND mask a = x"
    unfolding w_def by (rule bit_word_eqI) (use bits in \<open>auto simp: bit_simps not_less intro: ccontr\<close>)
  show "drop_bit a w AND mask b = y"
    unfolding w_def
    by (rule bit_word_eqI)
      (use bits bity assms(4) in \<open>auto simp: bit_simps not_less not_le intro: ccontr\<close>)
  show "drop_bit (a + b) w = z"
    unfolding w_def
    by (rule bit_word_eqI)
      (use bits bity bitz assms(4) in \<open>auto simp: bit_simps not_less not_le intro: ccontr\<close>)
qed

lemma length_le_bytes [simp, layout]: "length (le_bytes n w) = n"
  by (induction n arbitrary: w) auto

lemma length_seg [layout]: "off + n \<le> length xs \<Longrightarrow> length (seg xs off n) = n"
  by (simp add: seg_def)

lemma length_fill [simp]: "length bytes \<le> length buffer \<Longrightarrow> length (fill buffer bytes) = length buffer"
  by (simp add: fill_def)

lemma fill_all [simp]: "length bytes = length buffer \<Longrightarrow> fill buffer bytes = bytes"
  by (simp add: fill_def)

lemma bit_le_word:
  "bit (le_word bs :: 'a::len word) k \<longleftrightarrow>
     k < LENGTH('a) \<and> k div 8 < length bs \<and> bit (bs ! (k div 8)) (k mod 8)"
proof (induction bs arbitrary: k)
  case Nil
  then show ?case by simp
next
  case (Cons b bs)
  show ?case
  proof (cases "k < 8")
    case True
    then show ?thesis
      by (auto simp: bit_or_iff bit_push_bit_iff bit_simps)
  next
    case False
    then obtain j where j: "k = j + 8"
      by (metis le_iff_add add.commute not_le)
    have "\<not> bit b (j + 8)"
      by (simp add: bit_word.rep_eq)
    moreover have "(j + 8) div 8 = Suc (j div 8)" by simp
    ultimately show ?thesis
      using j Cons.IH [of j]
      by (auto simp: bit_or_iff bit_push_bit_iff bit_simps)
  qed
qed

lemma nth_le_bytes:
  "i < n \<Longrightarrow> le_bytes n w ! i = ucast (drop_bit (8 * i) w)"
proof (induction n arbitrary: w i)
  case 0
  then show ?case by simp
next
  case (Suc n)
  then show ?case
    by (cases i) (auto simp: drop_bit_drop_bit add.commute)
qed

lemma le_word_le_bytes:
  assumes "LENGTH('a::len) \<le> 8 * n"
  shows "le_word (le_bytes n (w :: 'a word)) = w"
proof (rule bit_word_eqI)
  fix k assume k: "k < LENGTH('a)"
  with assms have "k div 8 < n" by auto
  then show "bit (le_word (le_bytes n w) :: 'a word) k \<longleftrightarrow> bit w k"
    using k by (auto simp: bit_le_word nth_le_bytes bit_simps)
qed

lemma le_bytes_le_word:
  assumes "8 * length bs \<le> LENGTH('a::len)"
  shows "le_bytes (length bs) (le_word bs :: 'a word) = bs"
proof (rule nth_equalityI)
  show "length (le_bytes (length bs) (le_word bs :: 'a word)) = length bs" by simp
  fix i assume i: "i < length (le_bytes (length bs) (le_word bs :: 'a word))"
  show "le_bytes (length bs) (le_word bs :: 'a word) ! i = bs ! i"
  proof (rule bit_word_eqI)
    fix k assume "k < LENGTH(8)"
    then have k: "k < 8" by simp
    have "8 * i + k < 8 * length bs" using i k by simp
    then have "8 * i + k < LENGTH('a)" using assms by linarith
    then show "bit (le_bytes (length bs) (le_word bs :: 'a word) ! i) k \<longleftrightarrow> bit (bs ! i) k"
      using i k by (auto simp: nth_le_bytes bit_le_word bit_simps)
  qed
qed

lemma le_words_16 [simp]: "le_word (le_bytes 2 (w :: u16)) = w"
  and le_words_32 [simp]: "le_word (le_bytes 4 (x :: u32)) = x"
  and le_words_64 [simp]: "le_word (le_bytes 8 (y :: u64)) = y"
  by (simp_all add: le_word_le_bytes)

lemma le_bytes_seg:
  assumes "off + n \<le> length bs" and "8 * n \<le> LENGTH('a::len)"
  shows "le_bytes n (le_word (seg bs off n) :: 'a word) = seg bs off n"
  using le_bytes_le_word [of "seg bs off n", where 'a = 'a] assms
  by (simp add: length_seg)

lemma seg_join: "seg bs a n @ seg bs (a + n) m = seg bs a (n + m)"
  by (simp add: seg_def take_add) (simp add: add.commute)

lemma upt_join: "a \<le> b \<Longrightarrow> b \<le> c \<Longrightarrow> [a..<b] @ [b..<c] = [a..<c]"
  by (metis le_add_diff_inverse upt_add_eq_append)

lemma seg_0 [simp]: "seg bs a 0 = []"
  by (simp add: seg_def)

lemma seg_whole: "length bs = n \<Longrightarrow> seg bs 0 n = bs"
  by (simp add: seg_def)

lemma seg_append1: "off + n \<le> length xs \<Longrightarrow> seg (xs @ ys) off n = seg xs off n"
  by (simp add: seg_def)

lemma seg_append2: "length xs \<le> off \<Longrightarrow> seg (xs @ ys) off n = seg ys (off - length xs) n"
  by (simp add: seg_def)

lemma seg_append_prefix: "n = length xs \<Longrightarrow> seg (xs @ ys) 0 n = xs"
  by (simp add: seg_def)

lemma nth_seg: "i < n \<Longrightarrow> off + n \<le> length xs \<Longrightarrow> seg xs off n ! i = xs ! (off + i)"
  by (simp add: seg_def)

lemma DIV_ROUND_UP_nat: "0 < d \<Longrightarrow> DIV_ROUND_UP x d = (if x = 0 then 0 else Suc ((x - 1) div d))"
  for x d :: nat
proof (cases x)
  case (Suc y)
  moreover assume "0 < d"
  moreover have "(y + d) div d = Suc (y div d)" if "0 < d"
    using div_add_self2 [of d y] that by linarith
  ultimately show ?thesis by (simp add: DIV_ROUND_UP_def)
qed (simp add: DIV_ROUND_UP_def)

lemma DIV_ROUND_UP_le: "0 < d \<Longrightarrow> x \<le> DIV_ROUND_UP x d * d"
  for x d :: nat
proof -
  assume d: "0 < d"
  have "x + d - 1 = (x + d - 1) div d * d + (x + d - 1) mod d" by simp
  moreover have "(x + d - 1) mod d < d" using d by simp
  ultimately have "x + d - 1 < (x + d - 1) div d * d + d" by linarith
  then show ?thesis using d by (simp add: DIV_ROUND_UP_def)
qed

end
