(* ===== verification/OnDisk.thy ===== *)
theory OnDisk
  imports Prelude
begin

text \<open>
  The on-disk structures of \<^verbatim>\<open>libexfat/exfatfs.h\<close>.  Each packed struct is a record; \<open>X_of_bytes\<close>
  is the view the C code gets by casting a pointer to raw bytes, \<open>bytes_of_X\<close> the bytes a struct
  occupies.  The \<open>_len\<close> predicates say that the array members have their declared lengths.
\<close>

section \<open>Constants\<close>

definition EXFAT_FIRST_DATA_CLUSTER :: cluster_t where "EXFAT_FIRST_DATA_CLUSTER = 2"
definition EXFAT_LAST_DATA_CLUSTER :: cluster_t where "EXFAT_LAST_DATA_CLUSTER = 0xfffffff6"
definition EXFAT_CLUSTER_FREE :: cluster_t where "EXFAT_CLUSTER_FREE = 0"
definition EXFAT_CLUSTER_BAD :: cluster_t where "EXFAT_CLUSTER_BAD = 0xfffffff7"
definition EXFAT_CLUSTER_END :: cluster_t where "EXFAT_CLUSTER_END = 0xffffffff"
definition EXFAT_STATE_MOUNTED :: u16 where "EXFAT_STATE_MOUNTED = 2"

definition EXFAT_ENTRY_VALID :: u8 where "EXFAT_ENTRY_VALID = 0x80"
definition EXFAT_ENTRY_CONTINUED :: u8 where "EXFAT_ENTRY_CONTINUED = 0x40"
definition EXFAT_ENTRY_OPTIONAL :: u8 where "EXFAT_ENTRY_OPTIONAL = 0x20"
definition EXFAT_ENTRY_BITMAP :: u8 where
  "EXFAT_ENTRY_BITMAP = 0x01 OR EXFAT_ENTRY_VALID"
definition EXFAT_ENTRY_UPCASE :: u8 where
  "EXFAT_ENTRY_UPCASE = 0x02 OR EXFAT_ENTRY_VALID"
definition EXFAT_ENTRY_LABEL :: u8 where
  "EXFAT_ENTRY_LABEL = 0x03 OR EXFAT_ENTRY_VALID"
definition EXFAT_ENTRY_FILE :: u8 where
  "EXFAT_ENTRY_FILE = 0x05 OR EXFAT_ENTRY_VALID"
definition EXFAT_ENTRY_FILE_INFO :: u8 where
  "EXFAT_ENTRY_FILE_INFO = 0x00 OR EXFAT_ENTRY_VALID OR EXFAT_ENTRY_CONTINUED"
definition EXFAT_ENTRY_FILE_NAME :: u8 where
  "EXFAT_ENTRY_FILE_NAME = 0x01 OR EXFAT_ENTRY_VALID OR EXFAT_ENTRY_CONTINUED"
definition EXFAT_ENTRY_FILE_TAIL :: u8 where
  "EXFAT_ENTRY_FILE_TAIL = 0x00 OR EXFAT_ENTRY_VALID OR EXFAT_ENTRY_CONTINUED OR EXFAT_ENTRY_OPTIONAL"

definition EXFAT_ATTRIB_RO :: u16 where "EXFAT_ATTRIB_RO = 0x01"
definition EXFAT_ATTRIB_HIDDEN :: u16 where "EXFAT_ATTRIB_HIDDEN = 0x02"
definition EXFAT_ATTRIB_SYSTEM :: u16 where "EXFAT_ATTRIB_SYSTEM = 0x04"
definition EXFAT_ATTRIB_VOLUME :: u16 where "EXFAT_ATTRIB_VOLUME = 0x08"
definition EXFAT_ATTRIB_DIR :: u16 where "EXFAT_ATTRIB_DIR = 0x10"
definition EXFAT_ATTRIB_ARCH :: u16 where "EXFAT_ATTRIB_ARCH = 0x20"

definition EXFAT_FLAG_ALWAYS1 :: u8 where "EXFAT_FLAG_ALWAYS1 = 1"
definition EXFAT_FLAG_CONTIGUOUS :: u8 where "EXFAT_FLAG_CONTIGUOUS = 2"

definition EXFAT_ENAME_MAX :: nat where "EXFAT_ENAME_MAX = 15"
definition EXFAT_NAME_MAX :: nat where "EXFAT_NAME_MAX = 255"
definition EXFAT_UPCASE_CHARS :: nat where "EXFAT_UPCASE_CHARS = 0x10000"
definition EXFAT_UTF8_NAME_BUFFER_MAX :: nat where
  "EXFAT_UTF8_NAME_BUFFER_MAX = EXFAT_NAME_MAX * 3 + 1"
definition EXFAT_UTF8_ENAME_BUFFER_MAX :: nat where
  "EXFAT_UTF8_ENAME_BUFFER_MAX = EXFAT_ENAME_MAX * 3 + 1"

lemmas cluster_consts =
  EXFAT_FIRST_DATA_CLUSTER_def EXFAT_LAST_DATA_CLUSTER_def EXFAT_CLUSTER_FREE_def
  EXFAT_CLUSTER_BAD_def EXFAT_CLUSTER_END_def

lemmas entry_consts =
  EXFAT_ENTRY_VALID_def EXFAT_ENTRY_CONTINUED_def EXFAT_ENTRY_OPTIONAL_def EXFAT_ENTRY_BITMAP_def
  EXFAT_ENTRY_UPCASE_def EXFAT_ENTRY_LABEL_def EXFAT_ENTRY_FILE_def EXFAT_ENTRY_FILE_INFO_def
  EXFAT_ENTRY_FILE_NAME_def EXFAT_ENTRY_FILE_TAIL_def

lemmas attrib_consts =
  EXFAT_ATTRIB_RO_def EXFAT_ATTRIB_HIDDEN_def EXFAT_ATTRIB_SYSTEM_def EXFAT_ATTRIB_VOLUME_def
  EXFAT_ATTRIB_DIR_def EXFAT_ATTRIB_ARCH_def

lemmas name_consts =
  EXFAT_ENAME_MAX_def EXFAT_NAME_MAX_def EXFAT_UTF8_NAME_BUFFER_MAX_def
  EXFAT_UTF8_ENAME_BUFFER_MAX_def EXFAT_UPCASE_CHARS_def

section \<open>The super block\<close>

record exfat_super_block =
  sb_jump :: "u8 list"
  sb_oem_name :: "u8 list"
  sb_unused1 :: "u8 list"
  sb_sector_start :: u64
  sb_sector_count :: u64
  sb_fat_sector_start :: u32
  sb_fat_sector_count :: u32
  sb_cluster_sector_start :: u32
  sb_cluster_count :: u32
  sb_rootdir_cluster :: u32
  sb_volume_serial :: u32
  sb_version_minor :: u8
  sb_version_major :: u8
  sb_volume_state :: u16
  sb_sector_bits :: u8
  sb_spc_bits :: u8
  sb_fat_count :: u8
  sb_drive_no :: u8
  sb_allocated_percent :: u8
  sb_unused2 :: "u8 list"
  sb_boot_signature :: u16

definition sb_of_bytes :: "u8 list \<Rightarrow> exfat_super_block" where
  "sb_of_bytes bs =
     \<lparr>sb_jump = seg bs 0 3, sb_oem_name = seg bs 3 8, sb_unused1 = seg bs 11 53,
      sb_sector_start = le_word (seg bs 64 8), sb_sector_count = le_word (seg bs 72 8),
      sb_fat_sector_start = le_word (seg bs 80 4), sb_fat_sector_count = le_word (seg bs 84 4),
      sb_cluster_sector_start = le_word (seg bs 88 4), sb_cluster_count = le_word (seg bs 92 4),
      sb_rootdir_cluster = le_word (seg bs 96 4), sb_volume_serial = le_word (seg bs 100 4),
      sb_version_minor = bs ! 104, sb_version_major = bs ! 105,
      sb_volume_state = le_word (seg bs 106 2),
      sb_sector_bits = bs ! 108, sb_spc_bits = bs ! 109, sb_fat_count = bs ! 110,
      sb_drive_no = bs ! 111, sb_allocated_percent = bs ! 112, sb_unused2 = seg bs 113 397,
      sb_boot_signature = le_word (seg bs 510 2)\<rparr>"

definition bytes_of_sb :: "exfat_super_block \<Rightarrow> u8 list" where
  "bytes_of_sb s =
     sb_jump s @ sb_oem_name s @ sb_unused1 s @
     le_bytes 8 (sb_sector_start s) @ le_bytes 8 (sb_sector_count s) @
     le_bytes 4 (sb_fat_sector_start s) @ le_bytes 4 (sb_fat_sector_count s) @
     le_bytes 4 (sb_cluster_sector_start s) @ le_bytes 4 (sb_cluster_count s) @
     le_bytes 4 (sb_rootdir_cluster s) @ le_bytes 4 (sb_volume_serial s) @
     [sb_version_minor s, sb_version_major s] @ le_bytes 2 (sb_volume_state s) @
     [sb_sector_bits s, sb_spc_bits s, sb_fat_count s, sb_drive_no s, sb_allocated_percent s] @
     sb_unused2 s @ le_bytes 2 (sb_boot_signature s)"

definition sb_len :: "exfat_super_block \<Rightarrow> bool" where
  "sb_len s \<longleftrightarrow> length (sb_jump s) = 3 \<and> length (sb_oem_name s) = 8 \<and>
     length (sb_unused1 s) = 53 \<and> length (sb_unused2 s) = 397"

section \<open>Directory entries\<close>

text \<open>A \<^verbatim>\<open>struct exfat_entry\<close> is 32 raw bytes; its first byte is the type.\<close>

type_synonym entry = "u8 list"

abbreviation (input) ENTRY_SIZE :: nat where "ENTRY_SIZE \<equiv> 32"

definition entry_type :: "entry \<Rightarrow> u8" where
  "entry_type e = e ! 0"

definition set_entry_type :: "entry \<Rightarrow> u8 \<Rightarrow> entry" where
  "set_entry_type e t = e[0 := t]"

definition names_of_bytes :: "nat \<Rightarrow> u8 list \<Rightarrow> u16 list" where
  "names_of_bytes n bs = map (\<lambda>i. le_word (seg bs (2 * i) 2)) [0..<n]"

definition bytes_of_names :: "u16 list \<Rightarrow> u8 list" where
  "bytes_of_names ws = concat (map (le_bytes 2) ws)"

record exfat_entry_bitmap =
  eb_type :: u8
  eb_unknown1 :: "u8 list"
  eb_start_cluster :: u32
  eb_size :: u64

definition bitmap_of_bytes :: "entry \<Rightarrow> exfat_entry_bitmap" where
  "bitmap_of_bytes bs =
     \<lparr>eb_type = bs ! 0, eb_unknown1 = seg bs 1 19, eb_start_cluster = le_word (seg bs 20 4),
      eb_size = le_word (seg bs 24 8)\<rparr>"

definition bytes_of_bitmap :: "exfat_entry_bitmap \<Rightarrow> entry" where
  "bytes_of_bitmap b =
     [eb_type b] @ eb_unknown1 b @ le_bytes 4 (eb_start_cluster b) @ le_bytes 8 (eb_size b)"

record exfat_entry_upcase =
  eu_type :: u8
  eu_unknown1 :: "u8 list"
  eu_checksum :: u32
  eu_unknown2 :: "u8 list"
  eu_start_cluster :: u32
  eu_size :: u64

definition upcase_of_bytes :: "entry \<Rightarrow> exfat_entry_upcase" where
  "upcase_of_bytes bs =
     \<lparr>eu_type = bs ! 0, eu_unknown1 = seg bs 1 3, eu_checksum = le_word (seg bs 4 4),
      eu_unknown2 = seg bs 8 12, eu_start_cluster = le_word (seg bs 20 4),
      eu_size = le_word (seg bs 24 8)\<rparr>"

definition bytes_of_upcase :: "exfat_entry_upcase \<Rightarrow> entry" where
  "bytes_of_upcase u =
     [eu_type u] @ eu_unknown1 u @ le_bytes 4 (eu_checksum u) @ eu_unknown2 u @
     le_bytes 4 (eu_start_cluster u) @ le_bytes 8 (eu_size u)"

record exfat_entry_label =
  el_type :: u8
  el_length :: u8
  el_name :: "u16 list"

definition label_of_bytes :: "entry \<Rightarrow> exfat_entry_label" where
  "label_of_bytes bs =
     \<lparr>el_type = bs ! 0, el_length = bs ! 1, el_name = names_of_bytes EXFAT_ENAME_MAX (drop 2 bs)\<rparr>"

definition bytes_of_label :: "exfat_entry_label \<Rightarrow> entry" where
  "bytes_of_label l = [el_type l, el_length l] @ bytes_of_names (el_name l)"

record exfat_entry_meta1 =
  m1_type :: u8
  m1_continuations :: u8
  m1_checksum :: u16
  m1_attrib :: u16
  m1_unknown1 :: u16
  m1_crtime :: u16
  m1_crdate :: u16
  m1_mtime :: u16
  m1_mdate :: u16
  m1_atime :: u16
  m1_adate :: u16
  m1_crtime_cs :: u8
  m1_mtime_cs :: u8
  m1_crtime_tzo :: u8
  m1_mtime_tzo :: u8
  m1_atime_tzo :: u8
  m1_unknown2 :: "u8 list"

definition meta1_of_bytes :: "entry \<Rightarrow> exfat_entry_meta1" where
  "meta1_of_bytes bs =
     \<lparr>m1_type = bs ! 0, m1_continuations = bs ! 1, m1_checksum = le_word (seg bs 2 2),
      m1_attrib = le_word (seg bs 4 2), m1_unknown1 = le_word (seg bs 6 2),
      m1_crtime = le_word (seg bs 8 2), m1_crdate = le_word (seg bs 10 2),
      m1_mtime = le_word (seg bs 12 2), m1_mdate = le_word (seg bs 14 2),
      m1_atime = le_word (seg bs 16 2), m1_adate = le_word (seg bs 18 2),
      m1_crtime_cs = bs ! 20, m1_mtime_cs = bs ! 21, m1_crtime_tzo = bs ! 22,
      m1_mtime_tzo = bs ! 23, m1_atime_tzo = bs ! 24, m1_unknown2 = seg bs 25 7\<rparr>"

definition bytes_of_meta1 :: "exfat_entry_meta1 \<Rightarrow> entry" where
  "bytes_of_meta1 m =
     [m1_type m, m1_continuations m] @ le_bytes 2 (m1_checksum m) @ le_bytes 2 (m1_attrib m) @
     le_bytes 2 (m1_unknown1 m) @ le_bytes 2 (m1_crtime m) @ le_bytes 2 (m1_crdate m) @
     le_bytes 2 (m1_mtime m) @ le_bytes 2 (m1_mdate m) @ le_bytes 2 (m1_atime m) @
     le_bytes 2 (m1_adate m) @
     [m1_crtime_cs m, m1_mtime_cs m, m1_crtime_tzo m, m1_mtime_tzo m, m1_atime_tzo m] @ m1_unknown2 m"

record exfat_entry_meta2 =
  m2_type :: u8
  m2_flags :: u8
  m2_unknown1 :: u8
  m2_name_length :: u8
  m2_name_hash :: u16
  m2_unknown2 :: u16
  m2_valid_size :: u64
  m2_unknown3 :: "u8 list"
  m2_start_cluster :: u32
  m2_size :: u64

definition meta2_of_bytes :: "entry \<Rightarrow> exfat_entry_meta2" where
  "meta2_of_bytes bs =
     \<lparr>m2_type = bs ! 0, m2_flags = bs ! 1, m2_unknown1 = bs ! 2, m2_name_length = bs ! 3,
      m2_name_hash = le_word (seg bs 4 2), m2_unknown2 = le_word (seg bs 6 2),
      m2_valid_size = le_word (seg bs 8 8), m2_unknown3 = seg bs 16 4,
      m2_start_cluster = le_word (seg bs 20 4), m2_size = le_word (seg bs 24 8)\<rparr>"

definition bytes_of_meta2 :: "exfat_entry_meta2 \<Rightarrow> entry" where
  "bytes_of_meta2 m =
     [m2_type m, m2_flags m, m2_unknown1 m, m2_name_length m] @ le_bytes 2 (m2_name_hash m) @
     le_bytes 2 (m2_unknown2 m) @ le_bytes 8 (m2_valid_size m) @ m2_unknown3 m @
     le_bytes 4 (m2_start_cluster m) @ le_bytes 8 (m2_size m)"

record exfat_entry_name =
  en_type :: u8
  en_unknown :: u8
  en_name :: "u16 list"

definition name_of_bytes :: "entry \<Rightarrow> exfat_entry_name" where
  "name_of_bytes bs =
     \<lparr>en_type = bs ! 0, en_unknown = bs ! 1, en_name = names_of_bytes EXFAT_ENAME_MAX (drop 2 bs)\<rparr>"

definition bytes_of_name :: "exfat_entry_name \<Rightarrow> entry" where
  "bytes_of_name e = [en_type e, en_unknown e] @ bytes_of_names (en_name e)"

section \<open>Round trips\<close>

text \<open>
  Reading a field of a laid-out struct: the field's bytes sit at the offset that the members
  before it add up to.
\<close>

lemma seg_skip_Cons: "0 < off \<Longrightarrow> seg (x # ys) off n = seg ys (off - 1) n"
  by (cases off) (simp_all add: seg_def)

lemma seg_exact: "n = length xs \<Longrightarrow> seg xs 0 n = xs"
  by (simp add: seg_def)

lemmas field_layout = seg_append_prefix seg_append2 seg_skip_Cons nth_append seg_exact

lemma sb_of_bytes_of_sb: "sb_len s \<Longrightarrow> sb_of_bytes (bytes_of_sb s) = s"
  by (simp add: sb_of_bytes_def bytes_of_sb_def sb_len_def field_layout)

text \<open>
  In the other direction the members, laid out one after the other, are the bytes that were
  read: each scalar member re-encodes its segment, and adjacent segments join.
\<close>

lemma le_bytes_seg_lit [simp]:
  "off + 2 \<le> length bs \<Longrightarrow> le_bytes 2 (le_word (seg bs off 2) :: u16) = seg bs off 2"
  "off + 4 \<le> length bs \<Longrightarrow> le_bytes 4 (le_word (seg bs off 4) :: u32) = seg bs off 4"
  "off + 8 \<le> length bs \<Longrightarrow> le_bytes 8 (le_word (seg bs off 8) :: u64) = seg bs off 8"
  by (simp_all add: le_bytes_seg)

lemma seg_single: "off < length bs \<Longrightarrow> bs ! off # seg bs (Suc off) n = seg bs off (Suc n)"
  by (simp add: seg_def Cons_nth_drop_Suc [symmetric])

lemma seg_cons: "off < length bs \<Longrightarrow> b = Suc off \<Longrightarrow> bs ! off # seg bs b n @ xs = seg bs off (Suc n) @ xs"
  by (simp flip: seg_single)

lemma seg_glue: "b = a + n \<Longrightarrow> seg bs a n @ seg bs b m @ xs = seg bs a (n + m) @ xs"
  by (simp flip: seg_join)

lemma seg_glue_last: "b = a + n \<Longrightarrow> seg bs a n @ seg bs b m = seg bs a (n + m)"
  by (simp add: seg_join)

lemma nth_as_seg: "i < length bs \<Longrightarrow> bs ! i # xs = seg bs i 1 @ xs"
  by (simp add: seg_def Cons_nth_drop_Suc [symmetric])

lemmas glue = nth_as_seg seg_glue seg_glue_last seg_whole

lemma bytes_of_sb_of_bytes: "length bs = 512 \<Longrightarrow> bytes_of_sb (sb_of_bytes bs) = bs"
  by (simp add: sb_of_bytes_def bytes_of_sb_def glue)

lemma sb_len_of_bytes: "length bs = 512 \<Longrightarrow> sb_len (sb_of_bytes bs)"
  by (simp add: sb_len_def sb_of_bytes_def length_seg)

lemma length_bytes_of_sb [layout]: "sb_len s \<Longrightarrow> length (bytes_of_sb s) = 512"
  by (simp add: bytes_of_sb_def sb_len_def)

lemma bytes_of_meta1_of_bytes: "length e = 32 \<Longrightarrow> bytes_of_meta1 (meta1_of_bytes e) = e"
  by (simp add: meta1_of_bytes_def bytes_of_meta1_def glue)

lemma meta1_of_bytes_of_meta1: "length (m1_unknown2 m) = 7 \<Longrightarrow> meta1_of_bytes (bytes_of_meta1 m) = m"
  by (simp add: meta1_of_bytes_def bytes_of_meta1_def field_layout)

lemma length_bytes_of_meta1 [layout]: "length (m1_unknown2 m) = 7 \<Longrightarrow> length (bytes_of_meta1 m) = 32"
  by (simp add: bytes_of_meta1_def)

lemma length_m1_unknown2 [layout]: "length e = 32 \<Longrightarrow> length (m1_unknown2 (meta1_of_bytes e)) = 7"
  by (simp add: meta1_of_bytes_def length_seg)

lemma bytes_of_meta2_of_bytes: "length e = 32 \<Longrightarrow> bytes_of_meta2 (meta2_of_bytes e) = e"
  by (simp add: meta2_of_bytes_def bytes_of_meta2_def glue)

lemma meta2_of_bytes_of_meta2: "length (m2_unknown3 m) = 4 \<Longrightarrow> meta2_of_bytes (bytes_of_meta2 m) = m"
  by (simp add: meta2_of_bytes_def bytes_of_meta2_def field_layout)

lemma length_bytes_of_meta2 [layout]: "length (m2_unknown3 m) = 4 \<Longrightarrow> length (bytes_of_meta2 m) = 32"
  by (simp add: bytes_of_meta2_def)

lemma length_m2_unknown3 [layout]: "length e = 32 \<Longrightarrow> length (m2_unknown3 (meta2_of_bytes e)) = 4"
  by (simp add: meta2_of_bytes_def length_seg)

lemma bitmap_of_bytes_of_bitmap: "length (eb_unknown1 b) = 19 \<Longrightarrow> bitmap_of_bytes (bytes_of_bitmap b) = b"
  by (simp add: bitmap_of_bytes_def bytes_of_bitmap_def field_layout)

lemma bytes_of_bitmap_of_bytes: "length e = 32 \<Longrightarrow> bytes_of_bitmap (bitmap_of_bytes e) = e"
  by (simp add: bitmap_of_bytes_def bytes_of_bitmap_def glue)

lemma upcase_of_bytes_of_upcase:
  "length (eu_unknown1 u) = 3 \<Longrightarrow> length (eu_unknown2 u) = 12 \<Longrightarrow> upcase_of_bytes (bytes_of_upcase u) = u"
  by (simp add: upcase_of_bytes_def bytes_of_upcase_def field_layout)

lemma bytes_of_upcase_of_bytes: "length e = 32 \<Longrightarrow> bytes_of_upcase (upcase_of_bytes e) = e"
  by (simp add: upcase_of_bytes_def bytes_of_upcase_def glue)

lemma length_bytes_of_names [simp]: "length (bytes_of_names ws) = 2 * length ws"
  by (induction ws) (simp_all add: bytes_of_names_def)

lemma seg_bytes_of_names: "i < length ws \<Longrightarrow> seg (bytes_of_names ws) (2 * i) 2 = le_bytes 2 (ws ! i)"
proof (induction ws arbitrary: i)
  case Nil
  then show ?case by simp
next
  case (Cons w ws)
  show ?case
  proof (cases i)
    case 0
    then show ?thesis by (simp add: bytes_of_names_def seg_append_prefix)
  next
    case (Suc j)
    then have "seg (bytes_of_names (w # ws)) (2 * i) 2 = seg (bytes_of_names ws) (2 * j) 2"
      by (simp add: bytes_of_names_def seg_append2)
    with Cons Suc show ?thesis by simp
  qed
qed

lemma names_of_bytes_of_names: "n = length ws \<Longrightarrow> names_of_bytes n (bytes_of_names ws) = ws"
  by (rule nth_equalityI) (auto simp: names_of_bytes_def seg_bytes_of_names)

lemma bytes_of_names_of_bytes: "length bs = 2 * n \<Longrightarrow> bytes_of_names (names_of_bytes n bs) = bs"
proof (induction n arbitrary: bs)
  case 0
  then show ?case by (simp add: names_of_bytes_def bytes_of_names_def)
next
  case (Suc n)
  have hd: "seg bs 0 2 @ drop 2 bs = bs" by (simp add: seg_def)
  have "names_of_bytes (Suc n) bs = le_word (seg bs 0 2) # names_of_bytes n (drop 2 bs)"
    by (simp add: names_of_bytes_def seg_def map_upt_Suc add.commute del: upt_Suc)
  then have "bytes_of_names (names_of_bytes (Suc n) bs) =
      le_bytes 2 (le_word (seg bs 0 2) :: u16) @ bytes_of_names (names_of_bytes n (drop 2 bs))"
    by (simp add: bytes_of_names_def)
  also have "\<dots> = seg bs 0 2 @ drop 2 bs"
    using Suc by simp
  finally show ?case using hd by simp
qed

lemma length_names_of_bytes [simp]: "length (names_of_bytes n bs) = n"
  by (simp add: names_of_bytes_def)

lemma name_of_bytes_of_name:
  "length (en_name e) = EXFAT_ENAME_MAX \<Longrightarrow> name_of_bytes (bytes_of_name e) = e"
  by (simp add: name_of_bytes_def bytes_of_name_def names_of_bytes_of_names)

lemma bytes_of_name_of_bytes: "length e = 32 \<Longrightarrow> bytes_of_name (name_of_bytes e) = e"
  by (simp add: name_of_bytes_def bytes_of_name_def bytes_of_names_of_bytes EXFAT_ENAME_MAX_def)
     (simp add: Cons_nth_drop_Suc numeral_2_eq_2)

lemma length_bytes_of_name [layout]:
  "length (en_name e) = EXFAT_ENAME_MAX \<Longrightarrow> length (bytes_of_name e) = 32"
  by (simp add: bytes_of_name_def EXFAT_ENAME_MAX_def)

lemma label_of_bytes_of_label:
  "length (el_name l) = EXFAT_ENAME_MAX \<Longrightarrow> label_of_bytes (bytes_of_label l) = l"
  by (simp add: label_of_bytes_def bytes_of_label_def names_of_bytes_of_names)

lemma length_set_entry_type [layout, simp]: "length (set_entry_type e t) = length e"
  by (simp add: set_entry_type_def)

lemma entry_type_set [simp]: "e \<noteq> [] \<Longrightarrow> entry_type (set_entry_type e t) = t"
  by (simp add: entry_type_def set_entry_type_def)

end
