(* ===== verification/Device.thy ===== *)
theory Device
  imports Prelude
begin

text \<open>
  The POSIX device layer at the top of \<^verbatim>\<open>libexfat/io.c\<close> (Linux, without ublio).  A device is a
  medium of fixed size: a function from byte positions to bytes.  The kernel calls that the source
  makes are the \<open>sys_\<close> functions; which requests the medium fails is data of the device, two
  predicates on offset and length, so that every error branch of the library is exercised.  A read
  that reaches past the end is short, a write that starts past it fails, and a descriptor opened
  read-only refuses every write; a failed request leaves the medium as it was (a real one may have stored a part of its bytes).
\<close>

section \<open>State\<close>

datatype exfat_mode = EXFAT_MODE_RO | EXFAT_MODE_RW | EXFAT_MODE_ANY

record exfat_dev =
  dev_mode :: exfat_mode
  dev_size :: off_t
  dev_pos :: off_t
  dev_data :: "nat \<Rightarrow> u8"
  dev_bad_read :: "nat \<Rightarrow> nat \<Rightarrow> bool"
  dev_bad_write :: "nat \<Rightarrow> nat \<Rightarrow> bool"
  dev_sync_ok :: bool

text \<open>
  What the kernel knows about the object a path names, as far as \<^verbatim>\<open>exfat_open\<close> asks for it;
  the first two fields say whether the standard descriptors are (or can be) open and whether the
  device structure can be allocated.
\<close>

record devnode =
  dn_stdio_ok :: bool
  dn_malloc_ok :: bool
  dn_open_ro :: bool
  dn_open_rw :: bool
  dn_blkroget :: bool
  dn_fstat_ok :: bool
  dn_kind_ok :: bool
  dn_seek_end :: off_t
  dn_seek_set_ok :: bool
  dn_data :: "nat \<Rightarrow> u8"
  dn_bad_read :: "nat \<Rightarrow> nat \<Rightarrow> bool"
  dn_bad_write :: "nat \<Rightarrow> nat \<Rightarrow> bool"
  dn_sync_ok :: bool

section \<open>Kernel calls\<close>

definition sys_pread :: "exfat_dev \<Rightarrow> nat \<Rightarrow> off_t \<Rightarrow> u8 list option" where
  "sys_pread d n off =
     (if off < 0 \<or> dev_bad_read d (nat off) n then None
      else Some (map (dev_data d) [nat off ..< min (nat off + n) (nat (dev_size d))]))"

definition store :: "(nat \<Rightarrow> 'a) \<Rightarrow> nat \<Rightarrow> 'a list \<Rightarrow> nat \<Rightarrow> 'a" where
  "store f off bs = (\<lambda>i. if off \<le> i \<and> i < off + length bs then bs ! (i - off) else f i)"

definition sys_pwrite :: "exfat_dev \<Rightarrow> u8 list \<Rightarrow> off_t \<Rightarrow> (nat \<times> exfat_dev) option" where
  "sys_pwrite d bs off =
     (if off < 0 \<or> dev_mode d = EXFAT_MODE_RO \<or> dev_bad_write d (nat off) (length bs) \<or>
         (bs \<noteq> [] \<and> dev_size d \<le> off) then None
      else let m = min (length bs) (nat (dev_size d - off))
           in Some (m, d\<lparr>dev_data := store (dev_data d) (nat off) (take m bs)\<rparr>))"

section \<open>The library's calls\<close>

text \<open>
  The result of the read calls is the return value and the contents of the caller's buffer
  afterwards; the write calls return the device with its new contents.
\<close>

definition exfat_pread :: "exfat_dev \<Rightarrow> u8 list \<Rightarrow> nat \<Rightarrow> off_t \<Rightarrow> int \<times> u8 list" where
  "exfat_pread dev buffer sz offset =
     (case sys_pread dev sz offset of
        None \<Rightarrow> (-1, buffer)
      | Some bytes \<Rightarrow> (int (length bytes), fill buffer bytes))"

definition exfat_pwrite :: "exfat_dev \<Rightarrow> u8 list \<Rightarrow> nat \<Rightarrow> off_t \<Rightarrow> int \<times> exfat_dev" where
  "exfat_pwrite dev buffer sz offset =
     (case sys_pwrite dev (take sz buffer) offset of
        None \<Rightarrow> (-1, dev)
      | Some (m, dev') \<Rightarrow> (int m, dev'))"

definition exfat_read :: "exfat_dev \<Rightarrow> u8 list \<Rightarrow> nat \<Rightarrow> int \<times> u8 list \<times> exfat_dev" where
  "exfat_read dev buffer sz =
     (case sys_pread dev sz (dev_pos dev) of
        None \<Rightarrow> (-1, buffer, dev)
      | Some bytes \<Rightarrow> (int (length bytes), fill buffer bytes,
                       dev\<lparr>dev_pos := dev_pos dev + int (length bytes)\<rparr>))"

definition exfat_write :: "exfat_dev \<Rightarrow> u8 list \<Rightarrow> nat \<Rightarrow> int \<times> exfat_dev" where
  "exfat_write dev buffer sz =
     (case sys_pwrite dev (take sz buffer) (dev_pos dev) of
        None \<Rightarrow> (-1, dev)
      | Some (m, dev') \<Rightarrow> (int m, dev'\<lparr>dev_pos := dev_pos dev' + int m\<rparr>))"

datatype whence = SEEK_SET | SEEK_CUR | SEEK_END

definition exfat_seek :: "exfat_dev \<Rightarrow> off_t \<Rightarrow> whence \<Rightarrow> off_t \<times> exfat_dev" where
  "exfat_seek dev offset wh =
     (let p = (case wh of SEEK_SET \<Rightarrow> offset | SEEK_CUR \<Rightarrow> dev_pos dev + offset
                        | SEEK_END \<Rightarrow> dev_size dev + offset)
      in if p < 0 then (-1, dev) else (p, dev\<lparr>dev_pos := p\<rparr>))"

definition exfat_get_mode :: "exfat_dev \<Rightarrow> exfat_mode" where
  "exfat_get_mode dev = dev_mode dev"

definition exfat_get_size :: "exfat_dev \<Rightarrow> off_t" where
  "exfat_get_size dev = dev_size dev"

definition exfat_fsync :: "exfat_dev \<Rightarrow> int" where
  "exfat_fsync dev = (if dev_sync_ok dev then 0 else - EIO)"

text \<open>\<^verbatim>\<open>open_rw\<close> refuses a block device that \<^verbatim>\<open>BLKROGET\<close> reports read-only.\<close>

definition open_ro :: "devnode \<Rightarrow> bool" where
  "open_ro n = dn_open_ro n"

definition open_rw :: "devnode \<Rightarrow> bool" where
  "open_rw n \<longleftrightarrow> dn_open_rw n \<and> \<not> dn_blkroget n"

definition exfat_open :: "devnode \<Rightarrow> exfat_mode \<Rightarrow> exfat_dev option" where
  "exfat_open n mode =
     (if \<not> dn_stdio_ok n then None
      else if \<not> dn_malloc_ok n then None
      else do {
       m \<leftarrow> (case mode of
               EXFAT_MODE_RO \<Rightarrow> if open_ro n then Some EXFAT_MODE_RO else None
             | EXFAT_MODE_RW \<Rightarrow> if open_rw n then Some EXFAT_MODE_RW else None
             | EXFAT_MODE_ANY \<Rightarrow>
                 if open_rw n then Some EXFAT_MODE_RW
                 else if open_ro n then Some EXFAT_MODE_RO else None);
       if \<not> dn_fstat_ok n then None
       else if \<not> dn_kind_ok n then None
       else if dn_seek_end n \<le> 0 then None
       else if \<not> dn_seek_set_ok n then None
       else Some \<lparr>dev_mode = m, dev_size = dn_seek_end n, dev_pos = 0, dev_data = dn_data n,
                  dev_bad_read = dn_bad_read n, dev_bad_write = dn_bad_write n,
                  dev_sync_ok = dn_sync_ok n\<rparr>
     })"

section \<open>The device as a store of bytes\<close>

text \<open>
  The interface the rest of the library relies on: what a read returns after a write.  \<open>rd d n off\<close>
  and \<open>wr d bs off\<close> are complete transfers, \<open>None\<close> where the transfer fails or is short.
\<close>

locale byte_device =
  fixes rd :: "'d \<Rightarrow> nat \<Rightarrow> nat \<Rightarrow> u8 list option"
    and wr :: "'d \<Rightarrow> u8 list \<Rightarrow> nat \<Rightarrow> 'd option"
    and readable :: "'d \<Rightarrow> nat \<Rightarrow> nat \<Rightarrow> bool"
  assumes rd_defined: "rd d n off \<noteq> None \<longleftrightarrow> readable d n off"
    and rd_length: "rd d n off = Some bs \<Longrightarrow> length bs = n"
    and wr_readable: "wr d bs off = Some d' \<Longrightarrow> readable d' n k \<longleftrightarrow> readable d n k"
    and rd_wr: "wr d bs off = Some d' \<Longrightarrow> rd d' n k = Some cs \<Longrightarrow> rd d n k = Some es \<Longrightarrow>
        i < n \<Longrightarrow> cs ! i = (if off \<le> k + i \<and> k + i < off + length bs then bs ! (k + i - off) else es ! i)"
begin

lemma rd_after_wr:
  assumes w: "wr d bs off = Some d'" and r: "readable d (length bs) off"
  shows "rd d' (length bs) off = Some bs"
proof -
  obtain cs where cs: "rd d' (length bs) off = Some cs"
    using r wr_readable [OF w] rd_defined by (metis not_None_eq)
  obtain es where es: "rd d (length bs) off = Some es"
    using r rd_defined by (metis not_None_eq)
  have "cs = bs"
    using rd_length [OF cs] rd_wr [OF w cs es] by (auto intro: nth_equalityI)
  with cs show ?thesis by simp
qed

lemma rd_frame:
  assumes w: "wr d bs off = Some d'" and disj: "k + n \<le> off \<or> off + length bs \<le> k"
  shows "rd d' n k = rd d n k"
proof (cases "rd d n k")
  case None
  then show ?thesis using wr_readable [OF w] rd_defined by metis
next
  case (Some es)
  then obtain cs where cs: "rd d' n k = Some cs"
    using wr_readable [OF w] rd_defined by (metis not_None_eq)
  have "cs = es"
    using rd_length [OF cs] rd_length [OF Some] rd_wr [OF w cs Some] disj
    by (auto intro!: nth_equalityI split: if_splits)
  with cs Some show ?thesis by simp
qed

end

definition dev_rd :: "exfat_dev \<Rightarrow> nat \<Rightarrow> nat \<Rightarrow> u8 list option" where
  "dev_rd d n off =
     (case sys_pread d n (int off) of
        Some bs \<Rightarrow> if length bs = n then Some bs else None | None \<Rightarrow> None)"

definition dev_wr :: "exfat_dev \<Rightarrow> u8 list \<Rightarrow> nat \<Rightarrow> exfat_dev option" where
  "dev_wr d bs off =
     (case sys_pwrite d bs (int off) of
        Some (m, d') \<Rightarrow> if m = length bs then Some d' else None | None \<Rightarrow> None)"

definition dev_readable :: "exfat_dev \<Rightarrow> nat \<Rightarrow> nat \<Rightarrow> bool" where
  "dev_readable d n off \<longleftrightarrow> \<not> dev_bad_read d off n \<and> (n = 0 \<or> int (off + n) \<le> dev_size d)"

lemma store_nth [simp]: "length bs = n \<Longrightarrow>
    store f off bs i = (if off \<le> i \<and> i < off + n then bs ! (i - off) else f i)"
  by (simp add: store_def)

lemma store_store: "store (store f off a) (off + length a) b = store f off (a @ b)"
  by (auto simp: store_def fun_eq_iff nth_append)

lemma dev_rd_eq:
  "dev_rd d n off = (if dev_readable d n off then Some (map (dev_data d) [off..<off + n]) else None)"
  by (auto simp: dev_rd_def sys_pread_def dev_readable_def min_def)

lemma dev_wr_eq:
  "dev_wr d bs off =
     (if dev_mode d \<noteq> EXFAT_MODE_RO \<and> \<not> dev_bad_write d off (length bs) \<and>
         (bs = [] \<or> int (off + length bs) \<le> dev_size d)
      then Some (d\<lparr>dev_data := store (dev_data d) off bs\<rparr>) else None)"
  by (auto simp: dev_wr_def sys_pwrite_def Let_def min_def)

interpretation posix: byte_device dev_rd dev_wr dev_readable
proof unfold_locales
  fix d d' :: exfat_dev and n off k i :: nat and bs cs es :: "u8 list"
  show "(dev_rd d n off \<noteq> None) = dev_readable d n off"
    by (simp add: dev_rd_eq)
  show "dev_rd d n off = Some bs \<Longrightarrow> length bs = n"
    by (auto simp: dev_rd_eq split: if_splits)
  show "dev_wr d bs off = Some d' \<Longrightarrow> dev_readable d' n k = dev_readable d n k"
    by (auto simp: dev_wr_eq dev_readable_def split: if_splits)
  show "dev_wr d bs off = Some d' \<Longrightarrow> dev_rd d' n k = Some cs \<Longrightarrow> dev_rd d n k = Some es \<Longrightarrow> i < n \<Longrightarrow>
      cs ! i = (if off \<le> k + i \<and> k + i < off + length bs then bs ! (k + i - off) else es ! i)"
    by (auto simp: dev_wr_eq dev_rd_eq split: if_splits)
qed

section \<open>Facts on single calls\<close>

lemma exfat_pread_ge0:
  "0 \<le> fst (exfat_pread d buf n off) \<longleftrightarrow> 0 \<le> off \<and> \<not> dev_bad_read d (nat off) n"
  by (auto simp: exfat_pread_def sys_pread_def)

lemma exfat_pread_full:
  assumes "length buf = n" and "dev_readable d n off"
  shows "exfat_pread d buf n (int off) = (int n, map (dev_data d) [off..<off + n])"
  using assms by (auto simp: exfat_pread_def sys_pread_def dev_readable_def min_def fill_def)

lemma length_exfat_pread:
  assumes "length buf = n"
  shows "length (snd (exfat_pread d buf n off)) = n"
  using assms by (auto simp: exfat_pread_def sys_pread_def fill_def split: option.splits)

lemma exfat_pwrite_ok:
  assumes "length buf = n" and "0 \<le> fst (exfat_pwrite d buf n (int off))"
    and "int (off + n) \<le> dev_size d"
  shows "dev_wr d buf off = Some (snd (exfat_pwrite d buf n (int off)))"
  using assms
  by (auto simp: exfat_pwrite_def dev_wr_def sys_pwrite_def Let_def min_def split: option.splits if_splits)

text \<open>A write inside the medium either fails and changes nothing, or stores all its bytes.\<close>

lemma exfat_pwrite_store:
  assumes "exfat_pwrite d buf n (int off) = (r, d')" and "n \<le> length buf" and "int (off + n) \<le> dev_size d"
  shows "(r < 0 \<longrightarrow> d' = d) \<and> (0 \<le> r \<longrightarrow> d' = d\<lparr>dev_data := store (dev_data d) off (take n buf)\<rparr>)"
  using assms
  by (auto simp: exfat_pwrite_def sys_pwrite_def Let_def min_def split: option.splits if_splits)

lemma exfat_pwrite_fail: "fst (exfat_pwrite d buf n off) < 0 \<Longrightarrow> snd (exfat_pwrite d buf n off) = d"
  by (auto simp: exfat_pwrite_def split: option.splits)

lemma exfat_open_mode:
  "exfat_open n mode = Some d \<Longrightarrow>
     dev_mode d \<noteq> EXFAT_MODE_ANY \<and> (mode \<noteq> EXFAT_MODE_ANY \<longrightarrow> dev_mode d = mode) \<and>
     (dev_mode d = EXFAT_MODE_RW \<longrightarrow> \<not> dn_blkroget n) \<and> 0 < dev_size d"
  by (auto simp: exfat_open_def open_rw_def open_ro_def split: exfat_mode.splits if_splits)

end
