(* ===== verification/Exfat.thy ===== *)
theory Exfat
  imports OnDisk Device
begin

text \<open>
  The in-memory structures of \<^verbatim>\<open>libexfat/exfat.h\<close>: the node, the mounted volume, the cluster
  macros and the bitmap macros.  Nodes live in a heap of the volume record (\<open>ef_nodes\<close>), because
  the directory tree links them by pointers; a pointer is the address of a node or \<open>None\<close> (NULL).
\<close>

section \<open>Nodes\<close>

record exfat_node =
  n_parent :: "addr option"
  n_child :: "addr option"
  n_next :: "addr option"
  n_prev :: "addr option"
  n_references :: int
  n_fptr_index :: u32
  n_fptr_cluster :: cluster_t
  n_entry_offset :: off_t
  n_start_cluster :: cluster_t
  n_attrib :: u16
  n_continuations :: u8
  n_is_contiguous :: bool
  n_is_cached :: bool
  n_is_dirty :: bool
  n_is_unlinked :: bool
  n_valid_size :: u64
  n_size :: u64
  n_mtime :: time_t
  n_atime :: time_t
  n_name :: "u16 list"

text \<open>\<^verbatim>\<open>memset(node, 0, sizeof(struct exfat_node))\<close>\<close>

definition zero_node :: exfat_node where
  "zero_node =
     \<lparr>n_parent = None, n_child = None, n_next = None, n_prev = None, n_references = 0,
      n_fptr_index = 0, n_fptr_cluster = 0, n_entry_offset = 0, n_start_cluster = 0, n_attrib = 0,
      n_continuations = 0, n_is_contiguous = False, n_is_cached = False, n_is_dirty = False,
      n_is_unlinked = False, n_valid_size = 0, n_size = 0, n_mtime = 0, n_atime = 0,
      n_name = replicate 256 0\<rparr>"

definition is_dir :: "exfat_node \<Rightarrow> bool" where
  "is_dir node \<longleftrightarrow> n_attrib node AND EXFAT_ATTRIB_DIR \<noteq> 0"

section \<open>The volume\<close>

text \<open>
  What the library asks of the C run-time: the clock behind \<^verbatim>\<open>time(NULL)\<close>, whether an allocation of
  a given size succeeds, what uninitialised memory holds, the time zone of \<^verbatim>\<open>exfat_tzset\<close> and the
  successive results of \<^verbatim>\<open>fgets\<close> on standard input, and the user and group of the process.
\<close>

record host =
  h_now :: time_t
  h_malloc :: "nat \<Rightarrow> bool"
  h_garbage :: "nat \<Rightarrow> u8"
  h_timezone :: int
  h_stdin :: "string list"
  h_euid :: int
  h_egid :: int

type_synonym bitmap_t = "64 word"

record cmap =
  cm_start_cluster :: cluster_t
  cm_size :: u32
  cm_chunk :: "bitmap_t list"
  cm_chunk_size :: u32
  cm_dirty :: bool

datatype repair = EXFAT_REPAIR_NO | EXFAT_REPAIR_ASK | EXFAT_REPAIR_YES

text \<open>
  A NULL \<^verbatim>\<open>cmap.chunk\<close> is the empty list: a chunk that was loaded covers a valid cluster, so it has
  at least one word.
\<close>

record exfat =
  ef_dev :: exfat_dev
  ef_sb :: exfat_super_block
  ef_upcase :: "(u16 \<Rightarrow> u16) option"
  ef_root :: addr
  ef_nodes :: "addr \<Rightarrow> exfat_node option"
  ef_fresh :: addr
  ef_cmap :: cmap
  ef_label :: "u8 list"
  ef_zero_cluster :: "u8 list"
  ef_dmask :: int
  ef_fmask :: int
  ef_uid :: int
  ef_gid :: int
  ef_ro :: int
  ef_noatime :: bool
  ef_repair :: repair
  ef_errors_fixed :: nat
  ef_host :: host

definition garbage :: "exfat \<Rightarrow> nat \<Rightarrow> u8 list" where
  "garbage ef n = map (h_garbage (ef_host ef)) [0..<n]"

text \<open>
  Access to nodes through pointers: following a pointer to no node is undefined behaviour in C and
  has no result here.
\<close>

definition set_node :: "exfat \<Rightarrow> addr \<Rightarrow> exfat_node \<Rightarrow> exfat" where
  "set_node ef a node = ef\<lparr>ef_nodes := (ef_nodes ef)(a \<mapsto> node)\<rparr>"

definition upd_node :: "exfat \<Rightarrow> addr \<Rightarrow> (exfat_node \<Rightarrow> exfat_node) \<Rightarrow> exfat option" where
  "upd_node ef a f = do { node \<leftarrow> ef_nodes ef a; Some (set_node ef a (f node)) }"

definition free_node :: "exfat \<Rightarrow> addr \<Rightarrow> exfat" where
  "free_node ef a = ef\<lparr>ef_nodes := (ef_nodes ef)(a := None)\<rparr>"

section \<open>Sector and cluster macros\<close>

definition SECTOR_SIZE :: "exfat_super_block \<Rightarrow> nat" where
  "SECTOR_SIZE s = 2 ^ unat (sb_sector_bits s)"

definition CLUSTER_SIZE :: "exfat_super_block \<Rightarrow> nat" where
  "CLUSTER_SIZE s = SECTOR_SIZE s * 2 ^ unat (sb_spc_bits s)"

definition CLUSTER_INVALID :: "exfat_super_block \<Rightarrow> cluster_t \<Rightarrow> bool" where
  "CLUSTER_INVALID s c \<longleftrightarrow>
     c < EXFAT_FIRST_DATA_CLUSTER \<or> sb_cluster_count s \<le> c - EXFAT_FIRST_DATA_CLUSTER"

text \<open>
  The sector and cluster sizes are C \<^verbatim>\<open>int\<close>s; \<^verbatim>\<open>exfat_mount\<close> accepts a super block only when
  \<open>geometry_ok\<close> holds, so neither shift leaves the range of \<^verbatim>\<open>int\<close>.
\<close>

definition geometry_ok :: "exfat_super_block \<Rightarrow> bool" where
  "geometry_ok s \<longleftrightarrow> 9 \<le> unat (sb_sector_bits s) \<and> unat (sb_sector_bits s) + unat (sb_spc_bits s) \<le> 25"

section \<open>Bitmap macros\<close>

definition BMAP_SIZE :: "nat \<Rightarrow> nat" where
  "BMAP_SIZE count = ROUND_UP count (8 * 8) div 8"

definition BMAP_BLOCK :: "nat \<Rightarrow> nat" where
  "BMAP_BLOCK index = index div 8 div 8"

definition BMAP_MASK :: "nat \<Rightarrow> bitmap_t" where
  "BMAP_MASK index = push_bit (index mod (8 * 8)) 1"

definition BMAP_GET :: "bitmap_t list \<Rightarrow> nat \<Rightarrow> bitmap_t" where
  "BMAP_GET bitmap index = bitmap ! BMAP_BLOCK index AND BMAP_MASK index"

definition BMAP_SET :: "bitmap_t list \<Rightarrow> nat \<Rightarrow> bitmap_t list" where
  "BMAP_SET bitmap index =
     bitmap[BMAP_BLOCK index := bitmap ! BMAP_BLOCK index OR BMAP_MASK index]"

definition BMAP_CLR :: "bitmap_t list \<Rightarrow> nat \<Rightarrow> bitmap_t list" where
  "BMAP_CLR bitmap index =
     bitmap[BMAP_BLOCK index := bitmap ! BMAP_BLOCK index AND NOT (BMAP_MASK index)]"

text \<open>The bytes of a bitmap in memory, which are its bytes on disk.\<close>

definition bytes_of_words :: "bitmap_t list \<Rightarrow> u8 list" where
  "bytes_of_words ws = concat (map (le_bytes 8) ws)"

definition words_of_bytes :: "nat \<Rightarrow> u8 list \<Rightarrow> bitmap_t list" where
  "words_of_bytes n bs = map (\<lambda>i. le_word (seg bs (8 * i) 8)) [0..<n]"

section \<open>Facts on the cluster macros\<close>

lemma SECTOR_SIZE_pos [simp]: "0 < SECTOR_SIZE s"
  by (simp add: SECTOR_SIZE_def)

lemma CLUSTER_SIZE_pos [simp]: "0 < CLUSTER_SIZE s"
  by (simp add: CLUSTER_SIZE_def)

lemma CLUSTER_SIZE_pow: "CLUSTER_SIZE s = 2 ^ (unat (sb_sector_bits s) + unat (sb_spc_bits s))"
  by (simp add: CLUSTER_SIZE_def SECTOR_SIZE_def power_add)

lemma CLUSTER_SIZE_le: "geometry_ok s \<Longrightarrow> CLUSTER_SIZE s \<le> 2 ^ 25"
  unfolding CLUSTER_SIZE_pow geometry_ok_def by (intro power_increasing) auto

lemma CLUSTER_SIZE_ge: "geometry_ok s \<Longrightarrow> 512 \<le> CLUSTER_SIZE s"
proof -
  assume "geometry_ok s"
  then have "(2::nat) ^ 9 \<le> 2 ^ (unat (sb_sector_bits s) + unat (sb_spc_bits s))"
    unfolding geometry_ok_def by (intro power_increasing) auto
  then show ?thesis by (simp add: CLUSTER_SIZE_pow)
qed

lemma cluster_valid_iff:
  "\<not> CLUSTER_INVALID s c \<longleftrightarrow> 2 \<le> unat c \<and> unat c - 2 < unat (sb_cluster_count s)"
proof -
  have "unat (c - 2) = unat c - 2" if "2 \<le> unat c"
    using that by (simp add: unat_sub word_le_nat_alt)
  then show ?thesis
    by (auto simp: CLUSTER_INVALID_def cluster_consts word_less_nat_alt word_le_nat_alt not_less)
qed

lemma CLUSTER_INVALID_0 [simp]: "CLUSTER_INVALID s 0"
  by (simp add: CLUSTER_INVALID_def cluster_consts)

section \<open>Facts on the bitmap macros\<close>

text \<open>\<open>bmap bitmap\<close> reads the bitmap as the sequence of its bits.\<close>

definition bmap :: "bitmap_t list \<Rightarrow> nat \<Rightarrow> bool" where
  "bmap bitmap i \<longleftrightarrow> bit (bitmap ! (i div 64)) (i mod 64)"

lemma BMAP_BLOCK_eq: "BMAP_BLOCK i = i div 64"
  by (simp add: BMAP_BLOCK_def flip: div_mult2_eq)

lemma BMAP_GET_eq_0: "BMAP_GET bitmap i = 0 \<longleftrightarrow> \<not> bmap bitmap i"
proof -
  have "BMAP_GET bitmap i = 0 \<longleftrightarrow> (\<forall>k < 64. \<not> (bit (bitmap ! (i div 64)) k \<and> k = i mod 64))"
    unfolding BMAP_GET_def BMAP_MASK_def BMAP_BLOCK_eq
    by (auto simp: bit_eq_iff bit_simps dest: bit_imp_le_length)
  moreover have "i mod 64 < 64" by simp
  ultimately show ?thesis unfolding bmap_def by blast
qed

lemma length_BMAP_SET [simp]: "length (BMAP_SET bitmap i) = length bitmap"
  and length_BMAP_CLR [simp]: "length (BMAP_CLR bitmap i) = length bitmap"
  by (simp_all add: BMAP_SET_def BMAP_CLR_def)

lemma div_mod_64_cases: "j div 64 = i div 64 \<Longrightarrow> j mod 64 = i mod 64 \<longleftrightarrow> j = i" for i j :: nat
  by (metis div_mult_mod_eq)

lemma bmap_BMAP_SET:
  "i div 64 < length bitmap \<Longrightarrow> j div 64 < length bitmap \<Longrightarrow>
     bmap (BMAP_SET bitmap i) j \<longleftrightarrow> j = i \<or> bmap bitmap j"
  by (auto simp: bmap_def BMAP_SET_def BMAP_MASK_def BMAP_BLOCK_eq nth_list_update bit_simps
      div_mod_64_cases)

lemma bmap_BMAP_CLR:
  "i div 64 < length bitmap \<Longrightarrow> j div 64 < length bitmap \<Longrightarrow>
     bmap (BMAP_CLR bitmap i) j \<longleftrightarrow> j \<noteq> i \<and> bmap bitmap j"
  by (auto simp: bmap_def BMAP_CLR_def BMAP_MASK_def BMAP_BLOCK_eq nth_list_update bit_simps
      div_mod_64_cases)

lemma BMAP_SIZE_eq: "BMAP_SIZE n = 8 * DIV_ROUND_UP n 64"
  by (simp add: BMAP_SIZE_def ROUND_UP_def)

lemma length_bytes_of_words [simp]: "length (bytes_of_words ws) = 8 * length ws"
  by (induction ws) (simp_all add: bytes_of_words_def)

lemma length_words_of_bytes [simp]: "length (words_of_bytes n bs) = n"
  by (simp add: words_of_bytes_def)

lemma nth_bytes_of_words:
  "i < 8 * length ws \<Longrightarrow> bytes_of_words ws ! i = le_bytes 8 (ws ! (i div 8)) ! (i mod 8)"
proof (induction ws arbitrary: i)
  case Nil
  then show ?case by simp
next
  case (Cons w ws)
  show ?case
  proof (cases "i < 8")
    case True
    then show ?thesis by (simp add: bytes_of_words_def nth_append)
  next
    case False
    then obtain j where "i = j + 8" by (metis le_iff_add add.commute not_le)
    moreover have "(j + 8) div 8 = Suc (j div 8)" by simp
    ultimately show ?thesis
      using Cons by (simp add: bytes_of_words_def nth_append)
  qed
qed

text \<open>
  The layout guarantee that \<^verbatim>\<open>exfat_count_free_clusters\<close> relies on: bit \<open>i\<close> of the bitmap is bit
  \<open>i mod 8\<close> of byte \<open>i div 8\<close>.
\<close>

lemma bit_bytes_of_words:
  assumes "i < 64 * length ws"
  shows "bit (bytes_of_words ws ! (i div 8)) (i mod 8) \<longleftrightarrow> bmap ws i"
proof -
  have "i div 8 < 8 * length ws" using assms by auto
  moreover have "i div 8 div 8 = i div 64" by (simp flip: div_mult2_eq)
  moreover have "8 * (i div 8 mod 8) + i mod 8 = i mod 64"
    using mod_mult2_eq [of i 8 8] by simp
  moreover have "bit (le_bytes 8 w ! (i div 8 mod 8)) (i mod 8) \<longleftrightarrow> bit w (8 * (i div 8 mod 8) + i mod 8)"
    for w :: bitmap_t
    using mod_less_divisor [of 8 i] by (simp add: nth_le_bytes bit_ucast_iff bit_drop_bit_eq)
  ultimately show ?thesis
    by (simp add: nth_bytes_of_words bmap_def)
qed

lemma words_of_bytes_of_words: "n = length ws \<Longrightarrow> words_of_bytes n (bytes_of_words ws) = ws"
proof (rule nth_equalityI)
  fix i assume n: "n = length ws" and "i < length (words_of_bytes n (bytes_of_words ws))"
  then have i: "i < length ws" by simp
  have "seg (bytes_of_words ws) (8 * i) 8 = le_bytes 8 (ws ! i)"
  proof (rule nth_equalityI)
    show "length (seg (bytes_of_words ws) (8 * i) 8) = length (le_bytes 8 (ws ! i))"
      using i by (simp add: length_seg)
    fix k assume "k < length (seg (bytes_of_words ws) (8 * i) 8)"
    then have "k < 8" using i by (simp add: length_seg)
    then show "seg (bytes_of_words ws) (8 * i) 8 ! k = le_bytes 8 (ws ! i) ! k"
      using i by (simp add: nth_seg nth_bytes_of_words)
  qed
  then show "words_of_bytes n (bytes_of_words ws) ! i = ws ! i"
    using i n by (simp add: words_of_bytes_def)
qed simp

end
