(* ===== verification/Cluster.thy ===== *)
theory Cluster
  imports Exfat
begin

text \<open>
  Cluster arithmetic, the file allocation table, the allocation bitmap and the resizing of files:
  \<^verbatim>\<open>libexfat/cluster.c\<close>.  A function that changes the volume returns the new volume, and one that
  changes its node returns the new node; \<open>None\<close> is a call that does not return (\<^verbatim>\<open>exfat_bug\<close>).
\<close>

section \<open>Addresses\<close>

definition s2o :: "exfat \<Rightarrow> off_t \<Rightarrow> off_t" where
  "s2o ef sector = sector * 2 ^ unat (sb_sector_bits (ef_sb ef))"

definition c2s :: "exfat \<Rightarrow> cluster_t \<Rightarrow> off_t option" where
  "c2s ef cluster =
     (if cluster < EXFAT_FIRST_DATA_CLUSTER then None
      else Some (uint (sb_cluster_sector_start (ef_sb ef)) +
                 uint (cluster - EXFAT_FIRST_DATA_CLUSTER) * 2 ^ unat (sb_spc_bits (ef_sb ef))))"

definition exfat_c2o :: "exfat \<Rightarrow> cluster_t \<Rightarrow> off_t option" where
  "exfat_c2o ef cluster = do { s \<leftarrow> c2s ef cluster; Some (s2o ef s) }"

definition s2c :: "exfat \<Rightarrow> off_t \<Rightarrow> cluster_t" where
  "s2c ef sector =
     word_of_int ((sector - uint (sb_cluster_sector_start (ef_sb ef))) div 2 ^ unat (sb_spc_bits (ef_sb ef)))
     + EXFAT_FIRST_DATA_CLUSTER"

definition bytes2clusters :: "exfat \<Rightarrow> u64 \<Rightarrow> u32" where
  "bytes2clusters ef bytes =
     (let cluster_size = of_nat (CLUSTER_SIZE (ef_sb ef)) :: u64
      in ucast (DIV_ROUND_UP bytes cluster_size))"

section \<open>Following a chain\<close>

definition fat_offset :: "exfat \<Rightarrow> cluster_t \<Rightarrow> off_t" where
  "fat_offset ef cluster = s2o ef (uint (sb_fat_sector_start (ef_sb ef))) + uint cluster * 4"

definition exfat_next_cluster :: "exfat \<Rightarrow> exfat_node \<Rightarrow> cluster_t \<Rightarrow> cluster_t option" where
  "exfat_next_cluster ef node cluster =
     (if cluster < EXFAT_FIRST_DATA_CLUSTER then None
      else if n_is_contiguous node then Some (cluster + 1)
      else let (n, next) = exfat_pread (ef_dev ef) (garbage ef 4) 4 (fat_offset ef cluster)
           in if n < 0 then Some EXFAT_CLUSTER_BAD else Some (le_word next))"

text \<open>\<open>n\<close> more steps from \<open>cluster\<close>, stopping early at a number that is not a data cluster.\<close>

primrec advance_loop :: "exfat \<Rightarrow> exfat_node \<Rightarrow> nat \<Rightarrow> cluster_t \<Rightarrow> cluster_t option" where
  "advance_loop ef node 0 cluster = Some cluster"
| "advance_loop ef node (Suc n) cluster =
     do { next \<leftarrow> exfat_next_cluster ef node cluster;
          if CLUSTER_INVALID (ef_sb ef) next then Some next
          else advance_loop ef node n next }"

definition exfat_advance_cluster :: "exfat \<Rightarrow> exfat_node \<Rightarrow> u32 \<Rightarrow> (cluster_t \<times> exfat_node) option" where
  "exfat_advance_cluster ef node count =
     (let node = (if count < n_fptr_index node
                  then node\<lparr>n_fptr_index := 0, n_fptr_cluster := n_start_cluster node\<rparr> else node)
      in do {
        c \<leftarrow> advance_loop ef node (unat count - unat (n_fptr_index node)) (n_fptr_cluster node);
        Some (c, node\<lparr>n_fptr_cluster := c, n_fptr_index := count\<rparr>)
      })"

section \<open>The allocation bitmap\<close>

text \<open>The scan over the words of the bitmap; \<open>None\<close> is the end of the loop.\<close>

primrec find_bit_loop :: "bitmap_t list \<Rightarrow> nat \<Rightarrow> nat \<Rightarrow> nat list \<Rightarrow> nat option" where
  "find_bit_loop bitmap start en [] = None"
| "find_bit_loop bitmap start en (i # is) =
     (if bitmap ! i = NOT 0 then find_bit_loop bitmap start en is
      else case find (\<lambda>c. BMAP_GET bitmap c = 0) [max (i * 8 * 8) start ..< min ((i + 1) * 8 * 8) en] of
             Some c \<Rightarrow> Some c
           | None \<Rightarrow> find_bit_loop bitmap start en is)"

definition find_bit_and_set :: "bitmap_t list \<Rightarrow> nat \<Rightarrow> nat \<Rightarrow> cluster_t \<times> bitmap_t list" where
  "find_bit_and_set bitmap start en =
     (let start_index = start div 8 div 8;
          end_index = DIV_ROUND_UP en (8 * 8)
      in case find_bit_loop bitmap start en [start_index ..< end_index] of
           Some c \<Rightarrow> (of_nat c + EXFAT_FIRST_DATA_CLUSTER, BMAP_SET bitmap c)
         | None \<Rightarrow> (EXFAT_CLUSTER_END, bitmap))"

definition exfat_flush :: "exfat \<Rightarrow> (int \<times> exfat) option" where
  "exfat_flush ef =
     (if cm_dirty (ef_cmap ef)
      then do {
        offset \<leftarrow> exfat_c2o ef (cm_start_cluster (ef_cmap ef));
        let (n, dev) = exfat_pwrite (ef_dev ef) (bytes_of_words (cm_chunk (ef_cmap ef)))
                         (BMAP_SIZE (unat (cm_chunk_size (ef_cmap ef)))) offset
        in if n < 0 then Some (- EIO, ef\<lparr>ef_dev := dev\<rparr>)
           else Some (0, ef\<lparr>ef_dev := dev, ef_cmap := (ef_cmap ef)\<lparr>cm_dirty := False\<rparr>\<rparr>)
      }
      else Some (0, ef))"

definition set_next_cluster :: "exfat \<Rightarrow> bool \<Rightarrow> cluster_t \<Rightarrow> cluster_t \<Rightarrow> bool \<times> exfat" where
  "set_next_cluster ef contiguous current next =
     (if contiguous then (True, ef)
      else let (n, dev) = exfat_pwrite (ef_dev ef) (le_bytes 4 next) 4 (fat_offset ef current)
           in (0 \<le> n, ef\<lparr>ef_dev := dev\<rparr>))"

definition allocate_cluster :: "exfat \<Rightarrow> cluster_t \<Rightarrow> cluster_t \<times> exfat" where
  "allocate_cluster ef hint =
     (let hint = hint - EXFAT_FIRST_DATA_CLUSTER;
          hint = (if cm_chunk_size (ef_cmap ef) \<le> hint then 0 else hint);
          (cluster, chunk) =
            find_bit_and_set (cm_chunk (ef_cmap ef)) (unat hint) (unat (cm_chunk_size (ef_cmap ef)));
          (cluster, chunk) =
            (if cluster = EXFAT_CLUSTER_END then find_bit_and_set chunk 0 (unat hint) else (cluster, chunk));
          ef = ef\<lparr>ef_cmap := (ef_cmap ef)\<lparr>cm_chunk := chunk\<rparr>\<rparr>
      in if cluster = EXFAT_CLUSTER_END then (EXFAT_CLUSTER_END, ef)
         else (cluster, ef\<lparr>ef_cmap := (ef_cmap ef)\<lparr>cm_dirty := True\<rparr>\<rparr>))"

definition free_cluster :: "exfat \<Rightarrow> cluster_t \<Rightarrow> exfat option" where
  "free_cluster ef cluster =
     (if cm_size (ef_cmap ef) \<le> cluster - EXFAT_FIRST_DATA_CLUSTER then None
      else Some (ef\<lparr>ef_cmap := (ef_cmap ef)
                 \<lparr>cm_chunk := BMAP_CLR (cm_chunk (ef_cmap ef)) (unat (cluster - EXFAT_FIRST_DATA_CLUSTER)),
                  cm_dirty := True\<rparr>\<rparr>))"

section \<open>Growing and shrinking\<close>

text \<open>The counting loop from \<open>first\<close> to \<open>last\<close>, as the number of clusters that are left.\<close>

primrec make_noncontiguous_loop :: "exfat \<Rightarrow> nat \<Rightarrow> cluster_t \<Rightarrow> bool \<times> exfat" where
  "make_noncontiguous_loop ef 0 c = (True, ef)"
| "make_noncontiguous_loop ef (Suc n) c =
     (let (ok, ef) = set_next_cluster ef False c (c + 1)
      in if ok then make_noncontiguous_loop ef n (c + 1) else (False, ef))"

definition make_noncontiguous :: "exfat \<Rightarrow> cluster_t \<Rightarrow> cluster_t \<Rightarrow> bool \<times> exfat" where
  "make_noncontiguous ef first final = make_noncontiguous_loop ef (unat final - unat first) first"

primrec shrink_loop :: "exfat \<Rightarrow> exfat_node \<Rightarrow> nat \<Rightarrow> cluster_t \<Rightarrow> (int \<times> exfat) option" where
  "shrink_loop ef node 0 previous = Some (0, ef)"
| "shrink_loop ef node (Suc difference) previous =
     (if CLUSTER_INVALID (ef_sb ef) previous then Some (- EIO, ef)
      else do {
        next \<leftarrow> exfat_next_cluster ef node previous;
        let (ok, ef) = set_next_cluster ef (n_is_contiguous node) previous EXFAT_CLUSTER_FREE
        in if \<not> ok then Some (- EIO, ef)
           else do { ef \<leftarrow> free_cluster ef previous; shrink_loop ef node difference next }
      })"

definition shrink_file :: "exfat \<Rightarrow> exfat_node \<Rightarrow> u32 \<Rightarrow> u32 \<Rightarrow> (int \<times> exfat \<times> exfat_node) option" where
  "shrink_file ef node current difference =
     (if difference = 0 then None
      else if n_start_cluster node = EXFAT_CLUSTER_FREE then None
      else if current < difference then None
      else if difference < current
      then do {
        (last, node) \<leftarrow> exfat_advance_cluster ef node (current - difference - 1);
        if CLUSTER_INVALID (ef_sb ef) last then Some (- EIO, ef, node)
        else do {
          previous \<leftarrow> exfat_next_cluster ef node last;
          let (ok, ef) = set_next_cluster ef (n_is_contiguous node) last EXFAT_CLUSTER_END
          in if \<not> ok then Some (- EIO, ef, node)
             else do {
               let node = node\<lparr>n_fptr_index := 0, n_fptr_cluster := n_start_cluster node\<rparr>;
               (rc, ef) \<leftarrow> shrink_loop ef node (unat difference) previous;
               Some (rc, ef, node)
             }
        }
      }
      else do {
        let previous = n_start_cluster node;
        let node = node\<lparr>n_start_cluster := EXFAT_CLUSTER_FREE, n_is_dirty := True,
                         n_fptr_index := 0, n_fptr_cluster := EXFAT_CLUSTER_FREE\<rparr>;
        (rc, ef) \<leftarrow> shrink_loop ef node (unat difference) previous;
        Some (rc, ef, node)
      })"

text \<open>
  The end of an iteration of the loop of \<^verbatim>\<open>grow_file\<close>: a file that was contiguous and does not stay so
  gets its chain written, then the new cluster is linked to the previous one.
\<close>

definition grow_link :: "exfat \<Rightarrow> exfat_node \<Rightarrow> cluster_t \<Rightarrow> cluster_t \<Rightarrow> bool \<times> exfat \<times> exfat_node" where
  "grow_link ef node previous next =
     (let (ok, ef, node) =
        (if next \<noteq> previous + 1 \<and> n_is_contiguous node
         then let (ok, ef) = make_noncontiguous ef (n_start_cluster node) previous
              in (ok, ef, if ok then node\<lparr>n_is_contiguous := False, n_is_dirty := True\<rparr> else node)
         else (True, ef, node))
      in if \<not> ok then (False, ef, node)
         else let (ok, ef) = set_next_cluster ef (n_is_contiguous node) previous next
              in (ok, ef, node))"

text \<open>
  The allocation loop of \<^verbatim>\<open>grow_file\<close>: \<open>n\<close> clusters are still to be allocated, \<open>allocated\<close> have been.
  The last write of \<^verbatim>\<open>grow_file\<close>, the end mark, is the base case.
\<close>

primrec grow_loop ::
    "exfat \<Rightarrow> exfat_node \<Rightarrow> u32 \<Rightarrow> nat \<Rightarrow> u32 \<Rightarrow> cluster_t \<Rightarrow> (int \<times> exfat \<times> exfat_node) option" where
  "grow_loop ef node current 0 allocated previous =
     (let (ok, ef) = set_next_cluster ef (n_is_contiguous node) previous EXFAT_CLUSTER_END
      in if ok then Some (0, ef, node) else Some (- EIO, ef, node))"
| "grow_loop ef node current (Suc n) allocated previous =
     (let (next, ef) = allocate_cluster ef (previous + 1)
      in if CLUSTER_INVALID (ef_sb ef) next
         then if allocated \<noteq> 0
              then do { (rc, ef, node) \<leftarrow> shrink_file ef node (current + allocated) allocated;
                        Some (- ENOSPC, ef, node) }
              else Some (- ENOSPC, ef, node)
         else let (ok, ef, node) = grow_link ef node previous next
              in if \<not> ok then Some (- EIO, ef, node)
                 else grow_loop ef node current n (allocated + 1) next)"

definition grow_file :: "exfat \<Rightarrow> exfat_node \<Rightarrow> u32 \<Rightarrow> u32 \<Rightarrow> (int \<times> exfat \<times> exfat_node) option" where
  "grow_file ef node current difference =
     (if difference = 0 then None
      else if n_start_cluster node \<noteq> EXFAT_CLUSTER_FREE
      then do {
        (previous, node) \<leftarrow> exfat_advance_cluster ef node (current - 1);
        if CLUSTER_INVALID (ef_sb ef) previous then Some (- EIO, ef, node)
        else grow_loop ef node current (unat difference) 0 previous
      }
      else if n_fptr_index node \<noteq> 0 then None
      else let (previous, ef) = allocate_cluster ef 0
           in if CLUSTER_INVALID (ef_sb ef) previous then Some (- ENOSPC, ef, node)
              else let node = node\<lparr>n_fptr_cluster := previous, n_start_cluster := previous,
                                   n_is_contiguous := True\<rparr>
                   in grow_loop ef node current (unat difference - 1) 1 previous)"

section \<open>Erasing and truncating\<close>

definition erase_raw :: "exfat \<Rightarrow> nat \<Rightarrow> off_t \<Rightarrow> bool \<times> exfat" where
  "erase_raw ef sz offset =
     (let (n, dev) = exfat_pwrite (ef_dev ef) (ef_zero_cluster ef) sz offset
      in (0 \<le> n, ef\<lparr>ef_dev := dev\<rparr>))"

text \<open>
  \<^verbatim>\<open>cluster_boundary\<close> is a 64-bit counter that wraps, so the loop is not bounded by construction;
  \<open>None\<close> also stands for a loop that does not end.
\<close>

partial_function (option) erase_loop ::
    "exfat \<Rightarrow> exfat_node \<Rightarrow> u64 \<Rightarrow> u64 \<Rightarrow> cluster_t \<Rightarrow> (int \<times> exfat) option" where
  "erase_loop ef node cluster_boundary en cluster =
     (if cluster_boundary < en
      then do {
        cluster \<leftarrow> exfat_next_cluster ef node cluster;
        if CLUSTER_INVALID (ef_sb ef) cluster then None
        else do {
          offset \<leftarrow> exfat_c2o ef cluster;
          let (ok, ef) = erase_raw ef (CLUSTER_SIZE (ef_sb ef)) offset
          in if \<not> ok then Some (- EIO, ef)
             else erase_loop ef node (cluster_boundary + of_nat (CLUSTER_SIZE (ef_sb ef))) en cluster
        }
      }
      else Some (0, ef))"

definition erase_range :: "exfat \<Rightarrow> exfat_node \<Rightarrow> u64 \<Rightarrow> u64 \<Rightarrow> (int \<times> exfat \<times> exfat_node) option" where
  "erase_range ef node begin en =
     (if en \<le> begin then Some (0, ef, node)
      else do {
        let cluster_size = (of_nat (CLUSTER_SIZE (ef_sb ef)) :: u64);
        let cluster_boundary = (begin OR (cluster_size - 1)) + 1;
        (cluster, node) \<leftarrow> exfat_advance_cluster ef node (ucast (begin div cluster_size));
        if CLUSTER_INVALID (ef_sb ef) cluster then Some (- EIO, ef, node)
        else do {
          offset \<leftarrow> exfat_c2o ef cluster;
          let (ok, ef) = erase_raw ef (unat (min cluster_boundary en - begin))
                           (offset + uint (begin mod cluster_size))
          in if \<not> ok then Some (- EIO, ef, node)
             else do { (rc, ef) \<leftarrow> erase_loop ef node cluster_boundary en cluster;
                       Some (rc, ef, node) }
        }
      })"

definition exfat_update_mtime :: "exfat \<Rightarrow> exfat_node \<Rightarrow> exfat_node" where
  "exfat_update_mtime ef node = node\<lparr>n_mtime := h_now (ef_host ef), n_is_dirty := True\<rparr>"

definition exfat_update_atime :: "exfat \<Rightarrow> exfat_node \<Rightarrow> exfat_node" where
  "exfat_update_atime ef node = node\<lparr>n_atime := h_now (ef_host ef), n_is_dirty := True\<rparr>"

definition truncate_resize ::
    "exfat \<Rightarrow> exfat_node \<Rightarrow> u32 \<Rightarrow> u32 \<Rightarrow> (int \<times> exfat \<times> exfat_node) option" where
  "truncate_resize ef node c1 c2 =
     (if c1 < c2 then grow_file ef node c1 (c2 - c1)
      else if c2 < c1 then shrink_file ef node c1 (c1 - c2)
      else Some (0, ef, node))"

definition exfat_truncate :: "exfat \<Rightarrow> exfat_node \<Rightarrow> u64 \<Rightarrow> bool \<Rightarrow> (int \<times> exfat \<times> exfat_node) option" where
  "exfat_truncate ef node sz erase =
     (if n_references node = 0 \<and> n_parent node \<noteq> None then None
      else if n_size node = sz then Some (0, ef, node)
      else do {
        (rc, ef, node) \<leftarrow> truncate_resize ef node (bytes2clusters ef (n_size node)) (bytes2clusters ef sz);
        if rc \<noteq> 0 then Some (rc, ef, node)
        else do {
          (rc, ef, node) \<leftarrow>
            (if erase
             then do {
               (rc, ef, node) \<leftarrow> erase_range ef node (n_valid_size node) sz;
               if rc \<noteq> 0 then Some (rc, ef, node) else Some (0, ef, node\<lparr>n_valid_size := sz\<rparr>)
             }
             else Some (0, ef, node\<lparr>n_valid_size := min (n_valid_size node) sz\<rparr>));
          if rc \<noteq> 0 then Some (rc, ef, node)
          else let node = exfat_update_mtime ef node
               in Some (0, ef, node\<lparr>n_size := sz, n_is_dirty := True\<rparr>)
        }
      })"

section \<open>Counting and scanning\<close>

definition nibble_bits :: "u32 list" where
  "nibble_bits = [0, 1, 1, 2, 1, 2, 2, 3, 1, 2, 2, 3, 2, 3, 3, 4]"

definition byte_bits :: "u8 \<Rightarrow> u32" where
  "byte_bits b = nibble_bits ! unat (b AND 0xf) + nibble_bits ! unat (drop_bit 4 b)"

definition exfat_count_free_clusters :: "exfat \<Rightarrow> u32" where
  "exfat_count_free_clusters ef =
     (let bytes = bytes_of_words (cm_chunk (ef_cmap ef));
          size = unat (cm_size (ef_cmap ef));
          whole = size div 8;
          used = foldl (\<lambda>used i. used + byte_bits (bytes ! i)) 0 [0..<whole];
          used = foldl (\<lambda>used i. if BMAP_GET (cm_chunk (ef_cmap ef)) i \<noteq> 0 then used + 1 else used) used
                   [whole * 8 ..< size]
      in cm_size (ef_cmap ef) - used)"

definition used_at :: "exfat \<Rightarrow> nat \<Rightarrow> bool" where
  "used_at ef c \<longleftrightarrow> BMAP_GET (cm_chunk (ef_cmap ef)) (c - 2) \<noteq> 0"

text \<open>\<open>None\<close> is the return value 1; the pair holds the new values of \<^verbatim>\<open>*a\<close> and \<^verbatim>\<open>*b\<close>.\<close>

definition find_used_clusters :: "exfat \<Rightarrow> cluster_t \<Rightarrow> (cluster_t \<times> cluster_t) option" where
  "find_used_clusters ef b =
     (let en = unat (sb_cluster_count (ef_sb ef))
      in case find (used_at ef) [unat (b + 1) ..< en] of
           None \<Rightarrow> None
         | Some a \<Rightarrow>
             (case find (\<lambda>c. \<not> used_at ef c) [a ..< en] of
                None \<Rightarrow> Some (of_nat a, of_nat en)
              | Some e \<Rightarrow> Some (of_nat a, of_nat (e - 1))))"

text \<open>The outer \<open>option\<close> is \<^verbatim>\<open>exfat_bug\<close>, the inner one the return value 1.\<close>

definition exfat_find_used_sectors :: "exfat \<Rightarrow> off_t \<Rightarrow> off_t \<Rightarrow> (off_t \<times> off_t) option option" where
  "exfat_find_used_sectors ef a b =
     (let cb = (if a = 0 \<and> b = 0 then EXFAT_FIRST_DATA_CLUSTER - 1 else s2c ef b)
      in case find_used_clusters ef cb of
           None \<Rightarrow> Some None
         | Some (ca, cb) \<Rightarrow> do {
             a' \<leftarrow> (if a \<noteq> 0 \<or> b \<noteq> 0 then c2s ef ca else Some a);
             s \<leftarrow> c2s ef cb;
             Some (Some (a', s + (int (CLUSTER_SIZE (ef_sb ef)) - 1) div int (SECTOR_SIZE (ef_sb ef))))
           })"

end
