(* ===== verification/Chain.thy ===== *)
theory Chain
  imports Cluster
begin

text \<open>
  What \<^verbatim>\<open>libexfat/cluster.c\<close> promises about the clusters of a file: the file allocation table as an
  interface, the ownership of a list of clusters by a node as the invariant, and the effect of
  advancing, growing and shrinking on it.
\<close>

section \<open>The table as an interface\<close>

text \<open>
  A client reads the successor of a slot and stores one; storing changes that slot only.  \<open>chained\<close>
  is the list of slots in which each one holds the next.
\<close>

locale fat_table =
  fixes get :: "'s \<Rightarrow> cluster_t \<Rightarrow> cluster_t"
    and put :: "'s \<Rightarrow> cluster_t \<Rightarrow> cluster_t \<Rightarrow> bool \<times> 's"
    and valid :: "'s \<Rightarrow> cluster_t \<Rightarrow> bool"
    and ok :: "'s \<Rightarrow> bool"
  assumes put_ok: "ok s \<Longrightarrow> valid s c \<Longrightarrow> put s c v = (b, s') \<Longrightarrow> ok s' \<and> valid s' = valid s"
    and put_fail: "put s c v = (False, s') \<Longrightarrow> s' = s"
    and get_put: "ok s \<Longrightarrow> valid s c \<Longrightarrow> put s c v = (True, s') \<Longrightarrow> valid s d \<Longrightarrow>
      get s' d = (if d = c then v else get s d)"
begin

definition chained :: "'s \<Rightarrow> cluster_t list \<Rightarrow> bool" where
  "chained s = successively (\<lambda>c d. get s c = d)"

lemma chained_put:
  assumes "ok s" "valid s c" "put s c v = (True, s')" "\<forall>d \<in> set cs. valid s d" "c \<notin> set (butlast cs)"
  shows "chained s' cs \<longleftrightarrow> chained s cs"
proof -
  have "get s' (cs ! i) = get s (cs ! i)" if "Suc i < length cs" for i
  proof -
    have "cs ! i \<in> set (butlast cs)"
      using that by (auto simp: in_set_conv_nth nth_butlast intro!: exI [of _ i])
    then show ?thesis using get_put [OF assms(1-3), of "cs ! i"] assms(4,5) that by auto
  qed
  then show ?thesis by (auto simp: chained_def successively_conv_nth)
qed

lemma chained_put_snoc:
  assumes "ok s" "put s (last cs) d = (True, s')" "\<forall>c \<in> set cs. valid s c" "cs \<noteq> []" "distinct cs"
    "chained s cs"
  shows "chained s' (cs @ [d])"
proof -
  have "last cs \<notin> set (butlast cs)"
    using assms(4,5) by (metis append_butlast_last_id distinct_append list.set_intros(1) disjoint_iff)
  moreover have "valid s (last cs)" using assms(3,4) by simp
  ultimately show ?thesis
    using assms chained_put [of s "last cs" d s' cs] get_put [of s "last cs" d s' "last cs"]
    by (simp add: chained_def successively_append_iff)
qed

lemma chained_drop: "chained s cs \<Longrightarrow> chained s (drop k cs)"
  by (metis append_take_drop_id chained_def successively_append_iff)

lemma chained_take: "chained s cs \<Longrightarrow> chained s (take k cs)"
  by (metis append_take_drop_id chained_def successively_append_iff)

end

section \<open>The volume as such a table\<close>

definition fat_get :: "exfat \<Rightarrow> cluster_t \<Rightarrow> cluster_t" where
  "fat_get ef c = le_word (map (dev_data (ef_dev ef)) [nat (fat_offset ef c) ..< nat (fat_offset ef c) + 4])"

abbreviation valid :: "exfat \<Rightarrow> cluster_t \<Rightarrow> bool" where
  "valid ef c \<equiv> \<not> CLUSTER_INVALID (ef_sb ef) c"

text \<open>The table is readable, and the bitmap in memory covers every cluster of the volume.\<close>

definition vol_ok :: "exfat \<Rightarrow> bool" where
  "vol_ok ef \<longleftrightarrow>
     unat (sb_cluster_count (ef_sb ef)) \<le> 0xfffffff5 \<and>
     (\<forall>c. valid ef c \<longrightarrow> dev_readable (ef_dev ef) 4 (nat (fat_offset ef c))) \<and>
     cm_size (ef_cmap ef) = sb_cluster_count (ef_sb ef) \<and>
     cm_chunk_size (ef_cmap ef) = sb_cluster_count (ef_sb ef) \<and>
     unat (sb_cluster_count (ef_sb ef)) \<le> 64 * length (cm_chunk (ef_cmap ef))"

definition writable :: "exfat \<Rightarrow> bool" where
  "writable ef \<longleftrightarrow> dev_mode (ef_dev ef) \<noteq> EXFAT_MODE_RO \<and>
     (\<forall>c. valid ef c \<longrightarrow> \<not> dev_bad_write (ef_dev ef) (nat (fat_offset ef c)) 4)"

definition in_fat :: "exfat \<Rightarrow> nat \<Rightarrow> bool" where
  "in_fat ef i \<longleftrightarrow> (\<exists>c. valid ef c \<and> fat_offset ef c \<le> int i \<and> int i < fat_offset ef c + 4)"

text \<open>
  \<open>fat_update ef ef'\<close>: the two volumes differ in table slots and in the contents of the bitmap only.
\<close>

definition fat_update :: "exfat \<Rightarrow> exfat \<Rightarrow> bool" where
  "fat_update ef ef' \<longleftrightarrow>
     (\<exists>data chunk dirty.
        ef' = ef\<lparr>ef_dev := (ef_dev ef)\<lparr>dev_data := data\<rparr>,
                ef_cmap := (ef_cmap ef)\<lparr>cm_chunk := chunk, cm_dirty := dirty\<rparr>\<rparr> \<and>
        length chunk = length (cm_chunk (ef_cmap ef)) \<and>
        (\<forall>i. \<not> in_fat ef i \<longrightarrow> data i = dev_data (ef_dev ef) i))"

lemma fat_update_fields:
  assumes "fat_update ef ef'"
  shows "ef_sb ef' = ef_sb ef" "dev_mode (ef_dev ef') = dev_mode (ef_dev ef)"
    "dev_size (ef_dev ef') = dev_size (ef_dev ef)" "dev_bad_read (ef_dev ef') = dev_bad_read (ef_dev ef)"
    "dev_bad_write (ef_dev ef') = dev_bad_write (ef_dev ef)"
    "cm_size (ef_cmap ef') = cm_size (ef_cmap ef)" "cm_chunk_size (ef_cmap ef') = cm_chunk_size (ef_cmap ef)"
    "length (cm_chunk (ef_cmap ef')) = length (cm_chunk (ef_cmap ef))"
    "ef_nodes ef' = ef_nodes ef" "ef_host ef' = ef_host ef" "ef_zero_cluster ef' = ef_zero_cluster ef"
    "cm_start_cluster (ef_cmap ef') = cm_start_cluster (ef_cmap ef)"
  using assms by (auto simp: fat_update_def)

lemma fat_update_offset: "fat_update ef ef' \<Longrightarrow> fat_offset ef' = fat_offset ef"
  by (auto simp: fat_offset_def s2o_def fat_update_fields fun_eq_iff)

lemma fat_update_in_fat: "fat_update ef ef' \<Longrightarrow> in_fat ef' = in_fat ef"
  by (simp add: in_fat_def fun_eq_iff fat_update_fields fat_update_offset)

lemmas fat_update_keeps = fat_update_fields fat_update_offset fat_update_in_fat

lemma fat_update_ok: "fat_update ef ef' \<Longrightarrow> vol_ok ef' \<longleftrightarrow> vol_ok ef"
  by (simp add: vol_ok_def fat_update_keeps dev_readable_def)

lemma fat_update_writable: "fat_update ef ef' \<Longrightarrow> writable ef' \<longleftrightarrow> writable ef"
  by (simp add: writable_def fat_update_keeps)

lemma fat_updateI:
  "ef' = ef\<lparr>ef_dev := (ef_dev ef)\<lparr>dev_data := data\<rparr>,
           ef_cmap := (ef_cmap ef)\<lparr>cm_chunk := chunk, cm_dirty := dirty\<rparr>\<rparr> \<Longrightarrow>
   length chunk = length (cm_chunk (ef_cmap ef)) \<Longrightarrow>
   (\<And>i. \<not> in_fat ef i \<Longrightarrow> data i = dev_data (ef_dev ef) i) \<Longrightarrow> fat_update ef ef'"
  by (auto simp: fat_update_def)

lemma fat_update_refl [simp]: "fat_update ef ef"
  by (rule fat_updateI [where data = "dev_data (ef_dev ef)" and chunk = "cm_chunk (ef_cmap ef)"
        and dirty = "cm_dirty (ef_cmap ef)"]) simp_all

lemma fat_update_trans:
  assumes "fat_update ef ef'" "fat_update ef' ef''" shows "fat_update ef ef''"
proof -
  note i = fat_update_in_fat [OF assms(1)]
  obtain data chunk dirty where u: "ef'' = ef'\<lparr>ef_dev := (ef_dev ef')\<lparr>dev_data := data\<rparr>,
           ef_cmap := (ef_cmap ef')\<lparr>cm_chunk := chunk, cm_dirty := dirty\<rparr>\<rparr>"
    "length chunk = length (cm_chunk (ef_cmap ef'))" "\<forall>i. \<not> in_fat ef i \<longrightarrow> data i = dev_data (ef_dev ef') i"
    using assms(2) unfolding fat_update_def i by blast
  show ?thesis
    by (rule fat_updateI [where data = data and chunk = chunk and dirty = dirty]) (use assms(1) u in \<open>auto simp: fat_update_def\<close>)
qed

lemma fat_offset_ge: "0 \<le> fat_offset ef c"
  by (simp add: fat_offset_def s2o_def)

lemma nat_fat_offset: "nat (fat_offset ef c) = nat (fat_offset ef 0) + 4 * unat c"
  by (simp add: fat_offset_def s2o_def nat_add_distrib nat_mult_distrib mult.commute)

lemma set_next_cases:
  assumes "vol_ok ef" "valid ef c" "set_next_cluster ef False c v = (b, ef')"
  shows "b \<longrightarrow> ef' = ef\<lparr>ef_dev := (ef_dev ef)
      \<lparr>dev_data := store (dev_data (ef_dev ef)) (nat (fat_offset ef c)) (le_bytes 4 v)\<rparr>\<rparr>"
    and "\<not> b \<longrightarrow> ef' = ef" and "writable ef \<longrightarrow> b"
proof -
  have "dev_readable (ef_dev ef) 4 (nat (fat_offset ef c))" using assms by (simp add: vol_ok_def)
  then have fits: "fat_offset ef c + 4 \<le> dev_size (ef_dev ef)"
    using fat_offset_ge [of ef c] by (simp add: dev_readable_def)
  then show "b \<longrightarrow> ef' = ef\<lparr>ef_dev := (ef_dev ef)
      \<lparr>dev_data := store (dev_data (ef_dev ef)) (nat (fat_offset ef c)) (le_bytes 4 v)\<rparr>\<rparr>"
    and "\<not> b \<longrightarrow> ef' = ef" and "writable ef \<longrightarrow> b"
    using assms(2,3) fat_offset_ge [of ef c]
    by (auto simp: set_next_cluster_def exfat_pwrite_def sys_pwrite_def Let_def min_def writable_def
        split: if_splits option.splits)
qed

lemma set_next_update:
  assumes "vol_ok ef" "valid ef c" "set_next_cluster ef False c v = (b, ef')"
  shows "fat_update ef ef'"
proof (cases b)
  case True
  then have ef': "ef' = ef\<lparr>ef_dev := (ef_dev ef)
      \<lparr>dev_data := store (dev_data (ef_dev ef)) (nat (fat_offset ef c)) (le_bytes 4 v)\<rparr>\<rparr>"
    using set_next_cases [OF assms] by blast
  have "store (dev_data (ef_dev ef)) (nat (fat_offset ef c)) (le_bytes 4 v) i = dev_data (ef_dev ef) i"
    if "\<not> in_fat ef i" for i
    using that assms(2) fat_offset_ge [of ef c] by (force simp: in_fat_def store_def)
  then show ?thesis
    by (intro fat_updateI [where chunk = "cm_chunk (ef_cmap ef)" and dirty = "cm_dirty (ef_cmap ef)"
          and data = "store (dev_data (ef_dev ef)) (nat (fat_offset ef c)) (le_bytes 4 v)"])
      (simp_all add: ef')
qed (use set_next_cases [OF assms] in auto)

lemma fat_get_set:
  assumes "vol_ok ef" "valid ef c" "set_next_cluster ef False c v = (True, ef')"
  shows "fat_get ef' d = (if d = c then v else fat_get ef d)"
proof -
  let ?f = "nat (fat_offset ef 0)"
  have ef': "ef' = ef\<lparr>ef_dev := (ef_dev ef)
      \<lparr>dev_data := store (dev_data (ef_dev ef)) (nat (fat_offset ef c)) (le_bytes 4 v)\<rparr>\<rparr>"
    using set_next_cases [OF assms] by blast
  have off: "fat_offset ef' = fat_offset ef"
    using set_next_update [OF assms] by (rule fat_update_offset)
  have "map (dev_data (ef_dev ef')) [?f + 4 * unat d ..< ?f + 4 * unat d + 4] =
      (if d = c then le_bytes 4 v else map (dev_data (ef_dev ef)) [?f + 4 * unat d ..< ?f + 4 * unat d + 4])"
  proof (cases "d = c")
    case True
    then show ?thesis
      by (auto intro!: nth_equalityI simp: ef' nat_fat_offset [of ef c])
  next
    case False
    then have "unat d < unat c \<or> unat c < unat d" by (metis linorder_neqE_nat word_unat_eq_iff)
    then show ?thesis using False by (auto simp: ef' nat_fat_offset [of ef c])
  qed
  then show ?thesis by (simp add: fat_get_def off nat_fat_offset [of ef d])
qed

interpretation fat: fat_table fat_get "\<lambda>ef. set_next_cluster ef False" valid vol_ok
proof
  show "vol_ok ef \<Longrightarrow> valid ef c \<Longrightarrow> set_next_cluster ef False c v = (b, ef') \<Longrightarrow>
      vol_ok ef' \<and> valid ef' = valid ef" for ef c v b ef'
    using set_next_update [of ef c v b ef'] by (simp add: fat_update_ok fat_update_fields)
  show "set_next_cluster ef False c v = (False, ef') \<Longrightarrow> ef' = ef" for ef c v ef'
    by (auto simp: set_next_cluster_def exfat_pwrite_def split: option.splits)
  show "vol_ok ef \<Longrightarrow> valid ef c \<Longrightarrow> set_next_cluster ef False c v = (True, ef') \<Longrightarrow> valid ef d \<Longrightarrow>
      fat_get ef' d = (if d = c then v else fat_get ef d)" for ef c v ef' d
    by (rule fat_get_set)
qed

section \<open>The bitmap\<close>

definition alloc :: "exfat \<Rightarrow> cluster_t \<Rightarrow> bool" where
  "alloc ef c \<longleftrightarrow> bmap (cm_chunk (ef_cmap ef)) (unat c - 2)"

lemma all_ones: "bitmap ! i = NOT 0 \<Longrightarrow> c div 64 = i \<Longrightarrow> bmap bitmap c"
  by (auto simp: bmap_def)

lemma find_Some_first:
  "find P [a..<b] = Some c \<Longrightarrow> P c \<and> a \<le> c \<and> c < b \<and> (\<forall>d. a \<le> d \<longrightarrow> d < c \<longrightarrow> \<not> P d)"
proof -
  assume "find P [a..<b] = Some c"
  then obtain i where i: "i < b - a" "P (a + i)" "c = a + i" "\<And>j. j < i \<Longrightarrow> \<not> P (a + j)"
    by (auto simp: find_Some_iff)
  then have "\<not> P d" if "a \<le> d" "d < c" for d
    using i(4) [of "d - a"] that by auto
  then show ?thesis using i by auto
qed

lemma word_range: "c div 64 = i \<longleftrightarrow> i * 8 * 8 \<le> c \<and> c < (i + 1) * 8 * 8" for c i :: nat
  by auto

lemma find_bit_loop_Some:
  assumes "find_bit_loop bm start en is = Some c" and "sorted_wrt (<) is"
  shows "\<not> bmap bm c \<and> start \<le> c \<and> c < en \<and> (\<forall>d. start \<le> d \<longrightarrow> d < c \<longrightarrow> d div 64 \<in> set is \<longrightarrow> bmap bm d)"
  using assms
proof (induction "is")
  case (Cons i "is")
  show ?case
  proof (cases "bm ! i = NOT 0")
    case True
    then show ?thesis using Cons by (auto intro: all_ones)
  next
    case False
    show ?thesis
    proof (cases "find (\<lambda>c. BMAP_GET bm c = 0) [max (i * 8 * 8) start ..< min ((i + 1) * 8 * 8) en]")
      case None
      then have w: "bmap bm d" if "d div 64 = i" "start \<le> d" "d < en" for d
        using that unfolding find_None_iff word_range by (auto simp: BMAP_GET_eq_0)
      have "find_bit_loop bm start en is = Some c" using None False Cons.prems(1) by simp
      then show ?thesis using Cons.IH Cons.prems(2) w
        by (metis less_trans list.set_intros set_ConsD sorted_wrt.simps(2))
    next
      case (Some e)
      then have "e = c" using False Cons.prems(1) by simp
      note f = find_Some_first [OF Some [unfolded this]]
      have "bmap bm d" if "start \<le> d" "d < c" "d div 64 \<in> set (i # is)" for d
      proof -
        have "c div 64 = i" using f unfolding word_range by simp
        then have "d div 64 \<le> i" using that(2) by (metis div_le_mono less_imp_le_nat)
        then have "d div 64 = i" using that(3) Cons.prems(2) by auto
        then show ?thesis using f that unfolding word_range by (auto simp: BMAP_GET_eq_0)
      qed
      then show ?thesis using f by (auto simp: BMAP_GET_eq_0)
    qed
  qed
qed simp

lemma find_bit_loop_None:
  assumes "find_bit_loop bm start en is = None" and "d div 64 \<in> set is" "start \<le> d" "d < en"
  shows "bmap bm d"
  using assms
proof (induction "is")
  case (Cons i "is")
  show ?case
  proof (cases "d div 64 = i \<and> bm ! i \<noteq> NOT 0")
    case True
    then have "find (\<lambda>c. BMAP_GET bm c = 0) [max (i * 8 * 8) start ..< min ((i + 1) * 8 * 8) en] = None"
      using Cons.prems(1) by (auto split: option.splits if_splits)
    then show ?thesis using True Cons.prems unfolding find_None_iff word_range by (auto simp: BMAP_GET_eq_0)
  next
    case False
    then show ?thesis using Cons by (auto intro: all_ones split: if_splits option.splits)
  qed
qed simp

text \<open>First fit: the lowest clear bit of the range is taken, or there is none.\<close>

lemma find_bit_and_set_spec:
  assumes "en \<le> 64 * length bm"
  shows "(\<exists>c. start \<le> c \<and> c < en \<and> \<not> bmap bm c \<and> (\<forall>d. start \<le> d \<longrightarrow> d < c \<longrightarrow> bmap bm d) \<and>
            find_bit_and_set bm start en = (of_nat c + EXFAT_FIRST_DATA_CLUSTER, BMAP_SET bm c)) \<or>
         (\<forall>d. start \<le> d \<longrightarrow> d < en \<longrightarrow> bmap bm d) \<and> find_bit_and_set bm start en = (EXFAT_CLUSTER_END, bm)"
proof -
  let ?is = "[start div 8 div 8 ..< DIV_ROUND_UP en (8 * 8)]"
  have idx: "d div 64 \<in> set ?is" if "start \<le> d" "d < en" for d
  proof -
    have "start div 64 \<le> d div 64" using that by (simp add: div_le_mono)
    moreover have "d div 64 < DIV_ROUND_UP en 64"
      using that div_le_mono [of d "en - 1" 64] by (simp add: DIV_ROUND_UP_nat)
    ultimately show ?thesis by (simp flip: div_mult2_eq)
  qed
  have srt: "sorted_wrt (<) ?is" by simp
  show ?thesis
  proof (cases "find_bit_loop bm start en ?is")
    case None
    then show ?thesis using find_bit_loop_None [OF None idx] by (simp add: find_bit_and_set_def Let_def)
  next
    case (Some c)
    note f = find_bit_loop_Some [OF Some srt]
    have "find_bit_and_set bm start en = (of_nat c + EXFAT_FIRST_DATA_CLUSTER, BMAP_SET bm c)"
      using Some by (simp add: find_bit_and_set_def Let_def)
    moreover have "bmap bm d" if "start \<le> d" "d < c" for d
      using f idx [of d] that by auto
    ultimately show ?thesis using f by blast
  qed
qed

definition free_set :: "exfat \<Rightarrow> cluster_t set" where
  "free_set ef = {c. valid ef c \<and> \<not> alloc ef c}"

lemma valid_unat: "valid ef c \<longleftrightarrow> 2 \<le> unat c \<and> unat c - 2 < unat (sb_cluster_count (ef_sb ef))"
  by (rule cluster_valid_iff)

lemma valid_index: "vol_ok ef \<Longrightarrow> valid ef c \<Longrightarrow> (unat c - 2) div 64 < length (cm_chunk (ef_cmap ef))"
  by (auto simp: valid_unat vol_ok_def)

lemma unat_plus_2: "n < 0xfffffffe \<Longrightarrow> unat (of_nat n + 2 :: u32) = n + 2"
  by (simp add: unat_word_ariths unat_of_nat)

lemma unat_minus_2: "2 \<le> unat c \<Longrightarrow> unat (c - 2 :: u32) = unat c - 2"
  by (simp add: unat_sub word_le_nat_alt)

lemma END_invalid [simp]: "vol_ok ef \<Longrightarrow> CLUSTER_INVALID (ef_sb ef) EXFAT_CLUSTER_END"
  by (auto simp: CLUSTER_INVALID_def cluster_consts vol_ok_def word_le_nat_alt)

lemma cluster_of_index:
  assumes "vol_ok ef" "n < unat (sb_cluster_count (ef_sb ef))"
  shows "valid ef (of_nat n + EXFAT_FIRST_DATA_CLUSTER)" "unat (of_nat n + EXFAT_FIRST_DATA_CLUSTER :: u32) = n + 2"
    "of_nat n + EXFAT_FIRST_DATA_CLUSTER \<noteq> EXFAT_CLUSTER_END"
proof -
  have "n < 0xfffffff5" using assms by (auto simp: vol_ok_def)
  then show u: "unat (of_nat n + EXFAT_FIRST_DATA_CLUSTER :: u32) = n + 2"
    by (simp add: unat_plus_2 cluster_consts)
  then show v: "valid ef (of_nat n + EXFAT_FIRST_DATA_CLUSTER)" using assms by (simp add: valid_unat)
  show "of_nat n + EXFAT_FIRST_DATA_CLUSTER \<noteq> EXFAT_CLUSTER_END"
    using v END_invalid [OF assms(1)] by metis
qed

lemma chunk_update:
  assumes "length chunk = length (cm_chunk (ef_cmap ef))"
  shows "fat_update ef (ef\<lparr>ef_cmap := (ef_cmap ef)\<lparr>cm_chunk := chunk, cm_dirty := dirty\<rparr>\<rparr>)"
  by (rule fat_updateI [where data = "dev_data (ef_dev ef)" and chunk = chunk and dirty = dirty])
    (use assms in auto)

lemma allocate_none:
  assumes "vol_ok ef" "free_set ef = {}"
  shows "allocate_cluster ef hint = (EXFAT_CLUSTER_END, ef)"
proof -
  let ?n = "unat (sb_cluster_count (ef_sb ef))" and ?bm = "cm_chunk (ef_cmap ef)"
  have all: "bmap ?bm d" if "d < ?n" for d
    using assms(2) cluster_of_index [OF assms(1) that] by (auto simp: free_set_def alloc_def)
  have "find_bit_and_set ?bm start en = (EXFAT_CLUSTER_END, ?bm)" if "en \<le> ?n" for start en
    using find_bit_and_set_spec [of en ?bm start] assms(1) that all by (fastforce simp: vol_ok_def)
  moreover have "unat h \<le> ?n" if "\<not> sb_cluster_count (ef_sb ef) \<le> h" for h
    using that by (simp add: word_le_nat_alt)
  ultimately show ?thesis
    using assms(1) by (simp add: allocate_cluster_def Let_def vol_ok_def split: prod.splits)
qed

lemma allocate_some:
  assumes "vol_ok ef" "free_set ef \<noteq> {}"
  shows "\<exists>c \<in> free_set ef. allocate_cluster ef hint =
    (c, ef\<lparr>ef_cmap := (ef_cmap ef)\<lparr>cm_chunk := BMAP_SET (cm_chunk (ef_cmap ef)) (unat c - 2), cm_dirty := True\<rparr>\<rparr>)"
proof -
  let ?n = "unat (sb_cluster_count (ef_sb ef))" and ?bm = "cm_chunk (ef_cmap ef)"
  define h where "h = (let hint = hint - EXFAT_FIRST_DATA_CLUSTER
    in if cm_chunk_size (ef_cmap ef) \<le> hint then 0 else hint)"
  have h: "unat h \<le> ?n" using assms(1)
    by (auto simp: h_def Let_def vol_ok_def word_le_nat_alt)
  have len: "?n \<le> 64 * length ?bm" "unat h \<le> 64 * length ?bm" using assms(1) h by (auto simp: vol_ok_def)
  have "\<exists>c < ?n. \<not> bmap ?bm c \<and> allocate_cluster ef hint =
      (of_nat c + EXFAT_FIRST_DATA_CLUSTER, ef\<lparr>ef_cmap := (ef_cmap ef)\<lparr>cm_chunk := BMAP_SET ?bm c, cm_dirty := True\<rparr>\<rparr>)"
  proof (cases "\<exists>d. unat h \<le> d \<and> d < ?n \<and> \<not> bmap ?bm d")
    case True
    then obtain c where c: "c < ?n" "\<not> bmap ?bm c"
      "find_bit_and_set ?bm (unat h) ?n = (of_nat c + EXFAT_FIRST_DATA_CLUSTER, BMAP_SET ?bm c)"
      using find_bit_and_set_spec [OF len(1), of "unat h"] by blast
    then show ?thesis using cluster_of_index(3) [OF assms(1) c(1)] assms(1)
      by (intro exI [of _ c]) (simp add: allocate_cluster_def Let_def vol_ok_def h_def)
  next
    case False
    then have none: "find_bit_and_set ?bm (unat h) ?n = (EXFAT_CLUSTER_END, ?bm)"
      using find_bit_and_set_spec [OF len(1), of "unat h"] by blast
    obtain d where "d < unat h" "\<not> bmap ?bm d"
      using assms(2) False by (auto simp: free_set_def alloc_def valid_unat not_le)
    then obtain c where c: "c < unat h" "\<not> bmap ?bm c"
      "find_bit_and_set ?bm 0 (unat h) = (of_nat c + EXFAT_FIRST_DATA_CLUSTER, BMAP_SET ?bm c)"
      using find_bit_and_set_spec [OF len(2), of 0] by auto
    moreover have "c < ?n" using c h by simp
    ultimately show ?thesis using cluster_of_index(3) [OF assms(1)] assms(1) none
      by (intro exI [of _ c]) (simp add: allocate_cluster_def Let_def vol_ok_def h_def)
  qed
  then obtain c where c: "c < ?n" "\<not> bmap ?bm c" "allocate_cluster ef hint =
      (of_nat c + EXFAT_FIRST_DATA_CLUSTER, ef\<lparr>ef_cmap := (ef_cmap ef)\<lparr>cm_chunk := BMAP_SET ?bm c, cm_dirty := True\<rparr>\<rparr>)"
    by blast
  note ci = cluster_of_index [OF assms(1) c(1)]
  show ?thesis
    using c ci by (intro bexI [of _ "of_nat c + EXFAT_FIRST_DATA_CLUSTER"]) (simp_all add: free_set_def alloc_def)
qed

lemma alloc_set:
  assumes "vol_ok ef" "valid ef c" "valid ef d" and
    "ef' = ef\<lparr>ef_cmap := (ef_cmap ef)\<lparr>cm_chunk := BMAP_SET (cm_chunk (ef_cmap ef)) (unat c - 2), cm_dirty := b\<rparr>\<rparr>"
  shows "alloc ef' d \<longleftrightarrow> d = c \<or> alloc ef d"
proof -
  have "unat d - 2 = unat c - 2 \<longleftrightarrow> d = c"
    using assms(2,3) by (auto simp: valid_unat word_unat_eq_iff)
  then show ?thesis
    using assms(4) valid_index [OF assms(1,2)] valid_index [OF assms(1,3)]
    by (simp add: alloc_def bmap_BMAP_SET)
qed

lemma free_cluster_ok:
  assumes "vol_ok ef" "valid ef c"
  obtains ef' where "free_cluster ef c = Some ef'" "fat_update ef ef'" "ef_dev ef' = ef_dev ef"
    "\<And>d. valid ef d \<Longrightarrow> alloc ef' d \<longleftrightarrow> d \<noteq> c \<and> alloc ef d"
proof -
  let ?ef = "ef\<lparr>ef_cmap := (ef_cmap ef)\<lparr>cm_chunk := BMAP_CLR (cm_chunk (ef_cmap ef)) (unat c - 2), cm_dirty := True\<rparr>\<rparr>"
  have "unat (c - 2) = unat c - 2" using assms(2) by (simp add: valid_unat unat_minus_2)
  then have "free_cluster ef c = Some ?ef"
    using assms by (auto simp: free_cluster_def cluster_consts vol_ok_def valid_unat word_le_nat_alt)
  moreover have "alloc ?ef d \<longleftrightarrow> d \<noteq> c \<and> alloc ef d" if "valid ef d" for d
  proof -
    have "unat d - 2 = unat c - 2 \<longleftrightarrow> d = c"
      using assms(2) that by (auto simp: valid_unat word_unat_eq_iff)
    then show ?thesis using valid_index [OF assms] valid_index [OF assms(1) that]
      by (simp add: alloc_def bmap_BMAP_CLR)
  qed
  moreover have "fat_update ef ?ef" by (rule chunk_update) simp
  ultimately show ?thesis using that by simp
qed

section \<open>Ownership\<close>

text \<open>
  \<open>owns ef node cs\<close>: the file of \<open>node\<close> occupies exactly the clusters \<open>cs\<close>, in this order, they are
  marked in the bitmap, and the cached position of the node is one of them.
\<close>

definition succ_of :: "exfat \<Rightarrow> exfat_node \<Rightarrow> cluster_t \<Rightarrow> cluster_t" where
  "succ_of ef node c = (if n_is_contiguous node then c + 1 else fat_get ef c)"

definition fptr_ok :: "exfat_node \<Rightarrow> cluster_t list \<Rightarrow> bool" where
  "fptr_ok node cs \<longleftrightarrow>
     (if cs = [] then n_start_cluster node = EXFAT_CLUSTER_FREE \<and> n_fptr_index node = 0
      else n_start_cluster node = hd cs \<and> unat (n_fptr_index node) < length cs \<and>
           n_fptr_cluster node = cs ! unat (n_fptr_index node))"

text \<open>
  The file has the clusters \<open>cs\<close>: they are allocated, each leads to the next, and the position in the node is that of one of them.  What the table
  says behind the last one is left open, since the library finds the end of a file by its size.
\<close>

definition owns :: "exfat \<Rightarrow> exfat_node \<Rightarrow> cluster_t list \<Rightarrow> bool" where
  "owns ef node cs \<longleftrightarrow>
     distinct cs \<and> (\<forall>c \<in> set cs. valid ef c \<and> alloc ef c) \<and>
     successively (\<lambda>c d. succ_of ef node c = d) cs \<and> fptr_ok node cs"

lemma next_cluster_eq:
  assumes "vol_ok ef" "valid ef c"
  shows "exfat_next_cluster ef node c = Some (succ_of ef node c)"
proof -
  have "\<not> c < EXFAT_FIRST_DATA_CLUSTER" using assms(2) by (simp add: CLUSTER_INVALID_def)
  moreover have "dev_readable (ef_dev ef) 4 (nat (fat_offset ef c))" using assms by (simp add: vol_ok_def)
  then have "exfat_pread (ef_dev ef) (garbage ef 4) 4 (fat_offset ef c) =
      (4, map (dev_data (ef_dev ef)) [nat (fat_offset ef c) ..< nat (fat_offset ef c) + 4])"
    using exfat_pread_full [of "garbage ef 4" 4 "ef_dev ef" "nat (fat_offset ef c)"] fat_offset_ge [of ef c]
    by (simp add: garbage_def)
  ultimately show ?thesis by (simp add: exfat_next_cluster_def succ_of_def fat_get_def)
qed

lemma owns_length: "owns ef node cs \<Longrightarrow> length cs \<le> unat (sb_cluster_count (ef_sb ef))"
proof -
  assume o: "owns ef node cs"
  have "(\<lambda>c. unat c - 2) ` set cs \<subseteq> {..<unat (sb_cluster_count (ef_sb ef))}"
    using o by (auto simp: owns_def valid_unat)
  then have "card ((\<lambda>c. unat c - 2) ` set cs) \<le> unat (sb_cluster_count (ef_sb ef))"
    using card_mono [of "{..<unat (sb_cluster_count (ef_sb ef))}"] by fastforce
  moreover have "inj_on (\<lambda>c. unat c - 2) (set cs)"
    using o by (auto simp: inj_on_def owns_def valid_unat word_unat_eq_iff)
      (metis diff_add_inverse2 le_add_diff_inverse2)
  ultimately show ?thesis using o by (simp add: card_image distinct_card owns_def)
qed

lemma advance_loop_owns:
  assumes "vol_ok ef" "\<forall>c \<in> set cs. valid ef c" "successively (\<lambda>c d. succ_of ef node c = d) cs"
    and "i + n < length cs"
  shows "advance_loop ef node n (cs ! i) = Some (cs ! (i + n))"
  using assms(4)
proof (induction n arbitrary: i)
  case (Suc n)
  have "exfat_next_cluster ef node (cs ! i) = Some (cs ! Suc i)"
    using next_cluster_eq [OF assms(1)] assms(2) successively_nth [OF assms(3)] Suc.prems by auto
  then show ?case using Suc.IH [of "Suc i"] Suc.prems assms(2) by simp
qed simp

text \<open>Within the file, \<^verbatim>\<open>exfat_advance_cluster\<close> is indexing.\<close>

lemma advance_owns:
  assumes "vol_ok ef" "owns ef node cs" "unat count < length cs"
  shows "exfat_advance_cluster ef node count =
      Some (cs ! unat count, node\<lparr>n_fptr_index := count, n_fptr_cluster := cs ! unat count\<rparr>)"
proof -
  have cs: "cs \<noteq> []" using assms(3) by auto
  have o: "\<forall>c \<in> set cs. valid ef c" "successively (\<lambda>c d. succ_of ef node c = d) cs"
    "n_start_cluster node = cs ! 0" "unat (n_fptr_index node) < length cs"
    "n_fptr_cluster node = cs ! unat (n_fptr_index node)"
    using assms(2) cs by (auto simp: owns_def fptr_ok_def hd_conv_nth)
  have s: "succ_of ef (node\<lparr>n_fptr_index := a, n_fptr_cluster := b\<rparr>) = succ_of ef node" for a b
    by (simp add: succ_of_def fun_eq_iff)
  show ?thesis
  proof (cases "count < n_fptr_index node")
    case True
    let ?node = "node\<lparr>n_fptr_index := 0, n_fptr_cluster := n_start_cluster node\<rparr>"
    have "advance_loop ef ?node (unat count) (cs ! 0) = Some (cs ! (0 + unat count))"
      by (rule advance_loop_owns) (use assms o s in auto)
    then show ?thesis using True o by (simp add: exfat_advance_cluster_def Let_def)
  next
    case False
    have "advance_loop ef node (unat count - unat (n_fptr_index node)) (cs ! unat (n_fptr_index node)) =
        Some (cs ! (unat (n_fptr_index node) + (unat count - unat (n_fptr_index node))))"
      by (rule advance_loop_owns) (use assms o False in \<open>auto simp: word_less_nat_alt\<close>)
    then show ?thesis using False o by (simp add: exfat_advance_cluster_def Let_def word_less_nat_alt)
  qed
qed

lemma owns_fptr:
  assumes "owns ef node cs" "unat i < length cs"
  shows "owns ef (node\<lparr>n_fptr_index := i, n_fptr_cluster := cs ! unat i\<rparr>) cs"
  using assms by (auto simp: owns_def fptr_ok_def succ_of_def cong: if_cong)

lemma succ_of_node: "n_is_contiguous node' = n_is_contiguous node \<Longrightarrow> succ_of ef node' = succ_of ef node"
  by (simp add: succ_of_def fun_eq_iff)

lemma set_next_any:
  assumes "vol_ok ef" "valid ef c" "set_next_cluster ef contiguous c v = (ok, ef')"
  shows "fat_update ef ef'" "writable ef \<Longrightarrow> ok" "ef_cmap ef' = ef_cmap ef"
    "\<And>d. d \<noteq> c \<Longrightarrow> fat_get ef' d = fat_get ef d" "\<not> ok \<Longrightarrow> ef' = ef"
    "ok \<Longrightarrow> \<not> contiguous \<Longrightarrow> fat_get ef' c = v"
proof -
  have *: "fat_update ef ef' \<and> (writable ef \<longrightarrow> ok) \<and> ef_cmap ef' = ef_cmap ef \<and>
      (\<forall>d. d \<noteq> c \<longrightarrow> fat_get ef' d = fat_get ef d) \<and> (\<not> ok \<longrightarrow> ef' = ef) \<and>
      (ok \<longrightarrow> \<not> contiguous \<longrightarrow> fat_get ef' c = v)"
  proof (cases contiguous)
    case True
    then show ?thesis using assms(3) by (auto simp: set_next_cluster_def)
  next
    case False
    then have s: "set_next_cluster ef False c v = (ok, ef')" using assms(3) by simp
    then have "ef_cmap ef' = ef_cmap ef" by (auto simp: set_next_cluster_def split: prod.splits)
    then show ?thesis using set_next_cases [OF assms(1,2) s] set_next_update [OF assms(1,2) s]
        fat_get_set [OF assms(1,2)] s by (cases ok) auto
  qed
  then show "fat_update ef ef'" "writable ef \<Longrightarrow> ok" "ef_cmap ef' = ef_cmap ef"
    "\<And>d. d \<noteq> c \<Longrightarrow> fat_get ef' d = fat_get ef d" "\<not> ok \<Longrightarrow> ef' = ef"
    "ok \<Longrightarrow> \<not> contiguous \<Longrightarrow> fat_get ef' c = v" by blast+
qed

lemma linked_frame:
  "(\<And>c. c \<in> set ds \<Longrightarrow> fat_get ef' c = fat_get ef c) \<Longrightarrow>
     successively (\<lambda>c d. succ_of ef' node c = d) ds \<longleftrightarrow> successively (\<lambda>c d. succ_of ef node c = d) ds"
  by (rule successively_cong) (simp_all add: succ_of_def)

section \<open>Shrinking\<close>

lemma shrink_loop_ok:
  assumes "vol_ok ef" "\<forall>c \<in> set ds. valid ef c" "successively (\<lambda>c d. succ_of ef node c = d) ds" "distinct ds"
    "ds \<noteq> [] \<Longrightarrow> p = hd ds"
  shows "\<exists>rc ef'. shrink_loop ef node (length ds) p = Some (rc, ef') \<and> (rc = 0 \<or> rc = - EIO) \<and>
    (writable ef \<longrightarrow> rc = 0) \<and> fat_update ef ef' \<and>
    (\<forall>d. d \<notin> set ds \<longrightarrow> fat_get ef' d = fat_get ef d) \<and>
    (rc = 0 \<longrightarrow> (\<forall>d. valid ef d \<longrightarrow> (alloc ef' d \<longleftrightarrow> alloc ef d \<and> d \<notin> set ds)))"
  using assms
proof (induction ds arbitrary: ef p)
  case (Cons c ds)
  have p: "p = c" and v: "valid ef c" using Cons.prems by auto
  have nx: "exfat_next_cluster ef node c = Some (succ_of ef node c)"
    by (rule next_cluster_eq [OF Cons.prems(1) v])
  obtain ok ef1 where s: "set_next_cluster ef (n_is_contiguous node) c EXFAT_CLUSTER_FREE = (ok, ef1)"
    by fastforce
  note sn = set_next_any [OF Cons.prems(1) v s]
  show ?case
  proof (cases ok)
    case False
    then show ?thesis using s nx p v sn by auto
  next
    case True
    have v1: "vol_ok ef1" "ef_sb ef1 = ef_sb ef" using sn(1) Cons.prems(1) by (auto simp: fat_update_ok fat_update_fields)
    then obtain ef2 where f: "free_cluster ef1 c = Some ef2" "fat_update ef1 ef2" "ef_dev ef2 = ef_dev ef1"
      "\<And>d. valid ef d \<Longrightarrow> alloc ef2 d \<longleftrightarrow> d \<noteq> c \<and> alloc ef d"
      using free_cluster_ok [of ef1 c] v sn(3) by (auto simp: alloc_def)
    have v2: "vol_ok ef2" "ef_sb ef2 = ef_sb ef" "fat_update ef ef2" "writable ef2 \<longleftrightarrow> writable ef"
      using v1 f(2) sn(1) by (auto simp: fat_update_ok fat_update_fields fat_update_writable intro: fat_update_trans)
    have g2: "fat_get ef2 d = fat_get ef d" if "d \<noteq> c" for d
      using sn(4) [OF that] f(2,3) by (simp add: fat_get_def fat_update_offset)
    have "successively (\<lambda>c d. succ_of ef2 node c = d) ds"
    proof (rule linked_frame [THEN iffD2])
      show "fat_get ef2 d = fat_get ef d" if "d \<in> set ds" for d using g2 [of d] that Cons.prems(4) by (cases "d = c") auto
      show "successively (\<lambda>c d. succ_of ef node c = d) ds" using Cons.prems(3) by (auto simp: successively_Cons)
    qed
    moreover have "ds \<noteq> [] \<Longrightarrow> succ_of ef node c = hd ds" using Cons.prems(3) by (auto simp: successively_Cons)
    ultimately obtain rc ef' where r: "shrink_loop ef2 node (length ds) (succ_of ef node c) = Some (rc, ef')"
      "rc = 0 \<or> rc = - EIO" "writable ef \<longrightarrow> rc = 0" "fat_update ef2 ef'"
      "\<forall>d. d \<notin> set ds \<longrightarrow> fat_get ef' d = fat_get ef2 d"
      "rc = 0 \<longrightarrow> (\<forall>d. valid ef d \<longrightarrow> (alloc ef' d \<longleftrightarrow> alloc ef2 d \<and> d \<notin> set ds))"
      using Cons.IH [of ef2 "succ_of ef node c"] Cons.prems(2,4) v2 by auto
    have "shrink_loop ef node (length (c # ds)) p = Some (rc, ef')"
      using True s f(1) nx p v r(1) by simp
    then show ?thesis using r(2-6) v2(3) g2 f(4) by (auto intro: fat_update_trans)
  qed
qed simp

text \<open>The clusters above the new length are released, the others stay with the file.\<close>

definition shrunk :: "exfat \<Rightarrow> exfat \<Rightarrow> cluster_t list \<Rightarrow> bool" where
  "shrunk ef ef' ds \<longleftrightarrow> (\<forall>d. valid ef d \<longrightarrow> (alloc ef' d \<longleftrightarrow> alloc ef d \<and> d \<notin> set ds))"

definition shrink_post ::
    "exfat \<Rightarrow> exfat_node \<Rightarrow> cluster_t list \<Rightarrow> nat \<Rightarrow> (int \<times> exfat \<times> exfat_node) option \<Rightarrow> bool" where
  "shrink_post ef node cs k result \<longleftrightarrow>
     (case result of
        None \<Rightarrow> False
      | Some (rc, ef', node') \<Rightarrow>
          (rc = 0 \<or> rc = - EIO) \<and> (writable ef \<longrightarrow> rc = 0) \<and> fat_update ef ef' \<and>
          (\<forall>d. d \<notin> set cs \<longrightarrow> fat_get ef' d = fat_get ef d) \<and>
          (rc = 0 \<longrightarrow> owns ef' node' (take k cs) \<and> shrunk ef ef' (drop k cs) \<and>
             n_is_contiguous node' = n_is_contiguous node))"

lemma owns_start: "owns ef node cs \<Longrightarrow> cs \<noteq> [] \<Longrightarrow> n_start_cluster node \<noteq> EXFAT_CLUSTER_FREE"
  by (cases cs) (auto simp: owns_def fptr_ok_def cluster_consts)

lemma shrink_to_nothing:
  assumes "vol_ok ef" "owns ef node cs" "unat current = length cs" "cs \<noteq> []"
  shows "shrink_post ef node cs 0 (shrink_file ef node current current)"
proof -
  let ?node = "node\<lparr>n_start_cluster := EXFAT_CLUSTER_FREE, n_is_dirty := True,
                       n_fptr_index := 0, n_fptr_cluster := EXFAT_CLUSTER_FREE\<rparr>"
  have o: "distinct cs" "\<forall>c \<in> set cs. valid ef c" "successively (\<lambda>c d. succ_of ef node c = d) cs"
    "n_start_cluster node = hd cs"
    using assms(2,4) by (auto simp: owns_def fptr_ok_def)
  have "succ_of ef ?node = succ_of ef node" by (rule succ_of_node) simp
  then obtain rc ef' where r: "shrink_loop ef ?node (unat current) (n_start_cluster node) = Some (rc, ef')"
    "rc = 0 \<or> rc = - EIO" "writable ef \<longrightarrow> rc = 0" "fat_update ef ef'"
    "\<forall>d. d \<notin> set cs \<longrightarrow> fat_get ef' d = fat_get ef d" "rc = 0 \<longrightarrow> shrunk ef ef' cs"
    using shrink_loop_ok [of ef cs ?node "hd cs"] assms(1,3) o unfolding shrunk_def by auto
  have "current \<noteq> 0" using assms(3,4) by auto
  then have "shrink_file ef node current current = Some (rc, ef', ?node)"
    using r(1) owns_start [OF assms(2,4)] by (simp add: shrink_file_def Let_def)
  moreover have "owns ef' ?node []" by (simp add: owns_def fptr_ok_def)
  ultimately show ?thesis using r by (simp add: shrink_post_def)
qed

text \<open>The head of a file survives changes to the slots of its last cluster and of the clusters after it.\<close>

lemma owns_take:
  assumes "owns ef node cs" "0 < k" "k < length cs" "fat_update ef ef'" "shrunk ef ef' (drop k cs)"
    "\<And>d. d \<noteq> cs ! (k - 1) \<Longrightarrow> d \<notin> set (drop k cs) \<Longrightarrow> fat_get ef' d = fat_get ef d"
    "n_is_contiguous node' = n_is_contiguous node" "n_start_cluster node' = n_start_cluster node"
    "n_fptr_index node' = 0" "n_fptr_cluster node' = n_start_cluster node"
  shows "owns ef' node' (take k cs)"
proof -
  have o: "distinct cs" "\<forall>c \<in> set cs. valid ef c \<and> alloc ef c" "successively (\<lambda>c d. succ_of ef node c = d) cs"
    "n_start_cluster node = hd cs"
    using assms(1-3) by (auto simp: owns_def fptr_ok_def split: if_splits)
  have dj: "set (take k cs) \<inter> set (drop k cs) = {}" using o(1) by (metis append_take_drop_id distinct_append)
  have "succ_of ef' node' (cs ! i) = cs ! Suc i" if "Suc i < k" for i
  proof -
    have "cs ! i \<in> set (take k cs)"
      using that assms(3) by (auto simp: in_set_conv_nth intro!: exI [of _ i])
    then have "cs ! i \<noteq> cs ! (k - 1)" "cs ! i \<notin> set (drop k cs)"
      using that assms(3) o(1) dj by (auto simp: nth_eq_iff_index_eq)
    then show ?thesis using assms(3,6,7) successively_nth [OF o(3), of i] that
      by (simp add: succ_of_def split: if_splits)
  qed
  then have "successively (\<lambda>c d. succ_of ef' node' c = d) (take k cs)"
    unfolding successively_conv_nth by simp
  moreover have "\<forall>c \<in> set (take k cs). valid ef' c \<and> alloc ef' c"
    using assms(4,5) o(2) dj in_set_takeD [of _ k cs] by (auto simp: shrunk_def fat_update_fields)
  ultimately show ?thesis using o(1,4) assms(2,3,8-10)
    by (auto simp: owns_def fptr_ok_def hd_conv_nth distinct_take)
qed

lemma shrink_tail:
  assumes "vol_ok ef" "owns ef node cs" "unat current = length cs" "0 < difference" "difference < current"
  defines "k \<equiv> unat current - unat difference"
  shows "shrink_post ef node cs k (shrink_file ef node current difference)"
proof -
  have k: "0 < k" "k < length cs" using assms(3-5) by (auto simp: k_def word_less_nat_alt)
  have uk: "unat (current - difference - 1) = k - 1"
    using k assms(5) by (simp add: k_def unat_sub word_le_nat_alt word_less_nat_alt unat_sub_if')
  have o: "distinct cs" "\<forall>c \<in> set cs. valid ef c" "successively (\<lambda>c d. succ_of ef node c = d) cs"
    using assms(2) by (auto simp: owns_def)
  define l where "l = cs ! (k - 1)"
  define node1 where "node1 = node\<lparr>n_fptr_index := current - difference - 1, n_fptr_cluster := l\<rparr>"
  have l: "l \<in> set (take k cs)" "valid ef l"
    using k o(2) nth_mem [of "k - 1" cs] by (auto simp: l_def in_set_conv_nth intro!: exI [of _ "k - 1"])
  have lk: "l \<in> set cs" "l \<notin> set (drop k cs)"
    using l(1) o(1) by (auto dest: in_set_takeD) (metis append_take_drop_id disjoint_iff distinct_append)
  have adv: "exfat_advance_cluster ef node (current - difference - 1) = Some (l, node1)"
    using advance_owns [OF assms(1,2), of "current - difference - 1"] uk k by (simp add: l_def node1_def)
  have nx: "exfat_next_cluster ef node1 l = Some (cs ! k)"
    using next_cluster_eq [OF assms(1) l(2)] successively_nth [OF o(3), of "k - 1"] k
      succ_of_node [of node1 node] by (simp add: node1_def l_def)
  obtain ok ef1 where s: "set_next_cluster ef (n_is_contiguous node) l EXFAT_CLUSTER_END = (ok, ef1)" by fastforce
  note sn = set_next_any [OF assms(1) l(2) s]
  have guards: "\<not> current < difference" "difference \<noteq> 0" "n_start_cluster node \<noteq> EXFAT_CLUSTER_FREE"
    using assms(4,5) owns_start [OF assms(2)] k by fastforce+
  let ?node = "node1\<lparr>n_fptr_index := 0, n_fptr_cluster := n_start_cluster node1\<rparr>"
  have run: "shrink_file ef node current difference =
      (if ok then map_option (\<lambda>(rc, ef). (rc, ef, ?node)) (shrink_loop ef1 ?node (unat difference) (cs ! k))
       else Some (- EIO, ef1, node1))"
    using adv nx s l(2) guards assms(5)
    by (cases "shrink_loop ef1 ?node (unat difference) (cs ! k)")
      (auto simp: shrink_file_def node1_def Let_def)
  show ?thesis
  proof (cases ok)
    case False
    then show ?thesis using run sn by (auto simp: shrink_post_def)
  next
    case True
    have v1: "vol_ok ef1" "ef_sb ef1 = ef_sb ef" "writable ef1 \<longleftrightarrow> writable ef"
      using sn(1) assms(1) by (auto simp: fat_update_ok fat_update_fields fat_update_writable)
    have "successively (\<lambda>c d. succ_of ef node c = d) (drop k cs)"
      using o(3) by (metis append_take_drop_id successively_append_iff)
    moreover have "succ_of ef ?node = succ_of ef node" by (rule succ_of_node) (simp add: node1_def)
    ultimately have "successively (\<lambda>c d. succ_of ef1 ?node c = d) (drop k cs)"
      using lk(2) sn(4) by (subst linked_frame [of _ ef1 ef]) metis+
    moreover have "\<forall>c \<in> set (drop k cs). valid ef1 c" using o(2) v1(2) by (auto dest: in_set_dropD)
    ultimately obtain rc ef' where r: "shrink_loop ef1 ?node (unat difference) (cs ! k) = Some (rc, ef')"
      "rc = 0 \<or> rc = - EIO" "writable ef \<longrightarrow> rc = 0" "fat_update ef1 ef'"
      "\<forall>d. d \<notin> set (drop k cs) \<longrightarrow> fat_get ef' d = fat_get ef1 d" "rc = 0 \<longrightarrow> shrunk ef1 ef' (drop k cs)"
      using shrink_loop_ok [of ef1 "drop k cs" ?node "cs ! k"] v1 o(1) k assms(3)
      unfolding shrunk_def by (auto simp: hd_drop_conv_nth k_def)
    have u: "fat_update ef ef'" using sn(1) r(4) by (rule fat_update_trans)
    have f: "fat_get ef' d = fat_get ef d" if "d \<noteq> l" "d \<notin> set (drop k cs)" for d
      using r(5) sn(4) that by simp
    have sh: "rc = 0 \<longrightarrow> shrunk ef ef' (drop k cs)" using r(6) v1(2) sn(3) by (simp add: shrunk_def alloc_def)
    then have "rc = 0 \<longrightarrow> owns ef' ?node (take k cs)"
      using owns_take [OF assms(2) k u _ f [unfolded l_def], of ?node] by (simp add: node1_def)
    moreover have "fat_get ef' d = fat_get ef d" if "d \<notin> set cs" for d
      using f [of d] that lk(1) in_set_dropD [of d k cs] by auto
    ultimately show ?thesis using run True r(1-3) u sh by (simp add: shrink_post_def node1_def)
  qed
qed

text \<open>
  \<^verbatim>\<open>shrink_file\<close> always returns; on success the file keeps a prefix of its clusters and the rest is
  free, and on a healthy medium it succeeds.
\<close>

lemma shrink_file_ok:
  assumes "vol_ok ef" "owns ef node cs" "unat current = length cs" "0 < difference" "difference \<le> current"
  shows "shrink_post ef node cs (unat current - unat difference) (shrink_file ef node current difference)"
proof (cases "difference = current")
  case True
  moreover have "cs \<noteq> []" using True assms(3,4) by (auto simp: word_gt_0 unat_eq_zero)
  ultimately show ?thesis using shrink_to_nothing [OF assms(1-3)] by simp
next
  case False
  then show ?thesis using shrink_tail [OF assms(1-4)] assms(5) by simp
qed

section \<open>Growing\<close>

lemma valid_bound: "vol_ok ef \<Longrightarrow> valid ef c \<Longrightarrow> unat c < 0xfffffff7"
  unfolding vol_ok_def valid_unat by linarith

lemma make_noncontiguous_loop_ok:
  assumes "vol_ok ef" "\<forall>c \<in> set cs. valid ef c" "successively (\<lambda>c d. c + 1 = d) cs" "distinct cs" "cs \<noteq> []"
    "make_noncontiguous_loop ef (length cs - 1) (hd cs) = (ok, ef')"
  shows "fat_update ef ef' \<and> ef_cmap ef' = ef_cmap ef \<and> (writable ef \<longrightarrow> ok) \<and>
    (\<forall>d. d \<notin> set cs \<longrightarrow> fat_get ef' d = fat_get ef d) \<and>
    (ok \<longrightarrow> successively (\<lambda>c d. fat_get ef' c = d) cs)"
  using assms
proof (induction cs arbitrary: ef)
  case (Cons c cs)
  show ?case
  proof (cases cs)
    case Nil
    then show ?thesis using Cons.prems by simp
  next
    case (Cons d ds)
    obtain ok1 ef1 where s: "set_next_cluster ef False c (c + 1) = (ok1, ef1)" by fastforce
    have v: "valid ef c" "c + 1 = d" using Cons.prems Cons by (auto simp: successively_Cons)
    note sn = set_next_any [OF Cons.prems(1) v(1) s]
    show ?thesis
    proof (cases ok1)
      case False
      then show ?thesis using Cons.prems(6) s sn Cons by auto
    next
      case True
      have v1: "vol_ok ef1" "ef_sb ef1 = ef_sb ef" "writable ef1 \<longleftrightarrow> writable ef"
        using sn(1) Cons.prems(1) by (auto simp: fat_update_ok fat_update_fields fat_update_writable)
      have "make_noncontiguous_loop ef1 (length cs - 1) (hd cs) = (ok, ef')"
        using Cons.prems(6) s True v(2) Cons by simp
      then have r: "fat_update ef1 ef'" "ef_cmap ef' = ef_cmap ef1" "writable ef \<longrightarrow> ok"
        "\<forall>d. d \<notin> set cs \<longrightarrow> fat_get ef' d = fat_get ef1 d" "ok \<longrightarrow> successively (\<lambda>c d. fat_get ef' c = d) cs"
        using Cons.IH [of ef1] Cons.prems(2-4) v1 Cons by auto
      have "fat_get ef' c = d" using r(4) Cons.prems(4) sn(6) True v(2) by simp
      moreover have "fat_get ef' e = fat_get ef e" if "e \<notin> set (c # cs)" for e
        using r(4) sn(4) [of e] that by simp
      ultimately show ?thesis using r fat_update_trans [OF sn(1) r(1)] sn(3) Cons
        by (simp add: successively_Cons)
    qed
  qed
qed simp

lemma contiguous_nth:
  assumes "successively (\<lambda>c d. c + 1 = d) cs" "\<forall>c \<in> set cs. valid ef c" "vol_ok ef" "i < length cs"
  shows "unat (cs ! i) = unat (hd cs) + i"
  using assms(4)
proof (induction i)
  case 0
  then show ?case by (simp add: hd_conv_nth)
next
  case (Suc i)
  have "cs ! Suc i = cs ! i + 1" using successively_nth [OF assms(1) Suc.prems] by simp
  moreover have "valid ef (cs ! i)" using assms(2) Suc.prems by simp
  then have "unat (cs ! i) < 0xfffffff7" using valid_bound [OF assms(3)] by blast
  then have "unat (cs ! i + 1) = unat (cs ! i) + 1" by (simp add: unat_word_ariths)
  ultimately show ?case using Suc by simp
qed

lemma make_noncontiguous_ok:
  assumes "vol_ok ef" "\<forall>c \<in> set cs. valid ef c" "successively (\<lambda>c d. c + 1 = d) cs" "distinct cs" "cs \<noteq> []"
    "make_noncontiguous ef (hd cs) (last cs) = (ok, ef')"
  shows "fat_update ef ef'" "ef_cmap ef' = ef_cmap ef" "writable ef \<longrightarrow> ok"
    "\<forall>d. d \<notin> set cs \<longrightarrow> fat_get ef' d = fat_get ef d" "ok \<longrightarrow> successively (\<lambda>c d. fat_get ef' c = d) cs"
proof -
  have "unat (last cs) - unat (hd cs) = length cs - 1"
    using contiguous_nth [OF assms(3,2,1), of "length cs - 1"] assms(5) by (simp add: last_conv_nth)
  then show "fat_update ef ef'" "ef_cmap ef' = ef_cmap ef" "writable ef \<longrightarrow> ok"
    "\<forall>d. d \<notin> set cs \<longrightarrow> fat_get ef' d = fat_get ef d" "ok \<longrightarrow> successively (\<lambda>c d. fat_get ef' c = d) cs"
    using make_noncontiguous_loop_ok [OF assms(1-5)] assms(6) by (simp_all add: make_noncontiguous_def)
qed

lemma owns_frame:
  assumes "owns ef node cs" "fat_update ef ef'" "\<And>c. c \<in> set cs \<Longrightarrow> alloc ef' c \<and> fat_get ef' c = fat_get ef c"
  shows "owns ef' node cs"
  using assms linked_frame [of cs ef' ef node] by (auto simp: owns_def fat_update_fields)

lemma owns_FAT: "\<not> n_is_contiguous node \<Longrightarrow>
    successively (\<lambda>c d. succ_of ef node c = d) cs \<longleftrightarrow> fat.chained ef cs"
  by (simp add: succ_of_def fat.chained_def)

lemma owns_contiguous: "n_is_contiguous node \<Longrightarrow>
    successively (\<lambda>c d. succ_of ef node c = d) cs \<longleftrightarrow> successively (\<lambda>c d. c + 1 = d) cs"
  by (simp add: succ_of_def)

text \<open>Writing the slot of the last cluster does not disturb the file.\<close>

lemma owns_set_last:
  assumes "vol_ok ef" "owns ef node cs" "cs \<noteq> []"
    "set_next_cluster ef (n_is_contiguous node) (last cs) v = (True, ef')"
  shows "owns ef' node cs"
proof -
  have l: "valid ef (last cs)" "last cs \<notin> set (butlast cs)" "\<forall>c \<in> set cs. valid ef c"
    using assms(2,3) by (auto simp: owns_def) (metis append_butlast_last_id disjoint_iff distinct_append
        list.set_intros(1))
  note sn = set_next_any [OF assms(1) l(1) assms(4)]
  have "successively (\<lambda>c d. succ_of ef' node c = d) cs"
  proof (cases "n_is_contiguous node")
    case True
    then show ?thesis using assms(2) by (simp add: owns_def succ_of_def)
  next
    case False
    then have "set_next_cluster ef False (last cs) v = (True, ef')" using assms(4) by simp
    then show ?thesis using fat.chained_put [OF assms(1) l(1) _ l(3,2)] assms(2) False
      by (simp add: owns_def owns_FAT)
  qed
  then show ?thesis using assms(2) sn(1,3) by (auto simp: owns_def alloc_def fat_update_fields)
qed

lemma fptr_ok_snoc:
  "cs \<noteq> [] \<Longrightarrow> fptr_ok node cs \<Longrightarrow> n_start_cluster node' = n_start_cluster node \<Longrightarrow>
    n_fptr_index node' = n_fptr_index node \<Longrightarrow> n_fptr_cluster node' = n_fptr_cluster node \<Longrightarrow>
    fptr_ok node' (cs @ [c])"
  by (auto simp: fptr_ok_def nth_append)

lemma grow_link_split:
  assumes "vol_ok ef" "owns ef node cs" "cs \<noteq> []" "n_is_contiguous node"
    "make_noncontiguous ef (n_start_cluster node) (last cs) = (ok, ef')"
  shows "fat_update ef ef'" "ef_cmap ef' = ef_cmap ef" "writable ef \<longrightarrow> ok"
    "\<forall>d. d \<notin> set cs \<longrightarrow> fat_get ef' d = fat_get ef d"
    "ok \<longrightarrow> owns ef' (node\<lparr>n_is_contiguous := False, n_is_dirty := True\<rparr>) cs"
proof -
  have o: "distinct cs" "\<forall>c \<in> set cs. valid ef c" "successively (\<lambda>c d. c + 1 = d) cs" "n_start_cluster node = hd cs"
    using assms(2-4) by (auto simp: owns_def fptr_ok_def owns_contiguous)
  note m = make_noncontiguous_ok [OF assms(1) o(2,3,1) assms(3) assms(5) [unfolded o(4)]]
  then show "fat_update ef ef'" "ef_cmap ef' = ef_cmap ef" "writable ef \<longrightarrow> ok"
    "\<forall>d. d \<notin> set cs \<longrightarrow> fat_get ef' d = fat_get ef d" by blast+
  show "ok \<longrightarrow> owns ef' (node\<lparr>n_is_contiguous := False, n_is_dirty := True\<rparr>) cs"
    using m(1,2,5) assms(2) by (auto simp: owns_def succ_of_def fptr_ok_def alloc_def fat_update_fields)
qed

lemma owns_link:
  assumes "vol_ok ef" "owns ef node cs" "cs \<noteq> []" "valid ef c" "alloc ef c" "c \<notin> set cs"
    "n_is_contiguous node \<Longrightarrow> c = last cs + 1"
    "set_next_cluster ef (n_is_contiguous node) (last cs) c = (True, ef')"
  shows "owns ef' node (cs @ [c])"
proof -
  have l: "valid ef (last cs)" "\<forall>c \<in> set cs. valid ef c" "distinct cs"
    using assms(2,3) by (auto simp: owns_def)
  note sn = set_next_any [OF assms(1) l(1) assms(8)]
  have "successively (\<lambda>c d. succ_of ef' node c = d) (cs @ [c])"
  proof (cases "n_is_contiguous node")
    case True
    then show ?thesis using assms(2,3,7) by (simp add: owns_def succ_of_def successively_append_iff)
  next
    case False
    then have "set_next_cluster ef False (last cs) c = (True, ef')" using assms(8) by simp
    then show ?thesis using fat.chained_put_snoc [OF assms(1) _ l(2) assms(3) l(3)] assms(2) False
      by (simp add: owns_def owns_FAT)
  qed
  then show ?thesis using assms(2-6) sn(1,3) fptr_ok_snoc [OF assms(3), of node node c]
    by (auto simp: owns_def alloc_def fat_update_fields)
qed

lemma grow_link_ok:
  assumes "vol_ok ef" "owns ef node cs" "cs \<noteq> []" "valid ef c" "alloc ef c" "c \<notin> set cs"
    "grow_link ef node (last cs) c = (ok, ef', node')"
  shows "fat_update ef ef' \<and> ef_cmap ef' = ef_cmap ef \<and> (writable ef \<longrightarrow> ok) \<and>
    (\<forall>d. d \<notin> set cs \<longrightarrow> fat_get ef' d = fat_get ef d) \<and> (ok \<longrightarrow> owns ef' node' (cs @ [c]))"
proof -
  have l: "valid ef (last cs)" using assms(2,3) by (simp add: owns_def)
  show ?thesis
  proof (cases "c \<noteq> last cs + 1 \<and> n_is_contiguous node")
    case True
    obtain ok1 ef1 where m: "make_noncontiguous ef (n_start_cluster node) (last cs) = (ok1, ef1)" by fastforce
    let ?node = "node\<lparr>n_is_contiguous := False, n_is_dirty := True\<rparr>"
    note g = grow_link_split [OF assms(1-3) conjunct2 [OF True] m]
    show ?thesis
    proof (cases ok1)
      case False
      then show ?thesis using assms(7) True m g by (auto simp: grow_link_def)
    next
      case ok1: True
      have v1: "vol_ok ef1" "ef_sb ef1 = ef_sb ef" "writable ef1 \<longleftrightarrow> writable ef"
        using g(1) assms(1) by (auto simp: fat_update_ok fat_update_fields fat_update_writable)
      have s: "set_next_cluster ef1 (n_is_contiguous ?node) (last cs) c = (ok, ef')" "node' = ?node"
        using assms(7) True m ok1 by (auto simp: grow_link_def split: prod.splits)
      note sn = set_next_any [OF v1(1) _ s(1)]
      have "ok \<longrightarrow> owns ef' node' (cs @ [c])"
        using owns_link [of ef1 ?node cs c ef'] g(2,5) ok1 s assms(3-6) v1 by (simp add: alloc_def)
      moreover have "\<forall>d. d \<notin> set cs \<longrightarrow> fat_get ef' d = fat_get ef d"
        using g(4) sn(4) l v1(2) assms(3) by (metis last_in_set)
      ultimately show ?thesis
        using sn(1-3) g(1-3) l v1 fat_update_trans [OF g(1)] by auto
    qed
  next
    case False
    then have s: "set_next_cluster ef (n_is_contiguous node) (last cs) c = (ok, ef')" "node' = node"
      using assms(7) by (auto simp: grow_link_def split: prod.splits if_splits)
    note sn = set_next_any [OF assms(1) l s(1)]
    have "ok \<longrightarrow> owns ef' node' (cs @ [c])"
      using owns_link [OF assms(1-6)] s False by auto
    moreover have "\<forall>d. d \<notin> set cs \<longrightarrow> fat_get ef' d = fat_get ef d" using sn(4) assms(3) by (metis last_in_set)
    ultimately show ?thesis using sn by auto
  qed
qed

text \<open>
  \<open>grown ef ef' new\<close>: the clusters \<open>new\<close> were free and are taken now, and nothing else changed in the
  bitmap.
\<close>

definition grown :: "exfat \<Rightarrow> exfat \<Rightarrow> cluster_t list \<Rightarrow> bool" where
  "grown ef ef' new \<longleftrightarrow> set new \<subseteq> free_set ef \<and>
     (\<forall>d. valid ef d \<longrightarrow> (alloc ef' d \<longleftrightarrow> alloc ef d \<or> d \<in> set new))"

lemma finite_free [simp]: "finite (free_set ef)"
  by (rule finite_subset [OF subset_UNIV]) simp

lemma allocate_step:
  assumes "vol_ok ef" "owns ef node cs" "free_set ef \<noteq> {}"
  obtains c ef1 where "allocate_cluster ef hint = (c, ef1)" "valid ef c" "c \<in> free_set ef" "c \<notin> set cs"
    "fat_update ef ef1" "ef_dev ef1 = ef_dev ef" "owns ef1 node cs" "alloc ef1 c"
    "\<And>d. valid ef d \<Longrightarrow> alloc ef1 d \<longleftrightarrow> d = c \<or> alloc ef d" "free_set ef1 = free_set ef - {c}"
proof -
  obtain c where c: "c \<in> free_set ef" "allocate_cluster ef hint =
    (c, ef\<lparr>ef_cmap := (ef_cmap ef)\<lparr>cm_chunk := BMAP_SET (cm_chunk (ef_cmap ef)) (unat c - 2), cm_dirty := True\<rparr>\<rparr>)"
    using allocate_some [OF assms(1,3)] by blast
  define ef1 where "ef1 = ef\<lparr>ef_cmap := (ef_cmap ef)\<lparr>cm_chunk := BMAP_SET (cm_chunk (ef_cmap ef)) (unat c - 2), cm_dirty := True\<rparr>\<rparr>"
  have v: "valid ef c" "c \<notin> set cs" using c(1) assms(2) by (auto simp: free_set_def owns_def)
  have u: "fat_update ef ef1" unfolding ef1_def by (rule chunk_update) simp
  have a: "alloc ef1 d \<longleftrightarrow> d = c \<or> alloc ef d" if "valid ef d" for d
    by (rule alloc_set [OF assms(1) v(1) that ef1_def])
  have "fat_get ef1 = fat_get ef" using u by (simp add: fat_get_def fun_eq_iff fat_update_offset ef1_def)
  then have "owns ef1 node cs" using owns_frame [OF assms(2) u] a assms(2) by (simp add: owns_def)
  moreover have "free_set ef1 = free_set ef - {c}"
    using a u by (auto simp: free_set_def fat_update_fields)
  ultimately show ?thesis using that [of c ef1] c v u a by (simp add: ef1_def)
qed

text \<open>
  What the loop of \<^verbatim>\<open>grow_file\<close> promises when the file had the clusters \<open>old\<close> at the beginning, has
  got \<open>new\<close> since and wants \<open>n\<close> more.
\<close>

definition grow_post ::
    "exfat \<Rightarrow> cluster_t list \<Rightarrow> cluster_t list \<Rightarrow> nat \<Rightarrow> (int \<times> exfat \<times> exfat_node) option \<Rightarrow> bool" where
  "grow_post ef old new n result \<longleftrightarrow>
     (case result of
        None \<Rightarrow> False
      | Some (rc, ef', node') \<Rightarrow>
          fat_update ef ef' \<and>
          (\<forall>d. valid ef d \<longrightarrow> d \<notin> set (old @ new) \<longrightarrow> d \<notin> free_set ef \<longrightarrow> fat_get ef' d = fat_get ef d) \<and>
          (rc = 0 \<longrightarrow> (\<exists>new'. length new' = n \<and> owns ef' node' (old @ new @ new') \<and> grown ef ef' new')) \<and>
          (writable ef \<longrightarrow> (if n \<le> card (free_set ef) then rc = 0
             else rc = - ENOSPC \<and> owns ef' node' old \<and> shrunk ef ef' new)))"

lemma grow_loop_end:
  assumes "vol_ok ef" "owns ef node cs" "cs \<noteq> []" "cs = old @ new"
  shows "grow_post ef old new 0 (grow_loop ef node current 0 allocated (last cs))"
proof -
  obtain ok ef' where s: "set_next_cluster ef (n_is_contiguous node) (last cs) EXFAT_CLUSTER_END = (ok, ef')"
    by fastforce
  have v: "valid ef (last cs)" using assms(2,3) by (simp add: owns_def)
  note sn = set_next_any [OF assms(1) v s]
  have "owns ef' node (old @ new @ [])" if ok using owns_set_last [OF assms(1-3)] s that assms(4) by simp
  moreover have "grown ef ef' []" using sn(3) by (simp add: grown_def alloc_def)
  moreover have "\<forall>d. d \<notin> set (old @ new) \<longrightarrow> fat_get ef' d = fat_get ef d"
    using sn(4) assms(3,4) by (metis last_in_set)
  ultimately show ?thesis using s sn(1,2) by (auto simp: grow_post_def)
qed

lemma grow_loop_nospace:
  assumes "vol_ok ef" "owns ef node (old @ new)" "free_set ef = {}"
    "unat current = length old" "unat allocated = length new"
  shows "grow_post ef old new (Suc n) (grow_loop ef node current (Suc n) allocated previous)"
proof -
  have a: "allocate_cluster ef (previous + 1) = (EXFAT_CLUSTER_END, ef)"
    by (rule allocate_none [OF assms(1,3)])
  show ?thesis
  proof (cases "allocated = 0")
    case True
    then have "new = []" using assms(5) by simp
    then show ?thesis using a True assms(1-3) by (simp add: grow_post_def shrunk_def)
  next
    case False
    have "length (old @ new) < 2 ^ 32"
      using owns_length [OF assms(2)] unat_u32 [of "sb_cluster_count (ef_sb ef)"] by simp
    then have ca: "unat (current + allocated) = length (old @ new)"
      using assms(4,5) by (simp add: unat_word_ariths)
    have "shrink_post ef node (old @ new) (length old) (shrink_file ef node (current + allocated) allocated)"
      using shrink_file_ok [OF assms(1,2) ca, of allocated] False ca assms(5)
      by (auto simp: word_gt_0 word_le_nat_alt)
    then show ?thesis using a False assms(1,3)
      by (auto simp: grow_post_def shrink_post_def split: option.splits)
  qed
qed

text \<open>One more cluster: what holds after the rest of the loop holds before it.\<close>

lemma grow_post_step:
  assumes "grow_post ef2 old (new @ [c]) n result" "c \<in> free_set ef" "fat_update ef ef2"
    "\<And>d. valid ef d \<Longrightarrow> alloc ef2 d \<longleftrightarrow> d = c \<or> alloc ef d"
    "\<And>d. d \<notin> set (old @ new) \<Longrightarrow> fat_get ef2 d = fat_get ef d"
  shows "grow_post ef old new (Suc n) result"
proof -
  have sb: "ef_sb ef2 = ef_sb ef" "writable ef2 \<longleftrightarrow> writable ef"
    using assms(3) by (auto simp: fat_update_fields fat_update_writable)
  have free: "free_set ef2 = free_set ef - {c}" using assms(4) sb by (auto simp: free_set_def)
  then have card: "card (free_set ef) = Suc (card (free_set ef2))"
    using card.remove [OF finite_free assms(2)] by simp
  obtain rc ef' node' where res: "result = Some (rc, ef', node')"
    using assms(1) by (auto simp: grow_post_def split: option.splits)
  have r: "fat_update ef2 ef'"
    "\<forall>d. valid ef d \<longrightarrow> d \<notin> set (old @ new @ [c]) \<longrightarrow> d \<notin> free_set ef2 \<longrightarrow> fat_get ef' d = fat_get ef2 d"
    "rc = 0 \<longrightarrow> (\<exists>new'. length new' = n \<and> owns ef' node' (old @ (new @ [c]) @ new') \<and> grown ef2 ef' new')"
    "writable ef \<longrightarrow> (if n \<le> card (free_set ef2) then rc = 0
       else rc = - ENOSPC \<and> owns ef' node' old \<and> shrunk ef2 ef' (new @ [c]))"
    using assms(1) unfolding grow_post_def res option.case prod.case sb append.assoc by blast+
  have "\<exists>new'. length new' = Suc n \<and> owns ef' node' (old @ new @ new') \<and> grown ef ef' new'" if z: "rc = 0"
  proof -
    obtain new' where n: "length new' = n" "owns ef' node' (old @ (new @ [c]) @ new')" "grown ef2 ef' new'"
      using r(3) z by blast
    have "grown ef ef' (c # new')" using n(3) assms(2,4) free sb by (auto simp: grown_def)
    then show ?thesis using n by (intro exI [of _ "c # new'"]) simp
  qed
  moreover have "shrunk ef ef' new" if "shrunk ef2 ef' (new @ [c])"
    using that assms(2,4) sb by (auto simp: shrunk_def free_set_def)
  moreover have "fat_get ef' d = fat_get ef d" if "valid ef d" "d \<notin> set (old @ new)" "d \<notin> free_set ef" for d
    using r(2) assms(2,5) that free by auto
  moreover have "fat_update ef ef'" using assms(3) r(1) by (rule fat_update_trans)
  ultimately show ?thesis using res r(4) card by (auto simp: grow_post_def split: if_splits)
qed

lemma grow_loop_ok:
  assumes "vol_ok ef" "owns ef node (old @ new)" "old @ new \<noteq> []" "previous = last (old @ new)"
    "unat current = length old" "unat allocated = length new"
  shows "grow_post ef old new n (grow_loop ef node current n allocated previous)"
  using assms
proof (induction n arbitrary: ef node new previous allocated)
  case 0
  then show ?case using grow_loop_end [OF 0(1-3) refl] by simp
next
  case (Suc n)
  note o = Suc.prems(2)
  show ?case
  proof (cases "free_set ef = {}")
    case True
    then show ?thesis by (rule grow_loop_nospace [OF Suc.prems(1,2) _ Suc.prems(5,6)])
  next
    case False
    obtain c ef1 where a: "allocate_cluster ef (previous + 1) = (c, ef1)" "valid ef c" "c \<in> free_set ef"
      "c \<notin> set (old @ new)" "fat_update ef ef1" "ef_dev ef1 = ef_dev ef" "owns ef1 node (old @ new)" "alloc ef1 c"
      "\<And>d. valid ef d \<Longrightarrow> alloc ef1 d \<longleftrightarrow> d = c \<or> alloc ef d"
      using allocate_step [OF Suc.prems(1) o False, of "previous + 1"] by metis
    have v1: "vol_ok ef1" "ef_sb ef1 = ef_sb ef" "writable ef1 \<longleftrightarrow> writable ef"
      using a(5) Suc.prems(1) by (auto simp: fat_update_ok fat_update_fields fat_update_writable)
    obtain ok ef2 node2 where l: "grow_link ef1 node previous c = (ok, ef2, node2)" by (metis prod_cases3)
    have g: "fat_update ef1 ef2" "ef_cmap ef2 = ef_cmap ef1" "writable ef \<longrightarrow> ok"
      "\<forall>d. d \<notin> set (old @ new) \<longrightarrow> fat_get ef2 d = fat_get ef1 d"
      "ok \<longrightarrow> owns ef2 node2 ((old @ new) @ [c])"
      using grow_link_ok [OF v1(1) a(7) Suc.prems(3) _ a(8,4) l [unfolded Suc.prems(4)]] a(2) v1(2,3) by auto
    have u2: "fat_update ef ef2" using a(5) g(1) by (rule fat_update_trans)
    have fg: "fat_get ef2 d = fat_get ef d" if "d \<notin> set (old @ new)" for d
      using g(4) that a(5,6) by (simp add: fat_get_def fat_update_offset)
    show ?thesis
    proof (cases ok)
      case False
      then show ?thesis using a(1,2) v1(2) l g(3) u2 fg by (auto simp: grow_post_def)
    next
      case True
      then have o2: "owns ef2 node2 (old @ new @ [c])" using g(5) by simp
      then have "length (new @ [c]) < 2 ^ 32"
        using owns_length [OF o2] unat_u32 [of "sb_cluster_count (ef_sb ef2)"] by simp
      then have "unat (allocated + 1) = length (new @ [c])"
        using Suc.prems(6) by (simp add: unat_word_ariths)
      then have "grow_post ef2 old (new @ [c]) n (grow_loop ef2 node2 current n (allocated + 1) c)"
        using Suc.IH [OF _ o2] u2 Suc.prems(1,5) by (simp add: fat_update_ok)
      then have "grow_post ef old new (Suc n) (grow_loop ef2 node2 current n (allocated + 1) c)"
        using a(3,9) u2 fg g(2) by (elim grow_post_step) (simp_all add: alloc_def)
      then show ?thesis using a(1,2) v1(2) l True by simp
    qed
  qed
qed

text \<open>
  \<^verbatim>\<open>grow_file\<close> always returns; on success the file has its old clusters followed by \<open>difference\<close> that
  were free; on a healthy medium it succeeds exactly when there are that many free clusters, and
  otherwise the bitmap and the file are what they were.
\<close>

lemma grow_file_ok:
  assumes "vol_ok ef" "owns ef node cs" "unat current = length cs" "difference \<noteq> 0"
  shows "grow_post ef cs [] (unat difference) (grow_file ef node current difference)"
proof (cases "cs = []")
  case False
  then have st: "n_start_cluster node = hd cs" "valid ef (hd cs)" using assms(2) by (auto simp: owns_def fptr_ok_def)
  then have "n_start_cluster node \<noteq> EXFAT_CLUSTER_FREE" by (auto simp: cluster_consts)
  moreover have c1: "unat (current - 1) = length cs - 1"
    using False assms(3) by (simp add: unat_sub_if' word_le_nat_alt Suc_le_eq)
  define node1 where "node1 = node\<lparr>n_fptr_index := current - 1, n_fptr_cluster := last cs\<rparr>"
  have "exfat_advance_cluster ef node (current - 1) = Some (last cs, node1)"
    using advance_owns [OF assms(1,2), of "current - 1"] c1 False by (simp add: node1_def last_conv_nth)
  moreover have "owns ef node1 cs"
    using owns_fptr [OF assms(2), of "current - 1"] c1 False by (simp add: node1_def last_conv_nth)
  then have "grow_post ef cs [] (unat difference) (grow_loop ef node1 current (unat difference) 0 (last cs))"
    using grow_loop_ok [OF assms(1), of node1 cs "[]"] False assms(3) by simp
  moreover have "valid ef (last cs)" using assms(2) False by (simp add: owns_def)
  ultimately show ?thesis using assms(4) by (simp add: grow_file_def)
next
  case True
  then have st: "n_start_cluster node = EXFAT_CLUSTER_FREE" "n_fptr_index node = 0"
    using assms(2) by (auto simp: owns_def fptr_ok_def)
  obtain m where m: "unat difference = Suc m" using assms(4) by (metis not0_implies_Suc unat_eq_zero)
  show ?thesis
  proof (cases "free_set ef = {}")
    case True
    then show ?thesis using allocate_none [OF assms(1) True, of 0] st assms(1,2,4) \<open>cs = []\<close> m
      by (simp add: grow_file_def grow_post_def shrunk_def)
  next
    case False
    obtain c ef1 where a: "allocate_cluster ef 0 = (c, ef1)" "valid ef c" "c \<in> free_set ef"
      "fat_update ef ef1" "ef_dev ef1 = ef_dev ef" "alloc ef1 c"
      "\<And>d. valid ef d \<Longrightarrow> alloc ef1 d \<longleftrightarrow> d = c \<or> alloc ef d"
      using allocate_step [OF assms(1,2) False, of 0] by metis
    let ?node = "node\<lparr>n_fptr_cluster := c, n_start_cluster := c, n_is_contiguous := True\<rparr>"
    have "owns ef1 ?node ([] @ [c])" using a st by (simp add: owns_def fptr_ok_def fat_update_fields)
    then have "grow_post ef1 [] ([] @ [c]) m (grow_loop ef1 ?node current m 1 c)"
      using grow_loop_ok [of ef1 ?node "[]" "[] @ [c]"] a(4) assms(1,3) \<open>cs = []\<close> by (simp add: fat_update_ok)
    then have "grow_post ef [] [] (Suc m) (grow_loop ef1 ?node current m 1 c)"
      using a(3-5,7) by (elim grow_post_step) (simp_all add: fat_get_def fat_update_offset)
    then show ?thesis using a(1,2,4) st assms(4) \<open>cs = []\<close> m by (simp add: grow_file_def fat_update_fields)
  qed
qed

section \<open>Counting free clusters\<close>

lemma nibble_count:
  "nibble_bits ! unat (take_bit 4 x) =
     of_bool (bit x 0) + of_bool (bit x 1) + of_bool (bit x 2) + of_bool (bit x 3)" for x :: u8
proof -
  define m where "m = unat (take_bit 4 x)"
  have b: "bit x k \<longleftrightarrow> bit m k" if "k < 4" for k
    using that by (simp add: m_def bit_unsigned_iff bit_take_bit_iff bit_imp_le_length)
  have "m < 16" using take_bit_nat_less_exp [of 4 "unat x"] by (simp add: m_def unsigned_take_bit_eq)
  then have "m \<in> {0,1,2,3,4,5,6,7,8,9,10,11,12,13,14,15}" by (simp, presburger)
  then have "nibble_bits ! m = of_bool (bit m 0) + of_bool (bit m 1) + of_bool (bit m 2) + of_bool (bit m 3)"
    by (elim insertE) (simp_all add: nibble_bits_def bit_0)
  then show ?thesis by (simp add: b m_def)
qed

lemma sum_lessThan_8:
  "(\<Sum>k<8. f k) = f 0 + f 1 + f 2 + f 3 + f 4 + f 5 + f 6 + f (7::nat)" for f :: "nat \<Rightarrow> u32"
proof -
  have "{..<8} = {0, 1, 2, 3, 4, 5, 6, 7::nat}" by auto
  then show ?thesis by (simp add: ac_simps)
qed

lemma byte_bits_count: "byte_bits b = (\<Sum>k<8. of_bool (bit b k))"
proof -
  have "b AND 0xf = take_bit 4 b" by (simp add: take_bit_eq_mask mask_eq_exp_minus_1)
  moreover have "drop_bit 4 b = take_bit 4 (drop_bit 4 b)"
    by (rule bit_word_eqI) (auto simp: bit_simps dest: bit_imp_le_length)
  ultimately have "byte_bits b = nibble_bits ! unat (take_bit 4 b) + nibble_bits ! unat (take_bit 4 (drop_bit 4 b))"
    by (simp add: byte_bits_def)
  moreover have "(\<Sum>k<8. of_bool (bit b k) :: u32) =
      of_bool (bit b 0) + of_bool (bit b 1) + of_bool (bit b 2) + of_bool (bit b 3) +
      (of_bool (bit b 4) + of_bool (bit b 5) + of_bool (bit b 6) + of_bool (bit b 7))"
    unfolding sum_lessThan_8 by (simp only: ac_simps)
  ultimately show ?thesis by (simp only: nibble_count bit_drop_bit_eq o_def add_0_right) simp
qed

lemma foldl_add: "foldl (\<lambda>u i. u + f i) a xs = a + sum_list (map f xs)" for a :: "'a::comm_monoid_add"
  by (induction xs arbitrary: a) (simp_all add: ac_simps)

lemma foldl_count:
  "foldl (\<lambda>u i. if P i then u + 1 else u) a [m..<n] = a + (\<Sum>i\<in>{m..<n}. of_bool (P i))" for a :: u32
proof -
  have "(\<lambda>u i. if P i then u + 1 else u) = (\<lambda>u i. u + of_bool (P i) :: u32)" by (auto simp: fun_eq_iff)
  then show ?thesis by (simp add: foldl_add interv_sum_list_conv_sum_set_nat)
qed

lemma count_free_bits:
  assumes "unat (cm_size (ef_cmap ef)) \<le> 64 * length (cm_chunk (ef_cmap ef))"
  shows "exfat_count_free_clusters ef =
    of_nat (card {i. i < unat (cm_size (ef_cmap ef)) \<and> \<not> bmap (cm_chunk (ef_cmap ef)) i})"
proof -
  let ?bm = "cm_chunk (ef_cmap ef)" and ?n = "unat (cm_size (ef_cmap ef))"
  let ?u = "\<lambda>i. of_bool (bmap ?bm i) :: u32"
  have byte: "(\<Sum>k<8. of_bool (bit (bytes_of_words ?bm ! i) k)) = (\<Sum>j = i * 8..<i * 8 + 8. ?u j)" if "i < ?n div 8" for i
  proof -
    have "(\<Sum>j = i * 8..<i * 8 + 8. ?u j) = (\<Sum>k<8. ?u (i * 8 + k))"
      by (simp add: sum.shift_bounds_nat_ivl [of _ 0 "i * 8" 8, simplified] lessThan_atLeast0 add.commute)
    also have "\<dots> = (\<Sum>k<8. of_bool (bit (bytes_of_words ?bm ! i) k))"
    proof (rule sum.cong [OF refl])
      fix k :: nat assume k: "k \<in> {..<8}"
      then have "i * 8 + k < 64 * length ?bm" using that assms by auto
      moreover have "(i * 8 + k) div 8 = i" "(i * 8 + k) mod 8 = k" using k by auto
      ultimately show "?u (i * 8 + k) = of_bool (bit (bytes_of_words ?bm ! i) k)"
        using bit_bytes_of_words [of "i * 8 + k" ?bm] by simp
    qed
    finally show ?thesis ..
  qed
  have "(\<Sum>i<?n div 8. byte_bits (bytes_of_words ?bm ! i)) = (\<Sum>i<?n div 8. \<Sum>j = i * 8..<i * 8 + 8. ?u j)"
    by (rule sum.cong [OF refl]) (use byte in \<open>simp only: byte_bits_count lessThan_iff\<close>)
  also have "\<dots> = (\<Sum>i<?n div 8 * 8. ?u i)" by (rule sum.nat_group)
  finally have "(\<Sum>i<?n div 8. byte_bits (bytes_of_words ?bm ! i)) = (\<Sum>i<?n div 8 * 8. ?u i)" .
  moreover have "(\<Sum>i<?n div 8 * 8. ?u i) + (\<Sum>i\<in>{?n div 8 * 8..<?n}. ?u i) = (\<Sum>i<?n. ?u i)"
    unfolding lessThan_atLeast0 by (rule sum.atLeastLessThan_concat) simp_all
  moreover have "(\<Sum>i<?n. ?u i) = of_nat (card ({..<?n} \<inter> Collect (bmap ?bm)))"
    by (simp add: sum_of_bool_eq)
  moreover have "{..<?n} \<inter> Collect (bmap ?bm) = {i. i < ?n \<and> bmap ?bm i}" by auto
  ultimately have e: "exfat_count_free_clusters ef = of_nat ?n - of_nat (card {i. i < ?n \<and> bmap ?bm i})"
    by (simp add: exfat_count_free_clusters_def Let_def foldl_add foldl_count BMAP_GET_eq_0
        interv_sum_list_conv_sum_set_nat lessThan_atLeast0)
  have c: "card {i. i < ?n \<and> bmap ?bm i} + card {i. i < ?n \<and> \<not> bmap ?bm i} = ?n"
  proof -
    have "{i. i < ?n \<and> bmap ?bm i} \<union> {i. i < ?n \<and> \<not> bmap ?bm i} = {..<?n}" by blast
    moreover have "{i. i < ?n \<and> bmap ?bm i} \<inter> {i. i < ?n \<and> \<not> bmap ?bm i} = {}" by blast
    ultimately show ?thesis by (subst card_Un_disjoint [symmetric]) simp_all
  qed
  have "(of_nat ?n :: u32) =
      of_nat (card {i. i < ?n \<and> bmap ?bm i}) + of_nat (card {i. i < ?n \<and> \<not> bmap ?bm i})"
    using arg_cong [OF c, of "of_nat :: nat \<Rightarrow> u32"] by (simp only: of_nat_add)
  then show ?thesis unfolding e by (rule ssubst) (rule add_diff_cancel_left')
qed

lemma count_free_ok: "vol_ok ef \<Longrightarrow> exfat_count_free_clusters ef = of_nat (card (free_set ef))"
proof -
  assume v: "vol_ok ef"
  let ?F = "{i. i < unat (cm_size (ef_cmap ef)) \<and> \<not> bmap (cm_chunk (ef_cmap ef)) i}"
  have "bij_betw (\<lambda>c. unat c - 2) (free_set ef) ?F"
  proof (rule bij_betw_byWitness [where f' = "\<lambda>i. of_nat i + EXFAT_FIRST_DATA_CLUSTER"])
    show "\<forall>c\<in>free_set ef. of_nat (unat c - 2) + EXFAT_FIRST_DATA_CLUSTER = c"
      by (auto simp: free_set_def valid_unat cluster_consts of_nat_diff)
    show "\<forall>i\<in>?F. unat (of_nat i + EXFAT_FIRST_DATA_CLUSTER :: u32) - 2 = i"
      using cluster_of_index(2) [OF v] v by (auto simp: vol_ok_def)
    show "(\<lambda>c. unat c - 2) ` free_set ef \<subseteq> ?F"
      using v by (auto simp: free_set_def valid_unat alloc_def vol_ok_def)
    show "(\<lambda>i. of_nat i + EXFAT_FIRST_DATA_CLUSTER) ` ?F \<subseteq> free_set ef"
      using cluster_of_index(1,2) [OF v] v by (auto simp: free_set_def alloc_def vol_ok_def)
  qed
  then have "card (free_set ef) = card ?F" by (rule bij_betw_same_card)
  then show ?thesis using count_free_bits [of ef] v by (simp add: vol_ok_def)
qed

section \<open>Properties\<close>

text \<open>
  C12: \<^verbatim>\<open>grow_file\<close> on a healthy medium.  The call always returns; when there are at least
  \<open>difference\<close> free clusters it succeeds, and the file then consists of its old clusters followed by
  \<open>difference\<close> clusters that were free before and are exactly the ones newly marked in the bitmap;
  when there are fewer it reports \<open>ENOSPC\<close>, the file has its old clusters and the bitmap its old bits.
\<close>

theorem grow_file_correct:
  assumes "vol_ok ef" "writable ef" "owns ef node cs" "unat current = length cs" "difference \<noteq> 0"
  shows "\<exists>rc ef' node'. grow_file ef node current difference = Some (rc, ef', node') \<and>
    (if unat difference \<le> card (free_set ef)
     then rc = 0 \<and> (\<exists>new. length new = unat difference \<and> set new \<subseteq> free_set ef \<and> owns ef' node' (cs @ new) \<and>
            (\<forall>d. valid ef d \<longrightarrow> (alloc ef' d \<longleftrightarrow> alloc ef d \<or> d \<in> set new)))
     else rc = - ENOSPC \<and> owns ef' node' cs \<and> (\<forall>d. valid ef d \<longrightarrow> (alloc ef' d \<longleftrightarrow> alloc ef d)))"
proof -
  obtain rc ef' node' where r: "grow_file ef node current difference = Some (rc, ef', node')"
    "rc = 0 \<longrightarrow> (\<exists>new. length new = unat difference \<and> owns ef' node' (cs @ new) \<and> grown ef ef' new)"
    "if unat difference \<le> card (free_set ef) then rc = 0 else rc = - ENOSPC \<and> owns ef' node' cs \<and> shrunk ef ef' []"
    using grow_file_ok [OF assms(1,3-5)] assms(2) unfolding grow_post_def
    by (auto split: option.splits if_splits) blast
  then show ?thesis by (intro exI [of _ rc] exI [of _ ef'] exI [of _ node'])
      (auto simp: grown_def shrunk_def split: if_splits)
qed

text \<open>
  C15: \<^verbatim>\<open>grow_file\<close> leaves every other file alone, whatever the medium does: a file whose clusters are
  disjoint from those of the file that grows keeps its clusters when the call succeeds.
\<close>

theorem grow_file_frame:
  assumes "vol_ok ef" "owns ef node cs" "unat current = length cs" "difference \<noteq> 0"
    "owns ef other ds" "set cs \<inter> set ds = {}" "grow_file ef node current difference = Some (0, ef', node')"
  shows "owns ef' other ds"
proof -
  obtain new where g: "grown ef ef' new" and u: "fat_update ef ef'"
    and f: "\<And>d. valid ef d \<Longrightarrow> d \<notin> set cs \<Longrightarrow> d \<notin> free_set ef \<Longrightarrow> fat_get ef' d = fat_get ef d"
    using grow_file_ok [OF assms(1-4)] assms(7) by (auto simp: grow_post_def)
  show ?thesis
  proof (rule owns_frame [OF assms(5) u])
    fix c assume c: "c \<in> set ds"
    then have "valid ef c" "alloc ef c" "c \<notin> set cs" using assms(5,6) by (auto simp: owns_def)
    then show "alloc ef' c \<and> fat_get ef' c = fat_get ef c"
      using g f [of c] by (simp add: grown_def free_set_def)
  qed
qed

text \<open>
  C14: \<^verbatim>\<open>shrink_file\<close>.  The call always returns, with success or \<open>EIO\<close>, and with success on a healthy
  medium; on success the file keeps the first \<open>current - difference\<close> of its clusters, the others are
  free, and nothing else changed in the bitmap.
\<close>

theorem shrink_file_correct:
  assumes "vol_ok ef" "owns ef node cs" "unat current = length cs" "0 < difference" "difference \<le> current"
  shows "\<exists>rc ef' node'. shrink_file ef node current difference = Some (rc, ef', node') \<and>
    (rc = 0 \<or> rc = - EIO) \<and> (writable ef \<longrightarrow> rc = 0) \<and>
    (rc = 0 \<longrightarrow> owns ef' node' (take (unat current - unat difference) cs) \<and>
       (\<forall>d. valid ef d \<longrightarrow>
          (alloc ef' d \<longleftrightarrow> alloc ef d \<and> d \<notin> set (drop (unat current - unat difference) cs))))"
  using shrink_file_ok [OF assms] by (auto simp: shrink_post_def shrunk_def split: option.splits)

text \<open>
  C33: \<^verbatim>\<open>exfat_count_free_clusters\<close>, which counts bytes through a table of nibbles and the last bits one
  by one, returns the number of clusters of the volume that the bitmap does not mark.
\<close>

theorem count_free_clusters_correct:
  assumes "vol_ok ef"
  shows "exfat_count_free_clusters ef = of_nat (card {c. valid ef c \<and> \<not> alloc ef c})"
  using count_free_ok [OF assms] by (simp add: free_set_def)

text \<open>
  C34: \<^verbatim>\<open>find_bit_and_set\<close> skips full words and stops at the first clear bit of the range: it takes the
  lowest clear bit, and reports the end mark, changing nothing, exactly when there is none.
\<close>

theorem find_bit_and_set_first_fit:
  assumes "en \<le> 64 * length bm"
  shows "find_bit_and_set bm start en =
    (case find (\<lambda>i. \<not> bmap bm i) [start..<en] of
       Some c \<Rightarrow> (of_nat c + EXFAT_FIRST_DATA_CLUSTER, BMAP_SET bm c)
     | None \<Rightarrow> (EXFAT_CLUSTER_END, bm))"
proof (cases "find (\<lambda>i. \<not> bmap bm i) [start..<en]")
  case None
  then have "\<forall>d. start \<le> d \<longrightarrow> d < en \<longrightarrow> bmap bm d" by (auto simp: find_None_iff)
  then have "find_bit_and_set bm start en = (EXFAT_CLUSTER_END, bm)"
    using find_bit_and_set_spec [OF assms, of start] by blast
  then show ?thesis using None by simp
next
  case (Some c)
  note f = find_Some_first [OF Some]
  obtain d where d: "start \<le> d" "d < en" "\<not> bmap bm d" "\<forall>e. start \<le> e \<longrightarrow> e < d \<longrightarrow> bmap bm e"
    "find_bit_and_set bm start en = (of_nat d + EXFAT_FIRST_DATA_CLUSTER, BMAP_SET bm d)"
    using find_bit_and_set_spec [OF assms, of start] f by blast
  have "d = c" using f d(1-4) by (meson linorder_neqE_nat)
  then show ?thesis using Some d(5) by simp
qed

text \<open>
  C32: \<^verbatim>\<open>exfat_advance_cluster\<close> with its cached position is indexing into the clusters of the file,
  whichever way the position was left by earlier calls.
\<close>

theorem advance_cluster_correct:
  assumes "vol_ok ef" "owns ef node cs" "unat count < length cs"
  shows "\<exists>node'. exfat_advance_cluster ef node count = Some (cs ! unat count, node') \<and> owns ef node' cs"
  using advance_owns [OF assms] owns_fptr [OF assms(2,3)] by blast

end
