(* ===== verification/Truncate.thy ===== *)
theory Truncate
  imports Chain
begin

text \<open>
  Contents of files: where the bytes of a file lie on the medium, what \<^verbatim>\<open>erase_range\<close> clears and what
  \<^verbatim>\<open>exfat_truncate\<close> keeps of a file (\<^verbatim>\<open>libexfat/cluster.c\<close>).
\<close>

section \<open>Layout\<close>

definition cluster_off :: "exfat \<Rightarrow> cluster_t \<Rightarrow> nat" where
  "cluster_off ef c = unat (sb_cluster_sector_start (ef_sb ef)) * SECTOR_SIZE (ef_sb ef)
     + (unat c - 2) * CLUSTER_SIZE (ef_sb ef)"

text \<open>
  A mounted volume: the table lies before the cluster heap, the heap lies inside the medium, and the
  buffer of zeros that \<^verbatim>\<open>exfat_mount\<close> allocates is one cluster long.
\<close>

definition mounted :: "exfat \<Rightarrow> bool" where
  "mounted ef \<longleftrightarrow> vol_ok ef \<and> geometry_ok (ef_sb ef) \<and>
     (\<forall>c. valid ef c \<longrightarrow> fat_offset ef c + 4 \<le> int (cluster_off ef 2)) \<and>
     (\<forall>c. valid ef c \<longrightarrow> int (cluster_off ef c + CLUSTER_SIZE (ef_sb ef)) \<le> dev_size (ef_dev ef)) \<and>
     ef_zero_cluster ef = replicate (CLUSTER_SIZE (ef_sb ef)) 0"

lemma c2o_eq: "valid ef c \<Longrightarrow> exfat_c2o ef c = Some (int (cluster_off ef c))"
proof -
  assume v: "valid ef c"
  have "\<not> c < EXFAT_FIRST_DATA_CLUSTER" using v by (simp add: CLUSTER_INVALID_def)
  moreover define k where "k = unat c - 2"
  have "unat (c - 2) = k" using v unat_minus_2 [of c] by (simp only: valid_unat k_def)
  then have "int (unat (c - 2)) = int k" by (rule arg_cong)
  then have "uint (c - EXFAT_FIRST_DATA_CLUSTER) = int k" by (simp only: cluster_consts of_nat_unat)
  ultimately have "exfat_c2o ef c = Some ((uint (sb_cluster_sector_start (ef_sb ef)) +
      int k * 2 ^ unat (sb_spc_bits (ef_sb ef))) * 2 ^ unat (sb_sector_bits (ef_sb ef)))"
    by (simp only: exfat_c2o_def c2s_def s2o_def if_False Option.bind.bind_lunit)
  moreover have "cluster_off ef c = unat (sb_cluster_sector_start (ef_sb ef)) * SECTOR_SIZE (ef_sb ef)
      + k * CLUSTER_SIZE (ef_sb ef)" by (simp only: cluster_off_def k_def)
  ultimately show ?thesis by (simp add: CLUSTER_SIZE_def SECTOR_SIZE_def algebra_simps)
qed

lemma cluster_off_disjoint:
  assumes "valid ef c" "valid ef d" "c \<noteq> d"
  shows "cluster_off ef c + CLUSTER_SIZE (ef_sb ef) \<le> cluster_off ef d \<or>
    cluster_off ef d + CLUSTER_SIZE (ef_sb ef) \<le> cluster_off ef c"
proof -
  let ?s = "CLUSTER_SIZE (ef_sb ef)"
  have "unat c \<noteq> unat d" using assms(3) by (simp add: word_unat_eq_iff)
  then consider "Suc (unat c - 2) \<le> unat d - 2" | "Suc (unat d - 2) \<le> unat c - 2"
    using assms(1,2) by (auto simp: valid_unat) linarith
  then show ?thesis
  proof cases
    case 1
    then have "Suc (unat c - 2) * ?s \<le> (unat d - 2) * ?s" by (rule mult_le_mono1)
    then show ?thesis by (simp add: cluster_off_def)
  next
    case 2
    then have "Suc (unat d - 2) * ?s \<le> (unat c - 2) * ?s" by (rule mult_le_mono1)
    then show ?thesis by (simp add: cluster_off_def)
  qed
qed

lemma fat_below_heap: "mounted ef \<Longrightarrow> in_fat ef i \<Longrightarrow> i < cluster_off ef 2"
  by (force simp: mounted_def in_fat_def)

lemma heap_not_fat: "mounted ef \<Longrightarrow> cluster_off ef c \<le> i \<Longrightarrow> \<not> in_fat ef i"
  using fat_below_heap [of ef i] by (auto simp: cluster_off_def)

text \<open>\<open>data_update\<close>: only the contents of the cluster heap changed.\<close>

definition data_update :: "exfat \<Rightarrow> exfat \<Rightarrow> bool" where
  "data_update ef ef' \<longleftrightarrow> (\<exists>data. ef' = ef\<lparr>ef_dev := (ef_dev ef)\<lparr>dev_data := data\<rparr>\<rparr> \<and>
     (\<forall>i < cluster_off ef 2. data i = dev_data (ef_dev ef) i))"

lemma data_update_fields:
  assumes "data_update ef ef'"
  shows "ef_sb ef' = ef_sb ef" "dev_mode (ef_dev ef') = dev_mode (ef_dev ef)"
    "dev_size (ef_dev ef') = dev_size (ef_dev ef)" "dev_bad_read (ef_dev ef') = dev_bad_read (ef_dev ef)"
    "dev_bad_write (ef_dev ef') = dev_bad_write (ef_dev ef)" "ef_cmap ef' = ef_cmap ef"
    "ef_nodes ef' = ef_nodes ef" "ef_host ef' = ef_host ef" "ef_zero_cluster ef' = ef_zero_cluster ef"
    "fat_offset ef' = fat_offset ef" "cluster_off ef' = cluster_off ef" "alloc ef' = alloc ef"
  using assms by (auto simp: data_update_def fat_offset_def s2o_def cluster_off_def alloc_def fun_eq_iff)

lemma data_update_refl [simp]: "data_update ef ef"
  by (auto simp: data_update_def intro!: exI [of _ "dev_data (ef_dev ef)"])

lemma data_update_trans: "data_update ef ef' \<Longrightarrow> data_update ef' ef'' \<Longrightarrow> data_update ef ef''"
  by (auto simp: data_update_def cluster_off_def)

lemma data_update_mounted: "data_update ef ef' \<Longrightarrow> mounted ef' \<longleftrightarrow> mounted ef"
  by (simp add: mounted_def vol_ok_def data_update_fields dev_readable_def)

lemma data_update_fat:
  assumes "data_update ef ef'" "mounted ef" "valid ef c"
  shows "fat_get ef' c = fat_get ef c"
proof -
  have "dev_data (ef_dev ef') i = dev_data (ef_dev ef) i" if "i < nat (fat_offset ef c) + 4" for i
    using assms that fat_offset_ge [of ef c] by (fastforce simp: data_update_def mounted_def)
  then show ?thesis using assms(1) by (auto simp: fat_get_def data_update_fields intro!: arg_cong [where f = le_word])
qed

lemma data_update_owns:
  assumes "data_update ef ef'" "mounted ef" "owns ef node cs"
  shows "owns ef' node cs"
proof -
  have "fat_get ef' c = fat_get ef c" if "c \<in> set cs" for c
    using data_update_fat [OF assms(1,2)] assms(3) that by (simp add: owns_def)
  then show ?thesis using assms(3) linked_frame [of cs ef' ef node] data_update_fields [OF assms(1)]
    by (auto simp: owns_def)
qed

section \<open>Erasing\<close>

lemma erase_raw_ok:
  assumes "mounted ef" "valid ef c" "erase_raw ef n (int (cluster_off ef c + k)) = (ok, ef')"
    "k + n \<le> CLUSTER_SIZE (ef_sb ef)"
  shows "data_update ef ef'" "\<not> ok \<Longrightarrow> ef' = ef"
    "ok \<Longrightarrow> dev_data (ef_dev ef') =
       (\<lambda>i. if cluster_off ef c + k \<le> i \<and> i < cluster_off ef c + k + n then 0 else dev_data (ef_dev ef) i)"
proof -
  let ?o = "cluster_off ef c + k"
  have fits: "int (?o + n) \<le> dev_size (ef_dev ef)" using assms(1,2,4) by (force simp: mounted_def)
  have z: "take n (ef_zero_cluster ef) = replicate n 0" using assms(1,4) by (simp add: mounted_def)
  obtain r d where w: "exfat_pwrite (ef_dev ef) (ef_zero_cluster ef) n (int ?o) = (r, d)" by fastforce
  have "n \<le> length (ef_zero_cluster ef)" using assms(1,4) by (simp add: mounted_def)
  note st = exfat_pwrite_store [OF w this fits]
  have *: "(\<not> ok \<longrightarrow> ef' = ef) \<and>
      (ok \<longrightarrow> ef' = ef\<lparr>ef_dev := (ef_dev ef)\<lparr>dev_data := store (dev_data (ef_dev ef)) ?o (replicate n 0)\<rparr>\<rparr>)"
    using assms(3) w st by (auto simp: erase_raw_def z)
  then show "\<not> ok \<Longrightarrow> ef' = ef" by blast
  show "ok \<Longrightarrow> dev_data (ef_dev ef') =
       (\<lambda>i. if ?o \<le> i \<and> i < ?o + n then 0 else dev_data (ef_dev ef) i)"
    using * by (auto simp: store_def fun_eq_iff)
  show "data_update ef ef'"
    using * by (cases ok) (auto simp: data_update_def cluster_off_def store_def intro!: exI)
qed

text \<open>
  The bytes that the loop clears after cluster number \<open>j\<close> of the file: the whole clusters \<open>j + 1\<close>, \<open>j + 2\<close>
  and so on that begin below \<open>en\<close>.
\<close>

definition in_clusters :: "exfat \<Rightarrow> cluster_t list \<Rightarrow> nat \<Rightarrow> nat \<Rightarrow> nat \<Rightarrow> bool" where
  "in_clusters ef cs j en i \<longleftrightarrow>
     (\<exists>k. j < k \<and> k < length cs \<and> k * CLUSTER_SIZE (ef_sb ef) < en \<and>
        cluster_off ef (cs ! k) \<le> i \<and> i < cluster_off ef (cs ! k) + CLUSTER_SIZE (ef_sb ef))"

lemma in_clusters_step:
  assumes "Suc j < length cs" "Suc j * CLUSTER_SIZE (ef_sb ef) < en"
  shows "in_clusters ef cs j en i \<longleftrightarrow>
    (cluster_off ef (cs ! Suc j) \<le> i \<and> i < cluster_off ef (cs ! Suc j) + CLUSTER_SIZE (ef_sb ef)) \<or>
    in_clusters ef cs (Suc j) en i"
  using assms by (auto simp: in_clusters_def Suc_le_eq intro: Suc_lessI) (metis Suc_lessD Suc_lessI)+

lemma in_clusters_none: "en \<le> Suc j * CLUSTER_SIZE (ef_sb ef) \<Longrightarrow> \<not> in_clusters ef cs j en i"
proof
  assume en: "en \<le> Suc j * CLUSTER_SIZE (ef_sb ef)" and "in_clusters ef cs j en i"
  then obtain k where "Suc j \<le> k" "k * CLUSTER_SIZE (ef_sb ef) < en"
    unfolding in_clusters_def using Suc_leI by blast
  then have "Suc j * CLUSTER_SIZE (ef_sb ef) < en" by (meson le_less_trans mult_le_mono1)
  then show False using en by simp
qed

lemma erase_loop_ok:
  assumes "mounted ef" "owns ef node cs" "j < length cs" "unat en \<le> length cs * CLUSTER_SIZE (ef_sb ef)"
    "unat boundary = Suc j * CLUSTER_SIZE (ef_sb ef)"
  shows "\<exists>rc ef'. erase_loop ef node boundary en (cs ! j) = Some (rc, ef') \<and> data_update ef ef' \<and>
    (rc = 0 \<or> rc = - EIO) \<and>
    (rc = 0 \<longrightarrow> dev_data (ef_dev ef') =
       (\<lambda>i. if in_clusters ef cs j (unat en) i then 0 else dev_data (ef_dev ef) i))"
  using assms
proof (induction "length cs - j" arbitrary: j ef boundary rule: less_induct)
  case less
  let ?s = "CLUSTER_SIZE (ef_sb ef)"
  show ?case
  proof (cases "boundary < en")
    case False
    then have "unat en \<le> Suc j * ?s" using less.prems(5) by (simp add: word_less_nat_alt)
    then show ?thesis using False in_clusters_none [of "unat en" j ef cs]
      by (subst erase_loop.simps) auto
  next
    case True
    then have lt: "Suc j * ?s < unat en" using less.prems(5) by (simp add: word_less_nat_alt)
    then have "Suc j * ?s < length cs * ?s" using less.prems(4) by linarith
    then have j: "Suc j < length cs" by (meson linorder_not_less mult_le_mono1)
    then have dec: "length cs - Suc j < length cs - j" by linarith
    have v: "vol_ok ef" "valid ef (cs ! j)" "valid ef (cs ! Suc j)"
      using less.prems(1-3) j by (auto simp: mounted_def owns_def)
    have nx: "exfat_next_cluster ef node (cs ! j) = Some (cs ! Suc j)"
      using next_cluster_eq [OF v(1,2)] less.prems(2) successively_nth [of _ cs j] j by (auto simp: owns_def)
    obtain ok ef1 where e: "erase_raw ef ?s (int (cluster_off ef (cs ! Suc j))) = (ok, ef1)" by fastforce
    note er = erase_raw_ok [OF less.prems(1) v(3), of ?s 0, simplified, OF e]
    have unf: "erase_loop ef node boundary en (cs ! j) =
        (if \<not> ok then Some (- EIO, ef1) else erase_loop ef1 node (boundary + of_nat ?s) en (cs ! Suc j))"
      using True nx v(3) c2o_eq [OF v(3)] e data_update_fields(1) [OF er(1)]
      by (subst erase_loop.simps) simp
    show ?thesis
    proof (cases ok)
      case False
      then show ?thesis using unf er by auto
    next
      case True
      have sz: "?s \<le> 2 ^ 25" "length cs < 2 ^ 32"
        using less.prems(1) owns_length [OF less.prems(2)] unat_u32 [of "sb_cluster_count (ef_sb ef)"]
          CLUSTER_SIZE_le [of "ef_sb ef"]
        by (auto simp: mounted_def)
      have "Suc (Suc j) * ?s \<le> 2 ^ 32 * 2 ^ 25" using sz j by (intro mult_le_mono) auto
      then have b: "unat (boundary + of_nat ?s) = Suc (Suc j) * ?s"
        using less.prems(5) sz(1) by (simp add: unat_word_ariths unat_of_nat)
      have "mounted ef1" "owns ef1 node cs" "ef_sb ef1 = ef_sb ef" "cluster_off ef1 = cluster_off ef"
        using er(1) less.prems(1,2) data_update_owns [OF er(1)] by (auto simp: data_update_mounted data_update_fields)
      then obtain rc ef' where r: "erase_loop ef1 node (boundary + of_nat ?s) en (cs ! Suc j) = Some (rc, ef')"
        "data_update ef1 ef'" "rc = 0 \<or> rc = - EIO"
        "rc = 0 \<longrightarrow> dev_data (ef_dev ef') =
           (\<lambda>i. if in_clusters ef cs (Suc j) (unat en) i then 0 else dev_data (ef_dev ef1) i)"
        using less.hyps [OF dec, of ef1 "boundary + of_nat ?s"] j less.prems(4) b
        by (auto simp: in_clusters_def)
      have "rc = 0 \<longrightarrow> dev_data (ef_dev ef') =
          (\<lambda>i. if in_clusters ef cs j (unat en) i then 0 else dev_data (ef_dev ef) i)"
        using r(4) er(3) True in_clusters_step [OF j lt] by (auto simp: fun_eq_iff)
      then show ?thesis using unf True r(1-3) data_update_trans [OF er(1) r(2)] by auto
    qed
  qed
qed

section \<open>The bytes of a file\<close>

definition file_byte :: "exfat \<Rightarrow> cluster_t list \<Rightarrow> nat \<Rightarrow> u8" where
  "file_byte ef cs i =
     dev_data (ef_dev ef) (cluster_off ef (cs ! (i div CLUSTER_SIZE (ef_sb ef))) + i mod CLUSTER_SIZE (ef_sb ef))"

lemma or_mask_nat: "x OR mask m = x div 2 ^ m * 2 ^ m + mask m" for x :: nat
proof -
  have "x OR mask m = push_bit m (drop_bit m x) OR mask m"
    by (rule bit_eqI) (auto simp: bit_simps)
  also have "\<dots> = push_bit m (drop_bit m x) + mask m"
    by (rule disjunctive_add [symmetric]) (auto simp: bit_simps)
  finally show ?thesis by (simp add: push_bit_eq_mult drop_bit_eq_div)
qed

lemma unat_cluster_size: "geometry_ok s \<Longrightarrow> unat (of_nat (CLUSTER_SIZE s) :: u64) = CLUSTER_SIZE s"
  using CLUSTER_SIZE_le [of s] by (simp add: unat_of_nat)

lemma cluster_boundary:
  assumes "geometry_ok s" "unat begin < 2 ^ 60"
  shows "unat ((begin OR (of_nat (CLUSTER_SIZE s) - 1)) + 1 :: u64) = Suc (unat begin div CLUSTER_SIZE s) * CLUSTER_SIZE s"
proof -
  define m where "m = unat (sb_sector_bits s) + unat (sb_spc_bits s)"
  have m: "CLUSTER_SIZE s = 2 ^ m" "m \<le> 25" using assms(1) by (auto simp: m_def CLUSTER_SIZE_pow geometry_ok_def)
  have "(of_nat (CLUSTER_SIZE s) - 1 :: u64) = mask m" by (simp add: m mask_eq_exp_minus_1)
  moreover have "(2 :: nat) ^ m \<le> 2 ^ 25" using m(2) by (intro power_increasing) auto
  then have "(mask m :: nat) < 2 ^ LENGTH(64)" by (simp add: mask_eq_exp_minus_1)
  then have "unat (of_nat (mask m) :: u64) = mask m" by (rule unat_of_nat_id)
  then have "unat (begin OR mask m) = unat begin OR mask m" by (simp add: unsigned_or_eq of_nat_mask_eq)
  ultimately have u: "unat (begin OR (of_nat (CLUSTER_SIZE s) - 1)) = unat begin div 2 ^ m * 2 ^ m + mask m"
    by (simp add: or_mask_nat)
  have "unat begin div 2 ^ m * 2 ^ m \<le> unat begin" by simp
  moreover have "(2 :: nat) ^ m \<le> 2 ^ 25" using m(2) by (intro power_increasing) auto
  moreover have "mask m = (2 :: nat) ^ m - 1" by (rule mask_eq_exp_minus_1)
  ultimately have "Suc (unat begin div 2 ^ m * 2 ^ m + mask m) \<le> 2 ^ 60 + 2 ^ 25" using assms(2) by linarith
  then have "Suc (unat begin div 2 ^ m * 2 ^ m + mask m) < 2 ^ 64" by simp
  then show ?thesis using u \<open>mask m = 2 ^ m - 1\<close> by (simp add: unat_word_ariths m)
qed

text \<open>Bytes of different clusters of a file, or of a file and a foreign cluster, have different positions.\<close>

lemma same_cluster:
  assumes "valid ef c" "valid ef d" "a < CLUSTER_SIZE (ef_sb ef)"
    "cluster_off ef d \<le> cluster_off ef c + a" "cluster_off ef c + a < cluster_off ef d + CLUSTER_SIZE (ef_sb ef)"
  shows "c = d"
  using cluster_off_disjoint [OF assms(1,2)] assms(3-5) by (cases "c = d") auto

lemma in_clusters_iff:
  assumes "owns ef node cs" "i < length cs * CLUSTER_SIZE (ef_sb ef)"
  shows "in_clusters ef cs j en
      (cluster_off ef (cs ! (i div CLUSTER_SIZE (ef_sb ef))) + i mod CLUSTER_SIZE (ef_sb ef)) \<longleftrightarrow>
    j < i div CLUSTER_SIZE (ef_sb ef) \<and> i div CLUSTER_SIZE (ef_sb ef) * CLUSTER_SIZE (ef_sb ef) < en"
proof -
  let ?s = "CLUSTER_SIZE (ef_sb ef)"
  have k: "i div ?s < length cs" using assms(2) by (simp add: less_mult_imp_div_less)
  have "k = i div ?s" if "k < length cs" "cluster_off ef (cs ! k) \<le> cluster_off ef (cs ! (i div ?s)) + i mod ?s"
    "cluster_off ef (cs ! (i div ?s)) + i mod ?s < cluster_off ef (cs ! k) + ?s" for k
  proof -
    have "cs ! (i div ?s) = cs ! k"
      using same_cluster [of ef "cs ! (i div ?s)" "cs ! k" "i mod ?s"] that k assms(1) by (auto simp: owns_def)
    then show ?thesis using assms(1) k that(1) by (simp add: owns_def nth_eq_iff_index_eq)
  qed
  then show ?thesis using k by (auto simp: in_clusters_def)
qed

text \<open>
  The head of \<^verbatim>\<open>erase_range\<close>: it starts in cluster number \<open>j\<close> of the file with \<open>n\<close> bytes that end
  at the cluster boundary or at \<open>en\<close>.
\<close>

lemma erase_range_head:
  assumes "mounted ef" "owns ef node cs" "begin < en" "unat en \<le> length cs * CLUSTER_SIZE (ef_sb ef)"
  defines "s \<equiv> CLUSTER_SIZE (ef_sb ef)"
  defines "j \<equiv> unat begin div s"
  defines "n \<equiv> min (Suc j * s) (unat en) - unat begin"
  shows "\<exists>node1 bd. erase_range ef node begin en =
      (case erase_raw ef n (int (cluster_off ef (cs ! j) + unat begin mod s)) of (ok, ef1) \<Rightarrow>
        if \<not> ok then Some (- EIO, ef1, node1)
        else map_option (\<lambda>(rc, ef). (rc, ef, node1)) (erase_loop ef1 node1 bd en (cs ! j))) \<and>
    unat bd = Suc j * s \<and> owns ef node1 cs \<and> (\<exists>a b. node1 = node\<lparr>n_fptr_index := a, n_fptr_cluster := b\<rparr>)"
    and "j < length cs" and "unat begin mod s + n \<le> s"
proof -
  have lt: "unat begin < unat en" using assms(3) by (simp add: word_less_nat_alt)
  have g: "geometry_ok (ef_sb ef)" and vo: "vol_ok ef" using assms(1) by (auto simp: mounted_def)
  note us = unat_cluster_size [OF g, folded s_def]
  have sz: "s \<le> 2 ^ 25" "length cs < 2 ^ 32" "0 < s"
    using CLUSTER_SIZE_le [OF g] owns_length [OF assms(2)] unat_u32 [of "sb_cluster_count (ef_sb ef)"]
    by (auto simp: s_def)
  have "length cs * s \<le> 2 ^ 32 * 2 ^ 25" using sz by (intro mult_le_mono) auto
  then have big: "unat begin < 2 ^ 60" using assms(4) lt by (simp add: s_def)
  show j: "j < length cs"
    using lt assms(4) unfolding j_def s_def by (intro less_mult_imp_div_less) linarith
  have bj: "unat begin < Suc j * s" using dividend_less_div_times [OF sz(3), of "unat begin"] by (simp add: j_def)
  have bm: "unat begin = j * s + unat begin mod s" by (simp add: j_def)
  show n: "unat begin mod s + n \<le> s" using bm bj lt by (simp add: n_def)
  define bd where "bd = (begin OR (of_nat s - 1)) + 1"
  have bd: "unat bd = Suc j * s" unfolding bd_def j_def s_def by (rule cluster_boundary [OF g big])
  define q where "q = (ucast (begin div of_nat s) :: u32)"
  have q: "unat q = j"
    using j sz(2) by (simp add: q_def unsigned_ucast_eq unat_div us j_def take_bit_nat_eq_self)
  define node1 where "node1 = node\<lparr>n_fptr_index := q, n_fptr_cluster := cs ! j\<rparr>"
  have adv: "exfat_advance_cluster ef node q = Some (cs ! j, node1)"
    using advance_owns [OF vo assms(2), of q] q j by (simp add: node1_def)
  have o1: "owns ef node1 cs" using owns_fptr [OF assms(2), of q] q j by (simp add: node1_def)
  have v: "valid ef (cs ! j)" using assms(2) j by (simp add: owns_def)
  have "unat (begin mod of_nat s) = unat begin mod s" by (simp add: unat_mod us)
  then have "int (unat (begin mod of_nat s)) = int (unat begin mod s)" by (rule arg_cong)
  then have m: "uint (begin mod of_nat s) = int (unat begin mod s)" by (simp only: of_nat_unat)
  have mn: "unat (min bd en - begin) = n"
    using lt bd bj by (auto simp: n_def unat_sub min_def word_le_nat_alt)
  have "erase_range ef node begin en =
      (case erase_raw ef n (int (cluster_off ef (cs ! j) + unat begin mod s)) of (ok, ef1) \<Rightarrow>
        if \<not> ok then Some (- EIO, ef1, node1)
        else map_option (\<lambda>(rc, ef). (rc, ef, node1)) (erase_loop ef1 node1 bd en (cs ! j)))"
    using assms(3) adv v c2o_eq [OF v] m mn
    by (auto simp: erase_range_def Let_def not_le map_conv_bind_option split: prod.splits
        simp flip: s_def q_def bd_def intro!: arg_cong [where f = "Option.bind _"])
  then show "\<exists>node1 bd. erase_range ef node begin en =
      (case erase_raw ef n (int (cluster_off ef (cs ! j) + unat begin mod s)) of (ok, ef1) \<Rightarrow>
        if \<not> ok then Some (- EIO, ef1, node1)
        else map_option (\<lambda>(rc, ef). (rc, ef, node1)) (erase_loop ef1 node1 bd en (cs ! j))) \<and>
    unat bd = Suc j * s \<and> owns ef node1 cs \<and> (\<exists>a b. node1 = node\<lparr>n_fptr_index := a, n_fptr_cluster := b\<rparr>)"
    using bd o1 by (intro exI [of _ node1] exI [of _ bd] conjI) (auto simp: node1_def)
qed

text \<open>The window \<open>[b, en)\<close> in terms of cluster number and position in the cluster.\<close>

lemma erase_window:
  fixes s i b en :: nat
  assumes "0 < s"
  shows "b \<le> i \<Longrightarrow> i < en \<Longrightarrow> \<not> (b div s < i div s \<and> i div s * s < en) \<Longrightarrow>
      i div s = b div s \<and> b mod s \<le> i mod s \<and> i mod s < b mod s + (min (Suc (b div s) * s) en - b)"
    and "i < b \<Longrightarrow> \<not> b div s < i div s \<and> \<not> (i div s = b div s \<and> b mod s \<le> i mod s)"
proof -
  have i: "i = i div s * s + i mod s" "i mod s < s" and b: "b = b div s * s + b mod s" "b mod s < s"
    using assms by simp_all
  show "i div s = b div s \<and> b mod s \<le> i mod s \<and> i mod s < b mod s + (min (Suc (b div s) * s) en - b)"
    if "b \<le> i" "i < en" "\<not> (b div s < i div s \<and> i div s * s < en)"
  proof -
    have "i div s * s \<le> i" by simp
    then have "i div s \<le> b div s" using that(2,3) by linarith
    then have e: "i div s = b div s" using that(1) by (simp add: div_le_mono le_antisym)
    define q where "q = b div s * s"
    have q: "i = q + i mod s" "b = q + b mod s" "Suc (b div s) * s = s + q" using i(1) b(1) e by (simp_all add: q_def)
    then have "b mod s \<le> i mod s" using that(1) by linarith
    moreover have "i < min (s + q) en" using q(1) i(2) that(2) by linarith
    then have "i mod s < b mod s + (min (s + q) en - b)" using q that(1) by linarith
    ultimately show ?thesis using e q(3) by simp
  qed
  show "\<not> b div s < i div s \<and> \<not> (i div s = b div s \<and> b mod s \<le> i mod s)" if "i < b"
    using that i b div_le_mono [of i b s] by (metis add_le_cancel_left leD less_imp_le_nat)
qed

lemma erase_range_ok:
  assumes "mounted ef" "owns ef node cs" "begin < en" "unat en \<le> length cs * CLUSTER_SIZE (ef_sb ef)"
  shows "\<exists>rc ef' node'. erase_range ef node begin en = Some (rc, ef', node') \<and> data_update ef ef' \<and>
    (rc = 0 \<or> rc = - EIO) \<and> owns ef' node' cs \<and>
    (\<exists>a b. node' = node\<lparr>n_fptr_index := a, n_fptr_cluster := b\<rparr>) \<and>
    (rc = 0 \<longrightarrow> (\<forall>i < length cs * CLUSTER_SIZE (ef_sb ef).
       (unat begin \<le> i \<and> i < unat en \<longrightarrow> file_byte ef' cs i = 0) \<and>
       (i < unat begin \<longrightarrow> file_byte ef' cs i = file_byte ef cs i)))"
proof -
  define s where "s = CLUSTER_SIZE (ef_sb ef)"
  define j where "j = unat begin div s"
  define n where "n = min (Suc j * s) (unat en) - unat begin"
  note head = erase_range_head [OF assms, folded s_def, folded j_def, folded n_def]
  obtain node1 bd where run: "erase_range ef node begin en =
      (case erase_raw ef n (int (cluster_off ef (cs ! j) + unat begin mod s)) of (ok, ef1) \<Rightarrow>
        if \<not> ok then Some (- EIO, ef1, node1)
        else map_option (\<lambda>(rc, ef). (rc, ef, node1)) (erase_loop ef1 node1 bd en (cs ! j)))"
    and bd: "unat bd = Suc j * s" and o1: "owns ef node1 cs"
    and node1: "\<exists>a b. node1 = node\<lparr>n_fptr_index := a, n_fptr_cluster := b\<rparr>"
    using head(1) by blast
  obtain ok ef1 where e: "erase_raw ef n (int (cluster_off ef (cs ! j) + unat begin mod s)) = (ok, ef1)" by fastforce
  have v: "valid ef (cs ! j)" using assms(2) head(2) by (simp add: owns_def)
  have "unat begin mod s + n \<le> CLUSTER_SIZE (ef_sb ef)" using head(3) by (simp add: s_def)
  note er = erase_raw_ok [OF assms(1) v e this]
  show ?thesis
  proof (cases ok)
    case False
    then show ?thesis using run e er(2) o1 node1 by auto
  next
    case True
    have m1: "mounted ef1" "owns ef1 node1 cs" "ef_sb ef1 = ef_sb ef" "cluster_off ef1 = cluster_off ef"
      using er(1) assms(1) data_update_owns [OF er(1) assms(1) o1] by (auto simp: data_update_mounted data_update_fields)
    obtain rc ef' where r: "erase_loop ef1 node1 bd en (cs ! j) = Some (rc, ef')" "data_update ef1 ef'"
      "rc = 0 \<or> rc = - EIO" "rc = 0 \<longrightarrow> dev_data (ef_dev ef') =
         (\<lambda>i. if in_clusters ef1 cs j (unat en) i then 0 else dev_data (ef_dev ef1) i)"
      using erase_loop_ok [OF m1(1,2) head(2), of en bd] assms(4) bd m1(3) by (auto simp: s_def)
    have bytes: "(unat begin \<le> i \<and> i < unat en \<longrightarrow> file_byte ef' cs i = 0) \<and>
       (i < unat begin \<longrightarrow> file_byte ef' cs i = file_byte ef cs i)" if rc: "rc = 0" and i: "i < length cs * s" for i
    proof -
      have k: "i div s < length cs" using i by (simp add: less_mult_imp_div_less)
      have "file_byte ef' cs i = (if j < i div s \<and> i div s * s < unat en then 0
          else dev_data (ef_dev ef1) (cluster_off ef (cs ! (i div s)) + i mod s))"
        using r(4) rc in_clusters_iff [OF m1(2), of i j "unat en"] i m1(3,4) data_update_fields(1,11) [OF r(2)]
        by (simp add: file_byte_def s_def)
      moreover have "dev_data (ef_dev ef1) (cluster_off ef (cs ! (i div s)) + i mod s) =
          (if i div s = j \<and> unat begin mod s \<le> i mod s \<and> i mod s < unat begin mod s + n then 0 else file_byte ef cs i)"
        using er(3) [OF True] same_cluster [of ef "cs ! (i div s)" "cs ! j" "i mod s"] k v head(2,3) assms(2)
        by (auto simp: file_byte_def s_def owns_def nth_eq_iff_index_eq)
      ultimately show ?thesis using erase_window(1) [of s "unat begin" i "unat en"] erase_window(2) [of s i "unat begin"] unfolding j_def n_def
        by (auto simp: s_def)
    qed
    then show ?thesis using run e True r(1,3) data_update_trans [OF er(1) r(2)] node1
        data_update_owns [OF r(2) m1(1,2)] by (simp add: s_def)
  qed
qed

section \<open>Truncating\<close>

text \<open>What \<^verbatim>\<open>grow_file\<close> and \<^verbatim>\<open>shrink_file\<close> leave alone in a node.\<close>

definition node_meta :: "exfat_node \<Rightarrow> exfat_node" where
  "node_meta node = node\<lparr>n_fptr_index := 0, n_fptr_cluster := 0, n_start_cluster := 0,
     n_is_contiguous := False, n_is_dirty := False\<rparr>"

lemma node_meta_fields:
  assumes "node_meta node' = node_meta node"
  shows "n_size node' = n_size node" "n_valid_size node' = n_valid_size node"
    "n_references node' = n_references node" "n_parent node' = n_parent node" "n_child node' = n_child node"
    "n_next node' = n_next node" "n_prev node' = n_prev node" "n_name node' = n_name node"
    "n_attrib node' = n_attrib node" "n_entry_offset node' = n_entry_offset node"
  using arg_cong [OF assms, of n_size] arg_cong [OF assms, of n_valid_size] arg_cong [OF assms, of n_references]
    arg_cong [OF assms, of n_parent] arg_cong [OF assms, of n_child] arg_cong [OF assms, of n_next]
    arg_cong [OF assms, of n_prev] arg_cong [OF assms, of n_name] arg_cong [OF assms, of n_attrib]
    arg_cong [OF assms, of n_entry_offset]
  by (simp_all add: node_meta_def)

lemma advance_meta: "exfat_advance_cluster ef node count = Some (c, node') \<Longrightarrow> node_meta node' = node_meta node"
  by (auto simp: exfat_advance_cluster_def Let_def node_meta_def split: if_splits option.splits bind_splits)

lemma shrink_meta: "shrink_file ef node a b = Some (rc, ef', node') \<Longrightarrow> node_meta node' = node_meta node"
  by (auto simp: shrink_file_def Let_def run_simps case_prod_unfold split: if_splits dest!: advance_meta)
    (auto simp: node_meta_def)

lemma grow_link_meta: "grow_link ef node p c = (ok, ef', node') \<Longrightarrow> node_meta node' = node_meta node"
  by (auto simp: grow_link_def Let_def node_meta_def split: if_splits prod.splits)

lemma grow_loop_meta:
  "grow_loop ef node current n allocated p = Some (rc, ef', node') \<Longrightarrow> node_meta node' = node_meta node"
proof (induction n arbitrary: ef node allocated p)
  case (Suc n)
  then show ?case
    by (auto simp: Let_def run_simps split: if_splits prod.splits dest!: shrink_meta grow_link_meta)
qed (auto split: prod.splits if_splits)

lemma grow_meta: "grow_file ef node a b = Some (rc, ef', node') \<Longrightarrow> node_meta node' = node_meta node"
  by (auto simp: grow_file_def Let_def run_simps split: if_splits prod.splits dest!: grow_loop_meta advance_meta)
    (auto simp: node_meta_def)

text \<open>\<open>file_ok\<close>: a file has exactly the clusters its size needs.\<close>

definition file_ok :: "exfat \<Rightarrow> exfat_node \<Rightarrow> cluster_t list \<Rightarrow> bool" where
  "file_ok ef node cs \<longleftrightarrow> owns ef node cs \<and>
     length cs = DIV_ROUND_UP (unat (n_size node)) (CLUSTER_SIZE (ef_sb ef)) \<and>
     n_valid_size node \<le> n_size node"

lemma fat_update_mounted:
  assumes "fat_update ef ef'"
  shows "mounted ef' \<longleftrightarrow> mounted ef" "cluster_off ef' = cluster_off ef"
  using assms by (simp_all add: mounted_def fat_update_ok fat_update_keeps cluster_off_def fun_eq_iff)

lemma fat_update_file_byte: "fat_update ef ef' \<Longrightarrow> mounted ef \<Longrightarrow> file_byte ef' cs i = file_byte ef cs i"
proof -
  assume u: "fat_update ef ef'" and m: "mounted ef"
  have "dev_data (ef_dev ef') k = dev_data (ef_dev ef) k" if "cluster_off ef c \<le> k" for k c
    using u heap_not_fat [OF m that] by (auto simp: fat_update_def)
  then have "dev_data (ef_dev ef') (cluster_off ef c + k) = dev_data (ef_dev ef) (cluster_off ef c + k)" for c k
    by (metis le_add1)
  then show ?thesis using u by (simp add: file_byte_def fat_update_mounted fat_update_fields)
qed

lemma file_byte_take: "i < k * CLUSTER_SIZE (ef_sb ef) \<Longrightarrow> file_byte ef (take k cs) i = file_byte ef cs i"
  by (simp add: file_byte_def less_mult_imp_div_less)

lemma file_byte_append: "i < length cs * CLUSTER_SIZE (ef_sb ef) \<Longrightarrow> file_byte ef (cs @ ds) i = file_byte ef cs i"
  by (simp add: file_byte_def less_mult_imp_div_less nth_append)

lemma bytes2clusters_eq:
  assumes "geometry_ok (ef_sb ef)" "DIV_ROUND_UP (unat b) (CLUSTER_SIZE (ef_sb ef)) < 2 ^ 32"
  shows "unat (bytes2clusters ef b) = DIV_ROUND_UP (unat b) (CLUSTER_SIZE (ef_sb ef))"
proof -
  let ?s = "CLUSTER_SIZE (ef_sb ef)"
  have s: "?s \<le> 2 ^ 25" "0 < ?s" using CLUSTER_SIZE_le [OF assms(1)] by auto
  have "unat b \<le> DIV_ROUND_UP (unat b) ?s * ?s" by (rule DIV_ROUND_UP_le) simp
  also have "\<dots> \<le> 2 ^ 32 * 2 ^ 25" using assms(2) s by (intro mult_le_mono) auto
  finally have "unat b + ?s < 2 ^ 64" using s by simp
  then have "unat (b + of_nat ?s - 1) = unat b + ?s - 1"
    using s unat_cluster_size [OF assms(1)] by (simp add: unat_word_ariths unat_sub_if' Suc_le_eq)
  then have "unat (DIV_ROUND_UP b (of_nat ?s)) = DIV_ROUND_UP (unat b) ?s"
    using unat_cluster_size [OF assms(1)] by (simp add: DIV_ROUND_UP_def unat_div)
  then show ?thesis using assms(2) by (simp add: bytes2clusters_def Let_def unsigned_ucast_eq take_bit_nat_eq_self)
qed

lemma resize_ok:
  assumes "mounted ef" "owns ef node cs" "unat c1 = length cs"
  shows "\<exists>rc ef' node'. truncate_resize ef node c1 c2 = Some (rc, ef', node') \<and> fat_update ef ef' \<and>
    node_meta node' = node_meta node \<and>
    (rc = 0 \<longrightarrow> (\<exists>cs'. owns ef' node' cs' \<and> length cs' = unat c2 \<and>
       take (min (length cs) (unat c2)) cs' = take (min (length cs) (unat c2)) cs))"
proof -
  have vo: "vol_ok ef" using assms(1) by (simp add: mounted_def)
  consider "c1 < c2" | "c2 < c1" | "c1 = c2" by fastforce
  then show ?thesis
  proof cases
    case 1
    then have d: "unat (c2 - c1) = unat c2 - length cs" "length cs < unat c2" "c2 - c1 \<noteq> 0"
      using assms(3) by (auto simp: unat_sub word_less_nat_alt word_le_nat_alt)
    have "grow_post ef cs [] (unat (c2 - c1)) (grow_file ef node c1 (c2 - c1))"
      by (rule grow_file_ok [OF vo assms(2,3) d(3)])
    then obtain rc ef' node' where r: "grow_file ef node c1 (c2 - c1) = Some (rc, ef', node')" "fat_update ef ef'"
      "rc = 0 \<longrightarrow> (\<exists>new'. length new' = unat c2 - length cs \<and> owns ef' node' (cs @ new'))"
      using d(1) by (auto simp: grow_post_def split: option.splits) blast+
    have "\<exists>cs'. owns ef' node' cs' \<and> length cs' = unat c2 \<and>
       take (min (length cs) (unat c2)) cs' = take (min (length cs) (unat c2)) cs" if "rc = 0"
    proof -
      obtain new' where "length new' = unat c2 - length cs" "owns ef' node' (cs @ new')" using r(3) \<open>rc = 0\<close> by blast
      then show ?thesis using d(2) by (intro exI [of _ "cs @ new'"]) simp
    qed
    then show ?thesis using r(1,2) grow_meta [OF r(1)] 1 by (simp add: truncate_resize_def)
  next
    case 2
    then have d: "unat (c1 - c2) = length cs - unat c2" "unat c2 < length cs" "0 < c1 - c2" "c1 - c2 \<le> c1"
      using assms(3) by (auto simp: unat_sub word_less_nat_alt word_le_nat_alt)
    have "shrink_post ef node cs (unat c1 - unat (c1 - c2)) (shrink_file ef node c1 (c1 - c2))"
      by (rule shrink_file_ok [OF vo assms(2,3) d(3,4)])
    moreover have "unat c1 - unat (c1 - c2) = unat c2" using d assms(3) by simp
    ultimately obtain rc ef' node' where r: "shrink_file ef node c1 (c1 - c2) = Some (rc, ef', node')"
      "fat_update ef ef'" "rc = 0 \<longrightarrow> owns ef' node' (take (unat c2) cs)"
      by (auto simp: shrink_post_def split: option.splits)
    then show ?thesis using shrink_meta [OF r(1)] 2 d(2)
      by (auto simp: truncate_resize_def intro!: exI [of _ "take (unat c2) cs"])
  next
    case 3
    then show ?thesis using assms(2,3) by (simp add: truncate_resize_def) (metis take_all_iff order_refl)
  qed
qed

text \<open>The tail of \<^verbatim>\<open>exfat_truncate\<close>, after the clusters are right: erasing and the sizes.\<close>

definition truncate_finish :: "exfat \<Rightarrow> exfat_node \<Rightarrow> u64 \<Rightarrow> bool \<Rightarrow> (int \<times> exfat \<times> exfat_node) option" where
  "truncate_finish ef node sz erase =
     do { (rc, ef, node) \<leftarrow>
            (if erase
             then do {
               (rc, ef, node) \<leftarrow> erase_range ef node (n_valid_size node) sz;
               if rc \<noteq> 0 then Some (rc, ef, node) else Some (0, ef, node\<lparr>n_valid_size := sz\<rparr>)
             }
             else Some (0, ef, node\<lparr>n_valid_size := min (n_valid_size node) sz\<rparr>));
          if rc \<noteq> 0 then Some (rc, ef, node)
          else let node = exfat_update_mtime ef node
               in Some (0, ef, node\<lparr>n_size := sz, n_is_dirty := True\<rparr>) }"

lemma truncate_unfold:
  "exfat_truncate ef node sz erase =
     (if n_references node = 0 \<and> n_parent node \<noteq> None then None
      else if n_size node = sz then Some (0, ef, node)
      else do {
        (rc, ef, node) \<leftarrow> truncate_resize ef node (bytes2clusters ef (n_size node)) (bytes2clusters ef sz);
        if rc \<noteq> 0 then Some (rc, ef, node) else truncate_finish ef node sz erase })"
  by (simp only: exfat_truncate_def truncate_finish_def)

lemma owns_meta:
  "owns ef node cs \<Longrightarrow> n_is_contiguous node' = n_is_contiguous node \<Longrightarrow> n_start_cluster node' = n_start_cluster node \<Longrightarrow>
    n_fptr_index node' = n_fptr_index node \<Longrightarrow> n_fptr_cluster node' = n_fptr_cluster node \<Longrightarrow> owns ef node' cs"
  by (auto simp: owns_def fptr_ok_def succ_of_def)

lemma finish_ok:
  assumes "mounted ef" "owns ef node cs" "length cs = DIV_ROUND_UP (unat sz) (CLUSTER_SIZE (ef_sb ef))"
  shows "\<exists>rc ef' node'. truncate_finish ef node sz erase = Some (rc, ef', node') \<and> data_update ef ef' \<and>
    (rc = 0 \<longrightarrow> file_ok ef' node' cs \<and> n_size node' = sz \<and>
       n_valid_size node' = (if erase then sz else min (n_valid_size node) sz) \<and>
       (\<forall>i < unat sz. i < unat (n_valid_size node) \<longrightarrow> file_byte ef' cs i = file_byte ef cs i) \<and>
       (erase \<longrightarrow> (\<forall>i < unat sz. unat (n_valid_size node) \<le> i \<longrightarrow> file_byte ef' cs i = 0)))"
proof -
  let ?v = "n_valid_size node"
  have le: "unat sz \<le> length cs * CLUSTER_SIZE (ef_sb ef)" using assms(3) DIV_ROUND_UP_le by simp
  show ?thesis
  proof (cases "erase \<and> ?v < sz")
    case True
    then have e: erase and lt: "?v < sz" by auto
    obtain rc ef' node' where r: "erase_range ef node ?v sz = Some (rc, ef', node')" "data_update ef ef'"
      "owns ef' node' cs"
      "rc = 0 \<longrightarrow> (\<forall>i < length cs * CLUSTER_SIZE (ef_sb ef). (unat ?v \<le> i \<and> i < unat sz \<longrightarrow> file_byte ef' cs i = 0) \<and>
         (i < unat ?v \<longrightarrow> file_byte ef' cs i = file_byte ef cs i))"
      using erase_range_ok [OF assms(1,2) lt le] by blast
    let ?node = "(exfat_update_mtime ef' (node'\<lparr>n_valid_size := sz\<rparr>))\<lparr>n_size := sz, n_is_dirty := True\<rparr>"
    have "owns ef' ?node cs" by (rule owns_meta [OF r(3)]) (simp_all add: exfat_update_mtime_def)
    then have "file_ok ef' ?node cs"
      using assms(3) data_update_fields(1) [OF r(2)] by (simp add: file_ok_def exfat_update_mtime_def)
    moreover have "truncate_finish ef node sz erase = Some (if rc = 0 then (0, ef', ?node) else (rc, ef', node'))"
      using e r(1) by (simp add: truncate_finish_def Let_def)
    ultimately show ?thesis using r(2,4) e le by (auto simp: exfat_update_mtime_def)
  next
    case False
    let ?w = "if erase then sz else min ?v sz"
    let ?node = "(exfat_update_mtime ef (node\<lparr>n_valid_size := ?w\<rparr>))\<lparr>n_size := sz, n_is_dirty := True\<rparr>"
    have "owns ef ?node cs" by (rule owns_meta [OF assms(2)]) (simp_all add: exfat_update_mtime_def)
    then have "file_ok ef ?node cs" using assms(3) by (simp add: file_ok_def exfat_update_mtime_def)
    moreover have "truncate_finish ef node sz erase = Some (0, ef, ?node)"
      using False by (auto simp: truncate_finish_def erase_range_def Let_def not_less)
    moreover have "erase \<longrightarrow> unat sz \<le> unat ?v" using False by (auto simp: word_less_nat_alt)
    ultimately show ?thesis by (auto simp: exfat_update_mtime_def)
  qed
qed

text \<open>What no operation of this layer changes: everything of the volume but the medium's bytes and the bitmap,
  and everything of the node but its sizes, clusters and modification time.\<close>

definition vol_rest :: "exfat \<Rightarrow> exfat" where
  "vol_rest ef = ef\<lparr>ef_dev := (ef_dev ef)\<lparr>dev_data := (\<lambda>_. 0)\<rparr>,
     ef_cmap := (ef_cmap ef)\<lparr>cm_chunk := [], cm_dirty := False\<rparr>\<rparr>"

lemma fat_update_rest: "fat_update ef ef' \<Longrightarrow> vol_rest ef' = vol_rest ef"
  by (auto simp: fat_update_def vol_rest_def)

lemma data_update_rest: "data_update ef ef' \<Longrightarrow> vol_rest ef' = vol_rest ef"
  by (auto simp: data_update_def vol_rest_def)

lemma vol_rest_fields:
  assumes "vol_rest ef' = vol_rest ef"
  shows "ef_sb ef' = ef_sb ef" "ef_nodes ef' = ef_nodes ef" "ef_fresh ef' = ef_fresh ef" "ef_root ef' = ef_root ef"
    "ef_host ef' = ef_host ef" "ef_upcase ef' = ef_upcase ef" "ef_ro ef' = ef_ro ef" "ef_repair ef' = ef_repair ef"
    "dev_bad_write (ef_dev ef') = dev_bad_write (ef_dev ef)" "dev_mode (ef_dev ef') = dev_mode (ef_dev ef)"
    "dev_bad_read (ef_dev ef') = dev_bad_read (ef_dev ef)" "dev_size (ef_dev ef') = dev_size (ef_dev ef)"
proof -
  show "ef_sb ef' = ef_sb ef" "ef_nodes ef' = ef_nodes ef" "ef_fresh ef' = ef_fresh ef" "ef_root ef' = ef_root ef"
    "ef_host ef' = ef_host ef" "ef_upcase ef' = ef_upcase ef" "ef_ro ef' = ef_ro ef" "ef_repair ef' = ef_repair ef"
    using arg_cong [OF assms, of ef_sb] arg_cong [OF assms, of ef_nodes] arg_cong [OF assms, of ef_fresh]
      arg_cong [OF assms, of ef_root] arg_cong [OF assms, of ef_host] arg_cong [OF assms, of ef_upcase]
      arg_cong [OF assms, of ef_ro] arg_cong [OF assms, of ef_repair] by (simp_all add: vol_rest_def)
  have d: "(ef_dev ef')\<lparr>dev_data := (\<lambda>_. 0)\<rparr> = (ef_dev ef)\<lparr>dev_data := (\<lambda>_. 0)\<rparr>"
    using arg_cong [OF assms, of ef_dev] by (simp add: vol_rest_def)
  show "dev_bad_write (ef_dev ef') = dev_bad_write (ef_dev ef)" "dev_mode (ef_dev ef') = dev_mode (ef_dev ef)"
    "dev_bad_read (ef_dev ef') = dev_bad_read (ef_dev ef)" "dev_size (ef_dev ef') = dev_size (ef_dev ef)"
    using arg_cong [OF d, of dev_bad_write] arg_cong [OF d, of dev_mode] arg_cong [OF d, of dev_bad_read]
      arg_cong [OF d, of dev_size] by simp_all
qed

definition node_link :: "exfat_node \<Rightarrow> exfat_node" where
  "node_link node = (node_meta node)\<lparr>n_valid_size := 0, n_size := 0, n_mtime := 0\<rparr>"

lemma node_link_fields:
  assumes "node_link node' = node_link node"
  shows "n_references node' = n_references node" "n_parent node' = n_parent node" "n_child node' = n_child node"
    "n_next node' = n_next node" "n_prev node' = n_prev node" "n_name node' = n_name node"
    "n_attrib node' = n_attrib node" "n_entry_offset node' = n_entry_offset node"
    "n_continuations node' = n_continuations node" "n_is_cached node' = n_is_cached node"
  using arg_cong [OF assms, of n_references] arg_cong [OF assms, of n_parent] arg_cong [OF assms, of n_child]
    arg_cong [OF assms, of n_next] arg_cong [OF assms, of n_prev] arg_cong [OF assms, of n_name]
    arg_cong [OF assms, of n_attrib] arg_cong [OF assms, of n_entry_offset] arg_cong [OF assms, of n_continuations]
    arg_cong [OF assms, of n_is_cached]
  by (simp_all add: node_link_def node_meta_def)

lemma node_meta_link: "node_meta node' = node_meta node \<Longrightarrow> node_link node' = node_link node"
  by (simp add: node_link_def)

lemma erase_range_meta: "erase_range ef node a b = Some (rc, ef', node') \<Longrightarrow> node_meta node' = node_meta node"
  by (auto simp: erase_range_def Let_def run_simps case_prod_unfold split: if_splits dest!: advance_meta)

lemma resize_meta: "truncate_resize ef node a b = Some (rc, ef', node') \<Longrightarrow> node_meta node' = node_meta node"
  by (auto simp: truncate_resize_def split: if_splits dest!: grow_meta shrink_meta)

lemma finish_link: "truncate_finish ef node sz e = Some (rc, ef', node') \<Longrightarrow> node_link node' = node_link node"
proof -
  assume run: "truncate_finish ef node sz e = Some (rc, ef', node')"
  have upd: "node_link (exfat_update_mtime ef1 node1\<lparr>n_size := sz, n_is_dirty := True\<rparr>) = node_link node1"
    "node_link (node1\<lparr>n_valid_size := v\<rparr>) = node_link node1" for ef1 node1 v
    by (simp_all add: node_link_def node_meta_def exfat_update_mtime_def)
  show ?thesis
  proof (cases e)
    case True
    then show ?thesis using run
      by (auto simp: truncate_finish_def Let_def run_simps upd split: if_splits dest: node_meta_link [OF erase_range_meta])
  next
    case False
    then show ?thesis using run by (auto simp: truncate_finish_def Let_def upd)
  qed
qed

lemma truncate_link: "exfat_truncate ef node sz e = Some (rc, ef', node') \<Longrightarrow> node_link node' = node_link node"
  by (auto simp: truncate_unfold run_simps split: if_splits dest!: resize_meta node_meta_link finish_link)

lemma truncate_ok:
  assumes "mounted ef" "file_ok ef node cs" "n_references node \<noteq> 0 \<or> n_parent node = None"
    "DIV_ROUND_UP (unat sz) (CLUSTER_SIZE (ef_sb ef)) < 2 ^ 32" "n_size node \<noteq> sz"
  shows "\<exists>rc ef' node'. exfat_truncate ef node sz erase = Some (rc, ef', node') \<and> mounted ef' \<and> vol_rest ef' = vol_rest ef \<and>
    (rc = 0 \<longrightarrow> (\<exists>cs'. file_ok ef' node' cs' \<and> n_size node' = sz \<and>
       n_valid_size node' = (if erase then sz else min (n_valid_size node) sz) \<and>
       take (min (length cs) (length cs')) cs' = take (min (length cs) (length cs')) cs \<and>
       (\<forall>i < unat sz. i < unat (n_valid_size node) \<longrightarrow> file_byte ef' cs' i = file_byte ef cs i) \<and>
       (erase \<longrightarrow> (\<forall>i < unat sz. unat (n_valid_size node) \<le> i \<longrightarrow> file_byte ef' cs' i = 0))))"
proof -
  let ?s = "CLUSTER_SIZE (ef_sb ef)"
  have g: "geometry_ok (ef_sb ef)" using assms(1) by (simp add: mounted_def)
  have o: "owns ef node cs" "length cs = DIV_ROUND_UP (unat (n_size node)) ?s" "n_valid_size node \<le> n_size node"
    using assms(2) by (auto simp: file_ok_def)
  have "length cs < 2 ^ 32" using owns_length [OF o(1)] unat_u32 [of "sb_cluster_count (ef_sb ef)"] by simp
  then have c1: "unat (bytes2clusters ef (n_size node)) = length cs" using bytes2clusters_eq [OF g] o(2) by simp
  have c2: "unat (bytes2clusters ef sz) = DIV_ROUND_UP (unat sz) ?s" by (rule bytes2clusters_eq [OF g assms(4)])
  obtain rc ef1 node1 where r: "truncate_resize ef node (bytes2clusters ef (n_size node)) (bytes2clusters ef sz) =
      Some (rc, ef1, node1)" "fat_update ef ef1" "node_meta node1 = node_meta node"
    "rc = 0 \<longrightarrow> (\<exists>cs'. owns ef1 node1 cs' \<and> length cs' = DIV_ROUND_UP (unat sz) ?s \<and>
       take (min (length cs) (length cs')) cs' = take (min (length cs) (length cs')) cs)"
    using resize_ok [OF assms(1) o(1) c1, of "bytes2clusters ef sz"] c2 by metis
  have m1: "mounted ef1" "ef_sb ef1 = ef_sb ef" using r(2) assms(1) by (auto simp: fat_update_mounted fat_update_fields)
  have run: "exfat_truncate ef node sz erase =
      (if rc \<noteq> 0 then Some (rc, ef1, node1) else truncate_finish ef1 node1 sz erase)"
    using assms(3,5) r(1) by (auto simp: truncate_unfold)
  show ?thesis
  proof (cases "rc = 0")
    case False
    then show ?thesis using run m1 fat_update_rest [OF r(2)] by auto
  next
    case True
    then obtain cs' where cs': "owns ef1 node1 cs'" "length cs' = DIV_ROUND_UP (unat sz) ?s"
      "take (min (length cs) (length cs')) cs' = take (min (length cs) (length cs')) cs" using r(4) by blast
    have v: "n_valid_size node1 = n_valid_size node" by (rule node_meta_fields [OF r(3)])
    obtain rc' ef' node' where f: "truncate_finish ef1 node1 sz erase = Some (rc', ef', node')" "data_update ef1 ef'"
      "rc' = 0 \<longrightarrow> file_ok ef' node' cs' \<and> n_size node' = sz \<and>
        n_valid_size node' = (if erase then sz else min (n_valid_size node) sz) \<and>
        (\<forall>i < unat sz. i < unat (n_valid_size node) \<longrightarrow> file_byte ef' cs' i = file_byte ef1 cs' i) \<and>
        (erase \<longrightarrow> (\<forall>i < unat sz. unat (n_valid_size node) \<le> i \<longrightarrow> file_byte ef' cs' i = 0))"
      using finish_ok [OF m1(1) cs'(1), of sz erase] cs'(2) m1(2) v by auto
    have "file_byte ef1 cs' i = file_byte ef cs i" if "i < unat sz" "i < unat (n_valid_size node)" for i
    proof -
      let ?k = "min (length cs) (length cs')"
      have "unat sz \<le> length cs' * ?s" "unat (n_size node) \<le> length cs * ?s"
        using o(2) cs'(2) by (simp_all add: DIV_ROUND_UP_le)
      then have "i < ?k * ?s" using that o(3) by (auto simp: min_def word_le_nat_alt)
      then have "file_byte ef cs' i = file_byte ef cs i" using cs'(3) file_byte_take by metis
      then show ?thesis using fat_update_file_byte [OF r(2) assms(1)] by simp
    qed
    then show ?thesis using run True f cs'(3) m1(1) data_update_mounted [OF f(2)] fat_update_rest [OF r(2)]
      data_update_rest [OF f(2)] by auto
  qed
qed

section \<open>Error codes\<close>

lemma shrink_loop_rc: "shrink_loop ef node n p = Some (rc, ef') \<Longrightarrow> rc \<in> {0, - EIO}"
  by (induction n arbitrary: ef p) (auto simp: Let_def run_simps case_prod_unfold split: if_splits)

lemma shrink_file_rc: "shrink_file ef node a b = Some (rc, ef', node') \<Longrightarrow> rc \<in> {0, - EIO}"
  by (auto simp: shrink_file_def Let_def run_simps case_prod_unfold split: if_splits dest: shrink_loop_rc)

lemma grow_loop_rc: "grow_loop ef node cur n a p = Some (rc, ef', node') \<Longrightarrow> rc \<in> {0, - EIO, - ENOSPC}"
proof (induction n arbitrary: ef node a p)
  case (Suc n)
  then show ?case
    by (fastforce simp: Let_def run_simps case_prod_unfold split: if_splits)
qed (auto split: prod.splits if_splits)

lemma grow_file_rc: "grow_file ef node a b = Some (rc, ef', node') \<Longrightarrow> rc \<in> {0, - EIO, - ENOSPC}"
  by (fastforce simp: grow_file_def Let_def run_simps case_prod_unfold split: if_splits dest: grow_loop_rc)

lemma erase_loop_rc: "erase_loop ef node b e c = Some (rc, ef') \<Longrightarrow> rc \<in> {0, - EIO}"
proof -
  assume "erase_loop ef node b e c = Some (rc, ef')"
  then have "fst (rc, ef') \<in> {0, - EIO}"
    by (rule erase_loop.raw_induct [of "\<lambda>_ _ _ _ _ y. fst y \<in> {0, - EIO}", rotated])
      (fastforce simp: Let_def run_simps case_prod_unfold split: if_splits)
  then show ?thesis by simp
qed

lemma erase_range_rc: "erase_range ef node a b = Some (rc, ef', node') \<Longrightarrow> rc \<in> {0, - EIO}"
  by (auto simp: erase_range_def Let_def run_simps case_prod_unfold split: if_splits dest: erase_loop_rc)

lemma resize_rc: "truncate_resize ef node a b = Some (rc, ef', node') \<Longrightarrow> rc \<in> {0, - EIO, - ENOSPC}"
  by (auto simp: truncate_resize_def split: if_splits dest!: grow_file_rc shrink_file_rc)

lemma finish_rc: "truncate_finish ef node sz e = Some (rc, ef', node') \<Longrightarrow> rc \<in> {0, - EIO}"
  by (cases e) (auto simp: truncate_finish_def Let_def run_simps split: if_splits dest!: erase_range_rc)

lemma truncate_rc: "exfat_truncate ef node sz e = Some (rc, ef', node') \<Longrightarrow> rc \<in> {0, - EIO, - ENOSPC}"
  by (fastforce simp: truncate_unfold run_simps split: if_splits dest!: resize_rc finish_rc)

section \<open>Properties\<close>

text \<open>
  C13: \<^verbatim>\<open>exfat_truncate\<close> to a different size.  The call returns, the volume stays consistent, and on
  success the file has exactly the clusters its new size needs, beginning with those it had; the valid
  bytes below the new size are what they were, and with \<open>erase\<close> every byte between the old valid size
  and the new size reads as zero.
\<close>

theorem truncate_correct:
  assumes "mounted ef" "file_ok ef node cs" "n_references node \<noteq> 0 \<or> n_parent node = None"
    "DIV_ROUND_UP (unat sz) (CLUSTER_SIZE (ef_sb ef)) < 2 ^ 32" "n_size node \<noteq> sz"
  shows "\<exists>rc ef' node'. exfat_truncate ef node sz erase = Some (rc, ef', node') \<and> mounted ef' \<and>
    (rc = 0 \<longrightarrow> (\<exists>cs'. file_ok ef' node' cs' \<and> n_size node' = sz \<and>
       n_valid_size node' = (if erase then sz else min (n_valid_size node) sz) \<and>
       take (min (length cs) (length cs')) cs' = take (min (length cs) (length cs')) cs \<and>
       (\<forall>i < unat sz. i < unat (n_valid_size node) \<longrightarrow> file_byte ef' cs' i = file_byte ef cs i) \<and>
       (erase \<longrightarrow> (\<forall>i < unat sz. unat (n_valid_size node) \<le> i \<longrightarrow> file_byte ef' cs' i = 0))))"
  using truncate_ok [OF assms, of erase] by blast

end
