(* ===== verification/FileIO.thy ===== *)
theory FileIO
  imports Truncate
begin

text \<open>
  Reading and writing the contents of a file: \<^verbatim>\<open>exfat_generic_pread\<close> and \<^verbatim>\<open>exfat_generic_pwrite\<close> of
  \<^verbatim>\<open>libexfat/io.c\<close>, the abstract view of a file as a sequence of bytes, and the refinement between
  the two.
\<close>

section \<open>Model\<close>

text \<open>
  The loops go cluster by cluster.  \<open>buf\<close> is the caller's buffer from \<^verbatim>\<open>bufp\<close> on, \<open>remainder\<close> the bytes
  that are left.  \<open>None\<close> is \<^verbatim>\<open>exfat_bug\<close> or a loop that makes no progress.
\<close>

partial_function (option) read_loop ::
    "exfat \<Rightarrow> exfat_node \<Rightarrow> u8 list \<Rightarrow> nat \<Rightarrow> nat \<Rightarrow> cluster_t \<Rightarrow> (int \<times> u8 list) option" where
  "read_loop ef node buf remainder loffset cluster =
     (if remainder = 0 then Some (0, buf)
      else if CLUSTER_INVALID (ef_sb ef) cluster then Some (- EIO, buf)
      else do {
        let lsize = min (CLUSTER_SIZE (ef_sb ef) - loffset) remainder;
        offset \<leftarrow> exfat_c2o ef cluster;
        let (n, part) = exfat_pread (ef_dev ef) (take lsize buf) lsize (offset + int loffset)
        in if n < 0 then Some (- EIO, part @ drop lsize buf)
           else do {
             next \<leftarrow> exfat_next_cluster ef node cluster;
             (rc, rest) \<leftarrow> read_loop ef node (drop lsize buf) (remainder - lsize) 0 next;
             Some (rc, part @ rest)
           }
      })"

text \<open>
  The result is the return value, the buffer and the node; the buffer has \<open>sz\<close> bytes.  The recursive
  call of the source, for the part below the valid size, is the recursive call here.
\<close>

function exfat_generic_pread ::
    "exfat \<Rightarrow> exfat_node \<Rightarrow> u8 list \<Rightarrow> nat \<Rightarrow> off_t \<Rightarrow> (int \<times> u8 list \<times> exfat_node) option" where
  "exfat_generic_pread ef node buffer sz offset =
     (let uoffset = word_of_int offset :: u64
      in if offset < 0 then Some (- EINVAL, buffer, node)
         else if n_size node \<le> uoffset then Some (0, buffer, node)
         else if sz = 0 then Some (0, buffer, node)
         else if n_valid_size node < uoffset + of_nat sz
         then do {
           (bytes, buffer, node, short) \<leftarrow>
             (if uoffset < n_valid_size node
              then do {
                let part = unat (n_valid_size node - uoffset);
                (bytes, buf, node) \<leftarrow> exfat_generic_pread ef node (take part buffer) part offset;
                Some (bytes, buf @ drop part buffer, node, bytes < 0 \<or> nat bytes < part)
              }
              else Some (0, buffer, node, False));
           if short then Some (bytes, buffer, node)
           else let zeros = min (sz - nat bytes) (unat (n_size node - n_valid_size node))
                in Some (int (min sz (unat (n_size node - uoffset))),
                         take (nat bytes) buffer @ replicate zeros 0 @ drop (nat bytes + zeros) buffer, node)
         }
         else do {
           let cluster_size = CLUSTER_SIZE (ef_sb ef);
           (cluster, node) \<leftarrow> exfat_advance_cluster ef node (ucast (uoffset div of_nat cluster_size));
           if CLUSTER_INVALID (ef_sb ef) cluster then Some (- EIO, buffer, node)
           else do {
             let remainder = min sz (unat (n_size node - uoffset));
             (rc, buffer) \<leftarrow> read_loop ef node buffer remainder (unat (uoffset mod of_nat cluster_size)) cluster;
             if rc \<noteq> 0 then Some (rc, buffer, node)
             else let node = (if \<not> is_dir node \<and> ef_ro ef = 0 \<and> \<not> ef_noatime ef
                              then exfat_update_atime ef node else node)
                  in Some (int remainder, buffer, node)
           }
         })"
  by pat_completeness auto
termination
  by (relation "measure (\<lambda>(ef, node, buffer, sz, offset).
        if n_valid_size node < word_of_int offset + of_nat sz then 1 else 0)") simp_all

declare exfat_generic_pread.simps [simp del]

partial_function (option) write_loop ::
    "exfat \<Rightarrow> exfat_node \<Rightarrow> u8 list \<Rightarrow> u64 \<Rightarrow> nat \<Rightarrow> nat \<Rightarrow> cluster_t \<Rightarrow> (int \<times> exfat \<times> exfat_node) option" where
  "write_loop ef node buf en remainder loffset cluster =
     (if remainder = 0 then Some (0, ef, node)
      else if CLUSTER_INVALID (ef_sb ef) cluster then Some (- EIO, ef, node)
      else do {
        let lsize = min (CLUSTER_SIZE (ef_sb ef) - loffset) remainder;
        offset \<leftarrow> exfat_c2o ef cluster;
        let (n, dev) = exfat_pwrite (ef_dev ef) buf lsize (offset + int loffset);
            ef = ef\<lparr>ef_dev := dev\<rparr>
        in if n < 0 then Some (- EIO, ef, node)
           else do {
             let node = node\<lparr>n_valid_size := max (n_valid_size node) (en - of_nat (remainder - lsize))\<rparr>;
             next \<leftarrow> exfat_next_cluster ef node cluster;
             write_loop ef node (drop lsize buf) en (remainder - lsize) 0 next
           }
      })"

text \<open>The two calls of \<^verbatim>\<open>exfat_truncate\<close> at the beginning of \<^verbatim>\<open>exfat_generic_pwrite\<close>.\<close>

definition pwrite_extend ::
    "exfat \<Rightarrow> exfat_node \<Rightarrow> u64 \<Rightarrow> u64 \<Rightarrow> (int \<times> exfat \<times> exfat_node) option" where
  "pwrite_extend ef node uoffset sz =
     do {
       (rc, ef, node) \<leftarrow> (if n_size node < uoffset then exfat_truncate ef node uoffset True
                          else Some (0, ef, node));
       if rc \<noteq> 0 then Some (rc, ef, node)
       else if n_size node < uoffset + sz then exfat_truncate ef node (uoffset + sz) False
       else Some (0, ef, node)
     }"

definition exfat_generic_pwrite ::
    "exfat \<Rightarrow> exfat_node \<Rightarrow> u8 list \<Rightarrow> nat \<Rightarrow> off_t \<Rightarrow> (int \<times> exfat \<times> exfat_node) option" where
  "exfat_generic_pwrite ef node buffer sz offset =
     (let uoffset = word_of_int offset :: u64
      in if offset < 0 then Some (- EINVAL, ef, node)
         else do {
           (rc, ef, node) \<leftarrow> pwrite_extend ef node uoffset (of_nat sz);
           if rc \<noteq> 0 then Some (rc, ef, node)
           else if sz = 0 then Some (0, ef, node)
           else do {
             let cluster_size = CLUSTER_SIZE (ef_sb ef);
             (cluster, node) \<leftarrow> exfat_advance_cluster ef node (ucast (uoffset div of_nat cluster_size));
             if CLUSTER_INVALID (ef_sb ef) cluster then Some (- EIO, ef, node)
             else do {
               (rc, ef, node) \<leftarrow>
                 write_loop ef node buffer (uoffset + of_nat sz) sz (unat (uoffset mod of_nat cluster_size)) cluster;
               if rc \<noteq> 0 then Some (rc, ef, node)
               else let node = (if \<not> is_dir node then exfat_update_mtime ef node else node)
                    in Some (int sz, ef, node)
             }
           }
         })"

section \<open>The abstract file\<close>

text \<open>
  The abstract view: a file is the sequence of its bytes, where everything from the valid size on
  reads as zero.
\<close>

definition contents :: "exfat \<Rightarrow> exfat_node \<Rightarrow> cluster_t list \<Rightarrow> u8 list" where
  "contents ef node cs =
     map (\<lambda>i. if i < unat (n_valid_size node) then file_byte ef cs i else 0) [0..<unat (n_size node)]"

definition heap_readable :: "exfat \<Rightarrow> bool" where
  "heap_readable ef \<longleftrightarrow> (\<forall>c k n. valid ef c \<longrightarrow> \<not> dev_bad_read (ef_dev ef) (cluster_off ef c + k) n)"

lemma length_contents [simp]: "length (contents ef node cs) = unat (n_size node)"
  by (simp add: contents_def)

lemma heap_pread:
  assumes "mounted ef" "heap_readable ef" "valid ef c" "k + n \<le> CLUSTER_SIZE (ef_sb ef)" "length buf = n"
  shows "exfat_pread (ef_dev ef) buf n (int (cluster_off ef c) + int k) =
    (int n, map (\<lambda>i. dev_data (ef_dev ef) (cluster_off ef c + k + i)) [0..<n])"
proof -
  have "dev_readable (ef_dev ef) n (cluster_off ef c + k)"
    using assms(1-4) unfolding dev_readable_def mounted_def heap_readable_def
    by (auto dest!: spec [of _ c])
  from exfat_pread_full [OF assms(5) this]
  have "exfat_pread (ef_dev ef) buf n (int (cluster_off ef c + k)) =
      (int n, map (dev_data (ef_dev ef)) [cluster_off ef c + k ..< cluster_off ef c + k + n])" .
  moreover have "map (dev_data (ef_dev ef)) [cluster_off ef c + k ..< cluster_off ef c + k + n] =
      map (\<lambda>i. dev_data (ef_dev ef) (cluster_off ef c + k + i)) [0..<n]"
    by (rule nth_equalityI) simp_all
  ultimately show ?thesis by simp
qed

lemma file_byte_in_cluster:
  "lo + i < CLUSTER_SIZE (ef_sb ef) \<Longrightarrow>
     file_byte ef cs (j * CLUSTER_SIZE (ef_sb ef) + lo + i) = dev_data (ef_dev ef) (cluster_off ef (cs ! j) + lo + i)"
proof -
  assume "lo + i < CLUSTER_SIZE (ef_sb ef)"
  then have "(j * CLUSTER_SIZE (ef_sb ef) + (lo + i)) div CLUSTER_SIZE (ef_sb ef) = j"
    "(j * CLUSTER_SIZE (ef_sb ef) + (lo + i)) mod CLUSTER_SIZE (ef_sb ef) = lo + i" by simp_all
  then show ?thesis by (simp add: file_byte_def add.assoc)
qed

text \<open>The next step of a walk through a file: the cluster after number \<open>j\<close>, when it is needed.\<close>

lemma owns_next:
  assumes "vol_ok ef" "owns ef node cs" "j < length cs"
  shows "\<exists>next. exfat_next_cluster ef node (cs ! j) = Some next \<and> (Suc j < length cs \<longrightarrow> next = cs ! Suc j)"
proof -
  have "valid ef (cs ! j)" using assms(2,3) by (simp add: owns_def)
  then show ?thesis using next_cluster_eq [OF assms(1)] successively_nth [of _ cs j] assms(2) by (auto simp: owns_def)
qed

lemma read_loop_ok:
  assumes "mounted ef" "heap_readable ef" "owns ef node cs" "lo < CLUSTER_SIZE (ef_sb ef)"
    "j * CLUSTER_SIZE (ef_sb ef) + lo + r \<le> length cs * CLUSTER_SIZE (ef_sb ef)" "r \<le> length buf"
    "0 < r \<Longrightarrow> c = cs ! j"
  shows "read_loop ef node buf r lo c =
    Some (0, map (file_byte ef cs) [j * CLUSTER_SIZE (ef_sb ef) + lo ..< j * CLUSTER_SIZE (ef_sb ef) + lo + r] @ drop r buf)"
  using assms(4-)
proof (induction r arbitrary: j lo buf c rule: less_induct)
  case (less r)
  let ?s = "CLUSTER_SIZE (ef_sb ef)"
  show ?case
  proof (cases "r = 0")
    case True
    then show ?thesis by (subst read_loop.simps) simp
  next
    case False
    define l where "l = min (?s - lo) r"
    have l: "0 < l" "l \<le> r" "lo + l \<le> ?s" using False less.prems(1) by (auto simp: l_def)
    have "j * ?s < length cs * ?s" using False less.prems(2) by linarith
    then have j: "j < length cs" by simp
    have v: "valid ef (cs ! j)" "vol_ok ef" using assms(1,3) j by (auto simp: owns_def mounted_def)
    obtain nxt where nx: "exfat_next_cluster ef node (cs ! j) = Some nxt" "Suc j < length cs \<longrightarrow> nxt = cs ! Suc j"
      using owns_next [OF v(2) assms(3) j] by blast
    have rd: "exfat_pread (ef_dev ef) (take l buf) l (int (cluster_off ef (cs ! j)) + int lo) =
        (int l, map (\<lambda>i. dev_data (ef_dev ef) (cluster_off ef (cs ! j) + lo + i)) [0..<l])"
      by (rule heap_pread [OF assms(1,2) v(1) l(3)]) (use l less.prems(3) in simp)
    have part: "map (\<lambda>i. dev_data (ef_dev ef) (cluster_off ef (cs ! j) + lo + i)) [0..<l] =
        map (file_byte ef cs) [j * ?s + lo ..< j * ?s + lo + l]"
      using l(3) by (intro nth_equalityI) (simp_all add: file_byte_in_cluster)
    have rest: "read_loop ef node (drop l buf) (r - l) 0 nxt =
        Some (0, map (file_byte ef cs) [j * ?s + lo + l ..< j * ?s + lo + r] @ drop r buf)"
    proof (cases "r = l")
      case True
      then show ?thesis by (subst read_loop.simps) simp
    next
      case ne: False
      then have full: "j * ?s + lo + l = Suc j * ?s" using l(2) less.prems(1) by (simp add: l_def min_def split: if_splits)
      have "Suc j * ?s < length cs * ?s" using full ne l(2) less.prems(2) by linarith
      then have "Suc j < length cs" by (meson linorder_not_less mult_le_mono1)
      then have n: "nxt = cs ! Suc j" using nx(2) by blast
      have e: "Suc j * ?s + 0 = j * ?s + lo + l" "Suc j * ?s + 0 + (r - l) = j * ?s + lo + r"
        using full l(2) by linarith+
      have "read_loop ef node (drop l buf) (r - l) 0 nxt =
          Some (0, map (file_byte ef cs) [Suc j * ?s + 0 ..< Suc j * ?s + 0 + (r - l)] @ drop (r - l) (drop l buf))"
        by (rule less.IH) (use l ne n less.prems(2,3) in \<open>simp_all only: e, auto\<close>)
      then show ?thesis using l(2) unfolding e by (simp add: add.assoc)
    qed
    have "read_loop ef node buf r lo (cs ! j) =
        Some (0, map (file_byte ef cs) [j * ?s + lo ..< j * ?s + lo + l] @
          map (file_byte ef cs) [j * ?s + lo + l ..< j * ?s + lo + r] @ drop r buf)"
      using False v(1) c2o_eq [OF v(1)] rd nx(1) rest part
      by (subst read_loop.simps) (simp add: Let_def flip: l_def)
    moreover have "[j * ?s + lo ..< j * ?s + lo + l] @ [j * ?s + lo + l ..< j * ?s + lo + r] = [j * ?s + lo ..< j * ?s + lo + r]"
      using l(2) by (simp add: upt_join)
    ultimately show ?thesis using less.prems(4) False by (metis append.assoc map_append neq0_conv)
  qed
qed

section \<open>Reading\<close>

text \<open>Below the valid size: whole clusters of the medium.\<close>

lemma pread_valid_part:
  assumes "mounted ef" "heap_readable ef" "file_ok ef node cs" "0 \<le> offset" "sz \<noteq> 0" "sz \<le> length buffer"
    "nat offset + sz \<le> unat (n_valid_size node)"
  shows "\<exists>node'. exfat_generic_pread ef node buffer sz offset =
      Some (int sz, map (file_byte ef cs) [nat offset..<nat offset + sz] @ drop sz buffer, node') \<and>
    file_ok ef node' cs \<and> n_size node' = n_size node \<and> n_valid_size node' = n_valid_size node"
proof -
  let ?s = "CLUSTER_SIZE (ef_sb ef)" and ?o = "nat offset"
  define u where "u = (word_of_int offset :: u64)"
  have g: "geometry_ok (ef_sb ef)" and vo: "vol_ok ef" using assms(1) by (auto simp: mounted_def)
  have o: "owns ef node cs" "length cs = DIV_ROUND_UP (unat (n_size node)) ?s" "unat (n_valid_size node) \<le> unat (n_size node)"
    using assms(3) by (auto simp: file_ok_def word_le_nat_alt)
  have "unat (n_size node) < 2 ^ 64" using unat_u64 by simp
  then have u: "unat u = ?o" using assms(4,7) o(3) by (simp add: u_def unat_word_of_int)
  have fits: "?o + sz \<le> length cs * ?s" using DIV_ROUND_UP_le [of ?s "unat (n_size node)"] o assms(7) by simp
  have len: "length cs < 2 ^ 32"
    using owns_length [OF o(1)] unat_u32 [of "sb_cluster_count (ef_sb ef)"] by simp
  define j where "j = ?o div ?s"
  have j: "j < length cs" using fits assms(5) unfolding j_def by (intro less_mult_imp_div_less) linarith
  define q where "q = (ucast (u div of_nat ?s) :: u32)"
  have q: "unat q = j"
    using j len by (simp add: q_def unsigned_ucast_eq unat_div unat_cluster_size [OF g] u j_def take_bit_nat_eq_self)
  define node1 where "node1 = node\<lparr>n_fptr_index := q, n_fptr_cluster := cs ! j\<rparr>"
  have adv: "exfat_advance_cluster ef node q = Some (cs ! j, node1)"
    using advance_owns [OF vo o(1), of q] q j by (simp add: node1_def)
  have o1: "owns ef node1 cs" using owns_fptr [OF o(1), of q] q j by (simp add: node1_def)
  have v: "valid ef (cs ! j)" using o(1) j by (simp add: owns_def)
  have m: "unat (u mod of_nat ?s) = ?o mod ?s" by (simp add: unat_mod unat_cluster_size [OF g] u)
  have rem: "min sz (unat (n_size node - u)) = sz" using assms(7) o(3) u by (simp add: unat_sub word_le_nat_alt)
  have dm: "j * ?s + ?o mod ?s = ?o" by (simp add: j_def)
  have "read_loop ef node1 buffer sz (?o mod ?s) (cs ! j) =
      Some (0, map (file_byte ef cs) [j * ?s + ?o mod ?s ..< j * ?s + ?o mod ?s + sz] @ drop sz buffer)"
    by (rule read_loop_ok [OF assms(1,2) o1]) (use fits assms(6) dm in auto)
  then have rd: "read_loop ef node1 buffer sz (?o mod ?s) (cs ! j) =
      Some (0, map (file_byte ef cs) [?o ..< ?o + sz] @ drop sz buffer)" by (simp only: dm)
  let ?node = "if \<not> is_dir node1 \<and> ef_ro ef = 0 \<and> \<not> ef_noatime ef then exfat_update_atime ef node1 else node1"
  have guards: "\<not> n_size node \<le> u" "\<not> n_valid_size node < u + of_nat sz"
    using assms(5,7) o(3) u by (auto simp: word_le_nat_alt word_less_nat_alt unat_word_ariths unat_of_nat)
  have "exfat_generic_pread ef node buffer sz offset =
      Some (int sz, map (file_byte ef cs) [?o..<?o + sz] @ drop sz buffer, ?node)"
    using assms(4,5) guards adv v rd m rem
    by (subst exfat_generic_pread.simps) (simp add: Let_def node1_def flip: u_def q_def)
  moreover have "file_ok ef ?node cs"
    using assms(3) o1 owns_meta [OF o1, of "exfat_update_atime ef node1"]
    by (auto simp: file_ok_def node1_def exfat_update_atime_def)
  ultimately show ?thesis by (auto simp: node1_def exfat_update_atime_def)
qed

lemma contents_window:
  assumes "n \<le> unat (n_size node) - p"
  shows "take n (drop p (contents ef node cs)) =
    map (\<lambda>i. if i < unat (n_valid_size node) then file_byte ef cs i else 0) [p..<p + n]"
  using assms by (intro nth_equalityI) (auto simp: contents_def)

lemma map_until:
  assumes "p \<le> v" "v \<le> e"
  shows "map (\<lambda>i. if i < v then f i else 0) [p..<e] = map f [p..<v] @ replicate (e - v) (0 :: 'a::zero)"
proof -
  have "map (\<lambda>i. if i < v then f i else 0) [v..<e] = replicate (e - v) 0"
    by (intro nth_equalityI) simp_all
  moreover have "map (\<lambda>i. if i < v then f i else 0) [p..<v] = map f [p..<v]" by simp
  ultimately show ?thesis unfolding upt_join [OF assms, symmetric] by simp
qed

lemma overlay:
  assumes "length A = p" "length B = k" "p + k \<le> length buf"
  shows "length (A @ B @ drop (p + k) buf) = length buf" "take (p + k) (A @ B @ drop (p + k) buf) = A @ B"
  using assms by auto

lemma pread_words:
  assumes "file_ok ef node cs" "0 \<le> offset" "nat offset + sz < 2 ^ 64"
  defines "u \<equiv> word_of_int offset :: u64"
  shows "unat u = nat offset" "unat (u + of_nat sz) = nat offset + sz" "unat (n_valid_size node) \<le> unat (n_size node)"
    "unat (n_size node - n_valid_size node) = unat (n_size node) - unat (n_valid_size node)"
    "nat offset < unat (n_size node) \<Longrightarrow> unat (n_size node - u) = unat (n_size node) - nat offset"
proof -
  show u: "unat u = nat offset" using assms(2,3) by (simp add: u_def unat_word_of_int)
  then show "unat (u + of_nat sz) = nat offset + sz" using assms(3) by (simp add: unat_word_ariths unat_of_nat)
  show "unat (n_valid_size node) \<le> unat (n_size node)" using assms(1) by (simp add: file_ok_def word_le_nat_alt)
  then show "unat (n_size node - n_valid_size node) = unat (n_size node) - unat (n_valid_size node)" by (simp add: unat_sub word_le_nat_alt)
  show "unat (n_size node - u) = unat (n_size node) - nat offset" if "nat offset < unat (n_size node)"
    using that u by (simp add: unat_sub word_le_nat_alt)
qed

text \<open>A read that starts in the valid part of a file and goes on behind it.\<close>

lemma pread_crossing:
  assumes "mounted ef" "heap_readable ef" "file_ok ef node cs" "0 \<le> offset" "nat offset + sz < 2 ^ 64" "sz = length buffer"
    and "nat offset < unat (n_valid_size node)" "unat (n_valid_size node) < nat offset + sz"
  defines "n \<equiv> min sz (unat (n_size node) - nat offset)"
  shows "\<exists>buf node'. exfat_generic_pread ef node buffer sz offset = Some (int n, buf, node') \<and>
    length buf = sz \<and> take n buf = take n (drop (nat offset) (contents ef node cs)) \<and>
    file_ok ef node' cs \<and> n_size node' = n_size node \<and> n_valid_size node' = n_valid_size node"
proof -
  let ?o = "nat offset" and ?v = "unat (n_valid_size node)" and ?z = "unat (n_size node)"
  define u where "u = (word_of_int offset :: u64)"
  note w = pread_words [OF assms(3,4,5), folded u_def]
  have inside: "?o < ?z" using assms(7) w(3) by linarith
  let ?p = "?v - ?o"
  have p: "unat (n_valid_size node - u) = ?p" "?p \<noteq> 0" "?p \<le> sz" "?o + ?p \<le> ?v"
    using assms(7,8) w(1) by (simp_all add: unat_sub word_le_nat_alt)
  obtain node1 where r: "exfat_generic_pread ef node (take ?p buffer) ?p offset = Some (int ?p, map (file_byte ef cs) [?o..<?v], node1)"
    "file_ok ef node1 cs" "n_size node1 = n_size node" "n_valid_size node1 = n_valid_size node"
    using pread_valid_part [OF assms(1-4) p(2) _ p(4), of "take ?p buffer"] p(3) assms(6,7) by auto
  let ?zs = "min (sz - ?p) (?z - ?v)"
  let ?buf = "map (file_byte ef cs) [?o..<?v] @ replicate ?zs 0 @ drop (?p + ?zs) buffer"
  have n: "n = ?p + ?zs" using assms(7,8) w(3) unfolding n_def by linarith
  have "u < n_valid_size node" "n_valid_size node < u + of_nat sz" "\<not> n_size node \<le> u" "sz \<noteq> 0"
    using assms(7,8) w(1-3) by (simp_all add: word_less_nat_alt word_le_nat_alt)
  moreover have "\<not> nat (int ?p) < ?p" "\<not> int ?p < 0" "nat (int ?p) = ?p" by simp_all
  ultimately have "exfat_generic_pread ef node buffer sz offset = Some (int n, ?buf, node1)"
    using assms(4) p(1) r(1,3,4) w(4) w(5) [OF inside]
    by (subst exfat_generic_pread.simps) (simp add: Let_def n_def add.commute flip: u_def)
  moreover have "take n (drop ?o (contents ef node cs)) = map (file_byte ef cs) [?o..<?v] @ replicate ?zs 0"
  proof -
    have "n \<le> ?z - ?o" unfolding n_def by (rule min.cobounded2)
    moreover have "?o + n = ?v + ?zs" unfolding n using assms(7) by simp
    ultimately have e: "n \<le> ?z - ?o" "?o \<le> ?v" "?v \<le> ?o + n" "?o + n - ?v = ?zs" using assms(7) by (simp_all del: min_less_iff_conj)
    show ?thesis unfolding contents_window [OF e(1)] map_until [OF e(2,3)] e(4) ..
  qed
  moreover have "length ?buf = sz" "take n ?buf = map (file_byte ef cs) [?o..<?v] @ replicate ?zs 0"
  proof -
    have "length (map (file_byte ef cs) [?o..<?v]) = ?p" "length (replicate ?zs (0 :: u8)) = ?zs" by simp_all
    moreover have "?p + ?zs \<le> length buffer" using n assms(6) by (metis min.cobounded1 n_def)
    ultimately show "length ?buf = sz" "take n ?buf = map (file_byte ef cs) [?o..<?v] @ replicate ?zs 0"
      unfolding n by (simp_all only: overlay) (simp only: assms(6))
  qed
  ultimately show ?thesis using r(2-4) by (simp only:) blast
qed

text \<open>
  The general case: on a healthy medium a read returns exactly the window of the abstract contents, cut
  at the end of the file.
\<close>

lemma pread_refines:
  assumes "mounted ef" "heap_readable ef" "file_ok ef node cs" "0 \<le> offset" "nat offset + sz < 2 ^ 64"
    "sz = length buffer"
  defines "n \<equiv> min sz (unat (n_size node) - nat offset)"
  shows "\<exists>buf node'. exfat_generic_pread ef node buffer sz offset = Some (int n, buf, node') \<and>
    length buf = sz \<and> take n buf = take n (drop (nat offset) (contents ef node cs)) \<and>
    file_ok ef node' cs \<and> n_size node' = n_size node \<and> n_valid_size node' = n_valid_size node"
proof -
  let ?o = "nat offset" and ?v = "unat (n_valid_size node)" and ?z = "unat (n_size node)"
  define u where "u = (word_of_int offset :: u64)"
  note w = pread_words [OF assms(3,4,5), folded u_def]
  consider (none) "?z \<le> ?o \<or> sz = 0" | (valid) "?o < ?z" "sz \<noteq> 0" "?o + sz \<le> ?v"
    | (crossing) "?o < ?v" "?v < ?o + sz" | (zeros) "?o < ?z" "sz \<noteq> 0" "?v < ?o + sz" "?v \<le> ?o"
    by linarith
  then show ?thesis
  proof cases
    case none
    then have "n = 0" by (auto simp: n_def)
    moreover have "exfat_generic_pread ef node buffer sz offset = Some (0, buffer, node)"
      using none assms(4) w(1) by (subst exfat_generic_pread.simps) (auto simp: n_def Let_def word_le_nat_alt simp flip: u_def)
    ultimately show ?thesis using assms(3,6) by simp
  next
    case valid
    then have "n = sz" using w(3) by (simp add: n_def)
    then show ?thesis
      using pread_valid_part [OF assms(1-4) valid(2) _ valid(3), of buffer] assms(6) w(3) valid(3) contents_window [of sz node ?o ef cs]
      by auto
  next
    case crossing
    show ?thesis unfolding n_def by (rule pread_crossing [OF assms(1-6) crossing])
  next
    case zeros
    let ?zs = "min sz (?z - ?v)"
    have "\<not> n_size node \<le> u" "n_valid_size node < u + of_nat sz" using zeros w(1,2) by (simp_all add: word_less_nat_alt word_le_nat_alt)
    then have "exfat_generic_pread ef node buffer sz offset = Some (int n, replicate ?zs 0 @ drop ?zs buffer, node)"
      using assms(4) zeros w(1,4,5)
      by (subst exfat_generic_pread.simps) (simp add: Let_def n_def word_less_nat_alt flip: u_def)
    moreover have "n \<le> ?zs" using zeros by (auto simp: n_def)
    moreover have "take n (drop ?o (contents ef node cs)) = replicate n 0"
      using contents_window [of n node ?o ef cs] zeros by (intro nth_equalityI) (auto simp: n_def)
    ultimately show ?thesis using assms(3,6) by (simp add: min_def)
  qed
qed

section \<open>Writing\<close>

text \<open>Storing bytes inside cluster number \<open>j\<close> of a file changes exactly the bytes of the file at that place.\<close>

lemma file_byte_store:
  assumes "owns ef node cs" "j < length cs" "lo + length bs \<le> CLUSTER_SIZE (ef_sb ef)"
    "i < length cs * CLUSTER_SIZE (ef_sb ef)"
    "ef' = ef\<lparr>ef_dev := (ef_dev ef)\<lparr>dev_data := store (dev_data (ef_dev ef)) (cluster_off ef (cs ! j) + lo) bs\<rparr>\<rparr>"
  defines "p \<equiv> j * CLUSTER_SIZE (ef_sb ef) + lo"
  shows "file_byte ef' cs i = (if p \<le> i \<and> i < p + length bs then bs ! (i - p) else file_byte ef cs i)"
proof -
  let ?s = "CLUSTER_SIZE (ef_sb ef)"
  let ?q = "i div ?s" and ?m = "i mod ?s"
  have q: "?q < length cs" using assms(4) by (simp add: less_mult_imp_div_less)
  have i: "i = ?q * ?s + ?m" by simp
  have m: "?m < ?s" by simp
  have off: "cluster_off ef' = cluster_off ef" using assms(5) by (simp add: cluster_off_def fun_eq_iff)
  have fb: "file_byte ef' cs i = store (dev_data (ef_dev ef)) (cluster_off ef (cs ! j) + lo) bs (cluster_off ef (cs ! ?q) + ?m)"
    using assms(5) off by (simp add: file_byte_def)
  show ?thesis
  proof (cases "?q = j")
    case True
    then have "i = j * ?s + ?m" using i by metis
    then have "p \<le> i \<longleftrightarrow> lo \<le> ?m" "i < p + length bs \<longleftrightarrow> ?m < lo + length bs" "i - p = ?m - lo"
      unfolding p_def by linarith+
    then show ?thesis using True fb by (auto simp: store_def file_byte_def)
  next
    case False
    have "valid ef (cs ! ?q)" "valid ef (cs ! j)" "cs ! ?q \<noteq> cs ! j"
      using assms(1,2) q False by (auto simp: owns_def nth_eq_iff_index_eq)
    from cluster_off_disjoint [OF this] have
      "\<not> (cluster_off ef (cs ! j) + lo \<le> cluster_off ef (cs ! ?q) + ?m \<and>
          cluster_off ef (cs ! ?q) + ?m < cluster_off ef (cs ! j) + lo + length bs)"
      using assms(3) m by linarith
    moreover have "\<not> (p \<le> i \<and> i < p + length bs)"
    proof
      assume a: "p \<le> i \<and> i < p + length bs"
      then have "j * ?s \<le> i" "i < j * ?s + ?s" using assms(3) unfolding p_def by linarith+
      then have "?q = j" by (intro div_nat_eqI) (simp_all add: mult.commute)
      then show False using False by blast
    qed
    ultimately show ?thesis using fb by (auto simp: store_def file_byte_def)
  qed
qed

definition heap_writable :: "exfat \<Rightarrow> bool" where
  "heap_writable ef \<longleftrightarrow> dev_mode (ef_dev ef) \<noteq> EXFAT_MODE_RO \<and>
     (\<forall>c k n. valid ef c \<longrightarrow> \<not> dev_bad_write (ef_dev ef) (cluster_off ef c + k) n)"

lemma data_update_heap_writable: "data_update ef ef' \<Longrightarrow> heap_writable ef' \<longleftrightarrow> heap_writable ef"
  by (simp add: heap_writable_def data_update_fields)

text \<open>One request of the loop: it fails and changes nothing, or stores its bytes in the cluster.\<close>

lemma heap_pwrite:
  assumes "mounted ef" "valid ef c" "k + n \<le> CLUSTER_SIZE (ef_sb ef)" "n \<le> length buf"
  obtains (fail) r where "exfat_pwrite (ef_dev ef) buf n (int (cluster_off ef c) + int k) = (r, ef_dev ef)" "r < 0"
      "\<not> heap_writable ef"
    | (stored) "exfat_pwrite (ef_dev ef) buf n (int (cluster_off ef c) + int k) =
        (int n, (ef_dev ef)\<lparr>dev_data := store (dev_data (ef_dev ef)) (cluster_off ef c + k) (take n buf)\<rparr>)"
proof -
  let ?o = "cluster_off ef c + k"
  have fits: "int (?o + n) \<le> dev_size (ef_dev ef)" using assms(1,2,3) by (force simp: mounted_def)
  have l: "length (take n buf) = n" "nat (int (cluster_off ef c) + int k) = ?o" using assms(4) by simp_all
  show thesis
  proof (cases "sys_pwrite (ef_dev ef) (take n buf) (int (cluster_off ef c) + int k)")
    case None
    have "int ?o < dev_size (ef_dev ef)" if "n \<noteq> 0" using fits that by simp
    then have "\<not> heap_writable ef" using None l assms(2) fits
      by (auto simp: heap_writable_def sys_pwrite_def Let_def split: if_splits)
    then show thesis using None by (intro fail [of "-1"]) (simp_all add: exfat_pwrite_def)
  next
    case (Some a)
    then show thesis using fits l
      by (intro stored) (auto simp: exfat_pwrite_def sys_pwrite_def Let_def min_def split: if_splits)
  qed
qed

lemma data_update_store:
  "data_update ef (ef\<lparr>ef_dev := (ef_dev ef)\<lparr>dev_data := store (dev_data (ef_dev ef)) (cluster_off ef c + k) bs\<rparr>\<rparr>)"
  by (auto simp: data_update_def cluster_off_def store_def intro!: exI)

text \<open>One round of the loop stores the part of the buffer that belongs to cluster number \<open>j\<close>, or fails and changes nothing.\<close>

lemma write_step [consumes 7]:
  assumes "mounted ef" "owns ef node cs" "lo < CLUSTER_SIZE (ef_sb ef)"
    "j * CLUSTER_SIZE (ef_sb ef) + lo + r \<le> length cs * CLUSTER_SIZE (ef_sb ef)" "r \<le> length buf" "0 < r"
    and l_def: "l = min (CLUSTER_SIZE (ef_sb ef) - lo) r"
  obtains (fails) "write_loop ef node buf en r lo (cs ! j) = Some (- EIO, ef, node)" "\<not> heap_writable ef"
    | (goes_on) ef1 nxt where
        "write_loop ef node buf en r lo (cs ! j) =
           write_loop ef1 (node\<lparr>n_valid_size := max (n_valid_size node) (en - of_nat (r - l))\<rparr>) (drop l buf) en (r - l) 0 nxt"
        "data_update ef ef1" "Suc j < length cs \<longrightarrow> nxt = cs ! Suc j"
        "\<forall>i < length cs * CLUSTER_SIZE (ef_sb ef). file_byte ef1 cs i =
           (if j * CLUSTER_SIZE (ef_sb ef) + lo \<le> i \<and> i < j * CLUSTER_SIZE (ef_sb ef) + lo + l
            then buf ! (i - (j * CLUSTER_SIZE (ef_sb ef) + lo)) else file_byte ef cs i)"
proof -
  let ?s = "CLUSTER_SIZE (ef_sb ef)"
  have l: "0 < l" "l \<le> r" "lo + l \<le> ?s" using assms(3,6) by (auto simp: l_def)
  have "j * ?s < length cs * ?s" using assms(4,6) by linarith
  then have j: "j < length cs" by simp
  have v: "valid ef (cs ! j)" using assms(2) j by (auto simp: owns_def)
  have lb: "l \<le> length buf" using l(2) assms(5) by simp
  show thesis
  proof (rule heap_pwrite [OF assms(1) v l(3) lb])
    fix n assume "exfat_pwrite (ef_dev ef) buf l (int (cluster_off ef (cs ! j)) + int lo) = (n, ef_dev ef)" "n < 0" "\<not> heap_writable ef"
    then show thesis using v c2o_eq [OF v] assms(6)
      by (intro fails) (subst write_loop.simps, simp_all add: Let_def flip: l_def)
  next
    assume w: "exfat_pwrite (ef_dev ef) buf l (int (cluster_off ef (cs ! j)) + int lo) =
      (int l, (ef_dev ef)\<lparr>dev_data := store (dev_data (ef_dev ef)) (cluster_off ef (cs ! j) + lo) (take l buf)\<rparr>)"
    define ef1 where
      "ef1 = ef\<lparr>ef_dev := (ef_dev ef)\<lparr>dev_data := store (dev_data (ef_dev ef)) (cluster_off ef (cs ! j) + lo) (take l buf)\<rparr>\<rparr>"
    let ?node = "node\<lparr>n_valid_size := max (n_valid_size node) (en - of_nat (r - l))\<rparr>"
    have u: "data_update ef ef1" unfolding ef1_def by (rule data_update_store)
    have "mounted ef1" using assms(1) u by (simp add: data_update_mounted)
    then have "vol_ok ef1" by (simp add: mounted_def)
    moreover have "owns ef1 ?node cs" using owns_meta [OF data_update_owns [OF u assms(1,2)], of ?node] by simp
    ultimately obtain nxt where nx: "exfat_next_cluster ef1 ?node (cs ! j) = Some nxt" "Suc j < length cs \<longrightarrow> nxt = cs ! Suc j"
      using owns_next j by blast
    have "write_loop ef node buf en r lo (cs ! j) = write_loop ef1 ?node (drop l buf) en (r - l) 0 nxt"
      using v c2o_eq [OF v] w nx(1) assms(6) by (subst write_loop.simps) (simp add: Let_def ef1_def flip: l_def)
    moreover have "file_byte ef1 cs i = (if j * ?s + lo \<le> i \<and> i < j * ?s + lo + l then buf ! (i - (j * ?s + lo)) else file_byte ef cs i)"
      if "i < length cs * ?s" for i
      using file_byte_store [OF assms(2) j _ that ef1_def] l(3) lb by (auto simp: nth_take)
    ultimately show thesis using u nx(2) by (intro goes_on) auto
  qed
qed

lemma write_loop_ok:
  assumes "mounted ef" "owns ef node cs" "lo < CLUSTER_SIZE (ef_sb ef)"
    "j * CLUSTER_SIZE (ef_sb ef) + lo + r \<le> length cs * CLUSTER_SIZE (ef_sb ef)" "r \<le> length buf"
    "0 < r \<Longrightarrow> c = cs ! j" "r \<le> unat en"
  shows "\<exists>rc ef' node'. write_loop ef node buf en r lo c = Some (rc, ef', node') \<and> data_update ef ef' \<and>
    (rc = 0 \<or> rc = - EIO) \<and> (heap_writable ef \<longrightarrow> rc = 0) \<and>
    (rc = 0 \<longrightarrow> node' = node\<lparr>n_valid_size := (if r = 0 then n_valid_size node else max (n_valid_size node) en)\<rparr> \<and>
      (\<forall>i < length cs * CLUSTER_SIZE (ef_sb ef). file_byte ef' cs i =
         (if j * CLUSTER_SIZE (ef_sb ef) + lo \<le> i \<and> i < j * CLUSTER_SIZE (ef_sb ef) + lo + r
          then buf ! (i - (j * CLUSTER_SIZE (ef_sb ef) + lo)) else file_byte ef cs i)))"
  using assms
proof (induction r arbitrary: ef node j lo buf c rule: less_induct)
  case (less r)
  let ?s = "CLUSTER_SIZE (ef_sb ef)"
  define l where "l = min (?s - lo) r"
  show ?case
  proof (cases "r = 0")
    case True
    then show ?thesis by (subst write_loop.simps) auto
  next
    case False
    then have r: "0 < r" by simp
    have c: "c = cs ! j" using less.prems(6) r by simp
    have l: "0 < l" "l \<le> r" "l \<le> length buf" using r less.prems(3,5) by (auto simp: l_def)
    from less.prems(1-5) r l_def show ?thesis
    proof (cases rule: write_step [where en = en])
      case fails
      then show ?thesis by (auto simp: c)
    next
      case (goes_on ef1 nxt)
      define node1 where "node1 = node\<lparr>n_valid_size := max (n_valid_size node) (en - of_nat (r - l))\<rparr>"
      note run = goes_on(1) [folded node1_def c] and u = goes_on(2)
      show ?thesis
      proof (cases "l = r")
        case True
        then have "write_loop ef node buf en r lo c = Some (0, ef1, node1)" unfolding run by (subst write_loop.simps) simp
        then show ?thesis using u goes_on(4) True False by (simp add: node1_def)
      next
        case ne: False
        then have lt: "l < r" using l(2) by simp
        have full: "Suc j * ?s = j * ?s + lo + l" using lt less.prems(3) by (simp add: l_def min_def split: if_splits)
        have m1: "mounted ef1" "ef_sb ef1 = ef_sb ef" "heap_writable ef1 \<longleftrightarrow> heap_writable ef"
          using u less.prems(1) by (simp_all add: data_update_fields data_update_heap_writable data_update_mounted)
        have o1: "owns ef1 node1 cs"
          using owns_meta [OF data_update_owns [OF u less.prems(1,2)], of node1] by (simp add: node1_def)
        have fits: "Suc j * ?s + 0 + (r - l) \<le> length cs * ?s" using full l(2) less.prems(4) by linarith
        then have "Suc j * ?s < length cs * ?s" using lt by linarith
        then have "Suc j < length cs" by (meson linorder_not_less mult_le_mono1)
        then have nx: "0 < r - l \<Longrightarrow> nxt = cs ! Suc j" using goes_on(3) by blast
        have pr: "r - l < r" "0 < ?s" "r - l \<le> length (drop l buf)" "r - l \<le> unat en" using l lt less.prems(5,7) by simp_all
        obtain rc ef' node' where ih: "write_loop ef1 node1 (drop l buf) en (r - l) 0 nxt = Some (rc, ef', node')"
          "data_update ef1 ef'" "rc = 0 \<or> rc = - EIO" "heap_writable ef1 \<longrightarrow> rc = 0"
          "rc = 0 \<longrightarrow> node' = node1\<lparr>n_valid_size := (if r - l = 0 then n_valid_size node1 else max (n_valid_size node1) en)\<rparr> \<and>
            (\<forall>i < length cs * ?s. file_byte ef' cs i =
               (if Suc j * ?s + 0 \<le> i \<and> i < Suc j * ?s + 0 + (r - l) then drop l buf ! (i - (Suc j * ?s + 0)) else file_byte ef1 cs i))"
          using less.IH [OF pr(1) m1(1) o1, unfolded m1(2), OF pr(2) fits pr(3) nx pr(4)] by blast
        have "unat (of_nat (r - l) :: u64) = r - l" using less.prems(7) unat_u64 [of en] by (intro unat_of_nat_id) simp
        then have "en - of_nat (r - l) \<le> en" using less.prems(7) by (intro word_sub_le) (simp add: word_le_nat_alt)
        then have nd: "node1\<lparr>n_valid_size := max (n_valid_size node1) en\<rparr> = node\<lparr>n_valid_size := max (n_valid_size node) en\<rparr>"
          by (simp add: node1_def max.assoc max.absorb2)
        have fb: "file_byte ef' cs i = (if j * ?s + lo \<le> i \<and> i < j * ?s + lo + r then buf ! (i - (j * ?s + lo)) else file_byte ef cs i)"
          if "rc = 0" "i < length cs * ?s" for i
        proof -
          have "drop l buf ! (i - (j * ?s + lo + l)) = buf ! (i - (j * ?s + lo))" if "j * ?s + lo + l \<le> i"
            using that l(3) by (simp add: add.commute)
          then show ?thesis using ih(5) goes_on(4) that lt unfolding full by (cases "j * ?s + lo + l \<le> i") auto
        qed
        show ?thesis using run ih data_update_trans [OF u ih(2)] m1(3) fb False nd lt by auto
      qed
    qed
  qed
qed

text \<open>The abstract write: the file is padded with zeros up to the offset, then the bytes are put there.\<close>

definition put_bytes :: "'a list \<Rightarrow> nat \<Rightarrow> 'a list \<Rightarrow> 'a::zero list" where
  "put_bytes data off bs = take off (data @ replicate (off - length data) 0) @ bs @ drop (off + length bs) data"

lemma length_put_bytes: "length (put_bytes data off bs) = max (length data) (off + length bs)"
  by (auto simp: put_bytes_def)

lemma nth_put_bytes:
  "i < length (put_bytes data off bs) \<Longrightarrow> put_bytes data off bs ! i =
     (if off \<le> i \<and> i < off + length bs then bs ! (i - off) else if i < length data then data ! i else 0)"
proof -
  assume i: "i < length (put_bytes data off bs)"
  have l: "length (take off (data @ replicate (off - length data) 0)) = off" by simp
  show ?thesis
    using i unfolding length_put_bytes unfolding put_bytes_def nth_append l
    by (auto simp: nth_append)
qed

text \<open>The part of a write after the file has been extended.\<close>

definition pwrite_body :: "exfat \<Rightarrow> exfat_node \<Rightarrow> u8 list \<Rightarrow> nat \<Rightarrow> u64 \<Rightarrow> (int \<times> exfat \<times> exfat_node) option" where
  "pwrite_body ef node buffer sz uoffset =
     do {
       (cluster, node) \<leftarrow> exfat_advance_cluster ef node (ucast (uoffset div of_nat (CLUSTER_SIZE (ef_sb ef))));
       if CLUSTER_INVALID (ef_sb ef) cluster then Some (- EIO, ef, node)
       else do {
         (rc, ef, node) \<leftarrow> write_loop ef node buffer (uoffset + of_nat sz) sz
           (unat (uoffset mod of_nat (CLUSTER_SIZE (ef_sb ef)))) cluster;
         if rc \<noteq> 0 then Some (rc, ef, node)
         else let node = (if \<not> is_dir node then exfat_update_mtime ef node else node)
              in Some (int sz, ef, node)
       }
     }"

lemma pwrite_unfold:
  "exfat_generic_pwrite ef node buffer sz offset =
     (if offset < 0 then Some (- EINVAL, ef, node)
      else do {
        (rc, ef, node) \<leftarrow> pwrite_extend ef node (word_of_int offset) (of_nat sz);
        if rc \<noteq> 0 then Some (rc, ef, node)
        else if sz = 0 then Some (0, ef, node)
        else pwrite_body ef node buffer sz (word_of_int offset) })"
  unfolding exfat_generic_pwrite_def pwrite_body_def Let_def by (rule refl)

lemma pwrite_body_ok:
  assumes "mounted ef" "file_ok ef node cs" "sz \<noteq> 0" "sz \<le> length buffer" "unat u + sz \<le> unat (n_size node)"
  shows "\<exists>rc ef' node'. pwrite_body ef node buffer sz u = Some (rc, ef', node') \<and> data_update ef ef' \<and>
    (rc = int sz \<or> rc = - EIO) \<and> (heap_writable ef \<longrightarrow> rc = int sz) \<and>
    (rc = int sz \<longrightarrow> file_ok ef' node' cs \<and> n_size node' = n_size node \<and>
      unat (n_valid_size node') = max (unat (n_valid_size node)) (unat u + sz) \<and>
      (\<forall>i < unat (n_size node). file_byte ef' cs i =
         (if unat u \<le> i \<and> i < unat u + sz then buffer ! (i - unat u) else file_byte ef cs i)))"
proof -
  let ?s = "CLUSTER_SIZE (ef_sb ef)" and ?o = "unat u"
  have g: "geometry_ok (ef_sb ef)" and vo: "vol_ok ef" using assms(1) by (auto simp: mounted_def)
  have o: "owns ef node cs" "length cs = DIV_ROUND_UP (unat (n_size node)) ?s" "unat (n_valid_size node) \<le> unat (n_size node)"
    using assms(2) by (auto simp: file_ok_def word_le_nat_alt)
  have cap: "unat (n_size node) \<le> length cs * ?s" using DIV_ROUND_UP_le [of ?s "unat (n_size node)"] o by simp
  have len: "length cs < 2 ^ 32"
    using owns_length [OF o(1)] unat_u32 [of "sb_cluster_count (ef_sb ef)"] by simp
  define j where "j = ?o div ?s"
  have j: "j < length cs" using cap assms(3,5) unfolding j_def by (intro less_mult_imp_div_less) linarith
  define q where "q = (ucast (u div of_nat ?s) :: u32)"
  have q: "unat q = j"
    using j len by (simp add: q_def unsigned_ucast_eq unat_div unat_cluster_size [OF g] j_def take_bit_nat_eq_self)
  define node1 where "node1 = node\<lparr>n_fptr_index := q, n_fptr_cluster := cs ! j\<rparr>"
  have adv: "exfat_advance_cluster ef node q = Some (cs ! j, node1)"
    using advance_owns [OF vo o(1), of q] q j by (simp add: node1_def)
  have o1: "owns ef node1 cs" using owns_fptr [OF o(1), of q] q j by (simp add: node1_def)
  have v: "valid ef (cs ! j)" using o(1) j by (simp add: owns_def)
  have m: "unat (u mod of_nat ?s) = ?o mod ?s" by (simp add: unat_mod unat_cluster_size [OF g])
  have dm: "j * ?s + ?o mod ?s = ?o" by (simp add: j_def)
  have en: "unat (u + of_nat sz) = ?o + sz"
    using assms(5) unat_u64 [of "n_size node"] by (simp add: unat_word_ariths unat_of_nat)
  obtain rc ef' node' where w: "write_loop ef node1 buffer (u + of_nat sz) sz (?o mod ?s) (cs ! j) = Some (rc, ef', node')"
    "data_update ef ef'" "rc = 0 \<or> rc = - EIO" "heap_writable ef \<longrightarrow> rc = 0"
    "rc = 0 \<longrightarrow> node' = node1\<lparr>n_valid_size := max (n_valid_size node1) (u + of_nat sz)\<rparr>"
    "rc = 0 \<longrightarrow> (\<forall>i < length cs * ?s. file_byte ef' cs i =
       (if ?o \<le> i \<and> i < ?o + sz then buffer ! (i - ?o) else file_byte ef cs i))"
    using write_loop_ok [OF assms(1) o1, of "?o mod ?s" j sz buffer "cs ! j" "u + of_nat sz"] assms(3-5) cap en
    by (auto simp: dm)
  let ?node = "if \<not> is_dir node' then exfat_update_mtime ef' node' else node'"
  have run: "pwrite_body ef node buffer sz u =
      (if rc \<noteq> 0 then Some (rc, ef', node') else Some (int sz, ef', ?node))"
    using adv v w(1) by (auto simp: pwrite_body_def m Let_def simp flip: q_def)
  have max: "unat (max (n_valid_size node) (u + of_nat sz)) = max (unat (n_valid_size node)) (?o + sz)"
    using en by (simp add: max_def word_le_nat_alt)
  have "file_ok ef' ?node cs" if "rc = 0"
  proof -
    have "owns ef' ?node cs"
      by (rule owns_meta [OF data_update_owns [OF w(2) assms(1) o1]])
        (use w(5) that in \<open>simp_all add: exfat_update_mtime_def\<close>)
    then show ?thesis
      using w(5) that o max assms(5) data_update_fields(1) [OF w(2)]
      by (simp add: file_ok_def node1_def exfat_update_mtime_def word_le_nat_alt)
  qed
  moreover have "n_size ?node = n_size node" "unat (n_valid_size ?node) = max (unat (n_valid_size node)) (?o + sz)" if "rc = 0"
    using w(5) that max by (simp_all add: node1_def exfat_update_mtime_def)
  ultimately show ?thesis using run w(2-4) w(6) cap assms(3) by (cases "rc = 0") auto
qed

text \<open>Extending a file for a write: afterwards the valid bytes reach the offset and the size covers the write.\<close>

definition extended :: "exfat \<Rightarrow> exfat_node \<Rightarrow> cluster_t list \<Rightarrow> exfat \<Rightarrow> exfat_node \<Rightarrow> cluster_t list \<Rightarrow> bool" where
  "extended ef node cs ef' node' cs' \<longleftrightarrow> unat (n_valid_size node) \<le> unat (n_valid_size node') \<and>
     (\<forall>i < unat (n_valid_size node'). file_byte ef' cs' i =
        (if i < unat (n_valid_size node) then file_byte ef cs i else 0))"

lemma extended_refl: "extended ef node cs ef node cs"
  by (simp add: extended_def)

lemma extended_trans: "extended ef node cs ef1 node1 cs1 \<Longrightarrow> extended ef1 node1 cs1 ef2 node2 cs2 \<Longrightarrow> extended ef node cs ef2 node2 cs2"
  by (auto simp: extended_def)

lemma truncate_extends:
  assumes "mounted ef" "file_ok ef node cs" "n_references node \<noteq> 0 \<or> n_parent node = None"
    "DIV_ROUND_UP (unat sz) (CLUSTER_SIZE (ef_sb ef)) < 2 ^ 32" "unat (n_size node) < unat sz"
  shows "\<exists>rc ef' node'. exfat_truncate ef node sz erase = Some (rc, ef', node') \<and> mounted ef' \<and> vol_rest ef' = vol_rest ef \<and>
    node_link node' = node_link node \<and>
    (rc = 0 \<longrightarrow> (\<exists>cs'. file_ok ef' node' cs' \<and> n_size node' = sz \<and> extended ef node cs ef' node' cs' \<and>
       n_valid_size node' = (if erase then sz else n_valid_size node)))"
proof -
  have ne: "n_size node \<noteq> sz" using assms(5) by blast
  have vz: "unat (n_valid_size node) \<le> unat (n_size node)" using assms(2) by (simp add: file_ok_def word_le_nat_alt)
  then have v: "min (n_valid_size node) sz = n_valid_size node" using assms(5) by (simp add: min_def word_le_nat_alt)
  obtain rc ef' node' where t: "exfat_truncate ef node sz erase = Some (rc, ef', node')" "mounted ef'" "vol_rest ef' = vol_rest ef"
    "rc = 0 \<longrightarrow> (\<exists>cs'. file_ok ef' node' cs' \<and> n_size node' = sz \<and>
       n_valid_size node' = (if erase then sz else min (n_valid_size node) sz) \<and>
       take (min (length cs) (length cs')) cs' = take (min (length cs) (length cs')) cs \<and>
       (\<forall>i < unat sz. i < unat (n_valid_size node) \<longrightarrow> file_byte ef' cs' i = file_byte ef cs i) \<and>
       (erase \<longrightarrow> (\<forall>i < unat sz. unat (n_valid_size node) \<le> i \<longrightarrow> file_byte ef' cs' i = 0)))"
    using truncate_ok [OF assms(1-4) ne, of erase] by metis
  have "extended ef node cs ef' node' cs'"
    if "n_valid_size node' = (if erase then sz else n_valid_size node)"
      "\<forall>i < unat sz. i < unat (n_valid_size node) \<longrightarrow> file_byte ef' cs' i = file_byte ef cs i"
      "erase \<longrightarrow> (\<forall>i < unat sz. unat (n_valid_size node) \<le> i \<longrightarrow> file_byte ef' cs' i = 0)" for cs'
    using that vz assms(5) by (auto simp: extended_def)
  then show ?thesis using t truncate_link [OF t(1)] unfolding v by blast
qed

lemma pwrite_extend_ok:
  assumes "mounted ef" "file_ok ef node cs" "n_references node \<noteq> 0 \<or> n_parent node = None"
    "DIV_ROUND_UP (unat u + n) (CLUSTER_SIZE (ef_sb ef)) < 2 ^ 32" "unat u + n < 2 ^ 64"
    "unat u \<le> unat (n_valid_size node) \<or> unat (n_size node) < unat u"
  shows "\<exists>rc ef' node'. pwrite_extend ef node u (of_nat n) = Some (rc, ef', node') \<and> mounted ef' \<and> vol_rest ef' = vol_rest ef \<and>
    (unat u + n \<le> unat (n_size node) \<longrightarrow> rc = 0) \<and>
    (rc = 0 \<longrightarrow> (\<exists>cs'. file_ok ef' node' cs' \<and> unat (n_size node') = max (unat (n_size node)) (unat u + n) \<and>
       extended ef node cs ef' node' cs' \<and> unat u \<le> unat (n_valid_size node')))"
proof -
  let ?s = "CLUSTER_SIZE (ef_sb ef)"
  have un: "unat (u + of_nat n) = unat u + n" using assms(5) by (simp add: unat_word_ariths unat_of_nat)
  have mono: "DIV_ROUND_UP (unat u) ?s \<le> DIV_ROUND_UP (unat u + n) ?s"
    by (simp add: DIV_ROUND_UP_def div_le_mono)
  obtain rc ef1 node1 where t1: "(if n_size node < u then exfat_truncate ef node u True else Some (0, ef, node)) = Some (rc, ef1, node1)"
    "mounted ef1" "vol_rest ef1 = vol_rest ef" "node_link node1 = node_link node" "unat u + n \<le> unat (n_size node) \<longrightarrow> rc = 0"
    "rc = 0 \<longrightarrow> (\<exists>cs'. file_ok ef1 node1 cs' \<and> unat (n_size node1) = max (unat (n_size node)) (unat u) \<and>
       extended ef node cs ef1 node1 cs' \<and> unat u \<le> unat (n_valid_size node1))"
  proof (cases "unat (n_size node) < unat u")
    case True
    then show ?thesis
      using truncate_extends [OF assms(1-3) _ True, of True] assms(4) mono that by (fastforce simp: word_less_nat_alt)
  next
    case False
    then show ?thesis using that [of 0 ef node] assms(1,2,6) extended_refl [of ef node cs] by (auto simp: word_less_nat_alt)
  qed
  have run: "pwrite_extend ef node u (of_nat n) =
      (if rc \<noteq> 0 then Some (rc, ef1, node1)
       else if n_size node1 < u + of_nat n then exfat_truncate ef1 node1 (u + of_nat n) False else Some (0, ef1, node1))"
    by (simp add: pwrite_extend_def t1(1))
  show ?thesis
  proof (cases "rc = 0")
    case False
    then show ?thesis using run t1 by auto
  next
    case rc: True
    then obtain cs1 where c1: "file_ok ef1 node1 cs1" "unat (n_size node1) = max (unat (n_size node)) (unat u)"
      "extended ef node cs ef1 node1 cs1" "unat u \<le> unat (n_valid_size node1)" using t1(6) by blast
    show ?thesis
    proof (cases "unat (n_size node1) < unat u + n")
      case False
      then show ?thesis using run rc t1(2,3) c1 by (auto simp: word_less_nat_alt un max_def)
    next
      case True
      have refs: "n_references node1 \<noteq> 0 \<or> n_parent node1 = None"
        using assms(3) node_link_fields [OF t1(4)] by simp
      have dv: "DIV_ROUND_UP (unat (u + of_nat n)) (CLUSTER_SIZE (ef_sb ef1)) < 2 ^ 32"
        using assms(4) vol_rest_fields(1) [OF t1(3)] un by simp
      have lt: "unat (n_size node1) < unat (u + of_nat n)" using True un by simp
      obtain rc' ef' node' where t2: "exfat_truncate ef1 node1 (u + of_nat n) False = Some (rc', ef', node')"
        "mounted ef'" "vol_rest ef' = vol_rest ef1"
        "rc' = 0 \<longrightarrow> (\<exists>cs'. file_ok ef' node' cs' \<and> n_size node' = u + of_nat n \<and> extended ef1 node1 cs1 ef' node' cs' \<and>
           n_valid_size node' = n_valid_size node1)"
        using truncate_extends [OF t1(2) c1(1) refs dv lt, of False] by auto
      have "pwrite_extend ef node u (of_nat n) = Some (rc', ef', node')"
        using run rc lt t2(1) by (simp add: word_less_nat_alt)
      moreover have "\<not> unat u + n \<le> unat (n_size node)" using True c1(2) by simp
      moreover have "max (unat (n_size node)) (unat u + n) = unat u + n" using True c1(2) by simp
      ultimately show ?thesis using t2 t1(3) un c1(4) extended_trans [OF c1(3)] by (auto 0 4)
    qed
  qed
qed

lemma pwrite_extend_rc: "pwrite_extend ef node u n = Some (rc, ef', node') \<Longrightarrow> rc \<in> {0, - EIO, - ENOSPC}"
  by (fastforce simp: pwrite_extend_def run_simps split: if_splits dest!: truncate_rc)

lemma written_contents:
  assumes "unat (n_size node1) = max (unat (n_size node)) (p + n)" "extended ef node cs ef1 node1 cs'"
    "p \<le> unat (n_valid_size node1)" "unat (n_size node') = unat (n_size node1)"
    "unat (n_valid_size node') = (if n = 0 then unat (n_valid_size node1) else max (unat (n_valid_size node1)) (p + n))"
    "unat (n_valid_size node) \<le> unat (n_size node)" "n \<le> length buffer" 
    "\<forall>i < unat (n_size node1). file_byte ef' cs' i =
        (if p \<le> i \<and> i < p + n then buffer ! (i - p) else file_byte ef1 cs' i)"
  shows "contents ef' node' cs' = put_bytes (contents ef node cs) p (take n buffer)"
proof (rule nth_equalityI)
  have l: "length (take n buffer) = n" using assms(7) by simp
  show len: "length (contents ef' node' cs') = length (put_bytes (contents ef node cs) p (take n buffer))"
    using assms(1,4,7) by (simp add: length_put_bytes)
  fix i assume i: "i < length (contents ef' node' cs')"
  then have "put_bytes (contents ef node cs) p (take n buffer) ! i =
     (if p \<le> i \<and> i < p + n then buffer ! (i - p) else if i < unat (n_size node) then contents ef node cs ! i else 0)"
    using len using assms(7) by (auto simp: nth_put_bytes)
  moreover have "contents ef' node' cs' ! i = (if p \<le> i \<and> i < p + n then buffer ! (i - p)
      else if i < unat (n_valid_size node') then file_byte ef1 cs' i else 0)"
    using i assms(4,5,8) by (auto simp: contents_def)
  moreover have "(if i < unat (n_valid_size node') then file_byte ef1 cs' i else 0) =
      (if i < unat (n_size node) then contents ef node cs ! i else 0)" if "\<not> (p \<le> i \<and> i < p + n)"
  proof -
    have "i < unat (n_valid_size node') \<longleftrightarrow> i < unat (n_valid_size node1)" using that assms(3,5) by auto
    then show ?thesis using assms(2,6) by (auto simp: contents_def extended_def)
  qed
  ultimately show "contents ef' node' cs' ! i = put_bytes (contents ef node cs) p (take n buffer) ! i" by auto
qed

lemma pwrite_refines:
  assumes "mounted ef" "file_ok ef node cs" "n_references node \<noteq> 0 \<or> n_parent node = None"
    "0 \<le> offset" "nat offset + sz < 2 ^ 64" "sz \<le> length buffer"
    "DIV_ROUND_UP (nat offset + sz) (CLUSTER_SIZE (ef_sb ef)) < 2 ^ 32"
    "nat offset \<le> unat (n_valid_size node) \<or> unat (n_size node) < nat offset"
  shows "\<exists>rc ef' node'. exfat_generic_pwrite ef node buffer sz offset = Some (rc, ef', node') \<and> mounted ef' \<and>
    vol_rest ef' = vol_rest ef \<and> (nat offset + sz \<le> unat (n_size node) \<and> heap_writable ef \<longrightarrow> rc = int sz) \<and>
    (0 \<le> rc \<longrightarrow> rc = int sz \<and> (n_valid_size node = n_size node \<longrightarrow> n_valid_size node' = n_size node') \<and>
       (\<exists>cs'. file_ok ef' node' cs' \<and>
       contents ef' node' cs' = put_bytes (contents ef node cs) (nat offset) (take sz buffer)))"
proof -
  let ?o = "nat offset"
  define u where "u = (word_of_int offset :: u64)"
  have u: "unat u = ?o" using assms(4,5) by (simp add: u_def unat_word_of_int)
  have vz: "unat (n_valid_size node) \<le> unat (n_size node)" using assms(2) by (simp add: file_ok_def word_le_nat_alt)
  obtain rc1 ef1 node1 where e: "pwrite_extend ef node u (of_nat sz) = Some (rc1, ef1, node1)" "mounted ef1"
    "vol_rest ef1 = vol_rest ef" "?o + sz \<le> unat (n_size node) \<longrightarrow> rc1 = 0"
    "rc1 = 0 \<longrightarrow> (\<exists>cs'. file_ok ef1 node1 cs' \<and> unat (n_size node1) = max (unat (n_size node)) (?o + sz) \<and>
       extended ef node cs ef1 node1 cs' \<and> ?o \<le> unat (n_valid_size node1))"
    using pwrite_extend_ok [OF assms(1-3), of u sz] assms(5,7,8) u by auto
  have run: "exfat_generic_pwrite ef node buffer sz offset =
      (if rc1 \<noteq> 0 then Some (rc1, ef1, node1) else if sz = 0 then Some (0, ef1, node1)
       else pwrite_body ef1 node1 buffer sz u)"
    using assms(4) e(1) by (simp add: pwrite_unfold flip: u_def)
  show ?thesis
  proof (cases "rc1 = 0")
    case False
    then have "rc1 < 0" using pwrite_extend_rc [OF e(1)] by auto
    then show ?thesis using run e(2-4) False by auto
  next
    case True
    then obtain cs' where c: "file_ok ef1 node1 cs'" "unat (n_size node1) = max (unat (n_size node)) (?o + sz)"
      "extended ef node cs ef1 node1 cs'" "?o \<le> unat (n_valid_size node1)" using e(5) by blast
    have full: "n_valid_size m = n_size m" if "n_valid_size node = n_size node" "unat (n_size m) = unat (n_size node1)"
        "unat (n_valid_size m) = (if sz = 0 then unat (n_valid_size node1) else max (unat (n_valid_size node1)) (?o + sz))" for m
    proof -
      have le: "unat (n_valid_size node1) \<le> unat (n_size node1)" using c(1) by (simp add: file_ok_def word_le_nat_alt)
      have ge: "unat (n_size node) \<le> unat (n_valid_size node1)" using c(3) that(1) by (simp add: extended_def)
      have "unat (n_valid_size m) = unat (n_size node1)"
      proof (cases "sz = 0")
        case True
        then have "unat (n_size node1) \<le> unat (n_valid_size node1)" using c(2,4) ge by simp
        then show ?thesis using that(3) True le by simp
      next
        case False
        then show ?thesis using that(3) c(2) le ge by (auto simp: max_def split: if_splits)
      qed
      then have "unat (n_valid_size m) = unat (n_size m)" using that(2) by simp
      then show ?thesis by (simp add: word_unat_eq_iff)
    qed
    have hw: "heap_writable ef1 \<longleftrightarrow> heap_writable ef"
      using vol_rest_fields [OF e(3)] by (simp add: heap_writable_def cluster_off_def)
    show ?thesis
    proof (cases "sz = 0")
      case z: True
      then have "contents ef1 node1 cs' = put_bytes (contents ef node cs) ?o (take sz buffer)"
        by (intro written_contents [OF c(2-4) refl]) (use vz in auto)
      then show ?thesis using run True z e(2,3) c(1) full [of node1] by auto
    next
      case False
      have fit: "unat u + sz \<le> unat (n_size node1)" using c(2) u by simp
      obtain rc ef' node' where w: "pwrite_body ef1 node1 buffer sz u = Some (rc, ef', node')" "data_update ef1 ef'"
        "rc = int sz \<or> rc = - EIO" "heap_writable ef1 \<longrightarrow> rc = int sz"
        "rc = int sz \<longrightarrow> file_ok ef' node' cs' \<and> n_size node' = n_size node1 \<and>
          unat (n_valid_size node') = max (unat (n_valid_size node1)) (unat u + sz) \<and>
          (\<forall>i < unat (n_size node1). file_byte ef' cs' i =
             (if unat u \<le> i \<and> i < unat u + sz then buffer ! (i - unat u) else file_byte ef1 cs' i))"
        using pwrite_body_ok [OF e(2) c(1) False assms(6) fit] by metis
      have "contents ef' node' cs' = put_bytes (contents ef node cs) ?o (take sz buffer)" if "rc = int sz"
        using written_contents [OF c(2-4), of node' buffer ef'] w(5) that u assms(6) vz False by simp
      moreover have "n_valid_size node' = n_size node'" if "rc = int sz" "n_valid_size node = n_size node"
        using full [of node'] w(5) that u False by simp
      ultimately show ?thesis
        using run True False w e(2,3) data_update_mounted [OF w(2)] data_update_rest [OF w(2)] hw by auto
    qed
  qed
qed

section \<open>Properties\<close>

text \<open>
  C2: reading.  On a readable medium \<^verbatim>\<open>exfat_generic_pread\<close> returns exactly the window of the abstract
  contents that the caller asked for, cut at the end of the file: bytes beyond the valid size read as
  zero, and the file keeps its clusters and sizes.
\<close>

theorem pread_correct:
  assumes "mounted ef" "heap_readable ef" "file_ok ef node cs" "0 \<le> offset" "nat offset + sz < 2 ^ 64"
    "sz = length buffer"
  shows "\<exists>buf node'. exfat_generic_pread ef node buffer sz offset =
      Some (int (min sz (unat (n_size node) - nat offset)), buf, node') \<and> length buf = sz \<and>
    take (min sz (unat (n_size node) - nat offset)) buf =
      take (min sz (unat (n_size node) - nat offset)) (drop (nat offset) (contents ef node cs)) \<and>
    file_ok ef node' cs \<and> n_size node' = n_size node \<and> n_valid_size node' = n_valid_size node"
  by (rule pread_refines [OF assms])

text \<open>
  C1: writing.  When no gap is left between the valid bytes and the write, a successful
  \<^verbatim>\<open>exfat_generic_pwrite\<close> makes the abstract contents what the abstract write makes of them (padding
  with zeros when the write begins past the end of the file), the volume stays consistent in every
  case, and a write inside the file succeeds on a writable medium.
\<close>

theorem pwrite_correct:
  assumes "mounted ef" "file_ok ef node cs" "n_references node \<noteq> 0 \<or> n_parent node = None"
    "0 \<le> offset" "nat offset + sz < 2 ^ 64" "sz \<le> length buffer"
    "DIV_ROUND_UP (nat offset + sz) (CLUSTER_SIZE (ef_sb ef)) < 2 ^ 32"
    "nat offset \<le> unat (n_valid_size node) \<or> unat (n_size node) < nat offset"
  shows "\<exists>rc ef' node'. exfat_generic_pwrite ef node buffer sz offset = Some (rc, ef', node') \<and> mounted ef' \<and>
    (nat offset + sz \<le> unat (n_size node) \<and> heap_writable ef \<longrightarrow> rc = int sz) \<and>
    (0 \<le> rc \<longrightarrow> rc = int sz \<and> (\<exists>cs'. file_ok ef' node' cs' \<and>
       contents ef' node' cs' = put_bytes (contents ef node cs) (nat offset) (take sz buffer)))"
  using pwrite_refines [OF assms] by blast

text \<open>
  C16: what is written can be read back: after a successful write of \<open>buffer\<close>, reading the same range of
  the file returns \<open>buffer\<close>.
\<close>

theorem write_then_read:
  assumes "mounted ef" "heap_readable ef" "file_ok ef node cs" "n_references node \<noteq> 0 \<or> n_parent node = None"
    "0 \<le> offset" "nat offset + length buffer < 2 ^ 64"
    "DIV_ROUND_UP (nat offset + length buffer) (CLUSTER_SIZE (ef_sb ef)) < 2 ^ 32"
    "nat offset \<le> unat (n_valid_size node) \<or> unat (n_size node) < nat offset"
    "exfat_generic_pwrite ef node buffer (length buffer) offset = Some (rc, ef', node')" "0 \<le> rc"
    "length old = length buffer"
  shows "\<exists>node''. exfat_generic_pread ef' node' old (length buffer) offset = Some (int (length buffer), buffer, node'')"
proof -
  obtain cs' where w: "mounted ef'" "vol_rest ef' = vol_rest ef" "file_ok ef' node' cs'"
    "contents ef' node' cs' = put_bytes (contents ef node cs) (nat offset) buffer"
    using pwrite_refines [OF assms(1,3-6) order_refl assms(7,8)] assms(9,10) by auto
  have hr: "heap_readable ef'"
    using assms(2) vol_rest_fields [OF w(2)] by (simp add: heap_readable_def cluster_off_def)
  have "unat (n_size node') = max (unat (n_size node)) (nat offset + length buffer)"
    using arg_cong [OF w(4), of length] by (simp add: length_put_bytes)
  then have n: "min (length buffer) (unat (n_size node') - nat offset) = length buffer" by simp
  have "take (length buffer) (drop (nat offset) (put_bytes (contents ef node cs) (nat offset) buffer)) = buffer"
    by (simp add: put_bytes_def)
  then show ?thesis
    using pread_refines [OF w(1) hr w(3) assms(5,6), of old] assms(11) w(4) by (auto simp: n)
qed

text \<open>
  C17: the gap.  A write inside the file that begins beyond the valid size moves the valid size past the
  gap without clearing it: bytes that read as zero before the write read as whatever the medium holds
  there afterwards.
\<close>

theorem pwrite_exposes_gap:
  assumes "mounted ef" "heap_writable ef" "file_ok ef node cs" "sz \<noteq> 0" "sz = length buffer" "0 \<le> offset"
    "nat offset + sz \<le> unat (n_size node)" "unat (n_valid_size node) \<le> i" "i < nat offset"
  shows "contents ef node cs ! i = 0 \<and>
    (\<exists>ef' node'. exfat_generic_pwrite ef node buffer sz offset = Some (int sz, ef', node') \<and>
      contents ef' node' cs ! i = file_byte ef cs i)"
proof -
  define u where "u = (word_of_int offset :: u64)"
  have u: "unat u = nat offset"
    using assms(6,7) unat_u64 [of "n_size node"] by (simp add: u_def unat_word_of_int)
  have us: "unat (u + of_nat sz) = nat offset + sz"
    using assms(7) unat_u64 [of "n_size node"] u by (simp add: unat_word_ariths unat_of_nat)
  have ext: "pwrite_extend ef node u (of_nat sz) = Some (0, ef, node)"
    using assms(7) u us by (simp add: pwrite_extend_def word_less_nat_alt)
  obtain ef' node' where w: "pwrite_body ef node buffer sz u = Some (int sz, ef', node')"
    "n_size node' = n_size node" "unat (n_valid_size node') = max (unat (n_valid_size node)) (unat u + sz)"
    "\<forall>i < unat (n_size node). file_byte ef' cs i =
         (if unat u \<le> i \<and> i < unat u + sz then buffer ! (i - unat u) else file_byte ef cs i)"
    using pwrite_body_ok [OF assms(1,3,4), of buffer u] assms(2,5,7) u by auto
  have "exfat_generic_pwrite ef node buffer sz offset = Some (int sz, ef', node')"
    using assms(4,6) ext w(1) by (simp add: pwrite_unfold flip: u_def)
  moreover have "contents ef' node' cs ! i = file_byte ef cs i" "contents ef node cs ! i = 0"
    using w(2-4) u assms(7-9) by (auto simp: contents_def)
  ultimately show ?thesis by blast
qed

end
