(* ===== verification/FileTrace.thy ===== *)
theory FileTrace
  imports FileIO
begin

text \<open>
  A file under a sequence of operations: the calls that a client makes on an open file
  (\<^verbatim>\<open>exfat_generic_pread\<close>, \<^verbatim>\<open>exfat_generic_pwrite\<close> and \<^verbatim>\<open>exfat_truncate\<close>) as steps, and the simulation of their runs
  by operations on a sequence of bytes.
\<close>

section \<open>Operations on the file and on the sequence of bytes\<close>

datatype file_op = Read nat nat | Write nat "u8 list" | Resize nat

text \<open>The specification: the new contents and what the caller receives.\<close>

fun spec_step :: "u8 list \<Rightarrow> file_op \<Rightarrow> u8 list \<times> u8 list" where
  "spec_step data (Read off n) = (data, take n (drop off data))"
| "spec_step data (Write off bs) = (put_bytes data off bs, [])"
| "spec_step data (Resize n) = (take n data @ replicate (n - length data) 0, [])"

fun spec_run :: "u8 list \<Rightarrow> file_op list \<Rightarrow> u8 list \<times> u8 list list" where
  "spec_run data [] = (data, [])"
| "spec_run data (x # xs) =
     (let (data, out) = spec_step data x; (data, outs) = spec_run data xs in (data, out # outs))"

text \<open>A successful call on the volume and the open node.\<close>

inductive file_step :: "exfat \<Rightarrow> exfat_node \<Rightarrow> file_op \<Rightarrow> u8 list \<Rightarrow> exfat \<Rightarrow> exfat_node \<Rightarrow> bool" where
  read: "exfat_generic_pread ef node buffer n (int off) = Some (rc, buf, node') \<Longrightarrow> length buffer = n \<Longrightarrow> 0 \<le> rc \<Longrightarrow>
    file_step ef node (Read off n) (take (nat rc) buf) ef node'"
| put: "exfat_generic_pwrite ef node bs (length bs) (int off) = Some (rc, ef', node') \<Longrightarrow> 0 \<le> rc \<Longrightarrow>
    file_step ef node (Write off bs) [] ef' node'"
| resize: "exfat_truncate ef node (of_nat n) True = Some (0, ef', node') \<Longrightarrow> file_step ef node (Resize n) [] ef' node'"

inductive_cases file_stepE: "file_step ef node x out ef' node'"

inductive file_run :: "exfat \<Rightarrow> exfat_node \<Rightarrow> file_op list \<Rightarrow> u8 list list \<Rightarrow> exfat \<Rightarrow> exfat_node \<Rightarrow> bool" where
  nil: "file_run ef node [] [] ef node"
| step: "file_step ef node x out ef1 node1 \<Longrightarrow> file_run ef1 node1 xs outs ef' node' \<Longrightarrow>
    file_run ef node (x # xs) (out # outs) ef' node'"

text \<open>Sizes that the cluster arithmetic of the volume can represent.\<close>

fun op_fits :: "exfat \<Rightarrow> file_op \<Rightarrow> bool" where
  "op_fits ef (Read off n) \<longleftrightarrow> off + n < 2 ^ 64"
| "op_fits ef (Write off bs) \<longleftrightarrow> off + length bs < 2 ^ 64 \<and>
     DIV_ROUND_UP (off + length bs) (CLUSTER_SIZE (ef_sb ef)) < 2 ^ 32"
| "op_fits ef (Resize n) \<longleftrightarrow> n < 2 ^ 64 \<and> DIV_ROUND_UP n (CLUSTER_SIZE (ef_sb ef)) < 2 ^ 32"

section \<open>The invariant of an open file\<close>

text \<open>The volume is consistent, the file owns its clusters, is held open, and all of its bytes are valid.\<close>

definition open_file :: "exfat \<Rightarrow> exfat_node \<Rightarrow> cluster_t list \<Rightarrow> bool" where
  "open_file ef node cs \<longleftrightarrow> mounted ef \<and> heap_readable ef \<and> file_ok ef node cs \<and>
     n_valid_size node = n_size node \<and> (n_references node \<noteq> 0 \<or> n_parent node = None)"

definition holders :: "exfat_node \<Rightarrow> int \<times> addr option" where
  "holders node = (n_references node, n_parent node)"

lemma holders_simps [simp]:
  "holders (node\<lparr>n_fptr_index := i\<rparr>) = holders node" "holders (node\<lparr>n_fptr_cluster := c\<rparr>) = holders node"
  "holders (node\<lparr>n_valid_size := v\<rparr>) = holders node" "holders (exfat_update_mtime ef node) = holders node"
  "holders (exfat_update_atime ef node) = holders node"
  by (simp_all add: holders_def exfat_update_mtime_def exfat_update_atime_def)

lemma advance_holders: "exfat_advance_cluster ef node k = Some (c, node') \<Longrightarrow> holders node' = holders node"
  by (auto simp: exfat_advance_cluster_def Let_def run_simps split: if_splits)

lemma link_holders: "node_link node' = node_link node \<Longrightarrow> holders node' = holders node"
  unfolding holders_def using node_link_fields [of node' node] by simp

lemma pread_holders_valid:
  assumes "\<not> n_valid_size node < word_of_int offset + of_nat sz"
    "exfat_generic_pread ef node buffer sz offset = Some (rc, buf, node')"
  shows "holders node' = holders node"
  using assms(2,1) unfolding exfat_generic_pread.simps [of ef node buffer sz offset]
  by (auto simp: Let_def run_simps split: if_splits dest!: advance_holders)

lemma pread_holders:
  assumes "exfat_generic_pread ef node buffer sz offset = Some (rc, buf, node')"
  shows "holders node' = holders node"
proof (cases "n_valid_size node < word_of_int offset + of_nat sz")
  case True
  have sub: "holders node1 = holders node"
    if "exfat_generic_pread ef node b (unat (n_valid_size node - word_of_int offset)) offset = Some (r, b', node1)" for b r b' node1
    using that by (intro pread_holders_valid [of node offset]) simp_all
  show ?thesis
    using assms True unfolding exfat_generic_pread.simps [of ef node buffer sz offset]
    by (auto simp: Let_def run_simps split: if_splits dest!: sub)
qed (rule pread_holders_valid [OF _ assms])

lemma write_loop_holders:
  "write_loop ef node buf en remainder loffset cluster = Some (rc, ef', node') \<Longrightarrow> holders node' = holders node"
proof -
  let ?P = "\<lambda>(ef :: exfat) node (buf :: u8 list) (en :: u64) (remainder :: nat) (loffset :: nat) (cluster :: cluster_t) (y :: int \<times> exfat \<times> exfat_node).
    holders (snd (snd y)) = holders node"
  assume run: "write_loop ef node buf en remainder loffset cluster = Some (rc, ef', node')"
  have "?P ef node buf en remainder loffset cluster (rc, ef', node')"
  proof (rule write_loop.raw_induct [of ?P, rotated, OF run])
    fix w ef node buf en remainder loffset cluster y
    assume IH: "\<And>ef node buf en remainder loffset cluster y. w ef node buf en remainder loffset cluster = Some y \<Longrightarrow>
        ?P ef node buf en remainder loffset cluster y"
    show "(if remainder = 0 then Some (0, ef, node)
      else if CLUSTER_INVALID (ef_sb ef) cluster then Some (- EIO, ef, node)
      else do {
        let lsize = min (CLUSTER_SIZE (ef_sb ef) - loffset) remainder;
        offset \<leftarrow> exfat_c2o ef cluster;
        let (n, dev) = exfat_pwrite (ef_dev ef) buf lsize (offset + int loffset);
            ef = ef\<lparr>ef_dev := dev\<rparr>
        in if n < 0 then Some (- EIO, ef, node)
           else do {
             let node = node\<lparr>n_valid_size := max (n_valid_size node) (en - of_nat (remainder - lsize))\<rparr>;
             next \<leftarrow> exfat_next_cluster ef node cluster;
             w ef node (drop lsize buf) en (remainder - lsize) 0 next
           }
      }) = Some y \<Longrightarrow> ?P ef node buf en remainder loffset cluster y"
      by (auto simp: Let_def run_simps case_prod_unfold split: if_splits dest!: IH)
  qed
  then show ?thesis by simp
qed

lemma pwrite_extend_holders: "pwrite_extend ef node u n = Some (rc, ef', node') \<Longrightarrow> holders node' = holders node"
  by (auto simp: pwrite_extend_def run_simps split: if_splits dest!: link_holders [OF truncate_link])

lemma pwrite_body_holders: "pwrite_body ef node buffer sz u = Some (rc, ef', node') \<Longrightarrow> holders node' = holders node"
  by (auto simp: pwrite_body_def Let_def run_simps split: if_splits dest!: advance_holders write_loop_holders)

lemma pwrite_holders:
  assumes "exfat_generic_pwrite ef node buffer sz offset = Some (rc, ef', node')"
  shows "holders node' = holders node"
proof (cases "offset < 0")
  case False
  then obtain rc1 ef1 node1 where e: "pwrite_extend ef node (word_of_int offset) (of_nat sz) = Some (rc1, ef1, node1)"
    "(if rc1 \<noteq> 0 then Some (rc1, ef1, node1) else if sz = 0 then Some (0, ef1, node1)
      else pwrite_body ef1 node1 buffer sz (word_of_int offset)) = Some (rc, ef', node')"
    using assms unfolding pwrite_unfold by (auto simp: run_simps)
  show ?thesis using e(2) pwrite_extend_holders [OF e(1)] pwrite_body_holders [of ef1 node1 buffer sz "word_of_int offset"]
    by (auto split: if_splits)
qed (use assms in \<open>simp add: pwrite_unfold\<close>)

section \<open>Steps\<close>

lemma rest_keeps: "vol_rest ef' = vol_rest ef \<Longrightarrow> heap_readable ef \<Longrightarrow> heap_readable ef' \<and> ef_sb ef' = ef_sb ef"
  using vol_rest_fields [of ef' ef] by (simp add: heap_readable_def cluster_off_def)

lemma step_read:
  assumes "open_file ef node cs" "off + n < 2 ^ 64" "length buffer = n"
  shows "\<exists>buf node'. exfat_generic_pread ef node buffer n (int off) = Some (int (min n (unat (n_size node) - off)), buf, node') \<and>
    take (min n (unat (n_size node) - off)) buf = take n (drop off (contents ef node cs)) \<and> open_file ef node' cs \<and>
    contents ef node' cs = contents ef node cs"
proof -
  let ?m = "min n (unat (n_size node) - off)"
  note o = assms(1) [unfolded open_file_def]
  obtain buf node' where r: "exfat_generic_pread ef node buffer n (int off) = Some (int ?m, buf, node')"
    "take ?m buf = take ?m (drop off (contents ef node cs))" "file_ok ef node' cs" "n_size node' = n_size node"
    "n_valid_size node' = n_valid_size node"
    using pread_refines [of ef node cs "int off" n buffer] o assms(2,3) unfolding nat_int by (metis of_nat_0_le_iff)
  have "take ?m (drop off (contents ef node cs)) = take n (drop off (contents ef node cs))"
  proof (cases "n \<le> unat (n_size node) - off")
    case False
    then have "?m = length (drop off (contents ef node cs))" by simp
    then show ?thesis using False by (simp only: take_all order_refl)
  qed simp
  moreover have "open_file ef node' cs" using o r(3-5) pread_holders [OF r(1)] by (simp add: open_file_def holders_def)
  moreover have "contents ef node' cs = contents ef node cs" using r(4,5) by (simp add: contents_def)
  ultimately show ?thesis using r(1,2) by auto
qed

lemma step_write:
  assumes "open_file ef node cs" "off + length bs < 2 ^ 64" "DIV_ROUND_UP (off + length bs) (CLUSTER_SIZE (ef_sb ef)) < 2 ^ 32"
    "exfat_generic_pwrite ef node bs (length bs) (int off) = Some (rc, ef', node')" "0 \<le> rc"
  shows "ef_sb ef' = ef_sb ef \<and> (\<exists>cs'. open_file ef' node' cs' \<and> contents ef' node' cs' = put_bytes (contents ef node cs) off bs)"
proof -
  note o = assms(1) [unfolded open_file_def]
  have gap: "off \<le> unat (n_valid_size node) \<or> unat (n_size node) < off" using o by (cases "off \<le> unat (n_size node)") simp_all
  obtain cs' where w: "mounted ef'" "vol_rest ef' = vol_rest ef" "n_valid_size node' = n_size node'" "file_ok ef' node' cs'"
    "contents ef' node' cs' = put_bytes (contents ef node cs) off bs"
    using pwrite_refines [of ef node cs "int off" "length bs" bs] o assms(2-5) gap by auto
  moreover have "heap_readable ef' \<and> ef_sb ef' = ef_sb ef" using rest_keeps [OF w(2)] o by blast
  ultimately show ?thesis using pwrite_holders [OF assms(4)] o by (auto simp: open_file_def holders_def)
qed

lemma step_resize:
  assumes "open_file ef node cs" "n < 2 ^ 64" "DIV_ROUND_UP n (CLUSTER_SIZE (ef_sb ef)) < 2 ^ 32"
    "exfat_truncate ef node (of_nat n) True = Some (0, ef', node')"
  shows "ef_sb ef' = ef_sb ef \<and> (\<exists>cs'. open_file ef' node' cs' \<and>
    contents ef' node' cs' = take n (contents ef node cs) @ replicate (n - unat (n_size node)) 0)"
proof -
  note o = assms(1) [unfolded open_file_def]
  have n: "unat (of_nat n :: u64) = n" using assms(2) by (simp add: unat_of_nat)
  show ?thesis
  proof (cases "n_size node = of_nat n")
    case True
    then have "ef' = ef" "node' = node" using assms(4) o by (auto simp: exfat_truncate_def)
    then show ?thesis using assms(1) True n by auto
  next
    case False
    then obtain cs' where t: "mounted ef'" "vol_rest ef' = vol_rest ef" "file_ok ef' node' cs'" "n_size node' = of_nat n"
      "n_valid_size node' = of_nat n" "\<forall>i < n. i < unat (n_size node) \<longrightarrow> file_byte ef' cs' i = file_byte ef cs i"
      "\<forall>i < n. unat (n_size node) \<le> i \<longrightarrow> file_byte ef' cs' i = 0"
      using truncate_ok [of ef node cs "of_nat n" True] o assms(3,4) n by auto
    have "heap_readable ef' \<and> ef_sb ef' = ef_sb ef" using rest_keeps [OF t(2)] o by blast
    moreover have "contents ef' node' cs' = take n (contents ef node cs) @ replicate (n - unat (n_size node)) 0"
      using t(4-7) n o by (intro nth_equalityI) (auto simp: contents_def nth_append)
    ultimately show ?thesis
      using t(1,3-5) link_holders [OF truncate_link [OF assms(4)]] o by (auto simp: open_file_def holders_def)
  qed
qed

lemma step_simulates:
  assumes "file_step ef node x out ef' node'" "open_file ef node cs" "op_fits ef x"
  shows "ef_sb ef' = ef_sb ef \<and> (\<exists>cs'. open_file ef' node' cs' \<and> (contents ef' node' cs', out) = spec_step (contents ef node cs) x)"
  using assms(1)
proof cases
  case (read buffer n off rc buf)
  then show ?thesis using step_read [OF assms(2), of off n buffer] assms(3) by auto
next
  case (put bs off rc)
  then show ?thesis using step_write [OF assms(2), of off bs] assms(3) by auto
next
  case (resize n)
  then show ?thesis using step_resize [OF assms(2), of n] assms(3) by auto
qed

lemma fits_cong: "ef_sb ef' = ef_sb ef \<Longrightarrow> op_fits ef' x = op_fits ef x"
  by (cases x) simp_all

lemma run_simulates:
  assumes "file_run ef node xs outs ef' node'" "open_file ef node cs" "\<forall>x \<in> set xs. op_fits ef x"
  shows "ef_sb ef' = ef_sb ef \<and> (\<exists>cs'. open_file ef' node' cs' \<and> (contents ef' node' cs', outs) = spec_run (contents ef node cs) xs)"
  using assms
proof (induction arbitrary: cs rule: file_run.induct)
  case (step ef node x out ef1 node1 xs outs ef' node')
  have 1: "op_fits ef x" using step.prems(2) by simp
  obtain cs1 where s: "ef_sb ef1 = ef_sb ef" "open_file ef1 node1 cs1" "(contents ef1 node1 cs1, out) = spec_step (contents ef node cs) x"
    using step_simulates [OF step.hyps(1) step.prems(1) 1] by blast
  have "\<forall>x \<in> set xs. op_fits ef1 x" using step.prems(2) fits_cong [OF s(1)] by simp
  from step.IH [OF s(2) this] show ?case using s(1) by (auto simp flip: s(3) split: prod.splits)
qed auto

section \<open>Properties\<close>

text \<open>
  C3: the file is a sequence of bytes.  Whatever successful reads, writes and truncations are made on an open
  file whose bytes are all valid, in any order and at any offsets, the contents of the file and everything the
  reads return are what the same operations on a plain sequence of bytes give, and the invariant of an open
  file holds again at the end.
\<close>

theorem file_runs_refine:
  assumes "file_run ef node ops outs ef' node'" "open_file ef node cs" "\<forall>x \<in> set ops. op_fits ef x"
  shows "\<exists>cs'. open_file ef' node' cs' \<and> contents ef' node' cs' = fst (spec_run (contents ef node cs) ops) \<and>
    outs = snd (spec_run (contents ef node cs) ops)"
  using run_simulates [OF assms] by (metis fst_conv snd_conv)

section \<open>Operations that cannot fail\<close>

text \<open>Reads anywhere, writes that end inside a file of \<open>z\<close> bytes, and setting the size that the file has.\<close>

fun op_inside :: "nat \<Rightarrow> file_op \<Rightarrow> bool" where
  "op_inside z (Read off n) \<longleftrightarrow> off + n < 2 ^ 64"
| "op_inside z (Write off bs) \<longleftrightarrow> off + length bs \<le> z"
| "op_inside z (Resize n) \<longleftrightarrow> n = z"

lemma open_clusters:
  assumes "open_file ef node cs" "n \<le> unat (n_size node)"
  shows "DIV_ROUND_UP n (CLUSTER_SIZE (ef_sb ef)) < 2 ^ 32"
proof -
  have o: "owns ef node cs" "length cs = DIV_ROUND_UP (unat (n_size node)) (CLUSTER_SIZE (ef_sb ef))"
    using assms(1) by (auto simp: open_file_def file_ok_def)
  have "DIV_ROUND_UP n (CLUSTER_SIZE (ef_sb ef)) \<le> length cs" unfolding o(2) DIV_ROUND_UP_def using assms(2) by (intro div_le_mono) simp
  then show ?thesis using owns_length [OF o(1)] unat_u32 [of "sb_cluster_count (ef_sb ef)"] by simp
qed

lemma inside_step:
  assumes "open_file ef node cs" "heap_writable ef" "op_inside (unat (n_size node)) x"
  shows "\<exists>out ef' node' cs'. file_step ef node x out ef' node' \<and> heap_writable ef' \<and> open_file ef' node' cs' \<and>
    (contents ef' node' cs', out) = spec_step (contents ef node cs) x \<and> n_size node' = n_size node"
proof -
  have size: "n_size b = n_size node" if "length (contents a b c) = unat (n_size node)" for a b c
    using that by (simp add: word_unat_eq_iff)
  show ?thesis
  proof (cases x)
    case (Read off n)
    then obtain buf node' where r: "exfat_generic_pread ef node (replicate n 0) n (int off) = Some (int (min n (unat (n_size node) - off)), buf, node')"
      "take (min n (unat (n_size node) - off)) buf = take n (drop off (contents ef node cs))" "open_file ef node' cs"
      "contents ef node' cs = contents ef node cs" using step_read [OF assms(1), of off n "replicate n 0"] assms(3) by auto
    from file_step.read [OF r(1)] have "file_step ef node x (take n (drop off (contents ef node cs))) ef node'"
      using r(2) Read by simp
    then show ?thesis using r(3,4) assms(2) Read size [of ef node' cs] by fastforce
  next
    case (Write off bs)
    then have le: "off + length bs \<le> unat (n_size node)" using assms(3) by simp
    note o = assms(1) [unfolded open_file_def] and fit = open_clusters [OF assms(1) le]
    have lt: "off + length bs < 2 ^ 64" using le unat_u64 [of "n_size node"] by simp
    obtain ef' node' where w: "exfat_generic_pwrite ef node bs (length bs) (int off) = Some (int (length bs), ef', node')" "vol_rest ef' = vol_rest ef"
      using pwrite_refines [of ef node cs "int off" "length bs" bs] o assms(2) le lt fit by auto
    obtain cs' where c: "open_file ef' node' cs'" "contents ef' node' cs' = put_bytes (contents ef node cs) off bs"
      using step_write [OF assms(1) lt fit w(1)] by auto
    have "heap_writable ef'" using vol_rest_fields [OF w(2)] assms(2) by (simp add: heap_writable_def cluster_off_def)
    moreover have "file_step ef node x [] ef' node'" using file_step.put [OF w(1)] Write by simp
    moreover have "n_size node' = n_size node" using le by (intro size [of ef' node' cs']) (simp add: c(2) length_put_bytes)
    ultimately show ?thesis using c Write by auto
  next
    case (Resize n)
    then have "of_nat n = n_size node" using assms(3) by simp
    then have "file_step ef node x [] ef node"
      using assms(1) file_step.resize [of ef node n ef node] Resize by (auto simp: open_file_def exfat_truncate_def)
    then show ?thesis using assms Resize by fastforce
  qed
qed

lemma inside_run:
  "open_file ef node cs \<Longrightarrow> heap_writable ef \<Longrightarrow> list_all (op_inside (unat (n_size node))) ops \<Longrightarrow>
    \<exists>ef' node' cs'. file_run ef node ops (snd (spec_run (contents ef node cs) ops)) ef' node' \<and> open_file ef' node' cs' \<and>
      contents ef' node' cs' = fst (spec_run (contents ef node cs) ops)"
proof (induction ops arbitrary: ef node cs)
  case Nil
  then show ?case by (auto intro: file_run.nil)
next
  case (Cons x ops)
  obtain out ef1 node1 cs1 where s: "file_step ef node x out ef1 node1" "heap_writable ef1" "open_file ef1 node1 cs1"
    "(contents ef1 node1 cs1, out) = spec_step (contents ef node cs) x" "n_size node1 = n_size node"
    using inside_step [OF Cons.prems(1,2), of x] Cons.prems(3) by auto
  obtain ef' node' cs' where r: "file_run ef1 node1 ops (snd (spec_run (contents ef1 node1 cs1) ops)) ef' node'" "open_file ef' node' cs'"
      "contents ef' node' cs' = fst (spec_run (contents ef1 node1 cs1) ops)"
    using Cons.IH [OF s(3,2)] Cons.prems(3) s(5) by auto
  have "spec_run (contents ef node cs) (x # ops) =
      (fst (spec_run (contents ef1 node1 cs1) ops), out # snd (spec_run (contents ef1 node1 cs1) ops))"
    by (simp add: case_prod_unfold Let_def flip: s(4))
  then show ?case using file_run.step [OF s(1) r(1)] r(2,3) by auto
qed

text \<open>
  C4: inside the file nothing fails.  On an open file whose bytes are all valid, on a volume whose clusters can be read and written, every sequence of
  reads anywhere and of writes that end inside the file succeeds: all calls return, each read delivers exactly the bytes that the sequence of bytes has
  at its place then (fewer than asked for only at the end of the file), no write reports an error, and the file ends
  up with the contents of the specification.
\<close>

theorem operations_succeed:
  assumes "open_file ef node cs" "heap_writable ef" "list_all (op_inside (unat (n_size node))) ops"
  shows "\<exists>ef' node' cs'. file_run ef node ops (snd (spec_run (contents ef node cs) ops)) ef' node' \<and> open_file ef' node' cs' \<and>
    contents ef' node' cs' = fst (spec_run (contents ef node cs) ops)"
  by (rule inside_run [OF assms])

end
