(* ===== verification/Utf.thy ===== *)
theory Utf
  imports OnDisk
begin

text \<open>
  The conversions between UTF-8 and UTF-16 of \<^verbatim>\<open>libexfat/utf.c\<close>.  A \<^verbatim>\<open>wchar_t\<close> is a 32-bit
  value below \<open>2 ^ 31\<close>; a C string with its size is a list; \<open>None\<close> is the NULL that the helpers
  return.  The two exported conversions return the error code and what was written to the output
  buffer, whose size is \<open>outsize\<close>.
\<close>

section \<open>Model\<close>

definition wchar_to_utf8 :: "u32 \<Rightarrow> nat \<Rightarrow> u8 list option" where
  "wchar_to_utf8 wc outsize =
     (if wc \<le> 0x7f then
        (if outsize < 1 then None else Some [ucast wc])
      else if wc \<le> 0x7ff then
        (if outsize < 2 then None
         else Some [ucast (0xc0 OR drop_bit 6 wc), ucast (0x80 OR (wc AND 0x3f))])
      else if wc \<le> 0xffff then
        (if outsize < 3 then None
         else Some [ucast (0xe0 OR drop_bit 12 wc), ucast (0x80 OR (drop_bit 6 wc AND 0x3f)),
                    ucast (0x80 OR (wc AND 0x3f))])
      else if wc \<le> 0x1fffff then
        (if outsize < 4 then None
         else Some [ucast (0xf0 OR drop_bit 18 wc), ucast (0x80 OR (drop_bit 12 wc AND 0x3f)),
                    ucast (0x80 OR (drop_bit 6 wc AND 0x3f)), ucast (0x80 OR (wc AND 0x3f))])
      else if wc \<le> 0x3ffffff then
        (if outsize < 5 then None
         else Some [ucast (0xf8 OR drop_bit 24 wc), ucast (0x80 OR (drop_bit 18 wc AND 0x3f)),
                    ucast (0x80 OR (drop_bit 12 wc AND 0x3f)), ucast (0x80 OR (drop_bit 6 wc AND 0x3f)),
                    ucast (0x80 OR (wc AND 0x3f))])
      else if wc \<le> 0x7fffffff then
        (if outsize < 6 then None
         else Some [ucast (0xfc OR drop_bit 30 wc), ucast (0x80 OR (drop_bit 24 wc AND 0x3f)),
                    ucast (0x80 OR (drop_bit 18 wc AND 0x3f)), ucast (0x80 OR (drop_bit 12 wc AND 0x3f)),
                    ucast (0x80 OR (drop_bit 6 wc AND 0x3f)), ucast (0x80 OR (wc AND 0x3f))])
      else None)"

text \<open>The input list is never empty here; the result is the character and the input after it.\<close>

definition utf16_to_wchar :: "u16 list \<Rightarrow> (u32 \<times> u16 list) option" where
  "utf16_to_wchar input =
     (if input ! 0 AND 0xfc00 = 0xd800 then
        (if length input < 2 \<or> input ! 1 AND 0xfc00 \<noteq> 0xdc00 then None
         else Some ((push_bit 10 (ucast (input ! 0) AND 0x3ff) OR (ucast (input ! 1) AND 0x3ff)) + 0x10000,
                    drop 2 input))
      else Some (ucast (input ! 0), drop 1 input))"

lemma utf16_to_wchar_shorter:
  "utf16_to_wchar (u # us) = Some (wc, rest) \<Longrightarrow> length rest < length (u # us)"
  by (auto simp: utf16_to_wchar_def split: if_splits)

text \<open>\<open>left\<close> is \<^verbatim>\<open>oend - optr\<close>, the room that is left in the output.\<close>

function utf16_to_utf8_loop :: "u16 list \<Rightarrow> nat \<Rightarrow> int \<times> u8 list" where
  "utf16_to_utf8_loop [] left = (if left = 0 then (- ENAMETOOLONG, []) else (0, [0]))"
| "utf16_to_utf8_loop (u # us) left =
     (case utf16_to_wchar (u # us) of
        None \<Rightarrow> (- EILSEQ, [])
      | Some (wc, rest) \<Rightarrow>
          (case wchar_to_utf8 wc left of
             None \<Rightarrow> (- ENAMETOOLONG, [])
           | Some bytes \<Rightarrow>
               if wc = 0 then (0, bytes)
               else let (rc, out) = utf16_to_utf8_loop rest (left - length bytes)
                    in (rc, bytes @ out)))"
  by pat_completeness auto
termination
  by (relation "measure (\<lambda>(us, left). length us)") (auto dest: utf16_to_wchar_shorter)

definition exfat_utf16_to_utf8 :: "u16 list \<Rightarrow> nat \<Rightarrow> nat \<Rightarrow> int \<times> u8 list" where
  "exfat_utf16_to_utf8 input outsize insize = utf16_to_utf8_loop (take insize input) outsize"

text \<open>The loop over the continuation bytes: \<open>k\<close> of them are left.\<close>

fun utf8_tail :: "u8 list \<Rightarrow> nat \<Rightarrow> u32 \<Rightarrow> (u32 \<times> u8 list) option" where
  "utf8_tail bs 0 wc = Some (wc, bs)"
| "utf8_tail [] (Suc k) wc = None"
| "utf8_tail (b # bs) (Suc k) wc =
     (if b AND 0xc0 \<noteq> 0x80 then None
      else utf8_tail bs k (wc OR push_bit (k * 6) (ucast (b AND 0x3f))))"

definition utf8_multi :: "u8 list \<Rightarrow> nat \<Rightarrow> u32 \<Rightarrow> (u32 \<times> u8 list) option" where
  "utf8_multi input sz wc =
     (if length input < sz then None else utf8_tail (drop 1 input) (sz - 1) wc)"

definition utf8_to_wchar :: "u8 list \<Rightarrow> (u32 \<times> u8 list) option" where
  "utf8_to_wchar input =
     (let b = input ! 0; w = ucast b :: u32
      in if b AND 0x80 = 0 then Some (w, drop 1 input)
         else if b AND 0xe0 = 0xc0 then utf8_multi input 2 (push_bit 6 (w AND 0x1f))
         else if b AND 0xf0 = 0xe0 then utf8_multi input 3 (push_bit 12 (w AND 0x0f))
         else if b AND 0xf8 = 0xf0 then utf8_multi input 4 (push_bit 18 (w AND 0x07))
         else if b AND 0xfc = 0xf8 then utf8_multi input 5 (push_bit 24 (w AND 0x03))
         else if b AND 0xfe = 0xfc then utf8_multi input 6 (push_bit 30 (w AND 0x01))
         else None)"

definition wchar_to_utf16 :: "u32 \<Rightarrow> nat \<Rightarrow> u16 list option" where
  "wchar_to_utf16 wc outsize =
     (if wc \<le> 0xffff then
        (if outsize = 0 then None else Some [ucast wc])
      else if outsize < 2 then None
      else let w = wc - 0x10000
           in Some [ucast (0xd800 OR (drop_bit 10 w AND 0x3ff)), ucast (0xdc00 OR (w AND 0x3ff))])"

lemma utf8_tail_shorter: "utf8_tail bs k wc = Some (wc', rest) \<Longrightarrow> length rest \<le> length bs"
  by (induction bs k wc rule: utf8_tail.induct) (auto split: if_splits)

lemma utf8_to_wchar_shorter:
  "utf8_to_wchar (b # bs) = Some (wc, rest) \<Longrightarrow> length rest < length (b # bs)"
  by (auto simp: utf8_to_wchar_def utf8_multi_def Let_def dest: utf8_tail_shorter split: if_splits)

function utf8_to_utf16_loop :: "u8 list \<Rightarrow> nat \<Rightarrow> int \<times> u16 list" where
  "utf8_to_utf16_loop [] left = (if left = 0 then (- ENAMETOOLONG, []) else (0, [0]))"
| "utf8_to_utf16_loop (b # bs) left =
     (case utf8_to_wchar (b # bs) of
        None \<Rightarrow> (- EILSEQ, [])
      | Some (wc, rest) \<Rightarrow>
          (case wchar_to_utf16 wc left of
             None \<Rightarrow> (- ENAMETOOLONG, [])
           | Some units \<Rightarrow>
               let (rc, out) = (if wc = 0 then utf8_to_utf16_loop [] (left - length units)
                                else utf8_to_utf16_loop rest (left - length units))
               in (rc, units @ out)))"
  by pat_completeness auto
termination
  by (relation "measure (\<lambda>(bs, left). length bs)") (auto dest: utf8_to_wchar_shorter)

definition exfat_utf8_to_utf16 :: "u8 list \<Rightarrow> nat \<Rightarrow> nat \<Rightarrow> int \<times> u16 list" where
  "exfat_utf8_to_utf16 input outsize insize = utf8_to_utf16_loop (take insize input) outsize"

text \<open>
  \<^verbatim>\<open>exfat_utf16_length\<close> scans to the terminating zero; every array it is given has one, and the
  model stops at the end of the list.
\<close>

definition exfat_utf16_length :: "u16 list \<Rightarrow> nat" where
  "exfat_utf16_length str = length (takeWhile (\<lambda>u. u \<noteq> 0) str)"

section \<open>Bounds: nothing is written outside the output buffer\<close>

lemma length_wchar_to_utf8: "wchar_to_utf8 wc n = Some bytes \<Longrightarrow> length bytes \<le> n \<and> 0 < length bytes"
  by (auto simp: wchar_to_utf8_def split: if_splits)

lemma length_wchar_to_utf16: "wchar_to_utf16 wc n = Some units \<Longrightarrow> length units \<le> n \<and> 0 < length units"
  by (auto simp: wchar_to_utf16_def Let_def split: if_splits)

lemma utf16_to_utf8_loop_length: "utf16_to_utf8_loop us left = (rc, out) \<Longrightarrow> length out \<le> left"
proof (induction us left arbitrary: rc out rule: utf16_to_utf8_loop.induct)
  case (2 u us left)
  then show ?case
    by (fastforce simp: Let_def split: option.splits prod.splits if_splits dest: length_wchar_to_utf8)
qed (auto split: if_splits)

lemma utf8_to_utf16_loop_length: "utf8_to_utf16_loop bs left = (rc, out) \<Longrightarrow> length out \<le> left"
proof (induction bs left arbitrary: rc out rule: utf8_to_utf16_loop.induct)
  case (2 b bs left)
  then show ?case
    by (fastforce simp: Let_def split: option.splits prod.splits if_splits dest: length_wchar_to_utf16)
qed (auto split: if_splits)


section \<open>Round trips\<close>


lemma mask_3f: "(0x3f :: u32) = mask 6" "(0x3f :: u8) = mask 6"
  by (simp_all add: mask_eq_exp_minus_1)

lemma cont_byte_tag: "(ucast (0x80 OR (x AND 0x3f)) :: u8) AND 0xc0 = 0x80" for x :: u32
  by (rule u8_eqI) (auto simp: bit_simps)

lemma cont_byte_bits: "ucast ((ucast (0x80 OR (x AND 0x3f)) :: u8) AND 0x3f) = x AND 0x3f" for x :: u32
proof -
  have "(ucast (0x80 OR (x AND 0x3f)) :: u8) AND 0x3f = ucast (x AND 0x3f)"
    by (rule u8_eqI) (auto simp: bit_simps)
  moreover have "ucast (ucast (x AND 0x3f) :: u8) = x AND 0x3f"
    by (rule bit_word_eqI) (auto simp: bit_simps mask_3f)
  ultimately show ?thesis by simp
qed

lemma utf8_tail_cont:
  "utf8_tail (ucast (0x80 OR (x AND 0x3f)) # bs) (Suc k) wc =
     utf8_tail bs k (wc OR push_bit (k * 6) (x AND 0x3f))"
  by (simp add: cont_byte_tag cont_byte_bits)


text \<open>Lead bytes: the tag bits select exactly one branch of the decoder and the rest carries the value.\<close>

lemma masks_u32:
  "(0x1f :: u32) = mask 5" "(0x0f :: u32) = mask 4" "(0x07 :: u32) = mask 3" "(0x03 :: u32) = mask 2"
  "(0x01 :: u32) = mask 1"
  "(0xc0 :: u32) = push_bit 6 (mask 2)" "(0xe0 :: u32) = push_bit 5 (mask 3)"
  "(0xf0 :: u32) = push_bit 4 (mask 4)" "(0xf8 :: u32) = push_bit 3 (mask 5)"
  "(0xfc :: u32) = push_bit 2 (mask 6)"
  by (simp_all add: mask_eq_exp_minus_1)

lemma lead2:
  assumes "unat y < 2 ^ 5"
  shows "(ucast (0xc0 OR y) :: u8) AND 0x80 \<noteq> 0" "(ucast (0xc0 OR y) :: u8) AND 0xe0 = 0xc0"
    "ucast (ucast (0xc0 OR y) :: u8) AND 0x1f = (y :: u32)"
proof -
  have b: "\<not> bit y k" if "5 \<le> k" for k using bits_below [OF assms that] .
  show "(ucast (0xc0 OR y) :: u8) AND 0xe0 = 0xc0"
    by (rule u8_eqI) (auto simp: bit_simps b)
  show "(ucast (0xc0 OR y) :: u8) AND 0x80 \<noteq> 0" by (rule bit_neqI [where k = 7]) (simp add: bit_simps)
  show "ucast (ucast (0xc0 OR y) :: u8) AND 0x1f = y"
    unfolding masks_u32 by (rule bit_word_eqI) (auto simp: bit_simps b not_le intro: ccontr)
qed

lemma lead3:
  assumes "unat y < 2 ^ 4"
  shows "(ucast (0xe0 OR y) :: u8) AND 0x80 \<noteq> 0" "(ucast (0xe0 OR y) :: u8) AND 0xe0 \<noteq> 0xc0"
    "(ucast (0xe0 OR y) :: u8) AND 0xf0 = 0xe0"
    "ucast (ucast (0xe0 OR y) :: u8) AND 0x0f = (y :: u32)"
proof -
  have b: "\<not> bit y k" if "4 \<le> k" for k using bits_below [OF assms that] .
  show "(ucast (0xe0 OR y) :: u8) AND 0xf0 = 0xe0"
    by (rule u8_eqI) (auto simp: bit_simps b)
  show "(ucast (0xe0 OR y) :: u8) AND 0x80 \<noteq> 0" by (rule bit_neqI [where k = 7]) (simp add: bit_simps)
  show "(ucast (0xe0 OR y) :: u8) AND 0xe0 \<noteq> 0xc0" by (rule bit_neqI [where k = 5]) (simp add: bit_simps)
  show "ucast (ucast (0xe0 OR y) :: u8) AND 0x0f = y"
    unfolding masks_u32 by (rule bit_word_eqI) (auto simp: bit_simps b not_le intro: ccontr)
qed

lemma lead4:
  assumes "unat y < 2 ^ 3"
  shows "(ucast (0xf0 OR y) :: u8) AND 0x80 \<noteq> 0" "(ucast (0xf0 OR y) :: u8) AND 0xe0 \<noteq> 0xc0"
    "(ucast (0xf0 OR y) :: u8) AND 0xf0 \<noteq> 0xe0" "(ucast (0xf0 OR y) :: u8) AND 0xf8 = 0xf0"
    "ucast (ucast (0xf0 OR y) :: u8) AND 0x07 = (y :: u32)"
proof -
  have b: "\<not> bit y k" if "3 \<le> k" for k using bits_below [OF assms that] .
  show "(ucast (0xf0 OR y) :: u8) AND 0xf8 = 0xf0"
    by (rule u8_eqI) (auto simp: bit_simps b)
  show "(ucast (0xf0 OR y) :: u8) AND 0x80 \<noteq> 0" by (rule bit_neqI [where k = 7]) (simp add: bit_simps)
  show "(ucast (0xf0 OR y) :: u8) AND 0xe0 \<noteq> 0xc0" by (rule bit_neqI [where k = 5]) (simp add: bit_simps)
  show "(ucast (0xf0 OR y) :: u8) AND 0xf0 \<noteq> 0xe0" by (rule bit_neqI [where k = 4]) (simp add: bit_simps)
  show "ucast (ucast (0xf0 OR y) :: u8) AND 0x07 = y"
    unfolding masks_u32 by (rule bit_word_eqI) (auto simp: bit_simps b not_le intro: ccontr)
qed

lemma lead5:
  assumes "unat y < 2 ^ 2"
  shows "(ucast (0xf8 OR y) :: u8) AND 0x80 \<noteq> 0" "(ucast (0xf8 OR y) :: u8) AND 0xe0 \<noteq> 0xc0"
    "(ucast (0xf8 OR y) :: u8) AND 0xf0 \<noteq> 0xe0" "(ucast (0xf8 OR y) :: u8) AND 0xf8 \<noteq> 0xf0"
    "(ucast (0xf8 OR y) :: u8) AND 0xfc = 0xf8"
    "ucast (ucast (0xf8 OR y) :: u8) AND 0x03 = (y :: u32)"
proof -
  have b: "\<not> bit y k" if "2 \<le> k" for k using bits_below [OF assms that] .
  show "(ucast (0xf8 OR y) :: u8) AND 0xfc = 0xf8"
    by (rule u8_eqI) (auto simp: bit_simps b)
  show "(ucast (0xf8 OR y) :: u8) AND 0x80 \<noteq> 0" by (rule bit_neqI [where k = 7]) (simp add: bit_simps)
  show "(ucast (0xf8 OR y) :: u8) AND 0xe0 \<noteq> 0xc0" by (rule bit_neqI [where k = 5]) (simp add: bit_simps)
  show "(ucast (0xf8 OR y) :: u8) AND 0xf0 \<noteq> 0xe0" by (rule bit_neqI [where k = 4]) (simp add: bit_simps)
  show "(ucast (0xf8 OR y) :: u8) AND 0xf8 \<noteq> 0xf0" by (rule bit_neqI [where k = 3]) (simp add: bit_simps)
  show "ucast (ucast (0xf8 OR y) :: u8) AND 0x03 = y"
    unfolding masks_u32 by (rule bit_word_eqI) (auto simp: bit_simps b not_le intro: ccontr)
qed

lemma lead6:
  assumes "unat y < 2 ^ 1"
  shows "(ucast (0xfc OR y) :: u8) AND 0x80 \<noteq> 0" "(ucast (0xfc OR y) :: u8) AND 0xe0 \<noteq> 0xc0"
    "(ucast (0xfc OR y) :: u8) AND 0xf0 \<noteq> 0xe0" "(ucast (0xfc OR y) :: u8) AND 0xf8 \<noteq> 0xf0"
    "(ucast (0xfc OR y) :: u8) AND 0xfc \<noteq> 0xf8" "(ucast (0xfc OR y) :: u8) AND 0xfe = 0xfc"
    "ucast (ucast (0xfc OR y) :: u8) AND 0x01 = (y :: u32)"
proof -
  have b: "\<not> bit y k" if "1 \<le> k" for k using bits_below [OF assms that] .
  have b1: "\<not> bit y (Suc k)" for k using b [of "Suc k"] by simp
  show "(ucast (0xfc OR y) :: u8) AND 0xfe = 0xfc"
    by (rule u8_eqI) (auto simp: bit_simps b b1)
  show "(ucast (0xfc OR y) :: u8) AND 0x80 \<noteq> 0" by (rule bit_neqI [where k = 7]) (simp add: bit_simps)
  show "(ucast (0xfc OR y) :: u8) AND 0xe0 \<noteq> 0xc0" by (rule bit_neqI [where k = 5]) (simp add: bit_simps)
  show "(ucast (0xfc OR y) :: u8) AND 0xf0 \<noteq> 0xe0" by (rule bit_neqI [where k = 4]) (simp add: bit_simps)
  show "(ucast (0xfc OR y) :: u8) AND 0xf8 \<noteq> 0xf0" by (rule bit_neqI [where k = 3]) (simp add: bit_simps)
  show "(ucast (0xfc OR y) :: u8) AND 0xfc \<noteq> 0xf8" by (rule bit_neqI [where k = 2]) (simp add: bit_simps)
  show "ucast (ucast (0xfc OR y) :: u8) AND 0x01 = y"
    unfolding masks_u32 by (rule bit_word_eqI) (auto simp: bit_simps b not_le Suc_le_eq intro: ccontr)
qed

lemma lead1: "unat wc < 2 ^ 7 \<Longrightarrow> (ucast wc :: u8) AND 0x80 = 0 \<and> ucast (ucast wc :: u8) = (wc :: u32)"
proof -
  assume "unat wc < 2 ^ 7"
  then have b: "\<not> bit wc k" if "7 \<le> k" for k using bits_below that by blast
  have "(ucast wc :: u8) AND 0x80 = 0" by (rule u8_eqI) (auto simp: bit_simps b)
  moreover have "ucast (ucast wc :: u8) = wc"
    by (rule bit_word_eqI) (auto simp: bit_simps b not_le intro: ccontr)
  ultimately show ?thesis by simp
qed

lemma shift_bound: "unat wc < 2 ^ (n + m) \<Longrightarrow> unat (drop_bit n wc :: u32) < 2 ^ m"
  by (subst unat_drop_bit_eq) (simp add: drop_bit_eq_div less_mult_imp_div_less power_add mult.commute)

lemma join_step:
  "push_bit (n + 6) (drop_bit (n + 6) w) OR push_bit n (drop_bit n w AND 0x3f) = push_bit n (drop_bit n w)"
  for w :: u32
proof (rule bit_word_eqI)
  fix k
  show "bit (push_bit (n + 6) (drop_bit (n + 6) w) OR push_bit n (drop_bit n w AND 0x3f)) k =
      bit (push_bit n (drop_bit n w)) k"
    unfolding mask_3f by (cases "n + 6 \<le> k") (auto simp: bit_simps)
qed

text \<open>\<open>conts k wc\<close>: the \<open>k\<close> continuation bytes that carry the low \<open>6 * k\<close> bits of \<open>wc\<close>.\<close>

primrec conts :: "nat \<Rightarrow> u32 \<Rightarrow> u8 list" where
  "conts 0 wc = []"
| "conts (Suc k) wc = ucast (0x80 OR (drop_bit (k * 6) wc AND 0x3f)) # conts k wc"

lemma length_conts [simp]: "length (conts k wc) = k"
  by (induction k) simp_all

lemma utf8_tail_conts:
  "utf8_tail (conts k wc @ rest) k (push_bit (k * 6) (drop_bit (k * 6) wc)) = Some (wc, rest)"
proof (induction k)
  case (Suc k)
  have "push_bit (k * 6 + 6) (drop_bit (k * 6 + 6) wc) OR push_bit (k * 6) (drop_bit (k * 6) wc AND 0x3f) =
      push_bit (k * 6) (drop_bit (k * 6) wc)" by (rule join_step)
  moreover have "Suc k * 6 = k * 6 + 6" by simp
  ultimately show ?case using Suc
    by (simp only: conts.simps append_Cons utf8_tail_cont)
qed simp

lemma utf8_multi_conts:
  "n = Suc k \<Longrightarrow> m = k * 6 \<Longrightarrow>
     utf8_multi (b # conts k wc @ rest) n (push_bit m (drop_bit m wc)) = Some (wc, rest)"
  by (simp add: utf8_multi_def utf8_tail_conts)

lemma conts_step:
  "k = Suc j \<Longrightarrow> m = j * 6 \<Longrightarrow> conts k wc = ucast (0x80 OR (drop_bit m wc AND 0x3f)) # conts j wc"
  by simp

lemmas conts_unfold = conts_step [of 1 0 0, simplified] conts_step [of 2 1 6, simplified]
  conts_step [of 3 2 12, simplified] conts_step [of 4 3 18, simplified] conts_step [of 5 4 24, simplified]

lemmas enc_conts = wchar_to_utf8_def word_le_nat_alt conts_unfold

lemma utf8_wchar_roundtrip:
  assumes "wchar_to_utf8 wc n = Some bytes"
  shows "utf8_to_wchar (bytes @ rest) = Some (wc, rest)"
proof -
  note dec = utf8_to_wchar_def Let_def nth_Cons_0 append_Cons if_True if_False simp_thms
  consider "unat wc < 2 ^ 7" | "\<not> unat wc < 2 ^ 7" "unat wc < 2 ^ (6 + 5)"
    | "\<not> unat wc < 2 ^ (6 + 5)" "unat wc < 2 ^ (12 + 4)" | "\<not> unat wc < 2 ^ (12 + 4)" "unat wc < 2 ^ (18 + 3)"
    | "\<not> unat wc < 2 ^ (18 + 3)" "unat wc < 2 ^ (24 + 2)" | "\<not> unat wc < 2 ^ (24 + 2)" "unat wc < 2 ^ (30 + 1)"
    | "\<not> unat wc < 2 ^ (30 + 1)" by linarith
  then show ?thesis
  proof cases
    case 1
    then have "bytes = [ucast wc]" using assms by (auto simp: wchar_to_utf8_def word_le_nat_alt split: if_splits)
    then show ?thesis using lead1 [OF 1] by (simp add: utf8_to_wchar_def Let_def)
  next
    case 2
    note l = lead2 [OF shift_bound [OF 2(2)]]
    have "bytes = ucast (0xc0 OR drop_bit 6 wc) # conts 1 wc"
      using assms 2 by (auto simp: enc_conts split: if_splits)
    then show ?thesis by (simp only: dec l) (rule utf8_multi_conts; simp)
  next
    case 3
    note l = lead3 [OF shift_bound [OF 3(2)]]
    have "bytes = ucast (0xe0 OR drop_bit 12 wc) # conts 2 wc"
      using assms 3 by (auto simp: enc_conts split: if_splits)
    then show ?thesis by (simp only: dec l) (rule utf8_multi_conts; simp)
  next
    case 4
    note l = lead4 [OF shift_bound [OF 4(2)]]
    have "bytes = ucast (0xf0 OR drop_bit 18 wc) # conts 3 wc"
      using assms 4 by (auto simp: enc_conts split: if_splits)
    then show ?thesis by (simp only: dec l) (rule utf8_multi_conts; simp)
  next
    case 5
    note l = lead5 [OF shift_bound [OF 5(2)]]
    have "bytes = ucast (0xf8 OR drop_bit 24 wc) # conts 4 wc"
      using assms 5 by (auto simp: enc_conts split: if_splits)
    then show ?thesis by (simp only: dec l) (rule utf8_multi_conts; simp)
  next
    case 6
    note l = lead6 [OF shift_bound [OF 6(2)]]
    have "bytes = ucast (0xfc OR drop_bit 30 wc) # conts 5 wc"
      using assms 6 by (auto simp: enc_conts split: if_splits)
    then show ?thesis by (simp only: dec l) (rule utf8_multi_conts; simp)
  next
    case 7
    then show ?thesis using assms by (auto simp: wchar_to_utf8_def word_le_nat_alt split: if_splits)
  qed
qed

lemma hi_surrogate: "x AND 0xfc00 = y \<Longrightarrow> y OR (x AND 0x3ff) = x" for x y :: u16
proof -
  assume "x AND 0xfc00 = y"
  then have "y OR (x AND 0x3ff) = (x AND 0xfc00) OR (x AND 0x3ff)" by simp
  also have "\<dots> = x AND (0xfc00 OR 0x3ff)" by (rule bit.conj_disj_distrib [symmetric])
  also have "(0xfc00 OR 0x3ff :: u16) = -1" by simp
  finally show ?thesis by simp
qed

lemma pair_join:
  fixes a b :: u32
  defines "w \<equiv> push_bit 10 (a AND 0x3ff) OR (b AND 0x3ff)"
  shows "drop_bit 10 w AND 0x3ff = a AND 0x3ff" and "w AND 0x3ff = b AND 0x3ff" and "unat w < 2 ^ 20"
proof -
  have m: "(0x3ff :: u32) = mask 10" by (simp add: mask_eq_exp_minus_1)
  show "drop_bit 10 w AND 0x3ff = a AND 0x3ff"
    unfolding m w_def by (rule bit_word_eqI) (auto simp: bit_simps)
  show "w AND 0x3ff = b AND 0x3ff"
    unfolding m w_def by (rule bit_word_eqI) (auto simp: bit_simps)
  have "take_bit 20 w = w"
    unfolding m w_def by (rule bit_word_eqI) (auto simp: bit_simps)
  then show "unat w < 2 ^ 20"
    by (metis take_bit_nat_less_exp unsigned_take_bit_eq)
qed

lemma ucast_surrogate:
  "(ucast (t OR (ucast x AND 0x3ff :: u32)) :: u16) = ucast t OR (x AND 0x3ff)" for x :: u16
  by (rule bit_word_eqI) (auto simp: bit_simps)

lemma ucast_ucast_u16: "(ucast (ucast x :: u32) :: u16) = x" for x :: u16
  by (rule bit_word_eqI) (auto simp: bit_simps)

lemma utf16_wchar_roundtrip:
  assumes "utf16_to_wchar (u # us) = Some (wc, rest)"
  obtains units where "u # us = units @ rest" and "\<And>n. length units \<le> n \<Longrightarrow> wchar_to_utf16 wc n = Some units"
    and "wc = 0 \<longleftrightarrow> u = 0" and "unat wc < 0x110000" and "length units = 1 \<Longrightarrow> unat wc < 0x10000"
    and "0 < length units" and "length units \<le> 2"
proof (cases "u AND 0xfc00 = 0xd800")
  case True
  then obtain v vs where us: "us = v # vs" and lo: "v AND 0xfc00 = 0xdc00" and r: "rest = vs"
    and wc: "wc = (push_bit 10 (ucast u AND 0x3ff) OR (ucast v AND 0x3ff)) + 0x10000"
    using assms by (cases us) (auto simp: utf16_to_wchar_def split: if_splits)
  define w :: u32 where "w = push_bit 10 (ucast u AND 0x3ff) OR (ucast v AND 0x3ff)"
  note j = pair_join [of "ucast u" "ucast v", folded w_def] and wc = wc [folded w_def]
  have uw: "unat wc = unat w + 0x10000"
    unfolding wc using j(3) by (subst unat_add_lem [THEN iffD1]) auto
  have "\<not> wc \<le> 0xffff" using uw by (simp add: word_le_nat_alt)
  moreover have "wc - 0x10000 = w" by (simp add: wc)
  ultimately have "wchar_to_utf16 wc n = Some [u, v]" if "2 \<le> n" for n
    using that hi_surrogate [OF True] hi_surrogate [OF lo]
    by (simp add: wchar_to_utf16_def Let_def j ucast_surrogate)
  moreover have "u \<noteq> 0" using True by auto
  moreover have "wc \<noteq> 0" using uw by auto
  ultimately show ?thesis using that [of "[u, v]"] us r uw j(3) by auto
next
  case False
  then have wc: "wc = ucast u" "rest = us" using assms by (auto simp: utf16_to_wchar_def split: if_splits)
  have "unat u < 2 ^ 16" using unat_u16 [of u] by simp
  moreover from this have "unat wc = unat u"
    unfolding wc by (simp add: unsigned_ucast_eq take_bit_nat_eq_self_iff)
  ultimately have "wchar_to_utf16 wc n = Some [u]" if "1 \<le> n" for n
    using that
    by (auto simp: wchar_to_utf16_def word_le_nat_alt wc ucast_ucast_u16)
  moreover have "wc = 0 \<longleftrightarrow> u = 0" using \<open>unat wc = unat u\<close> by (metis unat_eq_zero)
  ultimately show ?thesis using that [of "[u]"] \<open>unat wc = unat u\<close> \<open>unat u < 2 ^ 16\<close> wc by auto
qed

lemma utf8_no_zero:
  assumes "wchar_to_utf8 wc n = Some bytes" and "wc \<noteq> 0"
  shows "0 \<notin> set bytes"
proof -
  have "\<not> bit (0::u8) 7" by simp
  have z: "(ucast (t OR x :: u32) :: u8) \<noteq> 0" if "bit t 7" for t x
    using that by (intro bit_neqI [where k = 7]) (simp add: bit_simps)
  have "bit (0x80::u32) 7" "bit (0xc0::u32) 7" "bit (0xe0::u32) 7" "bit (0xf0::u32) 7"
    "bit (0xf8::u32) 7" "bit (0xfc::u32) 7" by simp_all
  note z = this [THEN z]
  have "(ucast wc :: u8) \<noteq> 0" if "wc \<le> 0x7f"
  proof
    assume "(ucast wc :: u8) = 0"
    moreover have "unat wc < 2 ^ 7" using that by (simp add: word_le_nat_alt)
    ultimately show False using lead1 [of wc] assms(2) by simp
  qed
  then show ?thesis using assms(1) z by (auto simp: wchar_to_utf8_def split: if_splits)
qed

lemma wchar_to_utf8_fits:
  assumes "unat wc < 0x110000" and "(if unat wc < 0x10000 then 3 else 4) \<le> n"
  obtains bytes where "wchar_to_utf8 wc n = Some bytes" and "length bytes \<le> (if unat wc < 0x10000 then 3 else 4)"
proof (rule that)
  let ?bytes = "the (wchar_to_utf8 wc n)"
  have *: "wchar_to_utf8 wc n \<noteq> None \<and> length ?bytes \<le> (if unat wc < 0x10000 then 3 else 4)"
    using assms by (cases "unat wc < 0x10000") (auto simp: wchar_to_utf8_def word_le_nat_alt)
  then show "wchar_to_utf8 wc n = Some ?bytes" by auto
  from * show "length ?bytes \<le> (if unat wc < 0x10000 then 3 else 4)" by blast
qed

text \<open>A high surrogate must be followed by a low one.\<close>

fun paired :: "u16 list \<Rightarrow> bool" where
  "paired [] = True"
| "paired [u] = (u AND 0xfc00 \<noteq> 0xd800)"
| "paired (u # v # us) =
     (if u AND 0xfc00 = 0xd800 then v AND 0xfc00 = 0xdc00 \<and> paired us else paired (v # us))"

lemma paired_step:
  "paired (u # us) \<longleftrightarrow> (\<exists>wc rest. utf16_to_wchar (u # us) = Some (wc, rest) \<and> paired rest)"
  by (cases us) (auto simp: utf16_to_wchar_def)

lemma utf16_to_utf8_loop_roundtrip:
  assumes "utf16_to_utf8_loop us left = (0, out)" and "0 \<notin> set us" and "length us < room"
  shows "\<exists>bs. out = bs @ [0] \<and> 0 \<notin> set bs \<and> utf8_to_utf16_loop bs room = (0, us @ [0])"
  using assms
proof (induction us left arbitrary: out room rule: utf16_to_utf8_loop.induct)
  case (1 left)
  then show ?case by (auto split: if_splits)
next
  case (2 u us left)
  obtain wc rest where d: "utf16_to_wchar (u # us) = Some (wc, rest)"
    using 2(2) by (auto split: option.splits)
  then obtain units where units: "u # us = units @ rest" "wc = 0 \<longleftrightarrow> u = 0" "0 < length units"
    "\<And>n. length units \<le> n \<Longrightarrow> wchar_to_utf16 wc n = Some units"
    using utf16_wchar_roundtrip by metis
  have "u \<noteq> 0" using 2(3) by auto
  then have wc: "wc \<noteq> 0" using units(2) by simp
  obtain bytes out' where b: "wchar_to_utf8 wc left = Some bytes" and out: "out = bytes @ out'"
    and rec: "utf16_to_utf8_loop rest (left - length bytes) = (0, out')"
    using 2(2) d wc by (auto simp: Let_def split: option.splits prod.splits)
  have "length units + length rest < room" using 2(4) units(1) by (metis length_append)
  moreover have "0 \<notin> set rest" using 2(3) units(1) by (metis Un_iff set_append)
  moreover from calculation have "length rest < room - length units" by linarith
  ultimately obtain bs where bs: "out' = bs @ [0]" "0 \<notin> set bs"
    "utf8_to_utf16_loop bs (room - length units) = (0, rest @ [0])"
    using 2(1) [OF d refl b wc rec, of "room - length units"] by auto
  obtain c cs where cons: "bytes = c # cs" using length_wchar_to_utf8 [OF b] by (cases bytes) auto
  have "utf8_to_utf16_loop (bytes @ bs) room = (0, units @ rest @ [0])"
    using utf8_wchar_roundtrip [OF b, of bs] units(4) [of room] bs(3) wc cons \<open>length units + length rest < room\<close>
    by simp
  then show ?case using out bs(1,2) units(1) utf8_no_zero [OF b wc] by (intro exI [of _ "bytes @ bs"]) auto
qed

lemma utf16_to_wchar_takeWhile:
  "u \<noteq> 0 \<Longrightarrow> utf16_to_wchar (u # takeWhile (\<lambda>u. u \<noteq> 0) us) =
     map_option (\<lambda>(wc, rest). (wc, takeWhile (\<lambda>u. u \<noteq> 0) rest)) (utf16_to_wchar (u # us))"
  by (cases us) (auto simp: utf16_to_wchar_def)

text \<open>Three bytes for every unit and one for the terminator are always enough.\<close>

lemma utf16_to_utf8_loop_adequate:
  assumes "3 * length us < left"
  shows "fst (utf16_to_utf8_loop us left) = (if paired (takeWhile (\<lambda>u. u \<noteq> 0) us) then 0 else - EILSEQ)"
  using assms
proof (induction us left rule: utf16_to_utf8_loop.induct)
  case (2 u us left)
  show ?case
  proof (cases "utf16_to_wchar (u # us)")
    case None
    then have "u \<noteq> 0" by (auto simp: utf16_to_wchar_def split: if_splits)
    then show ?thesis
      using None utf16_to_wchar_takeWhile [of u us] paired_step [of u "takeWhile (\<lambda>u. u \<noteq> 0) us"] by simp
  next
    case (Some p)
    obtain wc rest where d: "utf16_to_wchar (u # us) = Some (wc, rest)" using Some by (cases p) auto
    obtain units where units: "u # us = units @ rest" "wc = 0 \<longleftrightarrow> u = 0" "unat wc < 0x110000"
      "length units = 1 \<Longrightarrow> unat wc < 0x10000" "0 < length units" "length units \<le> 2"
      using utf16_wchar_roundtrip [OF d] by metis
    have len: "3 * length units + 3 * length rest < left"
      using "2.prems" units(1) by (metis distrib_left length_append)
    have "(if unat wc < 0x10000 then 3 else 4) \<le> 3 * length units"
      using units(4-6) by (cases "length units = 1"; cases "length units = 2") (auto simp: Suc_le_eq)
    moreover have "(if unat wc < 0x10000 then 3 else 4) \<le> left"
      using calculation len by (meson add_lessD1 less_imp_le_nat order_trans)
    then obtain bytes where b: "wchar_to_utf8 wc left = Some bytes"
      and "length bytes \<le> (if unat wc < 0x10000 then 3 else 4)"
      by (rule wchar_to_utf8_fits [OF units(3)])
    ultimately have "length bytes \<le> 3 * length units" by linarith
    then have "3 * length rest < left - length bytes" using len by linarith
    then show ?thesis
      using d b "2.IH" [OF d refl b] units(2) utf16_to_wchar_takeWhile [of u us]
        paired_step [of u "takeWhile (\<lambda>u. u \<noteq> 0) us"]
      by (auto simp: Let_def split: prod.splits)
  qed
qed simp

section \<open>Properties\<close>

text \<open>
  C18: a name without NUL that converts to UTF-8 converts back to itself: the bytes before the
  terminator, given to \<^verbatim>\<open>exfat_utf8_to_utf16\<close> with room for the name, produce the same units and the
  terminator.  This includes characters outside the basic plane and unpaired low surrogates.
\<close>

theorem utf16_utf8_roundtrip:
  assumes "0 \<notin> set us" and "length us \<le> insize" and "length us < room" and "3 * length us < outsize" and "paired us"
  shows "\<exists>bs. exfat_utf16_to_utf8 us outsize insize = (0, bs @ [0]) \<and> 0 \<notin> set bs \<and>
    exfat_utf8_to_utf16 bs room (length bs) = (0, us @ [0])"
proof -
  have tw: "takeWhile (\<lambda>u. u \<noteq> 0) us = us" using assms(1) by (auto simp: takeWhile_eq_all_conv)
  have "fst (utf16_to_utf8_loop us outsize) = 0"
    using utf16_to_utf8_loop_adequate [OF assms(4)] assms(5) unfolding tw by simp
  then obtain out where o: "utf16_to_utf8_loop us outsize = (0, out)" by (metis prod.collapse)
  show ?thesis
    using utf16_to_utf8_loop_roundtrip [OF o assms(1,3)] o assms(2)
    by (auto simp: exfat_utf16_to_utf8_def exfat_utf8_to_utf16_def)
qed

text \<open>
  the buffer for names is large enough.  Whatever the 255 units of a name are, converting them into
  \<^verbatim>\<open>EXFAT_UTF8_NAME_BUFFER_MAX\<close> bytes never reports a name that is too long: it succeeds exactly when
  every high surrogate before the terminator is followed by a low one, and reports \<open>EILSEQ\<close> otherwise.
\<close>

theorem name_conversion_total:
  "fst (exfat_utf16_to_utf8 name EXFAT_UTF8_NAME_BUFFER_MAX EXFAT_NAME_MAX) =
     (if paired (takeWhile (\<lambda>u. u \<noteq> 0) (take EXFAT_NAME_MAX name)) then 0 else - EILSEQ)"
  unfolding exfat_utf16_to_utf8_def by (rule utf16_to_utf8_loop_adequate) (simp add: name_consts)

text \<open>
  C35: both conversions stay inside their output buffer, on every input and with every result.
\<close>

theorem utf_output_bounds:
  "length (snd (exfat_utf16_to_utf8 us outsize insize)) \<le> outsize \<and>
   length (snd (exfat_utf8_to_utf16 bs outsize insize)) \<le> outsize"
  using utf16_to_utf8_loop_length [OF surjective_pairing] utf8_to_utf16_loop_length [OF surjective_pairing]
  by (simp add: exfat_utf16_to_utf8_def exfat_utf8_to_utf16_def)

end
