(* ===== verification/Utils.thy ===== *)
theory Utils
  imports Exfat Utf
begin

text \<open>
  The helpers of \<^verbatim>\<open>libexfat/utils.c\<close>: \<^verbatim>\<open>stat\<close> information of a node, its name as a C string, the
  checksums of entry sets and of the volume boot record, the name hash and the rounding of sizes for
  display.  The rotating sums are kept at their width.
\<close>

section \<open>Model\<close>

record stat =
  st_mode :: int
  st_nlink :: nat
  st_uid :: int
  st_gid :: int
  st_size :: off_t
  st_blocks :: u64
  st_mtime :: time_t
  st_atime :: time_t
  st_ctime :: time_t

definition S_IFDIR :: int where "S_IFDIR = 0x4000"
definition S_IFREG :: int where "S_IFREG = 0x8000"

definition exfat_stat :: "exfat \<Rightarrow> exfat_node \<Rightarrow> stat" where
  "exfat_stat ef node =
     \<lparr>st_mode = (if is_dir node then S_IFDIR OR (0x1ff AND NOT (ef_dmask ef))
                 else S_IFREG OR (0x1ff AND NOT (ef_fmask ef))),
      st_nlink = 1,
      st_uid = ef_uid ef,
      st_gid = ef_gid ef,
      st_size = sint (n_size node),
      st_blocks = ROUND_UP (n_size node) (of_nat (CLUSTER_SIZE (ef_sb ef))) div 512,
      st_mtime = n_mtime node,
      st_atime = n_atime node,
      st_ctime = n_mtime node\<rparr>"

text \<open>The buffer of \<^verbatim>\<open>exfat_get_name\<close> afterwards; a name that does not convert is a bug of the caller.\<close>

definition exfat_get_name :: "exfat_node \<Rightarrow> u8 list option" where
  "exfat_get_name node =
     (let (rc, buffer) = exfat_utf16_to_utf8 (n_name node) EXFAT_UTF8_NAME_BUFFER_MAX EXFAT_NAME_MAX
      in if rc \<noteq> 0 then None else Some buffer)"

definition add_checksum_byte :: "u16 \<Rightarrow> u8 \<Rightarrow> u16" where
  "add_checksum_byte acc byte = (push_bit 15 acc OR drop_bit 1 acc) + ucast byte"

definition add_checksum_bytes :: "u16 \<Rightarrow> u8 list \<Rightarrow> u16" where
  "add_checksum_bytes acc buffer = foldl add_checksum_byte acc buffer"

primrec start_checksum_loop :: "nat \<Rightarrow> u8 list \<Rightarrow> u16 \<Rightarrow> u16" where
  "start_checksum_loop i [] acc = acc"
| "start_checksum_loop i (b # bs) acc =
     start_checksum_loop (i + 1) bs (if i \<noteq> 2 \<and> i \<noteq> 3 then add_checksum_byte acc b else acc)"

definition exfat_start_checksum :: "entry \<Rightarrow> u16" where
  "exfat_start_checksum entry = start_checksum_loop 0 entry 0"

definition exfat_add_checksum :: "entry \<Rightarrow> u16 \<Rightarrow> u16" where
  "exfat_add_checksum entry acc = add_checksum_bytes acc entry"

text \<open>The callers pass an array of at least one entry; the first one starts the sum.\<close>

definition exfat_calc_checksum :: "entry list \<Rightarrow> nat \<Rightarrow> u16" where
  "exfat_calc_checksum entries n =
     foldl (\<lambda>acc entry. exfat_add_checksum entry acc)
       (exfat_start_checksum (entries ! 0)) (take (n - 1) (drop 1 entries))"

definition vbr_checksum_byte :: "u32 \<Rightarrow> u8 \<Rightarrow> u32" where
  "vbr_checksum_byte acc byte = (push_bit 31 acc OR drop_bit 1 acc) + ucast byte"

primrec vbr_start_loop :: "nat \<Rightarrow> u8 list \<Rightarrow> u32 \<Rightarrow> u32" where
  "vbr_start_loop i [] acc = acc"
| "vbr_start_loop i (b # bs) acc =
     vbr_start_loop (i + 1) bs
       (if i \<noteq> 0x6a \<and> i \<noteq> 0x6b \<and> i \<noteq> 0x70 then vbr_checksum_byte acc b else acc)"

definition exfat_vbr_start_checksum :: "u8 list \<Rightarrow> u32" where
  "exfat_vbr_start_checksum sector = vbr_start_loop 0 sector 0"

definition exfat_vbr_add_checksum :: "u8 list \<Rightarrow> u32 \<Rightarrow> u32" where
  "exfat_vbr_add_checksum sector acc = foldl vbr_checksum_byte acc sector"

text \<open>\<open>upcase\<close> is the table \<^verbatim>\<open>ef->upcase\<close>, which has an entry for every 16-bit val.\<close>

definition name_hash_unit :: "(u16 \<Rightarrow> u16) \<Rightarrow> u16 \<Rightarrow> u16 \<Rightarrow> u16" where
  "name_hash_unit upcase hash unit =
     (let c = upcase unit;
          hash = (push_bit 15 hash OR drop_bit 1 hash) + (c AND 0xff)
      in (push_bit 15 hash OR drop_bit 1 hash) + drop_bit 8 c)"

definition exfat_calc_name_hash :: "(u16 \<Rightarrow> u16) \<Rightarrow> u16 list \<Rightarrow> nat \<Rightarrow> u16" where
  "exfat_calc_name_hash upcase name n = foldl (name_hash_unit upcase) 0 (take n name)"

record exfat_human_bytes =
  hb_value :: u64
  hb_unit :: string

definition units :: "string list" where
  "units = [''bytes'', ''KB'', ''MB'', ''GB'', ''TB'', ''PB'', ''EB'']"

text \<open>
  \<open>None\<close> would be the access to \<^verbatim>\<open>units[i]\<close> outside the array; the loop counter is bounded by the
  array here and \<open>humanize_total\<close> shows that this bound is never met.
\<close>

function humanize_loop :: "u64 \<Rightarrow> nat \<Rightarrow> u64 \<Rightarrow> exfat_human_bytes option" where
  "humanize_loop val i divisor =
     (if length units \<le> i then None
      else let temp = (val + divisor div 2) div divisor
           in if temp \<noteq> 0 \<and> (temp div 1024 * 1024 = temp \<or> \<not> temp < 10240)
              then humanize_loop val (i + 1) (divisor * 1024)
              else Some \<lparr>hb_value = temp, hb_unit = units ! i\<rparr>)"
  by pat_completeness auto
termination by (relation "measure (\<lambda>(val, i, divisor). length units - i)") auto

declare humanize_loop.simps [simp del]

definition exfat_humanize_bytes :: "u64 \<Rightarrow> exfat_human_bytes option" where
  "exfat_humanize_bytes val = humanize_loop val 0 1"

text \<open>The numbers that \<^verbatim>\<open>exfat_print_info\<close> prints: sector, cluster, volume, used and available size.\<close>

definition exfat_print_info :: "exfat_super_block \<Rightarrow> u32 \<Rightarrow> exfat_human_bytes list option" where
  "exfat_print_info sb free_clusters =
     (let total_space = sb_sector_count sb * of_nat (SECTOR_SIZE sb);
          avail_space = ucast free_clusters * of_nat (CLUSTER_SIZE sb)
      in do {
        h1 \<leftarrow> exfat_humanize_bytes (of_nat (SECTOR_SIZE sb));
        h2 \<leftarrow> exfat_humanize_bytes (of_nat (CLUSTER_SIZE sb));
        h3 \<leftarrow> exfat_humanize_bytes total_space;
        h4 \<leftarrow> exfat_humanize_bytes (total_space - avail_space);
        h5 \<leftarrow> exfat_humanize_bytes avail_space;
        Some [h1, h2, h3, h4, h5]
      })"

section \<open>Checksums\<close>

text \<open>The sum over an entry set does not read the checksum field of the first entry.\<close>

lemma start_checksum_skips:
  "length e = 32 \<Longrightarrow> exfat_start_checksum e = add_checksum_bytes 0 (take 2 e @ drop 4 e)"
proof -
  have tail: "start_checksum_loop i bs acc = foldl add_checksum_byte acc bs" if "4 \<le> i" for i bs acc
    using that by (induction bs arbitrary: i acc) auto
  assume "length e = 32"
  then obtain a b c d rest where "e = a # b # c # d # rest"
    by (auto simp: numeral_eq_Suc length_Suc_conv)
  then show ?thesis
    by (simp add: exfat_start_checksum_def add_checksum_bytes_def tail)
qed

lemma calc_checksum_Cons:
  "exfat_calc_checksum (e # es) n = add_checksum_bytes (exfat_start_checksum e) (concat (take (n - 1) es))"
proof -
  have "foldl (\<lambda>acc entry. exfat_add_checksum entry acc) s xs = add_checksum_bytes s (concat xs)" for s xs
    by (induction xs arbitrary: s) (simp_all add: exfat_add_checksum_def add_checksum_bytes_def)
  then show ?thesis by (simp add: exfat_calc_checksum_def)
qed

lemma add_checksum_bytes_append:
  "add_checksum_bytes s (xs @ ys) = add_checksum_bytes (add_checksum_bytes s xs) ys"
  by (simp add: add_checksum_bytes_def)

lemma add_checksum_byte_inj: "add_checksum_byte s b = add_checksum_byte t b \<Longrightarrow> s = t"
proof -
  assume "add_checksum_byte s b = add_checksum_byte t b"
  then have eq: "push_bit 15 s OR drop_bit 1 s = push_bit 15 t OR drop_bit 1 t"
    by (simp add: add_checksum_byte_def)
  show "s = t"
  proof (rule bit_word_eqI)
    fix k assume k: "k < LENGTH(16)"
    have "bit (push_bit 15 s OR drop_bit 1 s) (if k = 0 then 15 else k - 1) =
        bit (push_bit 15 t OR drop_bit 1 t) (if k = 0 then 15 else k - 1)" using eq by simp
    then show "bit s k = bit t k" using k by (auto simp: bit_simps dest: bit_imp_le_length split: if_splits)
  qed
qed

lemma add_checksum_bytes_inj:
  "add_checksum_bytes s bs = add_checksum_bytes t bs \<Longrightarrow> s = t"
proof (induction bs arbitrary: s t)
  case (Cons b bs)
  then show ?case by (auto simp: add_checksum_bytes_def dest: add_checksum_byte_inj)
qed (simp add: add_checksum_bytes_def)

text \<open>A change of one byte anywhere after the first entry's checksum field is always noticed.\<close>

lemma add_checksum_byte_inj2: "add_checksum_byte s b = add_checksum_byte s c \<Longrightarrow> b = c"
proof -
  assume "add_checksum_byte s b = add_checksum_byte s c"
  then have "(ucast b :: u16) = ucast c" by (simp add: add_checksum_byte_def)
  then have "unat (ucast b :: u16) = unat (ucast c :: u16)" by simp
  then have "unat b = unat c" using unat_u8 [of b] unat_u8 [of c]
    by (simp add: unsigned_ucast_eq take_bit_nat_eq_self)
  then show "b = c" by (simp add: word_unat_eq_iff)
qed

lemma checksum_detects_byte:
  assumes "add_checksum_bytes s (pre @ b # post) = add_checksum_bytes s (pre @ c # post)"
  shows "b = c"
proof -
  have split: "add_checksum_bytes s (pre @ x # post) =
      add_checksum_bytes (add_checksum_byte (add_checksum_bytes s pre) x) post" for x
    by (simp add: add_checksum_bytes_def)
  show ?thesis
    using assms unfolding split by (intro add_checksum_byte_inj2) (rule add_checksum_bytes_inj)
qed

section \<open>Rounding of sizes\<close>

text \<open>What the loop stores when it stops at unit \<open>j\<close>.\<close>

definition rounded :: "u64 \<Rightarrow> nat \<Rightarrow> u64" where
  "rounded val j = (val + 2 ^ (10 * j) div 2) div 2 ^ (10 * j)"

lemma unat_pow_u64: "n < 64 \<Longrightarrow> unat (2 ^ n :: u64) = 2 ^ n"
proof -
  assume "n < 64"
  then have "(2 :: nat) ^ n < 2 ^ 64" by (intro power_strict_increasing) auto
  then show ?thesis using unat_of_nat [of "2 ^ n", where 'a = 64] by simp
qed

lemma rounded_6: "rounded val 6 < 10240" "rounded val 6 div 1024 = 0"
proof -
  have "unat (rounded val 6) \<le> 15"
    using unat_u64 [of "val + 2 ^ 60 div 2"] by (simp add: rounded_def unat_div)
  then show "rounded val 6 < 10240" "rounded val 6 div 1024 = 0"
    by (auto simp: word_less_nat_alt unat_div simp flip: unat_eq_zero)
qed

lemma humanize_loop_total:
  assumes "i \<le> 6"
  shows "\<exists>j. i \<le> j \<and> j \<le> 6 \<and>
    humanize_loop val i (2 ^ (10 * i)) = Some \<lparr>hb_value = rounded val j, hb_unit = units ! j\<rparr>"
  using assms
proof (induction "6 - i" arbitrary: i)
  case 0
  then have "i = 6" by simp
  then show ?case using rounded_6 [of val]
    by (subst humanize_loop.simps) (auto simp: units_def Let_def rounded_def)
next
  case (Suc n)
  then have "n = 6 - (i + 1)" "i + 1 \<le> 6" by linarith+
  then obtain j where "i + 1 \<le> j" "j \<le> 6" and rec:
    "humanize_loop val (i + 1) (2 ^ (10 * (i + 1))) = Some \<lparr>hb_value = rounded val j, hb_unit = units ! j\<rparr>"
    using Suc(1) by blast
  moreover have "(2 :: u64) ^ (10 * (i + 1)) = 2 ^ (10 * i) * 1024" by (simp add: power_add)
  moreover have "i < length units" using Suc by (simp add: units_def)
  ultimately have step: "humanize_loop val i (2 ^ (10 * i)) =
      (if rounded val i \<noteq> 0 \<and> (rounded val i div 1024 * 1024 = rounded val i \<or> \<not> rounded val i < 10240)
       then Some \<lparr>hb_value = rounded val j, hb_unit = units ! j\<rparr>
       else Some \<lparr>hb_value = rounded val i, hb_unit = units ! i\<rparr>)"
    by (subst humanize_loop.simps) (simp add: Let_def rounded_def)
  show ?case
  proof (cases "rounded val i \<noteq> 0 \<and> (rounded val i div 1024 * 1024 = rounded val i \<or> \<not> rounded val i < 10240)")
    case True
    then show ?thesis using step \<open>i + 1 \<le> j\<close> \<open>j \<le> 6\<close> by (intro exI [of _ j]) auto
  next
    case False
    then show ?thesis using step Suc.prems by (intro exI [of _ i]) auto
  qed
qed

lemma less_mult_div_add: "0 < d \<Longrightarrow> x < d * (x div d) + d" for x d :: nat
  using mult_div_mod_eq [of d x] mod_less_divisor [of d x] by linarith

lemma rounded_error:
  assumes "unat val < 2 ^ 64 - 2 ^ 59" and "j \<le> 6"
  shows "\<bar>int (unat (rounded val j)) * 1024 ^ j - int (unat val)\<bar> \<le> 1024 ^ j div 2"
proof -
  let ?d = "2 ^ (10 * j) :: nat" and ?v = "unat val"
  have d: "unat (2 ^ (10 * j) :: u64) = ?d" using assms(2) by (intro unat_pow_u64) simp
  have "?d \<le> 2 ^ 60" using assms(2) by (intro power_increasing) auto
  then have half: "?d div 2 \<le> 2 ^ 59" by simp
  have "unat (val + 2 ^ (10 * j) div 2) = ?v + ?d div 2"
    using assms(1) half by (subst unat_add_lem [THEN iffD1]) (auto simp: unat_div d)
  then have r: "unat (rounded val j) = (?v + ?d div 2) div ?d"
    by (simp add: rounded_def unat_div d)
  have "?d * ((?v + ?d div 2) div ?d) \<le> ?v + ?d div 2" by simp
  moreover have "?v + ?d div 2 < ?d * ((?v + ?d div 2) div ?d) + ?d"
    by (rule less_mult_div_add) simp
  moreover have "?d - ?d div 2 \<le> Suc (?d div 2)" by linarith
  ultimately have "int (?d * ((?v + ?d div 2) div ?d)) - int ?v \<le> int (?d div 2)"
    "int ?v - int (?d * ((?v + ?d div 2) div ?d)) \<le> int (?d div 2)" by linarith+
  moreover have "(1024 :: int) ^ j = int ?d" by (simp add: power_mult)
  ultimately show ?thesis unfolding r by (simp add: mult.commute zdiv_int abs_le_iff)
qed

section \<open>Properties\<close>

text \<open>
  the size shown to the user.  The loop of \<^verbatim>\<open>exfat_humanize_bytes\<close> never leaves the array of
  units, and for sizes below \<open>2 ^ 64 - 2 ^ 59\<close> bytes, where the rounding does not wrap, the number shown
  is off by at most half a unit.
\<close>

theorem humanize_correct:
  "\<exists>j \<le> 6. \<exists>v. exfat_humanize_bytes val = Some \<lparr>hb_value = v, hb_unit = units ! j\<rparr> \<and>
     (unat val \<ge> 2 ^ 64 - 2 ^ 59 \<or> \<bar>int (unat v) * 1024 ^ j - int (unat val)\<bar> \<le> 1024 ^ j div 2)"
proof -
  obtain j where "j \<le> 6" "exfat_humanize_bytes val = Some \<lparr>hb_value = rounded val j, hb_unit = units ! j\<rparr>"
    using humanize_loop_total [of 0 val] by (auto simp: exfat_humanize_bytes_def)
  moreover have "2 ^ 64 - 2 ^ 59 \<le> unat val \<or> unat val < 2 ^ 64 - 2 ^ 59" by linarith
  ultimately show ?thesis using rounded_error [of val j] by blast
qed

text \<open>
  the wrap-around in the rounding of \<^verbatim>\<open>exfat_humanize_bytes\<close>: the largest 64-bit size is shown as
  zero kilobytes.
\<close>

theorem humanize_wraps:
  "exfat_humanize_bytes (- 1) = Some \<lparr>hb_value = 0, hb_unit = ''KB''\<rparr>"
  unfolding exfat_humanize_bytes_def
  by (subst humanize_loop.simps, subst humanize_loop.simps) (simp add: units_def Let_def)

text \<open>
  C36: the checksum of an entry set notices every change of a single byte outside the checksum field:
  two sets that differ in exactly one byte after the first four have different sums, and the checksum
  field itself does not matter.
\<close>

theorem checksum_detects_change:
  assumes "length e = 32" "length f = 32"
    "take 2 e @ drop 4 e @ concat es = pre @ b # post" "take 2 f @ drop 4 f @ concat fs = pre @ c # post"
    "length es = n - 1" "length fs = n - 1"
  shows "exfat_calc_checksum (e # es) n = exfat_calc_checksum (f # fs) n \<longleftrightarrow> b = c"
proof -
  have "exfat_calc_checksum (g # gs) n = add_checksum_bytes 0 (take 2 g @ drop 4 g @ concat gs)"
    if "length g = 32" "length gs = n - 1" for g gs
    using that by (simp add: calc_checksum_Cons start_checksum_skips add_checksum_bytes_append flip: append_assoc)
  then show ?thesis using assms checksum_detects_byte by metis
qed

end
