(* ===== verification/Time.thy ===== *)
theory Time
  imports Prelude "HOL-Library.Signed_Division"
begin

text \<open>
  The timestamp conversions of \<^verbatim>\<open>libexfat/time.c\<close>.  \<^verbatim>\<open>time_t\<close> is an unbounded \<open>int\<close>; the 16-bit and
  32-bit intermediate variables of the source wrap at their width.  The global \<^verbatim>\<open>exfat_timezone\<close>
  (seconds west of UTC) is an argument.
\<close>

section \<open>Model\<close>

definition SEC_IN_MIN :: int where "SEC_IN_MIN = 60"
definition SEC_IN_HOUR :: int where "SEC_IN_HOUR = 60 * SEC_IN_MIN"
definition SEC_IN_DAY :: int where "SEC_IN_DAY = 24 * SEC_IN_HOUR"
definition SEC_IN_YEAR :: int where "SEC_IN_YEAR = 365 * SEC_IN_DAY"
definition UNIX_EPOCH_YEAR :: int where "UNIX_EPOCH_YEAR = 1970"
definition EXFAT_EPOCH_YEAR :: int where "EXFAT_EPOCH_YEAR = 1980"
definition EPOCH_DIFF_YEAR :: int where "EPOCH_DIFF_YEAR = EXFAT_EPOCH_YEAR - UNIX_EPOCH_YEAR"
definition EPOCH_DIFF_DAYS :: int where
  "EPOCH_DIFF_DAYS = EPOCH_DIFF_YEAR * 365 + EPOCH_DIFF_YEAR sdiv 4"
definition EPOCH_DIFF_SEC :: int where "EPOCH_DIFF_SEC = EPOCH_DIFF_DAYS * SEC_IN_DAY"

lemmas time_consts = SEC_IN_MIN_def SEC_IN_HOUR_def SEC_IN_DAY_def SEC_IN_YEAR_def UNIX_EPOCH_YEAR_def
  EXFAT_EPOCH_YEAR_def EPOCH_DIFF_YEAR_def EPOCH_DIFF_DAYS_def EPOCH_DIFF_SEC_def

definition LEAP_YEARS :: "int \<Rightarrow> int" where
  "LEAP_YEARS year = (EXFAT_EPOCH_YEAR + year - 1) sdiv 4 - (EXFAT_EPOCH_YEAR - 1) sdiv 4"

definition IS_LEAP_YEAR :: "int \<Rightarrow> bool" where
  "IS_LEAP_YEAR year \<longleftrightarrow> (EXFAT_EPOCH_YEAR + year) smod 4 = 0"

definition days_in_year :: "int list" where
  "days_in_year = [0, 0, 31, 59, 90, 120, 151, 181, 212, 243, 273, 304, 334]"

definition exfat_exfat2unix :: "int \<Rightarrow> u16 \<Rightarrow> u16 \<Rightarrow> u8 \<Rightarrow> u8 \<Rightarrow> time_t" where
  "exfat_exfat2unix exfat_timezone date time centisec tzoffset =
     (let day = uint (date AND 0x1f);
          month = uint (drop_bit 5 date AND 0xf);
          year = uint (drop_bit 9 date);
          twosec = uint (time AND 0x1f);
          min = uint (drop_bit 5 time AND 0x3f);
          hour = uint (drop_bit 11 time)
      in if day = 0 \<or> month = 0 \<or> 12 < month then 0
         else if 23 < hour \<or> 59 < min \<or> 29 < twosec then 0
         else if 199 < centisec then 0
         else
           EPOCH_DIFF_SEC
           + (year * SEC_IN_YEAR + LEAP_YEARS year * SEC_IN_DAY)
           + days_in_year ! nat month * SEC_IN_DAY
           + (if (EXFAT_EPOCH_YEAR + year) smod 4 = 0 \<and> 2 < month then SEC_IN_DAY else 0)
           + (day - 1) * SEC_IN_DAY
           + hour * SEC_IN_HOUR + min * SEC_IN_MIN + twosec * 2
           + uint centisec sdiv 100
           + (if tzoffset AND 0x80 \<noteq> 0 then - (sint (push_bit 1 tzoffset) * 15 * 60 sdiv 2)
              else exfat_timezone))"

text \<open>The month loop: the month and the days that are left in it.\<close>

function month_loop :: "int \<Rightarrow> nat \<Rightarrow> int \<Rightarrow> int \<times> int" where
  "month_loop year i days =
     (let leap_day = (if IS_LEAP_YEAR year \<and> i = 2 then 1 else 0);
          leap_sub = (if IS_LEAP_YEAR year \<and> i \<ge> 3 then 1 else 0)
      in if 12 < i then (0, days)
         else if i = 12 \<or> days - leap_sub < days_in_year ! (i + 1) + leap_day
              then (int i, days - (days_in_year ! i + leap_sub))
         else month_loop year (i + 1) days)"
  by pat_completeness auto
termination by (relation "measure (\<lambda>(year, i, days). 13 - i)") auto

declare month_loop.simps [simp del]

definition c_int :: "int \<Rightarrow> int" where
  "c_int x = sint (word_of_int x :: 32 word)"

definition exfat_unix2exfat :: "int \<Rightarrow> time_t \<Rightarrow> u16 \<times> u16 \<times> u8 \<times> u8" where
  "exfat_unix2exfat exfat_timezone unix_time =
     (let shift = EPOCH_DIFF_SEC + exfat_timezone;
          unix_time = (if unix_time < shift then shift else unix_time) - shift;
          days = c_int (unix_time sdiv SEC_IN_DAY);
          year = uint (word_of_int (c_int (4 * days) sdiv (4 * 365 + 1)) :: u16);
          days = c_int (days - (year * 365 + LEAP_YEARS year));
          (month, days) = month_loop year 1 days;
          day = word_of_int (days + 1) :: u16;
          hour = word_of_int (unix_time smod SEC_IN_DAY sdiv SEC_IN_HOUR) :: u16;
          min = word_of_int (unix_time smod SEC_IN_HOUR sdiv SEC_IN_MIN) :: u16;
          twosec = word_of_int (unix_time smod SEC_IN_MIN sdiv 2) :: u16
      in (day OR push_bit 5 (word_of_int month) OR push_bit 9 (word_of_int year),
          twosec OR push_bit 5 min OR push_bit 11 hour,
          word_of_int (unix_time smod 2 * 100),
          word_of_int (- exfat_timezone sdiv 60 sdiv 15) OR 0x80))"

section \<open>Facts\<close>

text \<open>For non-negative operands C's division and remainder are those of HOL.\<close>

lemma sdiv_pos: "0 \<le> a \<Longrightarrow> 0 < b \<Longrightarrow> a sdiv b = a div b" for a b :: int
  by (cases "a = 0") (simp_all add: signed_divide_int_def)

lemma smod_pos: "0 \<le> a \<Longrightarrow> 0 < b \<Longrightarrow> a smod b = a mod b" for a b :: int
  by (cases "a = 0") (simp_all add: signed_modulo_int_def)

lemma c_int_id: "- (2 ^ 31) \<le> x \<Longrightarrow> x < 2 ^ 31 \<Longrightarrow> c_int x = x"
  by (simp add: c_int_def sint_sbintrunc' signed_take_bit_int_eq_self)

lemma EPOCH_DIFF_SEC_value: "EPOCH_DIFF_SEC = 315532800"
  by (simp add: time_consts sdiv_pos)

lemma LEAP_YEARS_eq: "0 \<le> y \<Longrightarrow> LEAP_YEARS y = (y + 3) div 4"
  by (simp add: LEAP_YEARS_def time_consts sdiv_pos)

lemma IS_LEAP_YEAR_eq: "0 \<le> y \<Longrightarrow> IS_LEAP_YEAR y \<longleftrightarrow> y mod 4 = 0"
proof -
  assume "0 \<le> y"
  moreover have "(1980 + y) mod 4 = y mod 4" by presburger
  ultimately show ?thesis by (simp add: IS_LEAP_YEAR_def time_consts smod_pos)
qed

lemma year_of_days:
  fixes d y :: int
  assumes "0 \<le> d" and "y = 4 * d div 1461"
  shows "0 \<le> y" and "y * 365 + (y + 3) div 4 \<le> d"
    and "d < y * 365 + (y + 3) div 4 + (if y mod 4 = 0 then 366 else 365)"
proof -
  define q r where "q = d div 1461" and "r = d mod 1461"
  then have d: "d = 1461 * q + r" "0 \<le> r" "r < 1461" "0 \<le> q" using assms(1) by auto
  then have y: "y = 4 * q + 4 * r div 1461" using assms(2) by simp
  consider "r \<le> 365" "4 * r div 1461 = 0" | "366 \<le> r" "r \<le> 730" "4 * r div 1461 = 1"
    | "731 \<le> r" "r \<le> 1095" "4 * r div 1461 = 2" | "1096 \<le> r" "4 * r div 1461 = 3"
    using d(2,3) by linarith
  then have "0 \<le> y \<and> y * 365 + (y + 3) div 4 \<le> d \<and>
      d < y * 365 + (y + 3) div 4 + (if y mod 4 = 0 then 366 else 365)"
    by cases (use d y in auto)
  then show "0 \<le> y" and "y * 365 + (y + 3) div 4 \<le> d"
    and "d < y * 365 + (y + 3) div 4 + (if y mod 4 = 0 then 366 else 365)" by blast+
qed

lemma month_loop_unfold:
  "month_loop y i d =
     (if 12 < i then (0, d)
      else if i = 12 \<or> d < days_in_year ! (i + 1) + (if IS_LEAP_YEAR y \<and> 2 \<le> i then 1 else 0)
           then (int i, d - (days_in_year ! i + (if IS_LEAP_YEAR y \<and> 2 < i then 1 else 0)))
           else month_loop y (i + 1) d)"
  by (subst month_loop.simps) (auto simp: Let_def)

lemma month_loop_ok:
  assumes "1 \<le> i" and "i \<le> 12" and "d < (if IS_LEAP_YEAR y then 366 else 365)"
    and "days_in_year ! i + (if IS_LEAP_YEAR y \<and> 2 < i then 1 else 0) \<le> d"
  shows "\<exists>m r. month_loop y i d = (int m, r) \<and> 1 \<le> m \<and> m \<le> 12 \<and> 0 \<le> r \<and> r \<le> 30 \<and>
    d = days_in_year ! m + (if IS_LEAP_YEAR y \<and> 2 < m then 1 else 0) + r"
  using assms
proof (induction "12 - i" arbitrary: i)
  case 0
  then have "i = 12" by simp
  then show ?case using 0 by (subst month_loop_unfold) (auto simp: days_in_year_def)
next
  case (Suc n)
  show ?case
  proof (cases "d < days_in_year ! (i + 1) + (if IS_LEAP_YEAR y \<and> 2 \<le> i then 1 else 0)")
    case True
    have "i \<in> {1,2,3,4,5,6,7,8,9,10,11}" using Suc(2-4) by (simp, presburger)
    then have "days_in_year ! (i + 1) + (if IS_LEAP_YEAR y \<and> 2 \<le> i then 1 else 0)
        \<le> days_in_year ! i + (if IS_LEAP_YEAR y \<and> 2 < i then 1 else 0) + 31"
      by (auto simp: days_in_year_def numeral_eq_Suc)
    then show ?thesis using True Suc by (subst month_loop_unfold) (auto simp: days_in_year_def)
  next
    case False
    have "n = 12 - (i + 1)" "1 \<le> i + 1" "i + 1 \<le> 12" using Suc(2-4) by linarith+
    moreover have "days_in_year ! (i + 1) + (if IS_LEAP_YEAR y \<and> 2 < i + 1 then 1 else 0) \<le> d"
      using False by (auto split: if_splits)
    moreover have "month_loop y i d = month_loop y (i + 1) d"
      using False Suc(2-4) by (subst month_loop_unfold) auto
    ultimately show ?thesis using Suc(1) [of "i + 1"] Suc.prems(3) by simp
  qed
qed

lemma tz_field:
  assumes "- 64 \<le> k" and "k < 64"
  shows "(word_of_int k OR 0x80 :: u8) AND 0x80 \<noteq> 0"
    and "sint (push_bit 1 (word_of_int k OR 0x80 :: u8)) = 2 * k"
proof -
  show "(word_of_int k OR 0x80 :: u8) AND 0x80 \<noteq> 0"
    by (rule bit_neqI [where k = 7]) (simp add: bit_simps)
  have "push_bit 1 (word_of_int k OR 0x80 :: u8) = push_bit 1 (word_of_int k) OR push_bit 1 0x80"
    by (rule push_bit_or)
  also have "push_bit 1 (0x80 :: u8) = 0" by simp
  also have "push_bit 1 (word_of_int k :: u8) OR 0 = word_of_int (2 * k)"
    by (simp add: push_bit_eq_mult)
  finally have "push_bit 1 (word_of_int k OR 0x80 :: u8) = word_of_int (2 * k)" .
  moreover have "sint (word_of_int (2 * k) :: u8) = 2 * k"
    using assms by (subst sint_sbintrunc') (simp add: signed_take_bit_int_eq_self)
  ultimately show "sint (push_bit 1 (word_of_int k OR 0x80 :: u8)) = 2 * k" by simp
qed

lemma sdiv_mult: "c \<noteq> 0 \<Longrightarrow> k * c sdiv c = k" for k c :: int
  by (simp add: signed_divide_int_def sgn_mult abs_mult mult.commute abs_mult_sgn)

text \<open>The clock fields of a count of seconds.\<close>

lemma clock_split:
  fixes t :: int
  assumes "0 \<le> t"
  shows "t = t div 86400 * 86400 + t mod 86400 div 3600 * 3600 + t mod 3600 div 60 * 60 + t mod 60 div 2 * 2 + t mod 2"
proof -
  have "t mod 86400 = t mod 86400 div 3600 * 3600 + t mod 3600"
    using div_mult_mod_eq [of "t mod 86400" 3600] by (simp add: mod_mod_cancel)
  moreover have "t mod 3600 = t mod 3600 div 60 * 60 + t mod 60"
    using div_mult_mod_eq [of "t mod 3600" 60] by (simp add: mod_mod_cancel)
  moreover have "t mod 60 = t mod 60 div 2 * 2 + t mod 2"
    using div_mult_mod_eq [of "t mod 60" 2] by (simp add: mod_mod_cancel)
  ultimately show ?thesis using div_mult_mod_eq [of t 86400] by linarith
qed

text \<open>Packing and unpacking of the two 16-bit fields.\<close>

lemma date_fields:
  assumes "0 \<le> d" "d < 32" "0 \<le> m" "m < 16" "0 \<le> y" "y < 128"
  defines "w \<equiv> (word_of_int d OR push_bit 5 (word_of_int m) OR push_bit 9 (word_of_int y) :: u16)"
  shows "uint (w AND 0x1f) = d" "uint (drop_bit 5 w AND 0xf) = m" "uint (drop_bit 9 w) = y"
proof -
  have "unat (word_of_int d :: u16) < 2 ^ 5" "unat (word_of_int m :: u16) < 2 ^ 4"
    "unat (word_of_int y :: u16) < 2 ^ 7" using assms by (simp_all add: unat_word_of_int)
  note p = pack_fields [OF this]
  have "(0x1f :: u16) = mask 5" "(0xf :: u16) = mask 4" by (simp_all add: mask_eq_exp_minus_1)
  with p show "uint (w AND 0x1f) = d" "uint (drop_bit 5 w AND 0xf) = m" "uint (drop_bit 9 w) = y"
    using assms(1-6) by (simp_all only: w_def) (simp_all add: uint_small)
qed

lemma time_fields:
  assumes "0 \<le> s" "s < 32" "0 \<le> m" "m < 64" "0 \<le> h" "h < 32"
  defines "w \<equiv> (word_of_int s OR push_bit 5 (word_of_int m) OR push_bit 11 (word_of_int h) :: u16)"
  shows "uint (w AND 0x1f) = s" "uint (drop_bit 5 w AND 0x3f) = m" "uint (drop_bit 11 w) = h"
proof -
  have "unat (word_of_int s :: u16) < 2 ^ 5" "unat (word_of_int m :: u16) < 2 ^ 6"
    "unat (word_of_int h :: u16) < 2 ^ 5" using assms by (simp_all add: unat_word_of_int)
  note p = pack_fields [OF this]
  have "(0x1f :: u16) = mask 5" "(0x3f :: u16) = mask 6" by (simp_all add: mask_eq_exp_minus_1)
  with p show "uint (w AND 0x1f) = s" "uint (drop_bit 5 w AND 0x3f) = m" "uint (drop_bit 11 w) = h"
    using assms(1-6) by (simp_all only: w_def) (simp_all add: uint_small)
qed

text \<open>
  The range of the 7-bit year field, 128 years of which every fourth one is counted as a leap year.
\<close>

definition representable :: "int \<Rightarrow> time_t \<Rightarrow> bool" where
  "representable exfat_timezone t \<longleftrightarrow>
     EPOCH_DIFF_SEC + exfat_timezone \<le> t \<and>
     t < EPOCH_DIFF_SEC + exfat_timezone + (128 * 365 + 32) * SEC_IN_DAY"

text \<open>The fields that \<^verbatim>\<open>exfat_unix2exfat\<close> writes for a representable time.\<close>

lemma unix2exfat_fields:
  assumes "representable tz t"
  obtains y m r where "0 \<le> y" "y < 128" "1 \<le> m" "m \<le> 12" "0 \<le> r" "r \<le> 30"
    "(t - EPOCH_DIFF_SEC - tz) div 86400 =
       y * 365 + LEAP_YEARS y + days_in_year ! nat m + (if IS_LEAP_YEAR y \<and> 2 < m then 1 else 0) + r"
    "exfat_unix2exfat tz t =
      (let u = t - EPOCH_DIFF_SEC - tz
       in (word_of_int (r + 1) OR push_bit 5 (word_of_int m) OR push_bit 9 (word_of_int y),
           word_of_int (u mod 60 div 2) OR push_bit 5 (word_of_int (u mod 3600 div 60))
             OR push_bit 11 (word_of_int (u mod 86400 div 3600)),
           word_of_int (u mod 2 * 100),
           word_of_int (- tz sdiv 60 sdiv 15) OR 0x80))"
proof -
  define u where "u = t - EPOCH_DIFF_SEC - tz"
  define d where "d = u div 86400"
  define y where "y = 4 * d div 1461"
  have u: "0 \<le> u" "u < 46752 * 86400" using assms by (auto simp: representable_def u_def time_consts)
  then have d: "0 \<le> d" "d < 46752" by (auto simp: d_def)
  note yd = year_of_days [OF d(1) y_def]
  have y: "y < 128" using d by (auto simp: y_def)
  define e where "e = d - (y * 365 + LEAP_YEARS y)"
  have e: "0 \<le> e" "e < (if IS_LEAP_YEAR y then 366 else 365)"
    using yd by (auto simp: e_def LEAP_YEARS_eq IS_LEAP_YEAR_eq)
  obtain m r where m: "month_loop y 1 e = (int m, r)" "1 \<le> m" "m \<le> 12" "0 \<le> r" "r \<le> 30"
    "e = days_in_year ! m + (if IS_LEAP_YEAR y \<and> 2 < m then 1 else 0) + r"
    using month_loop_ok [of 1 e y] e by (auto simp: days_in_year_def)
  have "c_int d = d" "c_int (4 * d) = 4 * d" "c_int e = e"
    using d e by (auto intro!: c_int_id split: if_splits)
  moreover have "uint (word_of_int y :: u16) = y" using yd(1) y by (intro uint_small) auto
  moreover have "4 * d sdiv (4 * 365 + 1) = y" using d by (simp add: sdiv_pos y_def)
  moreover have "\<not> t < EPOCH_DIFF_SEC + tz" using u by (simp add: u_def)
  moreover have "t - (EPOCH_DIFF_SEC + tz) = u" by (simp add: u_def)
  ultimately have "exfat_unix2exfat tz t =
      (word_of_int (r + 1) OR push_bit 5 (word_of_int (int m)) OR push_bit 9 (word_of_int y),
       word_of_int (u mod 60 div 2) OR push_bit 5 (word_of_int (u mod 3600 div 60))
         OR push_bit 11 (word_of_int (u mod 86400 div 3600)),
       word_of_int (u mod 2 * 100),
       word_of_int (- tz sdiv 60 sdiv 15) OR 0x80)"
    using u m(1)
    by (simp add: exfat_unix2exfat_def Let_def SEC_IN_DAY_def SEC_IN_HOUR_def SEC_IN_MIN_def
        sdiv_pos smod_pos d_def [symmetric] e_def [symmetric])
  then show ?thesis
    using that [of y "int m" r] yd(1) y m e_def unfolding u_def [symmetric] d_def [symmetric] by auto
qed

lemma unix_exfat_roundtrip:
  assumes "representable tz t" and "tz = - k * 900" and "- 64 \<le> k" and "k < 64"
    and "exfat_unix2exfat tz t = (date, time, centisec, tzoffset)"
  shows "exfat_exfat2unix tz' date time centisec tzoffset = t"
proof -
  define u where "u = t - EPOCH_DIFF_SEC - tz"
  have "0 \<le> u" using assms(1) by (simp add: representable_def u_def)
  obtain y m r where f: "0 \<le> y" "y < 128" "1 \<le> m" "m \<le> 12" "0 \<le> r" "r \<le> 30"
    "u div 86400 = y * 365 + LEAP_YEARS y + days_in_year ! nat m + (if IS_LEAP_YEAR y \<and> 2 < m then 1 else 0) + r"
    "exfat_unix2exfat tz t =
      (let u = u
       in (word_of_int (r + 1) OR push_bit 5 (word_of_int m) OR push_bit 9 (word_of_int y),
           word_of_int (u mod 60 div 2) OR push_bit 5 (word_of_int (u mod 3600 div 60))
             OR push_bit 11 (word_of_int (u mod 86400 div 3600)),
           word_of_int (u mod 2 * 100),
           word_of_int (- tz sdiv 60 sdiv 15) OR 0x80))"
    using unix2exfat_fields [OF assms(1)] unfolding u_def by metis
  have "- tz = k * 15 * 60" using assms(2) by simp
  then have tz: "- tz sdiv 60 sdiv 15 = k" by (simp only: sdiv_mult)
  have w: "date = word_of_int (r + 1) OR push_bit 5 (word_of_int m) OR push_bit 9 (word_of_int y)"
    "time = word_of_int (u mod 60 div 2) OR push_bit 5 (word_of_int (u mod 3600 div 60))
             OR push_bit 11 (word_of_int (u mod 86400 div 3600))"
    "centisec = word_of_int (u mod 2 * 100)" "tzoffset = word_of_int k OR 0x80"
    using f(8) assms(5) unfolding tz Let_def by simp_all
  have date: "uint (date AND 0x1f) = r + 1" "uint (drop_bit 5 date AND 0xf) = m" "uint (drop_bit 9 date) = y"
    unfolding w(1) by (rule date_fields; use f in simp)+
  have time: "uint (time AND 0x1f) = u mod 60 div 2" "uint (drop_bit 5 time AND 0x3f) = u mod 3600 div 60"
    "uint (drop_bit 11 time) = u mod 86400 div 3600"
    unfolding w(2) by (rule time_fields; simp)+
  have cs: "uint centisec = u mod 2 * 100" unfolding w(3) by (rule uint_small) simp_all
  define H M S C where "H = u mod 86400 div 3600" and "M = u mod 3600 div 60" and "S = u mod 60 div 2"
    and "C = u mod 2"
  note hms = H_def [symmetric] M_def [symmetric] S_def [symmetric] C_def [symmetric]
  have "C \<le> 1" "H \<le> 23" "M \<le> 59" "S \<le> 29" unfolding H_def M_def S_def C_def by linarith+
  moreover have "\<not> 199 < centisec" using cs \<open>C \<le> 1\<close> unfolding hms by (simp add: word_less_def)
  moreover have "C * 100 sdiv 100 = C" by (rule sdiv_mult) simp
  moreover have "2 * k * 15 * 60 = k * 900 * 2" by simp
  then have "2 * k * 15 * 60 sdiv 2 = k * 900" by (simp only: sdiv_mult)
  ultimately have "exfat_exfat2unix tz' date time centisec tzoffset =
      EPOCH_DIFF_SEC + (u div 86400 * 86400 + H * 3600 + M * 60 + S * 2 + C) - k * 900"
    using f(1-6) tz_field [OF assms(3,4)]
    unfolding exfat_exfat2unix_def Let_def date time cs w(4) f(7) hms IS_LEAP_YEAR_def [symmetric]
      SEC_IN_DAY_def SEC_IN_HOUR_def SEC_IN_MIN_def SEC_IN_YEAR_def
    by (simp split del: if_split) (simp split: if_split)
  also have "\<dots> = EPOCH_DIFF_SEC + u - k * 900" using clock_split [OF \<open>0 \<le> u\<close>] unfolding hms by simp
  finally show ?thesis by (simp add: u_def assms(2))
qed

section \<open>Properties\<close>

text \<open>
  C31: a representable time survives the way to the four on-disk fields and back, to the second, for
  every time zone that is a multiple of a quarter of an hour between 16 hours west and 15:45 east,
  whatever the time zone of the reader is.
\<close>

theorem timestamp_roundtrip:
  assumes "representable tz t" and "tz = - k * 900" and "- 64 \<le> k" and "k < 64"
  shows "(case exfat_unix2exfat tz t of (date, time, centisec, tzoffset) \<Rightarrow>
           exfat_exfat2unix tz' date time centisec tzoffset) = t"
  by (auto split: prod.splits dest!: unix_exfat_roundtrip [OF assms])

end
