(* ===== verification/Sample.thy ===== *)
theory Sample
  imports FileTrace Utils Time
begin

text \<open>
  A small concrete volume on which the properties of the other theories are exercised: sectors and
  clusters of 512 bytes, the table in sector 1, eight clusters from sector 2 on, of which the first
  two belong to a contiguous file of 700 bytes and the third to another file.
\<close>

definition sample_sb :: exfat_super_block where
  "sample_sb = (sb_of_bytes (replicate 512 0))
     \<lparr>sb_sector_count := 10, sb_fat_sector_start := 1, sb_fat_sector_count := 1, sb_cluster_sector_start := 2,
      sb_cluster_count := 8, sb_rootdir_cluster := 2, sb_sector_bits := 9, sb_spc_bits := 0, sb_fat_count := 1\<rparr>"

definition sample_dev :: exfat_dev where
  "sample_dev = \<lparr>dev_mode = EXFAT_MODE_RW, dev_size = 5120, dev_pos = 0, dev_data = (\<lambda>_. 7),
     dev_bad_read = (\<lambda>_ _. False), dev_bad_write = (\<lambda>_ _. False), dev_sync_ok = True\<rparr>"

definition sample_host :: host where
  "sample_host = \<lparr>h_now = 1000000000, h_malloc = (\<lambda>_. True), h_garbage = (\<lambda>_. 0xa5), h_timezone = 0,
     h_stdin = [], h_euid = 0, h_egid = 0\<rparr>"

definition sample_ef :: exfat where
  "sample_ef = \<lparr>ef_dev = sample_dev, ef_sb = sample_sb, ef_upcase = Some id, ef_root = 0,
     ef_nodes = (\<lambda>_. None), ef_fresh = 1,
     ef_cmap = \<lparr>cm_start_cluster = 9, cm_size = 8, cm_chunk = [7], cm_chunk_size = 8, cm_dirty = False\<rparr>,
     ef_label = [], ef_zero_cluster = replicate 512 0, ef_dmask = 0, ef_fmask = 0, ef_uid = 0, ef_gid = 0,
     ef_ro = 0, ef_noatime = False, ef_repair = EXFAT_REPAIR_NO, ef_errors_fixed = 0, ef_host = sample_host\<rparr>"

definition sample_node :: exfat_node where
  "sample_node = zero_node\<lparr>n_references := 1, n_fptr_cluster := 2, n_start_cluster := 2, n_is_contiguous := True,
     n_valid_size := 600, n_size := 700\<rparr>"

definition sample_other :: exfat_node where
  "sample_other = zero_node\<lparr>n_references := 1, n_fptr_cluster := 4, n_start_cluster := 4, n_is_contiguous := True,
     n_valid_size := 100, n_size := 100\<rparr>"

definition sample_empty :: exfat_node where
  "sample_empty = zero_node\<lparr>n_references := 1\<rparr>"

lemmas sample_defs = sample_sb_def sample_dev_def sample_ef_def sample_node_def sample_empty_def zero_node_def

lemma sample_fields [simp]:
  "ef_sb sample_ef = sample_sb" "ef_dev sample_ef = sample_dev" "ef_zero_cluster sample_ef = replicate 512 0"
  "sb_cluster_count sample_sb = 8" "sb_sector_bits sample_sb = 9" "sb_spc_bits sample_sb = 0"
  "sb_fat_sector_start sample_sb = 1" "sb_cluster_sector_start sample_sb = 2"
  by (simp_all add: sample_ef_def sample_sb_def)

lemma sample_cluster_size [simp]: "CLUSTER_SIZE sample_sb = 512" "SECTOR_SIZE sample_sb = 512"
  by (simp_all add: CLUSTER_SIZE_def SECTOR_SIZE_def)

lemma sample_valid: "valid sample_ef c \<longleftrightarrow> 2 \<le> unat c \<and> unat c < 10"
  unfolding valid_unat by auto

lemma sample_range: "valid sample_ef c \<Longrightarrow> 2 \<le> uint c \<and> uint c < 10"
proof -
  assume "valid sample_ef c"
  then have "int 2 \<le> int (unat c) \<and> int (unat c) < int 10" unfolding sample_valid by linarith
  then show ?thesis by (simp only: of_nat_unat of_nat_numeral)
qed

lemma sample_fat_offset: "fat_offset sample_ef c = 512 + uint c * 4"
  by (simp add: fat_offset_def s2o_def)

lemma sample_vol_ok: "vol_ok sample_ef"
proof -
  have "dev_readable sample_dev 4 (nat (fat_offset sample_ef c))" if "valid sample_ef c" for c
    using sample_range [OF that] by (simp add: sample_fat_offset sample_dev_def dev_readable_def)
  then show ?thesis by (simp add: vol_ok_def) (simp add: sample_ef_def)
qed

lemma sample_writable: "writable sample_ef"
  by (simp add: writable_def sample_dev_def)

lemma sample_mounted: "mounted sample_ef"
proof -
  have "fat_offset sample_ef c + 4 \<le> int (cluster_off sample_ef 2)" if "valid sample_ef c" for c
    using sample_range [OF that] by (simp add: sample_fat_offset cluster_off_def)
  moreover have "int (cluster_off sample_ef c + 512) \<le> dev_size sample_dev" if "valid sample_ef c" for c
  proof -
    have "cluster_off sample_ef c + 512 \<le> 5120"
      using that unfolding sample_valid by (auto simp: cluster_off_def)
    then show ?thesis by (simp add: sample_dev_def)
  qed
  ultimately show ?thesis using sample_vol_ok by (simp add: mounted_def geometry_ok_def)
qed

lemma sample_alloc: "alloc sample_ef c \<longleftrightarrow> bit (7 :: bitmap_t) ((unat c - 2) mod 64)" if "unat c < 10"
proof -
  have "(unat c - 2) div 64 = 0" using that by simp
  then show ?thesis by (simp add: alloc_def bmap_def sample_ef_def)
qed

lemma sample_owns: "owns sample_ef sample_node [2, 3]"
proof -
  have "valid sample_ef 2" "valid sample_ef 3" unfolding sample_valid by simp_all
  then show ?thesis
    by (simp add: owns_def sample_alloc fptr_ok_def succ_of_def sample_node_def zero_node_def bit_0)
qed

lemma sample_owns_other: "owns sample_ef sample_other [4]"
proof -
  have "valid sample_ef 4" unfolding sample_valid by simp
  then show ?thesis
    by (simp add: owns_def sample_alloc fptr_ok_def succ_of_def sample_other_def zero_node_def bit_0)
qed

lemma sample_free: "1 \<le> card (free_set sample_ef)"
proof -
  have "valid sample_ef 9" unfolding sample_valid by simp
  then have "9 \<in> free_set sample_ef" by (simp add: free_set_def sample_alloc)
  then show ?thesis using card_gt_0_iff [of "free_set sample_ef"] by auto
qed

lemma sample_owns_empty: "owns sample_ef sample_empty []"
  by (simp add: owns_def fptr_ok_def sample_empty_def zero_node_def cluster_consts)

lemma sample_file_ok: "file_ok sample_ef sample_node [2, 3]"
  using sample_owns by (simp add: file_ok_def DIV_ROUND_UP_def sample_node_def zero_node_def)

section \<open>Instances of the properties of the cluster layer\<close>

theorem grow_file_correct_witness:
  "\<exists>rc ef' node'. grow_file sample_ef sample_node 2 3 = Some (rc, ef', node') \<and>
    (if unat (3 :: u32) \<le> card (free_set sample_ef)
     then rc = 0 \<and> (\<exists>new. length new = unat (3 :: u32) \<and> set new \<subseteq> free_set sample_ef \<and>
            owns ef' node' ([2, 3] @ new) \<and>
            (\<forall>d. valid sample_ef d \<longrightarrow> (alloc ef' d \<longleftrightarrow> alloc sample_ef d \<or> d \<in> set new)))
     else rc = - ENOSPC \<and> owns ef' node' [2, 3] \<and>
       (\<forall>d. valid sample_ef d \<longrightarrow> (alloc ef' d \<longleftrightarrow> alloc sample_ef d)))"
  by (rule grow_file_correct [OF sample_vol_ok sample_writable sample_owns]) simp_all

lemma sample_grow: "\<exists>ef' node'. grow_file sample_ef sample_node 2 1 = Some (0, ef', node')"
  using grow_file_ok [OF sample_vol_ok sample_owns, of 2 1] sample_writable sample_free
  by (auto simp: grow_post_def split: option.splits)

theorem grow_file_frame_witness:
  "owns (fst (snd (the (grow_file sample_ef sample_node 2 1)))) sample_other [4]"
proof -
  obtain ef' node' where g: "grow_file sample_ef sample_node 2 1 = Some (0, ef', node')" using sample_grow by blast
  show ?thesis using grow_file_frame [OF sample_vol_ok sample_owns _ _ sample_owns_other _ g] g by simp
qed

theorem shrink_file_correct_witness:
  "\<exists>rc ef' node'. shrink_file sample_ef sample_node 2 1 = Some (rc, ef', node') \<and>
    (rc = 0 \<or> rc = - EIO) \<and> (writable sample_ef \<longrightarrow> rc = 0) \<and>
    (rc = 0 \<longrightarrow> owns ef' node' [2] \<and>
       (\<forall>d. valid sample_ef d \<longrightarrow> (alloc ef' d \<longleftrightarrow> alloc sample_ef d \<and> d \<notin> {3})))"
  using shrink_file_correct [OF sample_vol_ok sample_owns, of 2 1] by simp

theorem count_free_clusters_witness:
  "exfat_count_free_clusters sample_ef = of_nat (card {c. valid sample_ef c \<and> \<not> alloc sample_ef c})"
  by (rule count_free_clusters_correct [OF sample_vol_ok])

theorem find_bit_and_set_witness: "find_bit_and_set [3] 0 8 = (4, [7])"
  using find_bit_and_set_first_fit [of 8 "[3]" 0]
  by (simp add: bmap_def BMAP_SET_def BMAP_BLOCK_eq BMAP_MASK_def cluster_consts upt_rec bit_0 numeral_2_eq_2)

theorem advance_cluster_witness:
  "\<exists>node'. exfat_advance_cluster sample_ef sample_node 1 = Some (3, node') \<and> owns sample_ef node' [2, 3]"
  using advance_cluster_correct [OF sample_vol_ok sample_owns, of 1] by simp

theorem truncate_correct_witness:
  "\<exists>rc ef' node'. exfat_truncate sample_ef sample_node 1500 True = Some (rc, ef', node') \<and> mounted ef' \<and>
    (rc = 0 \<longrightarrow> (\<exists>cs'. file_ok ef' node' cs' \<and> n_size node' = 1500 \<and>
       n_valid_size node' = (if True then 1500 else min (n_valid_size sample_node) 1500) \<and>
       take (min (length [2, 3 :: u32]) (length cs')) cs' = take (min (length [2, 3 :: u32]) (length cs')) [2, 3] \<and>
       (\<forall>i < unat (1500 :: u64). i < unat (n_valid_size sample_node) \<longrightarrow>
          file_byte ef' cs' i = file_byte sample_ef [2, 3] i) \<and>
       (True \<longrightarrow> (\<forall>i < unat (1500 :: u64). unat (n_valid_size sample_node) \<le> i \<longrightarrow> file_byte ef' cs' i = 0))))"
  by (rule truncate_correct [OF sample_mounted sample_file_ok])
    (simp_all add: sample_node_def zero_node_def DIV_ROUND_UP_def)

section \<open>Instances of the properties of reading and writing\<close>

lemma sample_sizes: "n_references sample_node \<noteq> 0" "n_valid_size sample_node = 600" "n_size sample_node = 700"
  by (simp_all add: sample_node_def zero_node_def)

lemma sample_heap: "heap_readable sample_ef" "heap_writable sample_ef"
  by (simp_all add: heap_readable_def heap_writable_def sample_dev_def)

lemma sample_contents: "contents sample_ef sample_node [2, 3] = replicate 600 7 @ replicate 100 0"
  by (rule nth_equalityI)
    (auto simp: contents_def file_byte_def nth_append sample_node_def zero_node_def sample_dev_def)

theorem pread_correct_witness:
  "\<exists>buf node'. exfat_generic_pread sample_ef sample_node (replicate 20 9) 20 590 = Some (20, buf, node') \<and>
    buf = replicate 10 7 @ replicate 10 0"
  using pread_correct [OF sample_mounted sample_heap(1) sample_file_ok, of 590 20 "replicate 20 9"]
  by (auto simp: sample_contents sample_sizes)

theorem pwrite_correct_witness:
  "\<exists>rc ef' node'. exfat_generic_pwrite sample_ef sample_node [1, 2, 3] 3 500 = Some (rc, ef', node') \<and> rc = 3 \<and>
    (\<exists>cs'. contents ef' node' cs' = replicate 500 7 @ [1, 2, 3] @ replicate 97 7 @ replicate 100 0)"
  using pwrite_correct [OF sample_mounted sample_file_ok, of 500 3 "[1, 2, 3]"] sample_heap(2)
  by (auto simp: sample_contents sample_sizes DIV_ROUND_UP_def put_bytes_def)

theorem write_then_read_witness:
  "\<exists>ef' node' node''. exfat_generic_pwrite sample_ef sample_node [1, 2, 3] 3 500 = Some (3, ef', node') \<and>
    exfat_generic_pread ef' node' [0, 0, 0] 3 500 = Some (3, [1, 2, 3], node'')"
proof -
  obtain ef' node' where w: "exfat_generic_pwrite sample_ef sample_node [1, 2, 3] 3 500 = Some (3, ef', node')"
    using pwrite_refines [OF sample_mounted sample_file_ok, of 500 3 "[1, 2, 3]"] sample_heap(2)
    by (auto simp: DIV_ROUND_UP_def sample_sizes)
  show ?thesis
    using write_then_read [OF sample_mounted sample_heap(1) sample_file_ok, of 500 "[1, 2, 3]" 3 ef' node' "[0, 0, 0]"] w
    by (auto simp: DIV_ROUND_UP_def sample_sizes numeral_3_eq_3)
qed

theorem pwrite_exposes_gap_witness:
  "contents sample_ef sample_node [2, 3] ! 620 = 0 \<and>
    (\<exists>ef' node'. exfat_generic_pwrite sample_ef sample_node [1] 1 650 = Some (1, ef', node') \<and>
      contents ef' node' [2, 3] ! 620 = 7)"
  using pwrite_exposes_gap [OF sample_mounted sample_heap(2) sample_file_ok, of 1 "[1]" 650 620]
  by (auto simp: file_byte_def sample_sizes sample_dev_def)

section \<open>A run on a file\<close>

lemma sample_other_open: "open_file sample_ef sample_other [4]"
  using sample_mounted sample_heap(1) sample_owns_other
  by (simp add: open_file_def file_ok_def sample_other_def zero_node_def DIV_ROUND_UP_def)

lemma sample_other_contents: "contents sample_ef sample_other [4] = replicate 100 7"
  by (rule nth_equalityI) (auto simp: contents_def file_byte_def sample_other_def zero_node_def sample_dev_def)

lemma sample_run: "\<exists>outs ef' node'. file_run sample_ef sample_other [Write 90 [1, 2, 3], Read 89 5] outs ef' node'"
proof -
  have ok: "file_ok sample_ef sample_other [4]" "n_references sample_other \<noteq> 0" "n_size sample_other = 100" "n_valid_size sample_other = 100"
    using sample_other_open by (simp_all add: open_file_def sample_other_def zero_node_def)
  obtain ef1 node1 where w: "exfat_generic_pwrite sample_ef sample_other [1, 2, 3] 3 90 = Some (3, ef1, node1)"
    using pwrite_refines [OF sample_mounted ok(1), of 90 3 "[1, 2, 3]"] sample_heap(2) ok(2-4) by (auto simp: DIV_ROUND_UP_def)
  then have s1: "file_step sample_ef sample_other (Write 90 [1, 2, 3]) [] ef1 node1"
    using file_step.put [of sample_ef sample_other "[1, 2, 3]" 90 3 ef1 node1] by (simp add: numeral_3_eq_3)
  obtain cs1 where o1: "open_file ef1 node1 cs1"
    using step_simulates [OF s1 sample_other_open] by (auto simp: DIV_ROUND_UP_def)
  obtain buf node2 rc where r: "exfat_generic_pread ef1 node1 (replicate 5 0) 5 89 = Some (rc, buf, node2)" "0 \<le> rc"
    using step_read [OF o1, of 89 5 "replicate 5 0"] by auto
  then have "file_step ef1 node1 (Read 89 5) (take (nat rc) buf) ef1 node2"
    using file_step.read [of ef1 node1 "replicate 5 0" 5 89 rc buf node2] by simp
  then show ?thesis using s1 by (blast intro: file_run.intros)
qed

theorem file_runs_refine_witness:
  "\<exists>ef' node'. file_run sample_ef sample_other [Write 90 [1, 2, 3], Read 89 5] [[], [7, 1, 2, 3, 7]] ef' node'"
proof -
  obtain outs ef' node' where run: "file_run sample_ef sample_other [Write 90 [1, 2, 3], Read 89 5] outs ef' node'"
    using sample_run by blast
  have "outs = snd (spec_run (replicate 100 7) [Write 90 [1, 2, 3], Read 89 5])"
    using file_runs_refine [OF run sample_other_open] by (auto simp: DIV_ROUND_UP_def sample_other_contents)
  also have "\<dots> = [[], [7, 1, 2, 3, 7]]" by (simp add: put_bytes_def)
  finally show ?thesis using run by blast
qed

theorem operations_succeed_witness:
  "\<exists>ef' node'. file_run sample_ef sample_other [Read 98 10, Write 90 [1, 2, 3], Read 89 5] [[7, 7], [], [7, 1, 2, 3, 7]] ef' node'"
proof -
  have "unat (n_size sample_other) = 100" by (simp add: sample_other_def)
  moreover have "snd (spec_run (replicate 100 7) [Read 98 10, Write 90 [1, 2, 3], Read 89 5]) = [[7, 7], [], [7, 1, 2, 3, 7]]"
    by (simp add: put_bytes_def numeral_2_eq_2)
  ultimately show ?thesis
    using operations_succeed [OF sample_other_open sample_heap(2), of "[Read 98 10, Write 90 [1, 2, 3], Read 89 5]"]
    by (auto simp: sample_other_contents)
qed

section \<open>Instances of the other properties\<close>

theorem utf16_utf8_roundtrip_witness:
  "\<exists>bs. exfat_utf16_to_utf8 [0x41, 0xe9, 0xd83d, 0xde00] 766 255 = (0, bs @ [0]) \<and> 0 \<notin> set bs \<and>
    exfat_utf8_to_utf16 bs 256 (length bs) = (0, [0x41, 0xe9, 0xd83d, 0xde00, 0])"
  using utf16_utf8_roundtrip [of "[0x41, 0xe9, 0xd83d, 0xde00]" 255 256 766] by simp

theorem timestamp_roundtrip_witness:
  "(case exfat_unix2exfat (- 7200) 1700000001 of (date, time, centisec, tzoffset) \<Rightarrow>
      exfat_exfat2unix 18000 date time centisec tzoffset) = 1700000001"
  by (rule timestamp_roundtrip [where k = 8])
    (simp_all add: representable_def EPOCH_DIFF_SEC_value SEC_IN_DAY_def SEC_IN_HOUR_def SEC_IN_MIN_def)

theorem checksum_detects_change_witness:
  "exfat_calc_checksum [replicate 32 1] 1 = exfat_calc_checksum [replicate 31 1 @ [9]] 1 \<longleftrightarrow> (1 :: u8) = 9"
  by (rule checksum_detects_change [where pre = "replicate 29 1" and post = "[]"])
    (simp_all add: numeral_eq_Suc)

end
