(* ===== verification/Repair.thy ===== *)
theory Repair
  imports FileIO Utils
begin

text \<open>
  The repair hooks of \<^verbatim>\<open>libexfat/repair.c\<close>: the question to the user and the fixes.  The lines that
  \<^verbatim>\<open>fgets\<close> will return are data of the host; the end of the list is the end of the input.
\<close>

section \<open>Model\<close>

definition tolower :: "char \<Rightarrow> char" where
  "tolower c = (let n = of_char c :: nat in if 65 \<le> n \<and> n \<le> 90 then char_of (n + 32) else c)"

definition strcaseeq :: "string \<Rightarrow> string \<Rightarrow> bool" where
  "strcaseeq a b \<longleftrightarrow> map tolower a = map tolower b"

text \<open>The loop asks until a line is an answer.\<close>

primrec ask_loop :: "string list \<Rightarrow> bool \<times> string list" where
  "ask_loop [] = (False, [])"
| "ask_loop (answer # rest) =
     (let yeah = strcaseeq answer [CHR ''Y'', CHR 0x0A]; nope = strcaseeq answer [CHR ''N'', CHR 0x0A]
      in if \<not> yeah \<and> \<not> nope then ask_loop rest else (yeah, rest))"

definition exfat_ask_to_fix :: "exfat \<Rightarrow> bool \<times> exfat" where
  "exfat_ask_to_fix ef =
     (case ef_repair ef of
        EXFAT_REPAIR_NO \<Rightarrow> (False, ef)
      | EXFAT_REPAIR_YES \<Rightarrow> (True, ef)
      | EXFAT_REPAIR_ASK \<Rightarrow>
          (let (yeah, rest) = ask_loop (h_stdin (ef_host ef))
           in (yeah, ef\<lparr>ef_host := (ef_host ef)\<lparr>h_stdin := rest\<rparr>\<rparr>)))"

definition exfat_errors_fixed_bump :: "exfat \<Rightarrow> exfat" where
  "exfat_errors_fixed_bump ef = ef\<lparr>ef_errors_fixed := ef_errors_fixed ef + 1\<rparr>"

text \<open>The sector buffer afterwards is part of the result.\<close>

definition exfat_fix_invalid_vbr_checksum :: "exfat \<Rightarrow> u8 list \<Rightarrow> u32 \<Rightarrow> bool \<times> u8 list \<times> exfat" where
  "exfat_fix_invalid_vbr_checksum ef sector vbr_checksum =
     (let sector_size = SECTOR_SIZE (ef_sb ef);
          sector = fill sector (concat (replicate (sector_size div 4) (le_bytes 4 vbr_checksum)));
          (n, dev) = exfat_pwrite (ef_dev ef) sector sector_size (int (11 * sector_size));
          ef = ef\<lparr>ef_dev := dev\<rparr>
      in if n < 0 then (False, sector, ef) else (True, sector, exfat_errors_fixed_bump ef))"

definition exfat_fix_invalid_node_checksum :: "exfat \<Rightarrow> exfat_node \<Rightarrow> bool \<times> exfat \<times> exfat_node" where
  "exfat_fix_invalid_node_checksum ef node =
     (True, exfat_errors_fixed_bump ef, node\<lparr>n_is_dirty := True\<rparr>)"

definition exfat_fix_unknown_entry :: "exfat \<Rightarrow> addr \<Rightarrow> entry \<Rightarrow> off_t \<Rightarrow> (bool \<times> exfat) option" where
  "exfat_fix_unknown_entry ef dir entry offset =
     do {
       node \<leftarrow> ef_nodes ef dir;
       let deleted = set_entry_type entry (entry_type entry AND NOT EXFAT_ENTRY_VALID);
       (n, ef, node) \<leftarrow> exfat_generic_pwrite ef node deleted ENTRY_SIZE offset;
       let ef = set_node ef dir node;
       if n \<noteq> int ENTRY_SIZE then Some (False, ef) else Some (True, exfat_errors_fixed_bump ef)
     }"

section \<open>The question\<close>

lemma ask_loop_answer:
  "fst (ask_loop ls) \<longleftrightarrow> (\<exists>pre l post. ls = pre @ l # post \<and> strcaseeq l [CHR ''Y'', CHR 0x0A] \<and>
     (\<forall>k \<in> set pre. \<not> strcaseeq k [CHR ''Y'', CHR 0x0A] \<and> \<not> strcaseeq k [CHR ''N'', CHR 0x0A]))"
proof (induction ls)
  case (Cons a ls)
  let ?y = "\<lambda>l. strcaseeq l [CHR ''Y'', CHR 0x0A]" and ?n = "\<lambda>l. strcaseeq l [CHR ''N'', CHR 0x0A]"
  have yn: "?y l \<Longrightarrow> \<not> ?n l" for l by (auto simp: strcaseeq_def tolower_def)
  show ?case
  proof (cases "?y a \<or> ?n a")
    case True
    then show ?thesis
      by (auto simp: Cons_eq_append_conv dest: yn intro: exI [of _ "[]"])
  next
    case False
    then show ?thesis using Cons.IH
      by (auto simp: Cons_eq_append_conv) (metis append_Cons set_ConsD, blast)
  qed
qed simp

end
