(* ===== verification/Node.thy ===== *)
theory Node
  imports Repair Time
begin

text \<open>
  Nodes and directory entries: \<^verbatim>\<open>libexfat/node.c\<close> up to the slots for new entries, and
  \<^verbatim>\<open>exfat_flush_nodes\<close> of \<^verbatim>\<open>libexfat/cluster.c\<close>.  Functions that take a \<^verbatim>\<open>struct exfat_node*\<close> take an
  address of the heap of nodes.  \<open>None\<close> is \<^verbatim>\<open>exfat_bug\<close>, a pointer to no node, or a loop that does not
  end; a negative return value is an error.
\<close>

section \<open>References\<close>

definition exfat_get_node :: "exfat \<Rightarrow> addr \<Rightarrow> exfat option" where
  "exfat_get_node ef a = upd_node ef a (\<lambda>node. node\<lparr>n_references := n_references node + 1\<rparr>)"

definition exfat_put_node :: "exfat \<Rightarrow> addr \<Rightarrow> exfat option" where
  "exfat_put_node ef a =
     do {
       node \<leftarrow> ef_nodes ef a;
       let node = node\<lparr>n_references := n_references node - 1\<rparr>;
       if n_references node < 0 then None
       else if n_references node = 0 \<and> a \<noteq> ef_root ef \<and> n_is_dirty node
       then do { name \<leftarrow> exfat_get_name node; Some (set_node ef a node) }
       else Some (set_node ef a node)
     }"

text \<open>\<^verbatim>\<open>exfat_truncate\<close> on a node of the heap.\<close>

definition truncate_at :: "exfat \<Rightarrow> addr \<Rightarrow> u64 \<Rightarrow> bool \<Rightarrow> (int \<times> exfat) option" where
  "truncate_at ef a sz erase =
     do {
       node \<leftarrow> ef_nodes ef a;
       (rc, ef, node) \<leftarrow> exfat_truncate ef node sz erase;
       Some (rc, set_node ef a node)
     }"

definition exfat_cleanup_node :: "exfat \<Rightarrow> addr \<Rightarrow> (int \<times> exfat) option" where
  "exfat_cleanup_node ef a =
     do {
       node \<leftarrow> ef_nodes ef a;
       if n_references node \<noteq> 0 then None
       else if n_is_unlinked node
       then do { (rc, ef) \<leftarrow> truncate_at ef a 0 True; Some (rc, free_node ef a) }
       else Some (0, ef)
     }"

section \<open>Reading and writing entries\<close>

definition entries_of_bytes :: "nat \<Rightarrow> u8 list \<Rightarrow> entry list" where
  "entries_of_bytes n bs = map (\<lambda>i. seg bs (ENTRY_SIZE * i) ENTRY_SIZE) [0..<n]"

text \<open>The array is uninitialised before the call.\<close>

definition read_entries :: "exfat \<Rightarrow> addr \<Rightarrow> nat \<Rightarrow> off_t \<Rightarrow> (int \<times> entry list \<times> exfat) option" where
  "read_entries ef a n offset =
     do {
       dir \<leftarrow> ef_nodes ef a;
       if \<not> is_dir dir then None
       else do {
         (size, buf, dir) \<leftarrow> exfat_generic_pread ef dir (garbage ef (ENTRY_SIZE * n)) (ENTRY_SIZE * n) offset;
         let entries = entries_of_bytes n buf;
         let ef = set_node ef a dir;
         if size = int (ENTRY_SIZE * n) then Some (0, entries, ef)
         else if size = 0 then Some (- ENOENT, entries, ef)
         else Some (- EIO, entries, ef)
       }
     }"

definition write_entries :: "exfat \<Rightarrow> addr \<Rightarrow> entry list \<Rightarrow> nat \<Rightarrow> off_t \<Rightarrow> (int \<times> exfat) option" where
  "write_entries ef a entries n offset =
     do {
       dir \<leftarrow> ef_nodes ef a;
       if \<not> is_dir dir then None
       else do {
         (size, ef, dir) \<leftarrow> exfat_generic_pwrite ef dir (concat (take n entries)) (ENTRY_SIZE * n) offset;
         let ef = set_node ef a dir;
         if size = int (ENTRY_SIZE * n) then Some (0, ef) else Some (- EIO, ef)
       }
     }"

section \<open>Parsing an entry set\<close>

text \<open>\<^verbatim>\<open>sizeof(struct exfat_node)\<close> on a host with 64-bit pointers.\<close>

definition sizeof_exfat_node :: nat where "sizeof_exfat_node = 608"

definition allocate_node :: "exfat \<Rightarrow> (addr \<times> exfat) option" where
  "allocate_node ef =
     (if \<not> h_malloc (ef_host ef) sizeof_exfat_node then None
      else Some (ef_fresh ef, (set_node ef (ef_fresh ef) zero_node)\<lparr>ef_fresh := ef_fresh ef + 1\<rparr>))"

definition init_node_meta1 :: "int \<Rightarrow> exfat_node \<Rightarrow> exfat_entry_meta1 \<Rightarrow> exfat_node" where
  "init_node_meta1 tz node meta1 =
     node\<lparr>n_attrib := m1_attrib meta1, n_continuations := m1_continuations meta1,
          n_mtime := exfat_exfat2unix tz (m1_mdate meta1) (m1_mtime meta1) (m1_mtime_cs meta1) (m1_mtime_tzo meta1),
          n_atime := exfat_exfat2unix tz (m1_adate meta1) (m1_atime meta1) 0 (m1_atime_tzo meta1)\<rparr>"

definition init_node_meta2 :: "exfat_node \<Rightarrow> exfat_entry_meta2 \<Rightarrow> exfat_node" where
  "init_node_meta2 node meta2 =
     node\<lparr>n_valid_size := m2_valid_size meta2, n_size := m2_size meta2,
          n_start_cluster := m2_start_cluster meta2, n_fptr_cluster := m2_start_cluster meta2,
          n_is_contiguous := (m2_flags meta2 AND EXFAT_FLAG_CONTIGUOUS \<noteq> 0)\<rparr>"

definition overwrite :: "'a list \<Rightarrow> nat \<Rightarrow> 'a list \<Rightarrow> 'a list" where
  "overwrite xs off ys = take off xs @ ys @ drop (off + length ys) xs"

definition init_node_name :: "exfat_node \<Rightarrow> entry list \<Rightarrow> nat \<Rightarrow> exfat_node" where
  "init_node_name node entries n =
     node\<lparr>n_name := foldl (\<lambda>name i. overwrite name (i * EXFAT_ENAME_MAX) (en_name (name_of_bytes (entries ! i))))
                    (n_name node) [0..<n]\<rparr>"

text \<open>\<open>None\<close> is \<^verbatim>\<open>EXFAT_ENTRY_NONE\<close>, before the first and after the last entry.\<close>

definition valid_transition :: "u8 option \<Rightarrow> u8 option \<Rightarrow> bool" where
  "valid_transition previous current =
     (case previous of
        None \<Rightarrow> current = Some EXFAT_ENTRY_FILE
      | Some p \<Rightarrow>
          if p = EXFAT_ENTRY_FILE then current = Some EXFAT_ENTRY_FILE_INFO
          else if p = EXFAT_ENTRY_FILE_INFO then current = Some EXFAT_ENTRY_FILE_NAME
          else if p = EXFAT_ENTRY_FILE_NAME
          then (case current of None \<Rightarrow> True | Some c \<Rightarrow> c = EXFAT_ENTRY_FILE_NAME \<or> EXFAT_ENTRY_FILE_TAIL \<le> c)
          else if EXFAT_ENTRY_FILE_TAIL \<le> p
          then (case current of None \<Rightarrow> True | Some c \<Rightarrow> EXFAT_ENTRY_FILE_TAIL \<le> c)
          else False)"

primrec check_types :: "u8 option \<Rightarrow> u8 list \<Rightarrow> bool" where
  "check_types previous [] \<longleftrightarrow> valid_transition previous None"
| "check_types previous (current # rest) \<longleftrightarrow>
     valid_transition previous (Some current) \<and> check_types (Some current) rest"

definition check_entries :: "entry list \<Rightarrow> nat \<Rightarrow> bool" where
  "check_entries entries n = check_types None (map entry_type (take n entries))"

text \<open>
  Each test of \<^verbatim>\<open>check_node\<close> that fails prints the name, which may itself end in \<^verbatim>\<open>exfat_bug\<close>, and clears
  \<^verbatim>\<open>ret\<close>.
\<close>

definition report :: "exfat_node \<Rightarrow> bool \<Rightarrow> bool \<Rightarrow> bool option" where
  "report node bad ret = (if bad then do { name \<leftarrow> exfat_get_name node; Some False } else Some ret)"

definition check_checksum ::
    "exfat \<Rightarrow> exfat_node \<Rightarrow> u16 \<Rightarrow> exfat_entry_meta1 \<Rightarrow> (bool \<times> exfat \<times> exfat_node) option" where
  "check_checksum ef node actual_checksum meta1 =
     (if actual_checksum \<noteq> m1_checksum meta1
      then do {
        name \<leftarrow> exfat_get_name node;
        let (yes, ef) = exfat_ask_to_fix ef
        in if yes then Some (exfat_fix_invalid_node_checksum ef node) else Some (False, ef, node)
      }
      else Some (True, ef, node))"

definition check_node ::
    "exfat \<Rightarrow> exfat_node \<Rightarrow> u16 \<Rightarrow> exfat_entry_meta1 \<Rightarrow> (bool \<times> exfat \<times> exfat_node) option" where
  "check_node ef node actual_checksum meta1 =
     do {
       let cluster_size = (of_nat (CLUSTER_SIZE (ef_sb ef)) :: u64);
       let clusters_heap_size = ucast (sb_cluster_count (ef_sb ef)) * cluster_size;
       (ret, ef, node) \<leftarrow> check_checksum ef node actual_checksum meta1;
       ret \<leftarrow> report node (n_size node < n_valid_size node) ret;
       ret \<leftarrow> report node (n_size node = 0 \<and> n_start_cluster node \<noteq> EXFAT_CLUSTER_FREE) ret;
       ret \<leftarrow> report node (0 < n_size node \<and> CLUSTER_INVALID (ef_sb ef) (n_start_cluster node)) ret;
       ret \<leftarrow> report node (clusters_heap_size < n_size node) ret;
       ret \<leftarrow> report node (n_size node = 0 \<and> n_is_contiguous node) ret;
       ret \<leftarrow> report node (is_dir node \<and> n_size node mod cluster_size \<noteq> 0) ret;
       Some (ret, ef, node)
     }"

definition parse_file_entries ::
    "exfat \<Rightarrow> exfat_node \<Rightarrow> entry list \<Rightarrow> nat \<Rightarrow> (int \<times> exfat \<times> exfat_node) option" where
  "parse_file_entries ef node entries n =
     (if \<not> check_entries entries n then Some (- EIO, ef, node)
      else
        let meta1 = meta1_of_bytes (entries ! 0);
            meta2 = meta2_of_bytes (entries ! 1);
            mandatory_entries = 2 + DIV_ROUND_UP (unat (m2_name_length meta2)) EXFAT_ENAME_MAX
        in if m1_continuations meta1 < 2 then Some (- EIO, ef, node)
           else if m2_flags meta2 AND NOT (EXFAT_FLAG_ALWAYS1 OR EXFAT_FLAG_CONTIGUOUS) \<noteq> 0 then Some (- EIO, ef, node)
           else if unat (m1_continuations meta1) < mandatory_entries - 1 then Some (- EIO, ef, node)
           else do {
             let node = init_node_meta1 (h_timezone (ef_host ef)) node meta1;
             let node = init_node_meta2 node meta2;
             let node = init_node_name node (drop 2 entries) (mandatory_entries - 2);
             (ok, ef, node) \<leftarrow> check_node ef node (exfat_calc_checksum entries n) meta1;
             if ok then Some (0, ef, node) else Some (- EIO, ef, node)
           })"

definition parse_file_entry ::
    "exfat \<Rightarrow> addr \<Rightarrow> off_t \<Rightarrow> nat \<Rightarrow> (int \<times> addr option \<times> off_t \<times> exfat) option" where
  "parse_file_entry ef parent offset n =
     do {
       (rc, entries, ef) \<leftarrow> read_entries ef parent n offset;
       if rc \<noteq> 0 then Some (rc, None, offset, ef)
       else case allocate_node ef of
         None \<Rightarrow> Some (- ENOMEM, None, offset, ef)
       | Some (a, ef) \<Rightarrow> do {
           node \<leftarrow> ef_nodes ef a;
           (rc, ef, node) \<leftarrow> parse_file_entries ef (node\<lparr>n_entry_offset := offset\<rparr>) entries n;
           if rc \<noteq> 0 then Some (rc, None, offset, free_node ef a)
           else Some (0, Some a, offset + int (ENTRY_SIZE * n), set_node ef a node)
         }
     }"

section \<open>Reading a directory\<close>

text \<open>The compressed table: 0xffff announces a run of characters that map to themselves.\<close>

fun decompress_loop :: "(u16 \<Rightarrow> u16) \<Rightarrow> nat \<Rightarrow> u16 list \<Rightarrow> u16 \<Rightarrow> u16" where
  "decompress_loop output oi [] = output"
| "decompress_loop output oi [ch] = (if oi < EXFAT_UPCASE_CHARS then output(of_nat oi := ch) else output)"
| "decompress_loop output oi (ch # run # source) =
     (if oi < EXFAT_UPCASE_CHARS
      then if ch = 0xffff then decompress_loop output (oi + unat run) source
           else decompress_loop (output(of_nat oi := ch)) (oi + 1) (run # source)
      else output)"

definition decompress_upcase :: "u16 list \<Rightarrow> nat \<Rightarrow> u16 \<Rightarrow> u16" where
  "decompress_upcase source n = decompress_loop (\<lambda>c. c) 0 (take n source)"

text \<open>The branches of the switch in \<^verbatim>\<open>readdir\<close>; the return value 0 is the \<^verbatim>\<open>break\<close>.\<close>

definition readdir_upcase :: "exfat \<Rightarrow> entry \<Rightarrow> (int \<times> exfat) option" where
  "readdir_upcase ef entry =
     (if ef_upcase ef \<noteq> None then Some (0, ef)
      else
        let upcase = upcase_of_bytes entry;
            upcase_size = eu_size upcase
        in if CLUSTER_INVALID (ef_sb ef) (eu_start_cluster upcase) then Some (- EIO, ef)
           else if upcase_size = 0 \<or> of_nat EXFAT_UPCASE_CHARS * 2 < upcase_size \<or> upcase_size mod 2 \<noteq> 0
           then Some (- EIO, ef)
           else if \<not> h_malloc (ef_host ef) (unat upcase_size) then Some (- ENOMEM, ef)
           else do {
             offset \<leftarrow> exfat_c2o ef (eu_start_cluster upcase);
             let (n, upcase_comp) = exfat_pread (ef_dev ef) (garbage ef (unat upcase_size)) (unat upcase_size) offset
             in if n < 0 then Some (- EIO, ef)
                else if \<not> h_malloc (ef_host ef) (EXFAT_UPCASE_CHARS * 2) then Some (- ENOMEM, ef)
                else Some (0, ef\<lparr>ef_upcase := Some (decompress_upcase
                       (names_of_bytes (unat upcase_size div 2) upcase_comp) (unat upcase_size div 2))\<rparr>)
           })"

definition readdir_bitmap :: "exfat \<Rightarrow> entry \<Rightarrow> (int \<times> exfat) option" where
  "readdir_bitmap ef entry =
     (let bitmap = bitmap_of_bytes entry;
          ef = ef\<lparr>ef_cmap := (ef_cmap ef)\<lparr>cm_start_cluster := eb_start_cluster bitmap\<rparr>\<rparr>
      in if CLUSTER_INVALID (ef_sb ef) (cm_start_cluster (ef_cmap ef)) then Some (- EIO, ef)
         else
           let ef = ef\<lparr>ef_cmap := (ef_cmap ef)\<lparr>cm_size := sb_cluster_count (ef_sb ef)\<rparr>\<rparr>
           in if eb_size bitmap < ucast (DIV_ROUND_UP (cm_size (ef_cmap ef)) 8) then Some (- EIO, ef)
              else
                let ef = ef\<lparr>ef_cmap := (ef_cmap ef)\<lparr>cm_chunk_size := cm_size (ef_cmap ef)\<rparr>\<rparr>;
                    bytes = BMAP_SIZE (unat (cm_chunk_size (ef_cmap ef)))
                in if \<not> h_malloc (ef_host ef) bytes
                   then Some (- ENOMEM, ef\<lparr>ef_cmap := (ef_cmap ef)\<lparr>cm_chunk := []\<rparr>\<rparr>)
                   else do {
                     offset \<leftarrow> exfat_c2o ef (cm_start_cluster (ef_cmap ef));
                     let (n, buf) = exfat_pread (ef_dev ef) (garbage ef bytes) bytes offset;
                         ef = ef\<lparr>ef_cmap := (ef_cmap ef)\<lparr>cm_chunk := words_of_bytes (bytes div 8) buf\<rparr>\<rparr>
                     in if n < 0 then Some (- EIO, ef) else Some (0, ef)
                   })"

definition readdir_label :: "exfat \<Rightarrow> entry \<Rightarrow> int \<times> exfat" where
  "readdir_label ef entry =
     (let label = label_of_bytes entry
      in if EXFAT_ENAME_MAX < unat (el_length label) then (- EIO, ef)
         else let (rc, out) = exfat_utf16_to_utf8 (el_name label) EXFAT_UTF8_ENAME_BUFFER_MAX EXFAT_ENAME_MAX;
                  ef = ef\<lparr>ef_label := fill (ef_label ef) out\<rparr>
              in if rc \<noteq> 0 then (- EIO, ef) else (0, ef))"

definition readdir_other :: "exfat \<Rightarrow> addr \<Rightarrow> entry \<Rightarrow> off_t \<Rightarrow> (int \<times> exfat) option" where
  "readdir_other ef parent entry offset =
     (if entry_type entry AND EXFAT_ENTRY_VALID = 0 then Some (0, ef)
      else let (yes, ef) = exfat_ask_to_fix ef
           in if \<not> yes then Some (- EIO, ef)
              else do {
                (fixed, ef) \<leftarrow> exfat_fix_unknown_entry ef parent entry offset;
                if fixed then Some (0, ef) else Some (- EIO, ef)
              })"

definition readdir_entry :: "exfat \<Rightarrow> addr \<Rightarrow> entry \<Rightarrow> off_t \<Rightarrow> (int \<times> exfat) option" where
  "readdir_entry ef parent entry offset =
     (if entry_type entry = EXFAT_ENTRY_UPCASE then readdir_upcase ef entry
      else if entry_type entry = EXFAT_ENTRY_BITMAP then readdir_bitmap ef entry
      else if entry_type entry = EXFAT_ENTRY_LABEL then Some (readdir_label ef entry)
      else readdir_other ef parent entry offset)"

text \<open>The result is the return value, the new node, the new offset and the volume.\<close>

partial_function (option) readdir :: "exfat \<Rightarrow> addr \<Rightarrow> off_t \<Rightarrow> (int \<times> addr option \<times> off_t \<times> exfat) option" where
  "readdir ef parent offset =
     do {
       (rc, entries, ef) \<leftarrow> read_entries ef parent 1 offset;
       if rc \<noteq> 0 then Some (rc, None, offset, ef)
       else let entry = entries ! 0
            in if entry_type entry = EXFAT_ENTRY_FILE
               then parse_file_entry ef parent offset (1 + unat (m1_continuations (meta1_of_bytes entry)))
               else do {
                 (rc, ef) \<leftarrow> readdir_entry ef parent entry offset;
                 if rc \<noteq> 0 then Some (rc, None, offset, ef)
                 else readdir ef parent (offset + int ENTRY_SIZE)
               }
     }"

definition cache_link :: "exfat \<Rightarrow> addr \<Rightarrow> addr option \<Rightarrow> addr \<Rightarrow> exfat option" where
  "cache_link ef dir current node =
     do {
       ef \<leftarrow> upd_node ef node (\<lambda>n. n\<lparr>n_parent := Some dir\<rparr>);
       (case current of
          Some c \<Rightarrow> do { ef \<leftarrow> upd_node ef c (\<lambda>n. n\<lparr>n_next := Some node\<rparr>);
                         upd_node ef node (\<lambda>n. n\<lparr>n_prev := Some c\<rparr>) }
        | None \<Rightarrow> upd_node ef dir (\<lambda>n. n\<lparr>n_child := Some node\<rparr>))
     }"

partial_function (option) cache_loop :: "exfat \<Rightarrow> addr \<Rightarrow> off_t \<Rightarrow> addr option \<Rightarrow> (int \<times> exfat) option" where
  "cache_loop ef dir offset current =
     do {
       (rc, node, offset, ef) \<leftarrow> readdir ef dir offset;
       if rc \<noteq> 0 then Some (rc, ef)
       else do {
         a \<leftarrow> node;
         ef \<leftarrow> cache_link ef dir current a;
         cache_loop ef dir offset (Some a)
       }
     }"

partial_function (option) rollback_loop :: "exfat \<Rightarrow> addr option \<Rightarrow> exfat option" where
  "rollback_loop ef current =
     (case current of
        None \<Rightarrow> Some ef
      | Some c \<Rightarrow> do { n \<leftarrow> ef_nodes ef c; rollback_loop (free_node ef c) (n_next n) })"

definition exfat_cache_directory :: "exfat \<Rightarrow> addr \<Rightarrow> (int \<times> exfat) option" where
  "exfat_cache_directory ef a =
     do {
       dir \<leftarrow> ef_nodes ef a;
       if n_is_cached dir then Some (0, ef)
       else do {
         (rc, ef) \<leftarrow> cache_loop ef a 0 None;
         if rc \<noteq> - ENOENT
         then do {
           dir \<leftarrow> ef_nodes ef a;
           ef \<leftarrow> rollback_loop ef (n_child dir);
           ef \<leftarrow> upd_node ef a (\<lambda>n. n\<lparr>n_child := None\<rparr>);
           Some (rc, ef)
         }
         else do { ef \<leftarrow> upd_node ef a (\<lambda>n. n\<lparr>n_is_cached := True\<rparr>); Some (0, ef) }
       }
     }"

end
