(* ===== verification/Directory.thy ===== *)
theory Directory
  imports Node
begin

text \<open>
  Operations on the directory tree and on the entries of a directory: the links between nodes, writing
  nodes back, removing entries and finding room for new ones (\<^verbatim>\<open>libexfat/node.c\<close>), and
  \<^verbatim>\<open>exfat_flush_nodes\<close> of \<^verbatim>\<open>libexfat/cluster.c\<close>.
\<close>

section \<open>Links\<close>

definition tree_attach :: "exfat \<Rightarrow> addr \<Rightarrow> addr \<Rightarrow> exfat option" where
  "tree_attach ef dir node =
     do {
       ef \<leftarrow> upd_node ef node (\<lambda>n. n\<lparr>n_parent := Some dir\<rparr>);
       d \<leftarrow> ef_nodes ef dir;
       ef \<leftarrow> (case n_child d of
                Some c \<Rightarrow> do { ef \<leftarrow> upd_node ef c (\<lambda>n. n\<lparr>n_prev := Some node\<rparr>);
                               upd_node ef node (\<lambda>n. n\<lparr>n_next := Some c\<rparr>) }
              | None \<Rightarrow> Some ef);
       upd_node ef dir (\<lambda>n. n\<lparr>n_child := Some node\<rparr>)
     }"

definition tree_detach :: "exfat \<Rightarrow> addr \<Rightarrow> exfat option" where
  "tree_detach ef a =
     do {
       node \<leftarrow> ef_nodes ef a;
       ef \<leftarrow> (case n_prev node of
                Some p \<Rightarrow> upd_node ef p (\<lambda>n. n\<lparr>n_next := n_next node\<rparr>)
              | None \<Rightarrow> do { p \<leftarrow> n_parent node; upd_node ef p (\<lambda>n. n\<lparr>n_child := n_next node\<rparr>) });
       ef \<leftarrow> (case n_next node of
                Some q \<Rightarrow> upd_node ef q (\<lambda>n. n\<lparr>n_prev := n_prev node\<rparr>)
              | None \<Rightarrow> Some ef);
       upd_node ef a (\<lambda>n. n\<lparr>n_parent := None, n_prev := None, n_next := None\<rparr>)
     }"

text \<open>\<^verbatim>\<open>while (node->references) exfat_put_node(ef, node)\<close>\<close>

primrec put_times :: "nat \<Rightarrow> exfat \<Rightarrow> addr \<Rightarrow> exfat option" where
  "put_times 0 ef a = Some ef"
| "put_times (Suc n) ef a = do { ef \<leftarrow> exfat_put_node ef a; put_times n ef a }"

definition reset_node :: "exfat \<Rightarrow> addr \<Rightarrow> exfat option" where
  "reset_node ef a =
     do {
       ef \<leftarrow> upd_node ef a (\<lambda>n. n\<lparr>n_is_cached := False\<rparr>);
       node \<leftarrow> ef_nodes ef a;
       name \<leftarrow> (if n_references node \<noteq> 0 then exfat_get_name node else Some []);
       if a \<noteq> ef_root ef \<and> n_is_dirty node then None
       else if n_references node < 0 then None
       else put_times (nat (n_references node)) ef a
     }"

text \<open>
  The loop over the children removes the first child as long as there is one, so the recursion goes to
  the first child and then to the same node again.
\<close>

partial_function (option) reset_cache :: "exfat \<Rightarrow> addr \<Rightarrow> exfat option" where
  "reset_cache ef a =
     do {
       node \<leftarrow> ef_nodes ef a;
       (case n_child node of
          Some p \<Rightarrow> do {
            ef \<leftarrow> reset_cache ef p;
            ef \<leftarrow> tree_detach ef p;
            reset_cache (free_node ef p) a
          }
        | None \<Rightarrow> reset_node ef a)
     }"

definition exfat_reset_cache :: "exfat \<Rightarrow> exfat option" where
  "exfat_reset_cache ef = reset_cache ef (ef_root ef)"

section \<open>Writing a node back\<close>

definition flush_meta1 :: "int \<Rightarrow> exfat_node \<Rightarrow> exfat_entry_meta1 \<Rightarrow> exfat_entry_meta1" where
  "flush_meta1 tz node meta1 =
     (let (mdate, mtime, mtime_cs, mtime_tzo) = exfat_unix2exfat tz (n_mtime node);
          (adate, atime, _, atime_tzo) = exfat_unix2exfat tz (n_atime node)
      in meta1\<lparr>m1_attrib := n_attrib node, m1_mtime_cs := mtime_cs, m1_mtime_tzo := mtime_tzo,
              m1_mdate := mdate, m1_mtime := mtime, m1_atime_tzo := atime_tzo, m1_adate := adate,
              m1_atime := atime\<rparr>)"

definition flush_meta2 :: "exfat_node \<Rightarrow> exfat_entry_meta2 \<Rightarrow> exfat_entry_meta2" where
  "flush_meta2 node meta2 =
     meta2\<lparr>m2_valid_size := n_valid_size node, m2_size := n_size node, m2_start_cluster := n_start_cluster node,
           m2_flags := (if n_size node \<noteq> 0 \<and> n_is_contiguous node
                        then EXFAT_FLAG_ALWAYS1 OR EXFAT_FLAG_CONTIGUOUS else EXFAT_FLAG_ALWAYS1)\<rparr>"

definition flush_entries :: "int \<Rightarrow> exfat_node \<Rightarrow> entry list \<Rightarrow> entry list" where
  "flush_entries tz node entries =
     (let n = 1 + unat (n_continuations node);
          meta1 = flush_meta1 tz node (meta1_of_bytes (entries ! 0));
          meta2 = flush_meta2 node (meta2_of_bytes (entries ! 1));
          entries = bytes_of_meta1 meta1 # bytes_of_meta2 meta2 # drop 2 entries
      in bytes_of_meta1 (meta1\<lparr>m1_checksum := exfat_calc_checksum entries n\<rparr>) # drop 1 entries)"

definition exfat_flush_node :: "exfat \<Rightarrow> addr \<Rightarrow> (int \<times> exfat) option" where
  "exfat_flush_node ef a =
     do {
       node \<leftarrow> ef_nodes ef a;
       let n = 1 + unat (n_continuations node);
       if \<not> n_is_dirty node then Some (0, ef)
       else if ef_ro ef \<noteq> 0 then None
       else case n_parent node of
         None \<Rightarrow> Some (0, ef)
       | Some parent \<Rightarrow> do {
           (rc, entries, ef) \<leftarrow> read_entries ef parent n (n_entry_offset node);
           if rc \<noteq> 0 then Some (rc, ef)
           else if \<not> check_entries entries n then Some (- EIO, ef)
           else do {
             let entries = flush_entries (h_timezone (ef_host ef)) node entries;
             (rc, ef) \<leftarrow> write_entries ef parent entries n (n_entry_offset node);
             if rc \<noteq> 0 then Some (rc, ef)
             else do {
               ef \<leftarrow> upd_node ef a (\<lambda>n. n\<lparr>n_is_dirty := False\<rparr>);
               exfat_flush ef
             }
           }
         }
     }"

text \<open>\<open>flush_walk ef a p\<close> is the loop of \<^verbatim>\<open>flush_nodes\<close> for node \<open>a\<close> at child \<open>p\<close> and what follows it.\<close>

partial_function (option) flush_walk :: "exfat \<Rightarrow> addr \<Rightarrow> addr option \<Rightarrow> (int \<times> exfat) option" where
  "flush_walk ef a p =
     (case p of
        None \<Rightarrow> exfat_flush_node ef a
      | Some q \<Rightarrow> do {
          node \<leftarrow> ef_nodes ef q;
          (rc, ef) \<leftarrow> flush_walk ef q (n_child node);
          if rc \<noteq> 0 then Some (rc, ef)
          else do { node \<leftarrow> ef_nodes ef q; flush_walk ef a (n_next node) }
        })"

definition flush_nodes :: "exfat \<Rightarrow> addr \<Rightarrow> (int \<times> exfat) option" where
  "flush_nodes ef a = do { node \<leftarrow> ef_nodes ef a; flush_walk ef a (n_child node) }"

definition exfat_flush_nodes :: "exfat \<Rightarrow> (int \<times> exfat) option" where
  "exfat_flush_nodes ef = flush_nodes ef (ef_root ef)"

section \<open>Removing\<close>

definition erase_entries :: "exfat \<Rightarrow> addr \<Rightarrow> nat \<Rightarrow> off_t \<Rightarrow> (int \<times> exfat) option" where
  "erase_entries ef dir n offset =
     do {
       (rc, entries, ef) \<leftarrow> read_entries ef dir n offset;
       if rc \<noteq> 0 then Some (rc, ef)
       else write_entries ef dir
              (map (\<lambda>e. set_entry_type e (entry_type e AND NOT EXFAT_ENTRY_VALID)) entries) n offset
     }"

definition erase_node :: "exfat \<Rightarrow> addr \<Rightarrow> (int \<times> exfat) option" where
  "erase_node ef a =
     do {
       node \<leftarrow> ef_nodes ef a;
       parent \<leftarrow> n_parent node;
       ef \<leftarrow> exfat_get_node ef parent;
       (rc, ef) \<leftarrow> erase_entries ef parent (1 + unat (n_continuations node)) (n_entry_offset node);
       if rc \<noteq> 0 then do { ef \<leftarrow> exfat_put_node ef parent; Some (rc, ef) }
       else do {
         (rc, ef) \<leftarrow> exfat_flush_node ef parent;
         ef \<leftarrow> exfat_put_node ef parent;
         Some (rc, ef)
       }
     }"

text \<open>The scan for the last node; the inner \<open>None\<close> is the early return, and a directory without children has no last node.\<close>

partial_function (option) last_node_loop ::
    "exfat \<Rightarrow> off_t \<Rightarrow> addr option \<Rightarrow> addr option \<Rightarrow> addr option option option" where
  "last_node_loop ef deleted_offset p last_node =
     (case p of
        None \<Rightarrow> Some (Some last_node)
      | Some a \<Rightarrow> do {
          node \<leftarrow> ef_nodes ef a;
          if deleted_offset < n_entry_offset node then Some None
          else do {
            l \<leftarrow> last_node;
            last \<leftarrow> ef_nodes ef l;
            last_node_loop ef deleted_offset (n_next node)
              (if n_entry_offset last < n_entry_offset node then Some a else last_node)
          }
        })"

definition shrink_entries :: "exfat_node \<Rightarrow> u64" where
  "shrink_entries last_node =
     word_of_int (n_entry_offset last_node) div 32 + 2 +
     of_nat (DIV_ROUND_UP (exfat_utf16_length (n_name last_node)) EXFAT_ENAME_MAX)"

definition shrink_directory :: "exfat \<Rightarrow> addr \<Rightarrow> off_t \<Rightarrow> (int \<times> exfat) option" where
  "shrink_directory ef a deleted_offset =
     do {
       dir \<leftarrow> ef_nodes ef a;
       if \<not> is_dir dir then None
       else if \<not> n_is_cached dir then None
       else do {
         scan \<leftarrow> last_node_loop ef deleted_offset (n_child dir) (n_child dir);
         (case scan of
            None \<Rightarrow> Some (0, ef)
          | Some last_node \<Rightarrow> do {
              entries \<leftarrow> (case last_node of
                            None \<Rightarrow> Some (0 :: u64)
                          | Some l \<Rightarrow> do { node \<leftarrow> ef_nodes ef l; Some (shrink_entries node) });
              let cluster_size = (of_nat (CLUSTER_SIZE (ef_sb ef)) :: u64);
              let new_size = DIV_ROUND_UP (entries * 32) cluster_size * cluster_size;
              let new_size = (if new_size = 0 then cluster_size else new_size);
              if new_size = n_size dir then Some (0, ef) else truncate_at ef a new_size True
            })
       }
     }"

definition delete :: "exfat \<Rightarrow> addr \<Rightarrow> (int \<times> exfat) option" where
  "delete ef a =
     do {
       node \<leftarrow> ef_nodes ef a;
       let deleted_offset = n_entry_offset node;
       parent \<leftarrow> n_parent node;
       ef \<leftarrow> exfat_get_node ef parent;
       (rc, ef) \<leftarrow> erase_node ef a;
       if rc \<noteq> 0 then do { ef \<leftarrow> exfat_put_node ef parent; Some (rc, ef) }
       else do {
         ef \<leftarrow> tree_detach ef a;
         (rc, ef) \<leftarrow> shrink_directory ef parent deleted_offset;
         ef \<leftarrow> upd_node ef a (\<lambda>n. n\<lparr>n_is_unlinked := True\<rparr>);
         if rc \<noteq> 0
         then do {
           (rc', ef) \<leftarrow> exfat_flush_node ef parent;
           ef \<leftarrow> exfat_put_node ef parent;
           Some (rc, ef)
         }
         else do {
           ef \<leftarrow> upd_node ef parent (exfat_update_mtime ef);
           (rc, ef) \<leftarrow> exfat_flush_node ef parent;
           ef \<leftarrow> exfat_put_node ef parent;
           Some (rc, ef)
         }
       }
     }"

definition exfat_unlink :: "exfat \<Rightarrow> addr \<Rightarrow> (int \<times> exfat) option" where
  "exfat_unlink ef a =
     do { node \<leftarrow> ef_nodes ef a; if is_dir node then Some (- EISDIR, ef) else delete ef a }"

definition exfat_rmdir :: "exfat \<Rightarrow> addr \<Rightarrow> (int \<times> exfat) option" where
  "exfat_rmdir ef a =
     do {
       node \<leftarrow> ef_nodes ef a;
       if \<not> is_dir node then Some (- ENOTDIR, ef)
       else do {
         (rc, ef) \<leftarrow> exfat_cache_directory ef a;
         if rc \<noteq> 0 then Some (rc, ef)
         else do {
           node \<leftarrow> ef_nodes ef a;
           if n_child node \<noteq> None then Some (- ENOTEMPTY, ef) else delete ef a
         }
       }
     }"

section \<open>Room for a new entry\<close>

definition check_slot :: "exfat \<Rightarrow> addr \<Rightarrow> off_t \<Rightarrow> nat \<Rightarrow> (int \<times> exfat) option" where
  "check_slot ef dir offset n =
     (if dir \<noteq> ef_root ef then Some (0, ef)
      else do {
        (rc, entries, ef) \<leftarrow> read_entries ef dir n offset;
        if rc \<noteq> 0 then Some (rc, ef)
        else if \<exists>e \<in> set entries. entry_type e AND EXFAT_ENTRY_VALID \<noteq> 0 then Some (- EINVAL, ef)
        else Some (0, ef)
      })"

text \<open>Setting a bit outside the allocated map has no result.\<close>

primrec mark_run :: "bitmap_t list \<Rightarrow> nat \<Rightarrow> nat \<Rightarrow> bitmap_t list option" where
  "mark_run dmap index 0 = Some dmap"
| "mark_run dmap index (Suc n) =
     (if BMAP_BLOCK index < length dmap then mark_run (BMAP_SET dmap index) (index + 1) n else None)"

partial_function (option) mark_loop :: "exfat \<Rightarrow> addr option \<Rightarrow> bitmap_t list \<Rightarrow> bitmap_t list option" where
  "mark_loop ef p dmap =
     (case p of
        None \<Rightarrow> Some dmap
      | Some a \<Rightarrow> do {
          node \<leftarrow> ef_nodes ef a;
          dmap \<leftarrow> mark_run dmap (unat (word_of_int (n_entry_offset node) div 32 :: u64)) (1 + unat (n_continuations node));
          mark_loop ef (n_next node) dmap
        })"

text \<open>
  The search; \<open>i\<close>, \<open>contiguous\<close> and \<open>offset\<close> are the loop's variables.  The result is the value returned
  from inside the loop, if any, and the variables at its end.
\<close>

partial_function (option) slot_loop ::
    "exfat \<Rightarrow> addr \<Rightarrow> bitmap_t list \<Rightarrow> nat \<Rightarrow> nat \<Rightarrow> nat \<Rightarrow> nat \<Rightarrow> off_t \<Rightarrow> (int option \<times> nat \<times> off_t \<times> exfat) option" where
  "slot_loop ef dir dmap n count i contiguous offset =
     (if i < count
      then if BMAP_GET dmap i = 0
        then do {
          let offset = (if contiguous = 0 then int (i * ENTRY_SIZE) else offset);
          let contiguous = contiguous + 1;
          if contiguous = n
          then do {
            (rc, ef) \<leftarrow> check_slot ef dir offset n;
            if rc = - EINVAL then slot_loop ef dir dmap n count (i - (contiguous - 1) + 1) 0 offset
            else Some (Some rc, contiguous, offset, ef)
          }
          else slot_loop ef dir dmap n count (i + 1) contiguous offset
        }
        else slot_loop ef dir dmap n count (i + 1) 0 offset
      else Some (None, contiguous, offset, ef))"

definition find_slot :: "exfat \<Rightarrow> addr \<Rightarrow> off_t \<Rightarrow> nat \<Rightarrow> (int \<times> off_t \<times> exfat) option" where
  "find_slot ef a offset n =
     do {
       dir \<leftarrow> ef_nodes ef a;
       let count = unat (n_size dir div 32);
       if \<not> n_is_cached dir then None
       else if \<not> h_malloc (ef_host ef) (BMAP_SIZE count * 8) then Some (- ENOMEM, offset, ef)
       else do {
         dmap \<leftarrow> mark_loop ef (n_child dir) (replicate (BMAP_SIZE count) 0);
         (found, contiguous, offset, ef) \<leftarrow> slot_loop ef a dmap n count 0 0 offset;
         (case found of
            Some rc \<Rightarrow> Some (rc, offset, ef)
          | None \<Rightarrow> do {
              dir \<leftarrow> ef_nodes ef a;
              let offset = (if contiguous = 0 then uint (n_size dir) else offset);
              (rc, ef) \<leftarrow> truncate_at ef a
                (ROUND_UP (n_size dir + of_nat (ENTRY_SIZE * (n - contiguous))) (of_nat (CLUSTER_SIZE (ef_sb ef)))) True;
              Some (rc, offset, ef)
            })
       }
     }"

section \<open>Writing a new entry set\<close>

definition name_entry :: "u16 list \<Rightarrow> nat \<Rightarrow> entry" where
  "name_entry name i =
     bytes_of_name \<lparr>en_type = EXFAT_ENTRY_FILE_NAME, en_unknown = 0,
                    en_name = seg name (i * EXFAT_ENAME_MAX) EXFAT_ENAME_MAX\<rparr>"

definition commit_meta1 :: "int \<Rightarrow> time_t \<Rightarrow> nat \<Rightarrow> u16 \<Rightarrow> exfat_entry_meta1" where
  "commit_meta1 tz now name_entries attrib =
     (let (edate, etime, cs, tzo) = exfat_unix2exfat tz now
      in (meta1_of_bytes (replicate 32 0))
         \<lparr>m1_type := EXFAT_ENTRY_FILE, m1_continuations := of_nat (1 + name_entries), m1_attrib := attrib,
          m1_crtime_cs := cs, m1_crtime_tzo := tzo, m1_crdate := edate, m1_mdate := edate, m1_adate := edate,
          m1_crtime := etime, m1_mtime := etime, m1_atime := etime, m1_mtime_cs := cs,
          m1_mtime_tzo := tzo, m1_atime_tzo := tzo\<rparr>)"

definition commit_meta2 :: "(u16 \<Rightarrow> u16) \<Rightarrow> u16 list \<Rightarrow> exfat_entry_meta2" where
  "commit_meta2 upcase name =
     (let name_length = exfat_utf16_length name
      in (meta2_of_bytes (replicate 32 0))
         \<lparr>m2_type := EXFAT_ENTRY_FILE_INFO, m2_flags := EXFAT_FLAG_ALWAYS1, m2_name_length := of_nat name_length,
          m2_name_hash := exfat_calc_name_hash upcase name name_length, m2_start_cluster := EXFAT_CLUSTER_FREE\<rparr>)"

definition commit_entries :: "int \<Rightarrow> time_t \<Rightarrow> (u16 \<Rightarrow> u16) \<Rightarrow> u16 list \<Rightarrow> u16 \<Rightarrow> entry list" where
  "commit_entries tz now upcase name attrib =
     (let name_entries = DIV_ROUND_UP (exfat_utf16_length name) EXFAT_ENAME_MAX;
          meta1 = commit_meta1 tz now name_entries attrib;
          entries = bytes_of_meta1 meta1 # bytes_of_meta2 (commit_meta2 upcase name) #
                    map (name_entry name) [0..<name_entries]
      in bytes_of_meta1 (meta1\<lparr>m1_checksum := exfat_calc_checksum entries (2 + name_entries)\<rparr>) # drop 1 entries)"

definition commit_entry :: "exfat \<Rightarrow> addr \<Rightarrow> u16 list \<Rightarrow> off_t \<Rightarrow> u16 \<Rightarrow> (int \<times> exfat) option" where
  "commit_entry ef dir name offset attrib =
     do {
       upcase \<leftarrow> ef_upcase ef;
       let name_length = exfat_utf16_length name;
       let name_entries = DIV_ROUND_UP name_length EXFAT_ENAME_MAX;
       let tz = h_timezone (ef_host ef);
       let entries = commit_entries tz (h_now (ef_host ef)) upcase name attrib;
       (rc, ef) \<leftarrow> write_entries ef dir entries (2 + name_entries) offset;
       if rc \<noteq> 0 then Some (rc, ef)
       else case allocate_node ef of
         None \<Rightarrow> Some (- ENOMEM, ef)
       | Some (a, ef) \<Rightarrow> do {
           ef \<leftarrow> upd_node ef a (\<lambda>node. init_node_meta2 (init_node_meta1 tz
             (node\<lparr>n_entry_offset := offset, n_name := overwrite (n_name node) 0 (take name_length name)\<rparr>)
             (meta1_of_bytes (entries ! 0))) (meta2_of_bytes (entries ! 1)));
           ef \<leftarrow> tree_attach ef dir a;
           Some (0, ef)
         }
     }"

end
