(* ===== verification/Lookup.thy ===== *)
theory Lookup
  imports Directory
begin

text \<open>
  Iterating over directories and resolving paths: \<^verbatim>\<open>libexfat/lookup.c\<close>.  A C string is the list of its
  bytes without the terminator; a \<^verbatim>\<open>char\<close> pointer into it is the rest of the list.
\<close>

section \<open>Iterators\<close>

record exfat_iterator =
  it_parent :: "addr option"
  it_current :: "addr option"

definition exfat_opendir :: "exfat \<Rightarrow> addr \<Rightarrow> (int \<times> exfat_iterator \<times> exfat) option" where
  "exfat_opendir ef dir =
     do {
       ef \<leftarrow> exfat_get_node ef dir;
       let it = \<lparr>it_parent = Some dir, it_current = None\<rparr>;
       (rc, ef) \<leftarrow> exfat_cache_directory ef dir;
       if rc \<noteq> 0 then do { ef \<leftarrow> exfat_put_node ef dir; Some (rc, it, ef) }
       else Some (rc, it, ef)
     }"

definition exfat_closedir :: "exfat \<Rightarrow> exfat_iterator \<Rightarrow> exfat option" where
  "exfat_closedir ef it = do { dir \<leftarrow> it_parent it; exfat_put_node ef dir }"

definition exfat_readdir :: "exfat \<Rightarrow> exfat_iterator \<Rightarrow> (addr option \<times> exfat_iterator \<times> exfat) option" where
  "exfat_readdir ef it =
     do {
       current \<leftarrow> (case it_current it of
                     None \<Rightarrow> do { dir \<leftarrow> it_parent it; d \<leftarrow> ef_nodes ef dir; Some (n_child d) }
                   | Some c \<Rightarrow> do { n \<leftarrow> ef_nodes ef c; Some (n_next n) });
       let it = it\<lparr>it_current := current\<rparr>;
       (case current of
          Some c \<Rightarrow> do { ef \<leftarrow> exfat_get_node ef c; Some (Some c, it, ef) }
        | None \<Rightarrow> Some (None, it, ef))
     }"

section \<open>Comparing names\<close>

definition compare_char :: "(u16 \<Rightarrow> u16) \<Rightarrow> u16 \<Rightarrow> u16 \<Rightarrow> int" where
  "compare_char upcase a b = uint (upcase a) - uint (upcase b)"

text \<open>Reading past the end of an array has no result.\<close>

fun compare_name :: "(u16 \<Rightarrow> u16) \<Rightarrow> u16 list \<Rightarrow> u16 list \<Rightarrow> int option" where
  "compare_name upcase (a # as) (b # bs) =
     (if a \<noteq> 0 \<and> b \<noteq> 0
      then let rc = compare_char upcase a b
           in if rc \<noteq> 0 then Some rc else compare_name upcase as bs
      else Some (compare_char upcase a b))"
| "compare_name upcase _ _ = None"

section \<open>Paths\<close>

partial_function (option) lookup_loop ::
    "exfat \<Rightarrow> exfat_iterator \<Rightarrow> u16 list \<Rightarrow> (int \<times> addr option \<times> exfat) option" where
  "lookup_loop ef it buffer =
     do {
       (node, it, ef) \<leftarrow> exfat_readdir ef it;
       (case node of
          None \<Rightarrow> do { ef \<leftarrow> exfat_closedir ef it; Some (- ENOENT, None, ef) }
        | Some a \<Rightarrow> do {
            n \<leftarrow> ef_nodes ef a;
            upcase \<leftarrow> ef_upcase ef;
            c \<leftarrow> compare_name upcase buffer (n_name n);
            if c = 0 then do { ef \<leftarrow> exfat_closedir ef it; Some (0, Some a, ef) }
            else do { ef \<leftarrow> exfat_put_node ef a; lookup_loop ef it buffer }
          })
     }"

definition lookup_name :: "exfat \<Rightarrow> addr \<Rightarrow> u8 list \<Rightarrow> nat \<Rightarrow> (int \<times> addr option \<times> exfat) option" where
  "lookup_name ef parent name n =
     (let (rc, buffer) = exfat_utf8_to_utf16 name (EXFAT_NAME_MAX + 1) n
      in if rc \<noteq> 0 then Some (rc, None, ef)
         else do {
           (rc, it, ef) \<leftarrow> exfat_opendir ef parent;
           if rc \<noteq> 0 then Some (rc, None, ef) else lookup_loop ef it buffer
         })"

definition get_comp :: "u8 list \<Rightarrow> nat \<times> u8 list" where
  "get_comp path =
     (let component = dropWhile (\<lambda>c. c = 0x2f) path in (length (takeWhile (\<lambda>c. c \<noteq> 0x2f) component), component))"

lemma get_comp_shorter:
  "0 < fst (get_comp path) \<Longrightarrow> length (snd (get_comp path)) - fst (get_comp path) < length path"
proof -
  let ?p = "dropWhile (\<lambda>c. c = 0x2f) path"
  assume "0 < fst (get_comp path)"
  then have "0 < length (takeWhile (\<lambda>c. c \<noteq> 0x2f) ?p)" by (simp only: get_comp_def Let_def fst_conv)
  moreover have "length (takeWhile (\<lambda>c. c \<noteq> 0x2f) ?p) \<le> length ?p" by (rule length_takeWhile_le)
  moreover have "length ?p \<le> length path" by (rule length_dropWhile_le)
  ultimately show ?thesis unfolding get_comp_def Let_def fst_conv snd_conv by linarith
qed

text \<open>\<open>lookup_path\<close> is the loop of \<^verbatim>\<open>exfat_lookup\<close>, \<open>parent\<close> the node reached so far.\<close>

function lookup_path :: "exfat \<Rightarrow> addr \<Rightarrow> u8 list \<Rightarrow> (int \<times> addr option \<times> exfat) option" where
  "lookup_path ef parent path =
     (let n = fst (get_comp path); p = snd (get_comp path)
      in if n = 0 then Some (0, Some parent, ef)
         else if n = 1 \<and> p ! 0 = 0x2e then lookup_path ef parent (drop n p)
         else do {
           (rc, node, ef) \<leftarrow> lookup_name ef parent p n;
           ef \<leftarrow> exfat_put_node ef parent;
           if rc \<noteq> 0 then Some (rc, None, ef)
           else do { a \<leftarrow> node; lookup_path ef a (drop n p) }
         })"
  by pat_completeness auto
termination
  by (relation "measure (\<lambda>(ef, parent, path). length path)")
    (auto intro: get_comp_shorter)

declare lookup_path.simps [simp del]

definition exfat_lookup :: "exfat \<Rightarrow> u8 list \<Rightarrow> (int \<times> addr option \<times> exfat) option" where
  "exfat_lookup ef path = do { ef \<leftarrow> exfat_get_node ef (ef_root ef); lookup_path ef (ef_root ef) path }"

definition is_last_comp :: "u8 list \<Rightarrow> nat \<Rightarrow> bool" where
  "is_last_comp component n \<longleftrightarrow> fst (get_comp (drop n component)) = 0"

definition forbidden :: "u8 \<Rightarrow> bool" where
  "forbidden c \<longleftrightarrow> 0x01 \<le> c \<and> c \<le> 0x1f \<or> c \<in> {0x2f, 0x5c, 0x3a, 0x2a, 0x3f, 0x22, 0x3c, 0x3e, 0x7c}"

definition is_allowed :: "u8 list \<Rightarrow> nat \<Rightarrow> bool" where
  "is_allowed component n \<longleftrightarrow> (\<forall>c \<in> set (take n component). \<not> forbidden c)"

text \<open>The result is the return value, the parent, the node if it exists, the name and the volume.\<close>

definition split_last ::
    "exfat \<Rightarrow> addr \<Rightarrow> u8 list \<Rightarrow> nat \<Rightarrow> (int \<times> addr \<times> addr option \<times> u16 list \<times> exfat) option" where
  "split_last ef parent p n =
     (let name = replicate (EXFAT_NAME_MAX + 1) 0
      in if \<not> is_allowed p n
         then do { ef \<leftarrow> exfat_put_node ef parent; Some (- ENOENT, parent, None, name, ef) }
         else let (rc, out) = exfat_utf8_to_utf16 p (EXFAT_NAME_MAX + 1) n; name = fill name out
              in if rc \<noteq> 0 then do { ef \<leftarrow> exfat_put_node ef parent; Some (rc, parent, None, name, ef) }
                 else do {
                   (rc, node, ef) \<leftarrow> lookup_name ef parent p n;
                   if rc \<noteq> 0 \<and> rc \<noteq> - ENOENT
                   then do { ef \<leftarrow> exfat_put_node ef parent; Some (rc, parent, None, name, ef) }
                   else Some (0, parent, node, name, ef)
                 })"

function split_path :: "exfat \<Rightarrow> addr \<Rightarrow> u8 list \<Rightarrow> (int \<times> addr \<times> addr option \<times> u16 list \<times> exfat) option" where
  "split_path ef parent path =
     (let n = fst (get_comp path); p = snd (get_comp path)
      in if n = 0 then None
         else if n = 1 \<and> p ! 0 = 0x2e then split_path ef parent (drop n p)
         else if is_last_comp p n then split_last ef parent p n
         else do {
           (rc, node, ef) \<leftarrow> lookup_name ef parent p n;
           ef \<leftarrow> exfat_put_node ef parent;
           if rc \<noteq> 0 then Some (rc, parent, None, replicate (EXFAT_NAME_MAX + 1) 0, ef)
           else do { a \<leftarrow> node; split_path ef a (drop n p) }
         })"
  by pat_completeness auto
termination
  by (relation "measure (\<lambda>(ef, parent, path). length path)")
    (auto intro: get_comp_shorter)

declare split_path.simps [simp del]

definition exfat_split :: "exfat \<Rightarrow> u8 list \<Rightarrow> (int \<times> addr \<times> addr option \<times> u16 list \<times> exfat) option" where
  "exfat_split ef path = do { ef \<leftarrow> exfat_get_node ef (ef_root ef); split_path ef (ef_root ef) path }"

end
