(* ===== verification/Namespace.thy ===== *)
theory Namespace
  imports Lookup
begin

text \<open>
  The operations that change the name space, the time stamps and the label: the second half of
  \<^verbatim>\<open>libexfat/node.c\<close>.
\<close>

section \<open>Creating\<close>

definition name_slots :: "u16 list \<Rightarrow> nat" where
  "name_slots name = 2 + DIV_ROUND_UP (exfat_utf16_length name) EXFAT_ENAME_MAX"

definition create :: "exfat \<Rightarrow> u8 list \<Rightarrow> u16 \<Rightarrow> (int \<times> exfat) option" where
  "create ef path attrib =
     do {
       (rc, dir, existing, name, ef) \<leftarrow> exfat_split ef path;
       if rc \<noteq> 0 then Some (rc, ef)
       else case existing of
         Some e \<Rightarrow> do { ef \<leftarrow> exfat_put_node ef e; ef \<leftarrow> exfat_put_node ef dir; Some (- EEXIST, ef) }
       | None \<Rightarrow> do {
           (rc, offset, ef) \<leftarrow> find_slot ef dir (- 1) (name_slots name);
           if rc \<noteq> 0 then do { ef \<leftarrow> exfat_put_node ef dir; Some (rc, ef) }
           else do {
             (rc, ef) \<leftarrow> commit_entry ef dir name offset attrib;
             if rc \<noteq> 0 then do { ef \<leftarrow> exfat_put_node ef dir; Some (rc, ef) }
             else do {
               ef \<leftarrow> upd_node ef dir (exfat_update_mtime ef);
               (rc, ef) \<leftarrow> exfat_flush_node ef dir;
               ef \<leftarrow> exfat_put_node ef dir;
               Some (rc, ef)
             }
           }
         }
     }"

definition exfat_mknod :: "exfat \<Rightarrow> u8 list \<Rightarrow> (int \<times> exfat) option" where
  "exfat_mknod ef path = create ef path EXFAT_ATTRIB_ARCH"

text \<open>The failure branches of \<^verbatim>\<open>exfat_mkdir\<close>: the half-made directory is deleted again.\<close>

definition mkdir_undo :: "exfat \<Rightarrow> addr \<Rightarrow> int \<Rightarrow> (int \<times> exfat) option" where
  "mkdir_undo ef node rc =
     do { (rc', ef) \<leftarrow> delete ef node; ef \<leftarrow> exfat_put_node ef node; Some (rc, ef) }"

definition exfat_mkdir :: "exfat \<Rightarrow> u8 list \<Rightarrow> (int \<times> exfat) option" where
  "exfat_mkdir ef path =
     do {
       (rc, ef) \<leftarrow> create ef path EXFAT_ATTRIB_DIR;
       if rc \<noteq> 0 then Some (rc, ef)
       else do {
         (rc, found, ef) \<leftarrow> exfat_lookup ef path;
         if rc \<noteq> 0 then Some (0, ef)
         else do {
           node \<leftarrow> found;
           (rc, ef) \<leftarrow> truncate_at ef node (of_nat (CLUSTER_SIZE (ef_sb ef))) True;
           if rc \<noteq> 0 then mkdir_undo ef node rc
           else do {
             (rc, ef) \<leftarrow> exfat_flush_node ef node;
             if rc \<noteq> 0 then mkdir_undo ef node rc
             else do { ef \<leftarrow> exfat_put_node ef node; Some (0, ef) }
           }
         }
       }
     }"

section \<open>Renaming\<close>

definition rename_entries :: "(u16 \<Rightarrow> u16) \<Rightarrow> u16 list \<Rightarrow> entry list \<Rightarrow> entry list" where
  "rename_entries upcase name entries =
     (let name_length = exfat_utf16_length name;
          name_entries = DIV_ROUND_UP name_length EXFAT_ENAME_MAX;
          meta1 = (meta1_of_bytes (entries ! 0))\<lparr>m1_continuations := of_nat (1 + name_entries)\<rparr>;
          meta2 = (meta2_of_bytes (entries ! 1))\<lparr>m2_name_length := of_nat name_length,
                    m2_name_hash := exfat_calc_name_hash upcase name name_length\<rparr>;
          entries = bytes_of_meta1 meta1 # bytes_of_meta2 meta2 # map (name_entry name) [0..<name_entries]
      in bytes_of_meta1 (meta1\<lparr>m1_checksum := exfat_calc_checksum entries (2 + name_entries)\<rparr>) # drop 1 entries)"

definition rename_entry :: "exfat \<Rightarrow> addr \<Rightarrow> addr \<Rightarrow> u16 list \<Rightarrow> off_t \<Rightarrow> (int \<times> exfat) option" where
  "rename_entry ef dir a name new_offset =
     do {
       let name_entries = DIV_ROUND_UP (exfat_utf16_length name) EXFAT_ENAME_MAX;
       node \<leftarrow> ef_nodes ef a;
       parent \<leftarrow> n_parent node;
       (rc, entries, ef) \<leftarrow> read_entries ef parent 2 (n_entry_offset node);
       if rc \<noteq> 0 then Some (rc, ef)
       else do {
         upcase \<leftarrow> ef_upcase ef;
         let entries = rename_entries upcase name entries;
         (rc, ef) \<leftarrow> erase_node ef a;
         if rc \<noteq> 0 then Some (rc, ef)
         else do {
           ef \<leftarrow> upd_node ef a (\<lambda>n. n\<lparr>n_entry_offset := new_offset, n_continuations := of_nat (1 + name_entries)\<rparr>);
           (rc, ef) \<leftarrow> write_entries ef dir entries (2 + name_entries) new_offset;
           if rc \<noteq> 0 then Some (rc, ef)
           else do {
             ef \<leftarrow> upd_node ef a (\<lambda>n. n\<lparr>n_name := name\<rparr>);
             ef \<leftarrow> tree_detach ef a;
             ef \<leftarrow> tree_attach ef dir a;
             Some (0, ef)
           }
         }
       }
     }"

text \<open>\<open>is_below ef a p\<close>: the walk from \<open>p\<close> to the root meets \<open>a\<close>.\<close>

partial_function (option) is_below :: "exfat \<Rightarrow> addr \<Rightarrow> addr option \<Rightarrow> bool option" where
  "is_below ef a p =
     (case p of
        None \<Rightarrow> Some False
      | Some q \<Rightarrow> if a = q then Some True else do { n \<leftarrow> ef_nodes ef q; is_below ef a (n_parent n) })"

definition put_both :: "exfat \<Rightarrow> addr \<Rightarrow> addr \<Rightarrow> int \<Rightarrow> (int \<times> exfat) option" where
  "put_both ef dir node rc =
     do { ef \<leftarrow> exfat_put_node ef dir; ef \<leftarrow> exfat_put_node ef node; Some (rc, ef) }"

text \<open>The removal of the target of a rename: what happens when the new name exists and is another node.\<close>

definition rename_replace :: "exfat \<Rightarrow> addr \<Rightarrow> addr \<Rightarrow> (int \<times> exfat) option" where
  "rename_replace ef node existing =
     do {
       n \<leftarrow> ef_nodes ef node;
       e \<leftarrow> ef_nodes ef existing;
       (rc, ef) \<leftarrow>
         (if is_dir e
          then if is_dir n then exfat_rmdir ef existing else Some (- ENOTDIR, ef)
          else if \<not> is_dir n then exfat_unlink ef existing else Some (- EISDIR, ef));
       ef \<leftarrow> exfat_put_node ef existing;
       if rc \<noteq> 0 then do { (rc', ef) \<leftarrow> exfat_cleanup_node ef existing; Some (rc, ef) }
       else exfat_cleanup_node ef existing
     }"

definition rename_move :: "exfat \<Rightarrow> addr \<Rightarrow> addr \<Rightarrow> u16 list \<Rightarrow> (int \<times> exfat) option" where
  "rename_move ef dir node name =
     do {
       (rc, offset, ef) \<leftarrow> find_slot ef dir (- 1) (name_slots name);
       if rc \<noteq> 0 then put_both ef dir node rc
       else do {
         (rc, ef) \<leftarrow> rename_entry ef dir node name offset;
         if rc \<noteq> 0 then put_both ef dir node rc
         else do { (rc, ef) \<leftarrow> exfat_flush_node ef dir; put_both ef dir node rc }
       }
     }"

definition exfat_rename :: "exfat \<Rightarrow> u8 list \<Rightarrow> u8 list \<Rightarrow> (int \<times> exfat) option" where
  "exfat_rename ef old_path new_path =
     do {
       (rc, found, ef) \<leftarrow> exfat_lookup ef old_path;
       if rc \<noteq> 0 then Some (rc, ef)
       else do {
         node \<leftarrow> found;
         (rc, dir, existing, name, ef) \<leftarrow> exfat_split ef new_path;
         if rc \<noteq> 0 then do { ef \<leftarrow> exfat_put_node ef node; Some (rc, ef) }
         else do {
           n \<leftarrow> ef_nodes ef node;
           below \<leftarrow> (if is_dir n then is_below ef node (Some dir) else Some False);
           if below
           then do {
             ef \<leftarrow> (case existing of Some e \<Rightarrow> exfat_put_node ef e | None \<Rightarrow> Some ef);
             put_both ef dir node (- EINVAL)
           }
           else do {
             (rc, ef) \<leftarrow> (case existing of
                 None \<Rightarrow> Some (0, ef)
               | Some e \<Rightarrow> if e \<noteq> node then rename_replace ef node e
                           else do { ef \<leftarrow> exfat_put_node ef e; Some (0, ef) });
             if rc \<noteq> 0 then put_both ef dir node rc else rename_move ef dir node name
           }
         }
       }
     }"

section \<open>Time stamps and the label\<close>

definition exfat_utimes :: "exfat_node \<Rightarrow> time_t \<Rightarrow> time_t \<Rightarrow> exfat_node" where
  "exfat_utimes node atime mtime = node\<lparr>n_atime := atime, n_mtime := mtime, n_is_dirty := True\<rparr>"

definition exfat_get_label :: "exfat \<Rightarrow> u8 list" where
  "exfat_get_label ef = takeWhile (\<lambda>b. b \<noteq> 0) (ef_label ef)"

partial_function (option) find_label :: "exfat \<Rightarrow> off_t \<Rightarrow> (int \<times> off_t \<times> exfat) option" where
  "find_label ef offset =
     do {
       (rc, entries, ef) \<leftarrow> read_entries ef (ef_root ef) 1 offset;
       if rc \<noteq> 0 then Some (rc, offset, ef)
       else if entry_type (entries ! 0) = EXFAT_ENTRY_LABEL then Some (0, offset, ef)
       else find_label ef (offset + int ENTRY_SIZE)
     }"

text \<open>\<^verbatim>\<open>strcpy\<close> into the label: writing past its end has no result.\<close>

definition copy_label :: "exfat \<Rightarrow> u8 list \<Rightarrow> exfat option" where
  "copy_label ef label =
     (if length label < length (ef_label ef) then Some (ef\<lparr>ef_label := fill (ef_label ef) (label @ [0])\<rparr>) else None)"

definition label_entry :: "u16 list \<Rightarrow> entry" where
  "label_entry label_utf16 =
     (let n = exfat_utf16_length label_utf16
      in bytes_of_label \<lparr>el_type = (if n = 0 then EXFAT_ENTRY_LABEL XOR EXFAT_ENTRY_VALID else EXFAT_ENTRY_LABEL),
           el_length = of_nat n, el_name = take EXFAT_ENAME_MAX label_utf16\<rparr>)"

definition exfat_set_label :: "exfat \<Rightarrow> u8 list \<Rightarrow> (int \<times> exfat) option" where
  "exfat_set_label ef label =
     (let (rc, out) = exfat_utf8_to_utf16 label (EXFAT_ENAME_MAX + 1) (length label);
          label_utf16 = fill (replicate (EXFAT_ENAME_MAX + 1) 0) out
      in if rc \<noteq> 0 then Some (rc, ef)
         else do {
           (rc, offset, ef) \<leftarrow> find_label ef 0;
           (rc, offset, ef) \<leftarrow> (if rc = - ENOENT then find_slot ef (ef_root ef) offset 1 else Some (rc, offset, ef));
           if rc \<noteq> 0 then Some (rc, ef)
           else do {
             (rc, ef) \<leftarrow> write_entries ef (ef_root ef) [label_entry label_utf16] 1 offset;
             if rc \<noteq> 0 then Some (rc, ef)
             else do { ef \<leftarrow> copy_label ef label; Some (0, ef) }
           }
         })"

end
