(* ===== verification/EntrySets.thy ===== *)
theory EntrySets
  imports Namespace
begin

text \<open>
  Properties of entry sets: which sequences of entries \<^verbatim>\<open>check_entries\<close> accepts, and that what
  \<^verbatim>\<open>commit_entry\<close>, \<^verbatim>\<open>exfat_flush_node\<close> and \<^verbatim>\<open>rename_entry\<close> write is what \<^verbatim>\<open>parse_file_entries\<close> reads back.
\<close>

section \<open>The language of entry sets\<close>

lemma check_tail: "EXFAT_ENTRY_FILE_TAIL \<le> t \<Longrightarrow> check_types (Some t) ts \<longleftrightarrow> (\<forall>u \<in> set ts. EXFAT_ENTRY_FILE_TAIL \<le> u)"
proof (induction ts arbitrary: t)
  case Nil
  then show ?case by (auto simp: valid_transition_def entry_consts)
next
  case (Cons u ts)
  then show ?case by (auto simp: valid_transition_def entry_consts)
qed

lemma check_names:
  "check_types (Some EXFAT_ENTRY_FILE_NAME) ts \<longleftrightarrow>
     (\<exists>k tails. ts = replicate k EXFAT_ENTRY_FILE_NAME @ tails \<and> (\<forall>u \<in> set tails. EXFAT_ENTRY_FILE_TAIL \<le> u))"
  (is "_ \<longleftrightarrow> ?R ts")
proof (induction ts)
  case Nil
  then show ?case by (simp add: valid_transition_def entry_consts)
next
  case (Cons u ts)
  consider (name) "u = EXFAT_ENTRY_FILE_NAME" | (tail) "EXFAT_ENTRY_FILE_TAIL \<le> u"
    | (other) "u \<noteq> EXFAT_ENTRY_FILE_NAME" "\<not> EXFAT_ENTRY_FILE_TAIL \<le> u" by blast
  then show ?case
  proof cases
    case name
    have "?R ts \<longleftrightarrow> ?R (u # ts)"
    proof
      assume "?R ts"
      then obtain k tails where "ts = replicate k EXFAT_ENTRY_FILE_NAME @ tails" "\<forall>u \<in> set tails. EXFAT_ENTRY_FILE_TAIL \<le> u"
        by blast
      then have "u # ts = replicate (Suc k) EXFAT_ENTRY_FILE_NAME @ tails" using name by simp
      then show "?R (u # ts)" using \<open>\<forall>u \<in> set tails. _ u\<close> by blast
    next
      assume "?R (u # ts)"
      then obtain k tails where k: "u # ts = replicate k EXFAT_ENTRY_FILE_NAME @ tails"
        and t: "\<forall>u \<in> set tails. EXFAT_ENTRY_FILE_TAIL \<le> u" by blast
      show "?R ts"
      proof (cases k)
        case 0
        then have "EXFAT_ENTRY_FILE_TAIL \<le> u" using k t by (cases tails) auto
        then show ?thesis using name by (simp add: entry_consts)
      next
        case (Suc j)
        then show ?thesis using k t by auto
      qed
    qed
    then show ?thesis using Cons name by (simp add: valid_transition_def entry_consts)
  next
    case tail
    then have ne: "u \<noteq> EXFAT_ENTRY_FILE_NAME" by (auto simp: entry_consts)
    have "?R (u # ts) \<longleftrightarrow> (\<forall>v \<in> set ts. EXFAT_ENTRY_FILE_TAIL \<le> v)"
    proof
      assume "?R (u # ts)"
      then obtain k tails where k: "u # ts = replicate k EXFAT_ENTRY_FILE_NAME @ tails"
        and t: "\<forall>u \<in> set tails. EXFAT_ENTRY_FILE_TAIL \<le> u" by blast
      then have "k = 0" using ne by (cases k) auto
      then show "\<forall>v \<in> set ts. EXFAT_ENTRY_FILE_TAIL \<le> v" using k t by auto
    next
      assume "\<forall>v \<in> set ts. EXFAT_ENTRY_FILE_TAIL \<le> v"
      then show "?R (u # ts)" using tail by (intro exI [of _ 0] exI [of _ "u # ts"]) simp
    qed
    moreover have "check_types (Some EXFAT_ENTRY_FILE_NAME) (u # ts) \<longleftrightarrow> check_types (Some u) ts"
      using tail by (auto simp: valid_transition_def entry_consts)
    ultimately show ?thesis using check_tail [OF tail] by blast
  next
    case other
    have "\<not> ?R (u # ts)"
    proof
      assume "?R (u # ts)"
      then obtain k tails where k: "u # ts = replicate k EXFAT_ENTRY_FILE_NAME @ tails"
        and t: "\<forall>u \<in> set tails. EXFAT_ENTRY_FILE_TAIL \<le> u" by blast
      then show False using other by (cases k) auto
    qed
    then show ?thesis using other by (simp add: valid_transition_def entry_consts)
  qed
qed

text \<open>An entry set in the sense of the format: a file entry, an info entry, names, then vendor entries.\<close>

definition entry_set :: "u8 list \<Rightarrow> bool" where
  "entry_set ts \<longleftrightarrow> (\<exists>k tails. 0 < k \<and> (\<forall>u \<in> set tails. EXFAT_ENTRY_FILE_TAIL \<le> u) \<and>
     ts = [EXFAT_ENTRY_FILE, EXFAT_ENTRY_FILE_INFO] @ replicate k EXFAT_ENTRY_FILE_NAME @ tails)"

lemma check_types_None: "check_types None ts \<longleftrightarrow> entry_set ts"
proof -
  have a: "check_types None ts \<longleftrightarrow> (\<exists>us. ts = EXFAT_ENTRY_FILE # us \<and> check_types (Some EXFAT_ENTRY_FILE) us)"
    by (cases ts) (auto simp: valid_transition_def)
  have b: "check_types (Some EXFAT_ENTRY_FILE) us \<longleftrightarrow>
      (\<exists>vs. us = EXFAT_ENTRY_FILE_INFO # vs \<and> check_types (Some EXFAT_ENTRY_FILE_INFO) vs)" for us
    by (cases us) (auto simp: valid_transition_def)
  have c: "check_types (Some EXFAT_ENTRY_FILE_INFO) vs \<longleftrightarrow>
      (\<exists>ws. vs = EXFAT_ENTRY_FILE_NAME # ws \<and> check_types (Some EXFAT_ENTRY_FILE_NAME) ws)" for vs
    by (cases vs) (auto simp: valid_transition_def entry_consts)
  show ?thesis unfolding a b c check_names entry_set_def
  proof
    assume "\<exists>us. ts = EXFAT_ENTRY_FILE # us \<and> (\<exists>vs. us = EXFAT_ENTRY_FILE_INFO # vs \<and>
      (\<exists>ws. vs = EXFAT_ENTRY_FILE_NAME # ws \<and> (\<exists>k tails. ws = replicate k EXFAT_ENTRY_FILE_NAME @ tails \<and>
        (\<forall>u \<in> set tails. EXFAT_ENTRY_FILE_TAIL \<le> u))))"
    then obtain k tails where
      "ts = EXFAT_ENTRY_FILE # EXFAT_ENTRY_FILE_INFO # EXFAT_ENTRY_FILE_NAME # replicate k EXFAT_ENTRY_FILE_NAME @ tails"
      "\<forall>u \<in> set tails. EXFAT_ENTRY_FILE_TAIL \<le> u" by blast
    then show "\<exists>k tails. 0 < k \<and> (\<forall>u \<in> set tails. EXFAT_ENTRY_FILE_TAIL \<le> u) \<and>
        ts = [EXFAT_ENTRY_FILE, EXFAT_ENTRY_FILE_INFO] @ replicate k EXFAT_ENTRY_FILE_NAME @ tails"
      by (intro exI [of _ "Suc k"] exI [of _ tails]) simp
  next
    assume "\<exists>k tails. 0 < k \<and> (\<forall>u \<in> set tails. EXFAT_ENTRY_FILE_TAIL \<le> u) \<and>
        ts = [EXFAT_ENTRY_FILE, EXFAT_ENTRY_FILE_INFO] @ replicate k EXFAT_ENTRY_FILE_NAME @ tails"
    then obtain k tails where "0 < k" "\<forall>u \<in> set tails. EXFAT_ENTRY_FILE_TAIL \<le> u"
      "ts = [EXFAT_ENTRY_FILE, EXFAT_ENTRY_FILE_INFO] @ replicate k EXFAT_ENTRY_FILE_NAME @ tails" by blast
    moreover from \<open>0 < k\<close> obtain j where "k = Suc j" by (cases k) auto
    ultimately show "\<exists>us. ts = EXFAT_ENTRY_FILE # us \<and> (\<exists>vs. us = EXFAT_ENTRY_FILE_INFO # vs \<and>
      (\<exists>ws. vs = EXFAT_ENTRY_FILE_NAME # ws \<and> (\<exists>k tails. ws = replicate k EXFAT_ENTRY_FILE_NAME @ tails \<and>
        (\<forall>u \<in> set tails. EXFAT_ENTRY_FILE_TAIL \<le> u))))" by auto
  qed
qed

section \<open>Checksums and names\<close>

lemma checksum_ignores_itself:
  assumes "length (m1_unknown2 m) = 7"
  shows "exfat_calc_checksum (bytes_of_meta1 (m\<lparr>m1_checksum := c\<rparr>) # es) n = exfat_calc_checksum (bytes_of_meta1 m # es) n"
proof -
  have le: "le_bytes 2 w = [ucast w, ucast (drop_bit 8 w)]" for w :: u16 by (simp add: numeral_2_eq_2)
  have "take 2 (bytes_of_meta1 (m\<lparr>m1_checksum := c\<rparr>)) = take 2 (bytes_of_meta1 m)"
    "drop 4 (bytes_of_meta1 (m\<lparr>m1_checksum := c\<rparr>)) = drop 4 (bytes_of_meta1 m)"
    by (simp_all add: bytes_of_meta1_def le)
  then show ?thesis
    using assms by (simp add: calc_checksum_Cons start_checksum_skips length_bytes_of_meta1)
qed

lemma length_overwrite: "off + length ys \<le> length xs \<Longrightarrow> length (overwrite xs off ys) = length xs"
  by (simp add: overwrite_def)

lemma overwrite_prefix:
  assumes "length name = length zs" "(i + 1) * m \<le> length zs"
  shows "overwrite (take (i * m) name @ drop (i * m) zs) (i * m) (seg name (i * m) m) =
    take ((i + 1) * m) name @ drop ((i + 1) * m) zs"
proof -
  have "take (i * m) (take (i * m) name @ drop (i * m) zs) = take (i * m) name" using assms by simp
  moreover have "length (seg name (i * m) m) = m" using assms by (simp add: length_seg)
  moreover have "drop (i * m + m) (take (i * m) name @ drop (i * m) zs) = drop (i * m + m) zs" using assms by (simp add: add.commute)
  moreover have "take (i * m) name @ seg name (i * m) m = take (i * m + m) name" by (simp add: seg_def take_add)
  moreover have "(i + 1) * m = i * m + m" by simp
  ultimately show ?thesis unfolding overwrite_def by (simp only: append_assoc [symmetric])
qed

text \<open>Writing the chunks of a name one after the other writes the name.\<close>

lemma write_chunks:
  assumes "length name = length zs" "k * m \<le> length zs"
  shows "foldl (\<lambda>nm i. overwrite nm (i * m) (seg name (i * m) m)) zs [0..<k] = take (k * m) name @ drop (k * m) zs"
  using assms(2)
proof (induction k)
  case (Suc k)
  then have "(k + 1) * m \<le> length zs" "k * m \<le> length zs" by simp_all
  then show ?case using Suc.IH overwrite_prefix [OF assms(1), of k m] by simp
qed simp

lemma name_entry_fields:
  assumes "i * EXFAT_ENAME_MAX + EXFAT_ENAME_MAX \<le> length name"
  shows "en_name (name_of_bytes (name_entry name i)) = seg name (i * EXFAT_ENAME_MAX) EXFAT_ENAME_MAX"
    "entry_type (name_entry name i) = EXFAT_ENTRY_FILE_NAME" "length (name_entry name i) = 32"
  using assms
  by (simp_all add: name_entry_def name_of_bytes_of_name length_seg length_bytes_of_name)
    (simp add: bytes_of_name_def entry_type_def)

text \<open>
  A name as \<^verbatim>\<open>exfat_split\<close> delivers it: between 1 and 255 units, then zeros up to the end of the array.
\<close>

definition name_ok :: "u16 list \<Rightarrow> bool" where
  "name_ok name \<longleftrightarrow> length name = EXFAT_NAME_MAX + 1 \<and> 1 \<le> exfat_utf16_length name \<and>
     exfat_utf16_length name \<le> EXFAT_NAME_MAX \<and> (\<forall>i. exfat_utf16_length name \<le> i \<and> i < length name \<longrightarrow> name ! i = 0)"

lemma name_entries_bound:
  assumes "name_ok name"
  defines "k \<equiv> DIV_ROUND_UP (exfat_utf16_length name) EXFAT_ENAME_MAX"
  shows "1 \<le> k" "k \<le> 17" "exfat_utf16_length name \<le> k * EXFAT_ENAME_MAX" "k * EXFAT_ENAME_MAX \<le> 255"
proof -
  have "exfat_utf16_length name \<le> 255" "1 \<le> exfat_utf16_length name" using assms(1) by (simp_all add: name_ok_def name_consts)
  moreover have "exfat_utf16_length name \<le> k * EXFAT_ENAME_MAX" unfolding k_def by (rule DIV_ROUND_UP_le) (simp add: name_consts)
  ultimately show "1 \<le> k" "k \<le> 17" "exfat_utf16_length name \<le> k * EXFAT_ENAME_MAX" "k * EXFAT_ENAME_MAX \<le> 255"
    by (simp_all add: k_def DIV_ROUND_UP_def EXFAT_ENAME_MAX_def div_le_mono)
qed

lemma init_name_commit:
  assumes "name_ok name" "n_name node = replicate (EXFAT_NAME_MAX + 1) 0"
  defines "k \<equiv> DIV_ROUND_UP (exfat_utf16_length name) EXFAT_ENAME_MAX"
  shows "n_name (init_node_name node (map (name_entry name) [0..<k]) k) = name"
proof -
  note b = name_entries_bound [OF assms(1), folded k_def]
  have len: "length name = 256" using assms(1) by (simp add: name_ok_def name_consts)
  have "i * EXFAT_ENAME_MAX + EXFAT_ENAME_MAX \<le> length name" if "i < k" for i
    using that b(4) len by (simp add: EXFAT_ENAME_MAX_def)
  then have "foldl (\<lambda>nm i. overwrite nm (i * EXFAT_ENAME_MAX) (en_name (name_of_bytes (map (name_entry name) [0..<k] ! i)))) zs [0..<k] =
      foldl (\<lambda>nm i. overwrite nm (i * EXFAT_ENAME_MAX) (seg name (i * EXFAT_ENAME_MAX) EXFAT_ENAME_MAX)) zs [0..<k]" for zs
    by (intro foldl_cong) (simp_all add: name_entry_fields)
  also have "\<dots> zs = take (k * EXFAT_ENAME_MAX) name @ drop (k * EXFAT_ENAME_MAX) zs" if "length zs = 256" for zs
    using that len b(4) by (intro write_chunks) simp_all
  finally have "n_name (init_node_name node (map (name_entry name) [0..<k]) k) =
      take (k * EXFAT_ENAME_MAX) name @ drop (k * EXFAT_ENAME_MAX) (replicate 256 0)"
    using assms(2) by (simp add: init_node_name_def name_consts)
  also have "drop (k * EXFAT_ENAME_MAX) (replicate 256 0) = drop (k * EXFAT_ENAME_MAX) name"
    using assms(1) b(3) len by (intro nth_equalityI) (simp_all add: name_ok_def)
  finally show ?thesis by simp
qed

section \<open>Committing and parsing\<close>

lemma entry_type_meta1: "entry_type (bytes_of_meta1 m) = m1_type m"
  and entry_type_meta2: "entry_type (bytes_of_meta2 m') = m2_type m'"
  by (simp_all add: entry_type_def bytes_of_meta1_def bytes_of_meta2_def)

text \<open>An entry set that consists of the two metadata entries and the entries of a name.\<close>

definition named_set :: "exfat_entry_meta1 \<Rightarrow> exfat_entry_meta2 \<Rightarrow> u16 list \<Rightarrow> entry list" where
  "named_set meta1 meta2 name =
     (let entries = bytes_of_meta1 meta1 # bytes_of_meta2 meta2 #
            map (name_entry name) [0..<DIV_ROUND_UP (exfat_utf16_length name) EXFAT_ENAME_MAX]
      in bytes_of_meta1 (meta1\<lparr>m1_checksum := exfat_calc_checksum entries (name_slots name)\<rparr>) # drop 1 entries)"

lemma parse_named_set:
  fixes ef :: exfat
  assumes "name_ok name" "length (m1_unknown2 meta1) = 7" "length (m2_unknown3 meta2) = 4"
    "m1_type meta1 = EXFAT_ENTRY_FILE" "m2_type meta2 = EXFAT_ENTRY_FILE_INFO"
    "m1_continuations meta1 = of_nat (name_slots name - 1)" "m2_name_length meta2 = of_nat (exfat_utf16_length name)"
    "m2_flags meta2 AND NOT (EXFAT_FLAG_ALWAYS1 OR EXFAT_FLAG_CONTIGUOUS) = 0"
    "n_name node = replicate (EXFAT_NAME_MAX + 1) 0"
  defines "node1 \<equiv> (init_node_meta2 (init_node_meta1 (h_timezone (ef_host ef)) node meta1) meta2)\<lparr>n_name := name\<rparr>"
    and "c \<equiv> m1_checksum (meta1_of_bytes (named_set meta1 meta2 name ! 0))"
  shows "parse_file_entries ef node (named_set meta1 meta2 name) (name_slots name) =
    do { (ok, ef, node) \<leftarrow> check_node ef node1 c (meta1\<lparr>m1_checksum := c\<rparr>);
         if ok then Some (0, ef, node) else Some (- EIO, ef, node) }"
proof -
  define k where "k = DIV_ROUND_UP (exfat_utf16_length name) EXFAT_ENAME_MAX"
  note b = name_entries_bound [OF assms(1), folded k_def]
  have slots: "name_slots name = k + 2" by (simp add: name_slots_def k_def)
  have len: "length name = 256" "exfat_utf16_length name \<le> 255" using assms(1) by (simp_all add: name_ok_def name_consts)
  let ?ns = "map (name_entry name) [0..<k]"
  define es where "es = bytes_of_meta1 meta1 # bytes_of_meta2 meta2 # ?ns"
  define cs where "cs = exfat_calc_checksum es (k + 2)"
  define m1 where "m1 = meta1\<lparr>m1_checksum := cs\<rparr>"
  have set_eq: "named_set meta1 meta2 name = bytes_of_meta1 m1 # bytes_of_meta2 meta2 # ?ns"
    by (simp add: named_set_def Let_def m1_def cs_def es_def k_def name_slots_def)
  have l7: "length (m1_unknown2 m1) = 7" using assms(2) by (simp add: m1_def)
  have m1: "meta1_of_bytes (bytes_of_meta1 m1) = m1" by (rule meta1_of_bytes_of_meta1 [OF l7])
  have m2: "meta2_of_bytes (bytes_of_meta2 meta2) = meta2" by (rule meta2_of_bytes_of_meta2 [OF assms(3)])
  have cc: "c = cs" by (simp add: c_def set_eq m1) (simp add: m1_def)
  have sum: "exfat_calc_checksum (named_set meta1 meta2 name) (name_slots name) = cs"
    using checksum_ignores_itself [OF assms(2), of cs] by (simp add: set_eq slots m1_def cs_def es_def)
  have types: "map entry_type ?ns = replicate k EXFAT_ENTRY_FILE_NAME"
    using b(4) len by (intro nth_equalityI) (simp_all add: name_entry_fields EXFAT_ENAME_MAX_def)
  have chk: "check_entries (named_set meta1 meta2 name) (name_slots name)"
  proof -
    have "map entry_type (take (name_slots name) (named_set meta1 meta2 name)) =
        [EXFAT_ENTRY_FILE, EXFAT_ENTRY_FILE_INFO] @ replicate k EXFAT_ENTRY_FILE_NAME @ []"
      using types assms(4,5) by (simp add: set_eq slots entry_type_meta1 entry_type_meta2 m1_def)
    then show ?thesis unfolding check_entries_def check_types_None entry_set_def using b(1)
      by (intro exI [of _ k] exI [of _ "[]"]) simp
  qed
  have cont: "unat (m1_continuations m1) = k + 1"
    using b(2) unat_of_nat_id [of "k + 1", where 'a = 8] by (simp add: m1_def assms(6) slots)
  then have c2: "\<not> m1_continuations m1 < 2" using b(1) by (simp add: word_less_nat_alt)
  have nl: "unat (m2_name_length meta2) = exfat_utf16_length name"
    using len(2) by (simp add: assms(7) unat_of_nat)
  have nm: "n_name (init_node_name nd ?ns k) = name" if "n_name nd = replicate (EXFAT_NAME_MAX + 1) 0" for nd
    using init_name_commit [OF assms(1) that] by (simp add: k_def)
  have init: "init_node_name (init_node_meta2 (init_node_meta1 tz node m1) meta2) ?ns k =
      (init_node_meta2 (init_node_meta1 tz node meta1) meta2)\<lparr>n_name := name\<rparr>" for tz
  proof -
    let ?nd = "init_node_meta2 (init_node_meta1 tz node m1) meta2"
    have "n_name ?nd = replicate (EXFAT_NAME_MAX + 1) 0" using assms(9) by (simp add: init_node_meta1_def init_node_meta2_def)
    from nm [OF this] have "init_node_name ?nd ?ns k = ?nd\<lparr>n_name := name\<rparr>" by (simp add: init_node_name_def)
    moreover have "?nd = init_node_meta2 (init_node_meta1 tz node meta1) meta2" by (simp add: init_node_meta1_def m1_def)
    ultimately show ?thesis by simp
  qed
  have parts: "named_set meta1 meta2 name ! 0 = bytes_of_meta1 m1" "named_set meta1 meta2 name ! 1 = bytes_of_meta2 meta2"
    "drop 2 (named_set meta1 meta2 name) = ?ns" "meta1\<lparr>m1_checksum := c\<rparr> = m1"
    by (simp_all add: set_eq cc m1_def)
  show ?thesis
    using chk c2 assms(8)
    by (simp add: parse_file_entries_def Let_def parts m1 m2 sum cont nl init cc node1_def del: One_nat_def flip: k_def m1_def)
qed

text \<open>A node that passes the checks without a message.\<close>

definition node_consistent :: "exfat \<Rightarrow> exfat_node \<Rightarrow> bool" where
  "node_consistent ef node \<longleftrightarrow> n_valid_size node \<le> n_size node \<and>
     (n_size node = 0 \<longrightarrow> n_start_cluster node = EXFAT_CLUSTER_FREE \<and> \<not> n_is_contiguous node) \<and>
     (n_size node \<noteq> 0 \<longrightarrow> \<not> CLUSTER_INVALID (ef_sb ef) (n_start_cluster node)) \<and>
     n_size node \<le> ucast (sb_cluster_count (ef_sb ef)) * of_nat (CLUSTER_SIZE (ef_sb ef)) \<and>
     (is_dir node \<longrightarrow> n_size node mod of_nat (CLUSTER_SIZE (ef_sb ef)) = 0)"

lemma check_node_consistent:
  "node_consistent ef node \<Longrightarrow> m1_checksum meta1 = c \<Longrightarrow> check_node ef node c meta1 = Some (True, ef, node)"
proof -
  assume n: "node_consistent ef node" and c: "m1_checksum meta1 = c"
  have rep: "report node bad ret = Some ret" if "\<not> bad" for bad ret using that by (simp add: report_def)
  let ?cs = "of_nat (CLUSTER_SIZE (ef_sb ef)) :: u64"
  have "\<not> n_size node < n_valid_size node"
    "\<not> (n_size node = 0 \<and> n_start_cluster node \<noteq> EXFAT_CLUSTER_FREE)"
    "\<not> (0 < n_size node \<and> CLUSTER_INVALID (ef_sb ef) (n_start_cluster node))"
    "\<not> ucast (sb_cluster_count (ef_sb ef)) * ?cs < n_size node"
    "\<not> (n_size node = 0 \<and> n_is_contiguous node)"
    "\<not> (is_dir node \<and> n_size node mod ?cs \<noteq> 0)"
    using n unfolding node_consistent_def by (simp_all only: not_less word_gt_0 eq_commute [of 0]) blast+
  then show ?thesis using c by (simp only: check_node_def check_checksum_def Let_def rep) (simp add: rep)
qed

lemma parse_named_set_ok:
  assumes "name_ok name" "length (m1_unknown2 meta1) = 7" "length (m2_unknown3 meta2) = 4"
    "m1_type meta1 = EXFAT_ENTRY_FILE" "m2_type meta2 = EXFAT_ENTRY_FILE_INFO"
    "m1_continuations meta1 = of_nat (name_slots name - 1)" "m2_name_length meta2 = of_nat (exfat_utf16_length name)"
    "m2_flags meta2 AND NOT (EXFAT_FLAG_ALWAYS1 OR EXFAT_FLAG_CONTIGUOUS) = 0"
    "n_name node = replicate (EXFAT_NAME_MAX + 1) 0"
    "node_consistent ef (init_node_meta2 (init_node_meta1 (h_timezone (ef_host ef)) node meta1) meta2)"
  shows "parse_file_entries ef node (named_set meta1 meta2 name) (name_slots name) =
    Some (0, ef, (init_node_meta2 (init_node_meta1 (h_timezone (ef_host ef)) node meta1) meta2)\<lparr>n_name := name\<rparr>)"
proof -
  let ?n = "init_node_meta2 (init_node_meta1 (h_timezone (ef_host ef)) node meta1) meta2"
  have "node_consistent ef (?n\<lparr>n_name := name\<rparr>)" using assms(10) by (simp add: node_consistent_def is_dir_def)
  then show ?thesis unfolding parse_named_set [OF assms(1-9)] by (simp add: check_node_consistent)
qed

lemma commit_entries_named:
  "commit_entries tz now upcase name attrib =
     named_set (commit_meta1 tz now (name_slots name - 2) attrib) (commit_meta2 upcase name) name"
  by (simp add: commit_entries_def named_set_def Let_def name_slots_def)

lemma rename_entries_named:
  "rename_entries upcase name entries =
     named_set ((meta1_of_bytes (entries ! 0))\<lparr>m1_continuations := of_nat (name_slots name - 1)\<rparr>)
       ((meta2_of_bytes (entries ! 1))\<lparr>m2_name_length := of_nat (exfat_utf16_length name),
          m2_name_hash := exfat_calc_name_hash upcase name (exfat_utf16_length name)\<rparr>) name"
  by (simp add: rename_entries_def named_set_def Let_def name_slots_def)

lemma commit_meta1_fields:
  "m1_type (commit_meta1 tz now k attrib) = EXFAT_ENTRY_FILE" "m1_attrib (commit_meta1 tz now k attrib) = attrib"
  "m1_continuations (commit_meta1 tz now k attrib) = of_nat (1 + k)" "length (m1_unknown2 (commit_meta1 tz now k attrib)) = 7"
  by (simp_all add: commit_meta1_def Let_def meta1_of_bytes_def length_seg split: prod.splits)

lemma commit_meta1_mtime:
  "exfat_exfat2unix tz (m1_mdate (commit_meta1 tz now k attrib)) (m1_mtime (commit_meta1 tz now k attrib))
     (m1_mtime_cs (commit_meta1 tz now k attrib)) (m1_mtime_tzo (commit_meta1 tz now k attrib)) =
   (case exfat_unix2exfat tz now of (date, time, cs, tzo) \<Rightarrow> exfat_exfat2unix tz date time cs tzo)"
  by (simp add: commit_meta1_def Let_def split: prod.splits)

lemma zero_field: "off + n \<le> 32 \<Longrightarrow> le_word (seg (replicate 32 0) off n) = (0 :: 'a::len word)"
proof -
  assume "off + n \<le> 32"
  then have "seg (replicate 32 (0 :: u8)) off n = replicate n 0" by (simp add: seg_def)
  moreover have "le_word (replicate n (0 :: u8)) = (0 :: 'a word)" by (induction n) simp_all
  ultimately show ?thesis by simp
qed

lemma commit_meta2_fields:
  "m2_type (commit_meta2 upcase name) = EXFAT_ENTRY_FILE_INFO" "m2_flags (commit_meta2 upcase name) = EXFAT_FLAG_ALWAYS1"
  "m2_name_length (commit_meta2 upcase name) = of_nat (exfat_utf16_length name)"
  "m2_start_cluster (commit_meta2 upcase name) = EXFAT_CLUSTER_FREE" "m2_size (commit_meta2 upcase name) = 0"
  "m2_valid_size (commit_meta2 upcase name) = 0" "length (m2_unknown3 (commit_meta2 upcase name)) = 4"
  by (simp_all add: commit_meta2_def Let_def meta2_of_bytes_def length_seg zero_field)

lemma flags_known: "EXFAT_FLAG_ALWAYS1 AND NOT (EXFAT_FLAG_ALWAYS1 OR EXFAT_FLAG_CONTIGUOUS) = 0"
  "(EXFAT_FLAG_ALWAYS1 OR EXFAT_FLAG_CONTIGUOUS) AND NOT (EXFAT_FLAG_ALWAYS1 OR EXFAT_FLAG_CONTIGUOUS) = 0"
  "EXFAT_FLAG_ALWAYS1 AND EXFAT_FLAG_CONTIGUOUS = 0"
  "(EXFAT_FLAG_ALWAYS1 OR EXFAT_FLAG_CONTIGUOUS) AND EXFAT_FLAG_CONTIGUOUS \<noteq> 0"
  by (simp_all add: EXFAT_FLAG_ALWAYS1_def EXFAT_FLAG_CONTIGUOUS_def)

lemma commit_parses:
  assumes "name_ok name" "h_timezone (ef_host ef) = - k * 900" "- 64 \<le> k" "k < 64"
    "representable (h_timezone (ef_host ef)) now"
  shows "\<exists>node. parse_file_entries ef (zero_node\<lparr>n_entry_offset := offset\<rparr>)
      (commit_entries (h_timezone (ef_host ef)) now upcase name attrib) (name_slots name) = Some (0, ef, node) \<and>
    n_name node = name \<and> n_attrib node = attrib \<and> n_mtime node = now \<and> n_size node = 0 \<and> n_valid_size node = 0 \<and>
    n_start_cluster node = EXFAT_CLUSTER_FREE \<and> unat (n_continuations node) + 1 = name_slots name \<and>
    n_entry_offset node = offset"
proof -
  let ?tz = "h_timezone (ef_host ef)" and ?m1 = "commit_meta1 (h_timezone (ef_host ef)) now (name_slots name - 2) attrib"
    and ?m2 = "commit_meta2 upcase name" and ?z = "zero_node\<lparr>n_entry_offset := offset\<rparr>"
  let ?n = "init_node_meta2 (init_node_meta1 ?tz ?z ?m1) ?m2"
  have k: "name_slots name - 1 = 1 + (name_slots name - 2)" "name_slots name \<le> 19" "3 \<le> name_slots name"
    using name_entries_bound [OF assms(1)] by (simp_all add: name_slots_def)
  have con: "node_consistent ef ?n"
    by (simp add: node_consistent_def init_node_meta1_def init_node_meta2_def commit_meta2_fields flags_known)
  have "parse_file_entries ef ?z (named_set ?m1 ?m2 name) (name_slots name) = Some (0, ef, ?n\<lparr>n_name := name\<rparr>)"
    by (rule parse_named_set_ok [OF assms(1) _ _ _ _ _ _ _ _ con])
      (simp_all only: commit_meta1_fields commit_meta2_fields flags_known k(1), simp add: zero_node_def name_consts)
  moreover have "n_mtime ?n = now"
    using unix_exfat_roundtrip [OF assms(5,2,3,4)]
    by (simp add: init_node_meta1_def init_node_meta2_def commit_meta1_mtime split: prod.splits)
  moreover have "unat (n_continuations ?n) + 1 = name_slots name"
    using k unat_of_nat_id [of "name_slots name - 1", where 'a = 8]
    by (simp add: init_node_meta1_def init_node_meta2_def commit_meta1_fields)
  ultimately show ?thesis
    by (simp add: commit_entries_named init_node_meta1_def init_node_meta2_def commit_meta1_fields commit_meta2_fields)
qed

section \<open>Properties\<close>

text \<open>
  C28: which entry sets are accepted: exactly a file entry, an info entry, one or more name entries and
  then any number of vendor entries.
\<close>

theorem check_entries_language:
  "check_entries entries n \<longleftrightarrow> (\<exists>k tails. 0 < k \<and> list_all (\<lambda>t. EXFAT_ENTRY_FILE_TAIL \<le> t) tails \<and>
     map entry_type (take n entries) =
       [EXFAT_ENTRY_FILE, EXFAT_ENTRY_FILE_INFO] @ replicate k EXFAT_ENTRY_FILE_NAME @ tails)"
  unfolding check_entries_def check_types_None entry_set_def list_all_iff ..

text \<open>
  C21: a new entry set can be read back: parsing what \<^verbatim>\<open>commit_entry\<close> writes succeeds without any repair and
  gives an empty file with the name, the attributes and the time it was created with.
\<close>

theorem commit_then_parse:
  assumes "name_ok name" "h_timezone (ef_host ef) = - k * 900" "- 64 \<le> k" "k < 64"
    "representable (h_timezone (ef_host ef)) now"
  shows "\<exists>node. parse_file_entries ef (zero_node\<lparr>n_entry_offset := offset\<rparr>)
      (commit_entries (h_timezone (ef_host ef)) now upcase name attrib) (name_slots name) = Some (0, ef, node) \<and>
    n_name node = name \<and> n_attrib node = attrib \<and> n_mtime node = now \<and> n_size node = 0 \<and> n_valid_size node = 0 \<and>
    n_start_cluster node = EXFAT_CLUSTER_FREE \<and> unat (n_continuations node) + 1 = name_slots name \<and>
    n_entry_offset node = offset"
  by (rule commit_parses [OF assms])

lemma flush_entries_eq:
  fixes tz :: int and entries :: "entry list"
  assumes "n = 1 + unat (n_continuations node)"
  defines "m1 \<equiv> flush_meta1 tz node (meta1_of_bytes (entries ! 0))" and "m2 \<equiv> flush_meta2 node (meta2_of_bytes (entries ! 1))"
  shows "flush_entries tz node entries =
    bytes_of_meta1 (m1\<lparr>m1_checksum := exfat_calc_checksum (bytes_of_meta1 m1 # bytes_of_meta2 m2 # drop 2 entries) n\<rparr>) #
    bytes_of_meta2 m2 # drop 2 entries"
  using assms(1) by (simp add: flush_entries_def Let_def m1_def m2_def)

lemma flush_meta1_fields:
  "m1_type (flush_meta1 tz node m) = m1_type m" "m1_continuations (flush_meta1 tz node m) = m1_continuations m"
  "m1_unknown2 (flush_meta1 tz node m) = m1_unknown2 m" "m1_attrib (flush_meta1 tz node m) = n_attrib node"
  by (simp_all add: flush_meta1_def Let_def split: prod.splits)

lemma flush_meta1_mtime:
  "exfat_exfat2unix tz' (m1_mdate (flush_meta1 tz node m)) (m1_mtime (flush_meta1 tz node m))
     (m1_mtime_cs (flush_meta1 tz node m)) (m1_mtime_tzo (flush_meta1 tz node m)) =
   (case exfat_unix2exfat tz (n_mtime node) of (date, time, cs, tzo) \<Rightarrow> exfat_exfat2unix tz' date time cs tzo)"
  by (simp add: flush_meta1_def Let_def split: prod.splits)

lemma check_checksum_name: "check_checksum ef node c meta1 = Some (ok, ef', node') \<Longrightarrow> n_name node' = n_name node"
  by (auto simp: check_checksum_def Let_def run_simps exfat_fix_invalid_node_checksum_def split: if_splits prod.splits)

lemma check_node_name: "check_node ef node c meta1 = Some (ok, ef', node') \<Longrightarrow> n_name node' = n_name node"
  by (auto simp: check_node_def Let_def run_simps dest!: check_checksum_name)

text \<open>What a successful parse says about the entries.\<close>

lemma parse_successD:
  assumes "parse_file_entries ef blank entries n = Some (0, ef', old)"
  shows "check_entries entries n" "\<not> m1_continuations (meta1_of_bytes (entries ! 0)) < 2"
    "unat (m1_continuations (meta1_of_bytes (entries ! 0))) \<ge>
       1 + DIV_ROUND_UP (unat (m2_name_length (meta2_of_bytes (entries ! 1)))) EXFAT_ENAME_MAX"
    "n_name old = n_name (init_node_name blank (drop 2 entries)
       (DIV_ROUND_UP (unat (m2_name_length (meta2_of_bytes (entries ! 1)))) EXFAT_ENAME_MAX))"
  using assms
  by (auto simp: parse_file_entries_def Let_def run_simps init_node_name_def init_node_meta1_def init_node_meta2_def
      split: if_splits dest!: check_node_name)

lemma ask_keeps: "exfat_ask_to_fix ef = (b, ef') \<Longrightarrow> ef_sb ef' = ef_sb ef"
  by (auto simp: exfat_ask_to_fix_def Let_def split: repair.splits prod.splits)

lemma check_checksum_keeps:
  "check_checksum ef node c meta1 = Some (ok, ef', node') \<Longrightarrow>
     (node' = node \<or> node' = node\<lparr>n_is_dirty := True\<rparr>) \<and> ef_sb ef' = ef_sb ef"
  by (auto simp: check_checksum_def Let_def run_simps exfat_fix_invalid_node_checksum_def exfat_errors_fixed_bump_def
      split: if_splits prod.splits dest!: ask_keeps)

lemma report_True: "report node bad ret = Some True \<longleftrightarrow> \<not> bad \<and> ret"
  by (auto simp: report_def run_simps)

lemma check_node_ok:
  assumes "check_node ef node c meta1 = Some (True, ef', node')"
  shows "node_consistent ef node" "node' = node \<or> node' = node\<lparr>n_is_dirty := True\<rparr>"
proof -
  obtain ret1 ret2 ret3 ret4 ret5 ret6 where *: "check_checksum ef node c meta1 = Some (ret1, ef', node')"
    "report node' (n_size node' < n_valid_size node') ret1 = Some ret2"
    "report node' (n_size node' = 0 \<and> n_start_cluster node' \<noteq> EXFAT_CLUSTER_FREE) ret2 = Some ret3"
    "report node' (0 < n_size node' \<and> CLUSTER_INVALID (ef_sb ef') (n_start_cluster node')) ret3 = Some ret4"
    "report node' (ucast (sb_cluster_count (ef_sb ef)) * of_nat (CLUSTER_SIZE (ef_sb ef)) < n_size node') ret4 = Some ret5"
    "report node' (n_size node' = 0 \<and> n_is_contiguous node') ret5 = Some ret6"
    "report node' (is_dir node' \<and> n_size node' mod of_nat (CLUSTER_SIZE (ef_sb ef)) \<noteq> 0) ret6 = Some True"
    using assms unfolding check_node_def Let_def bind_eq_Some_conv split_paired_Ex prod.case option.inject prod.inject by blast
  have 7: "ret6" using *(7) by (simp only: report_True)
  have 6: "ret5" using *(6) 7 by (simp only: report_True)
  have 5: "ret4" using *(5) 6 by (simp only: report_True)
  have 4: "ret3" using *(4) 5 by (simp only: report_True)
  have 3: "ret2" using *(3) 4 by (simp only: report_True)
  have "\<not> n_size node' < n_valid_size node'"
    "\<not> (n_size node' = 0 \<and> n_start_cluster node' \<noteq> EXFAT_CLUSTER_FREE)"
    "\<not> (0 < n_size node' \<and> CLUSTER_INVALID (ef_sb ef') (n_start_cluster node'))"
    "\<not> ucast (sb_cluster_count (ef_sb ef)) * of_nat (CLUSTER_SIZE (ef_sb ef)) < n_size node'"
    "\<not> (n_size node' = 0 \<and> n_is_contiguous node')"
    "\<not> (is_dir node' \<and> n_size node' mod of_nat (CLUSTER_SIZE (ef_sb ef)) \<noteq> 0)"
    using *(2-7) 3 4 5 6 7 by (simp_all only: report_True) blast+
  note checks = this
  have k: "(node' = node \<or> node' = node\<lparr>n_is_dirty := True\<rparr>) \<and> ef_sb ef' = ef_sb ef"
    by (rule check_checksum_keeps [OF *(1)])
  then show "node' = node \<or> node' = node\<lparr>n_is_dirty := True\<rparr>" by blast
  from k have eqs: "n_size node' = n_size node" "n_valid_size node' = n_valid_size node" "is_dir node' = is_dir node"
    "n_start_cluster node' = n_start_cluster node" "n_is_contiguous node' = n_is_contiguous node" "ef_sb ef' = ef_sb ef"
    by (auto simp: is_dir_def)
  show "node_consistent ef node"
    using checks unfolding eqs node_consistent_def not_less word_gt_0 eq_commute [of 0 "n_size node"] by blast
qed

lemma parsed_set_split:
  assumes "parse_file_entries ef blank entries n = Some (0, ef', old)" "length entries = n"
  obtains e0 e1 es where "entries = e0 # e1 # es"
proof -
  obtain k ts where kt: "0 < k" "map entry_type (take n entries) =
      [EXFAT_ENTRY_FILE, EXFAT_ENTRY_FILE_INFO] @ replicate k EXFAT_ENTRY_FILE_NAME @ ts"
    using parse_successD(1) [OF assms(1)] unfolding check_entries_def check_types_None entry_set_def by blast
  have "length (map entry_type (take n entries)) = 2 + k + length ts" unfolding kt(2) by simp
  then have "2 \<le> length entries" using assms(2) by simp
  then show ?thesis using that by (metis One_nat_def Suc_1 Suc_le_length_iff)
qed

lemma check_entries_retyped:
  "entry_type a = entry_type e0 \<Longrightarrow> entry_type b = entry_type e1 \<Longrightarrow> check_entries (a # b # es) n = check_entries (e0 # e1 # es) n"
  by (simp add: check_entries_def take_Cons')

lemma flush_meta2_flags: "m2_flags (flush_meta2 node m) AND NOT (EXFAT_FLAG_ALWAYS1 OR EXFAT_FLAG_CONTIGUOUS) = 0"
proof -
  have "m2_flags (flush_meta2 node m) = EXFAT_FLAG_ALWAYS1 OR EXFAT_FLAG_CONTIGUOUS \<or> m2_flags (flush_meta2 node m) = EXFAT_FLAG_ALWAYS1"
    by (simp add: flush_meta2_def)
  then show ?thesis using flags_known by metis
qed

text \<open>The node that is read from entries that were updated for \<open>node\<close>.\<close>

lemma flushed_node_fields:
  fixes tz node first second es c blank count
  defines "N \<equiv> init_node_name (init_node_meta2 (init_node_meta1 tz blank ((flush_meta1 tz node (meta1_of_bytes first))\<lparr>m1_checksum := c\<rparr>))
      (flush_meta2 node (meta2_of_bytes second))) es count"
  shows "n_attrib N = n_attrib node" "n_size N = n_size node" "n_valid_size N = n_valid_size node" "n_start_cluster N = n_start_cluster node"
    "n_name N = n_name (init_node_name blank es count)"
    "tz = - k * 900 \<Longrightarrow> - 64 \<le> k \<Longrightarrow> k < 64 \<Longrightarrow> representable tz (n_mtime node) \<Longrightarrow> n_mtime N = n_mtime node"
    "node_consistent ef node \<Longrightarrow> n_is_contiguous N = n_is_contiguous node"
proof -
  show "n_attrib N = n_attrib node" "n_size N = n_size node" "n_valid_size N = n_valid_size node" "n_start_cluster N = n_start_cluster node"
    "n_name N = n_name (init_node_name blank es count)"
    by (simp_all add: N_def init_node_name_def init_node_meta1_def init_node_meta2_def flush_meta1_fields flush_meta2_def)
  show "n_mtime N = n_mtime node" if "tz = - k * 900" "- 64 \<le> k" "k < 64" "representable tz (n_mtime node)"
    using unix_exfat_roundtrip [OF that(4,1,2,3)] flush_meta1_mtime [of tz tz node "meta1_of_bytes first"]
    by (simp add: N_def init_node_name_def init_node_meta1_def init_node_meta2_def split: prod.splits)
  show "n_is_contiguous N = n_is_contiguous node" if "node_consistent ef node"
    using that flags_known by (auto simp: N_def init_node_name_def init_node_meta2_def flush_meta2_def node_consistent_def)
qed

text \<open>
  C20: writing a node back and reading it again.  Take any entry set that parses to a node, and any node of
  the same number of entries that passes the consistency checks: after \<^verbatim>\<open>exfat_flush_node\<close> has updated the
  entries, parsing them succeeds and returns the attributes, sizes, first cluster, contiguity and
  modification time of the node, with the name that the entries had.
\<close>

theorem flush_then_parse:
  assumes "\<forall>e \<in> set entries. length e = 32" "length entries = n" "n = 1 + unat (n_continuations node)"
    "parse_file_entries ef blank entries n = Some (0, ef', old)"
    "h_timezone (ef_host ef) = - k * 900" "- 64 \<le> k" "k < 64"
    "representable (h_timezone (ef_host ef)) (n_mtime node)" "node_consistent ef node"
  shows "\<exists>node'. parse_file_entries ef blank (flush_entries (h_timezone (ef_host ef)) node entries) n = Some (0, ef, node') \<and>
    n_attrib node' = n_attrib node \<and> n_size node' = n_size node \<and> n_valid_size node' = n_valid_size node \<and>
    n_start_cluster node' = n_start_cluster node \<and> n_is_contiguous node' = n_is_contiguous node \<and>
    n_mtime node' = n_mtime node \<and> n_name node' = n_name old"
proof -
  let ?tz = "h_timezone (ef_host ef)"
  obtain e0 e1 es where e: "entries = e0 # e1 # es" using parsed_set_split [OF assms(4,2)] .
  define m1 where "m1 = flush_meta1 ?tz node (meta1_of_bytes e0)"
  define m2 where "m2 = flush_meta2 node (meta2_of_bytes e1)"
  define c where "c = exfat_calc_checksum (bytes_of_meta1 m1 # bytes_of_meta2 m2 # es) n"
  define m1' where "m1' = m1\<lparr>m1_checksum := c\<rparr>"
  let ?mand = "DIV_ROUND_UP (unat (m2_name_length (meta2_of_bytes e1))) EXFAT_ENAME_MAX"
  define N where "N = init_node_name (init_node_meta2 (init_node_meta1 ?tz blank m1') m2) es ?mand"
  note old = parse_successD [OF assms(4)]
  have fl: "flush_entries ?tz node entries = bytes_of_meta1 m1' # bytes_of_meta2 m2 # es"
    using flush_entries_eq [OF assms(3)] by (simp add: m1_def m2_def c_def m1'_def e)
  have l7: "length (m1_unknown2 m1) = 7" "length (m1_unknown2 m1') = 7" "length (m2_unknown3 m2) = 4"
    using assms(1) by (simp_all add: e m1_def m1'_def m2_def flush_meta1_fields flush_meta2_def length_m1_unknown2 length_m2_unknown3)
  have r: "meta1_of_bytes (bytes_of_meta1 m1') = m1'" "meta2_of_bytes (bytes_of_meta2 m2) = m2"
    using l7 by (simp_all add: meta1_of_bytes_of_meta1 meta2_of_bytes_of_meta2)
  have sum: "exfat_calc_checksum (bytes_of_meta1 m1' # bytes_of_meta2 m2 # es) n = c"
    using checksum_ignores_itself [OF l7(1), of c] by (simp add: m1'_def c_def)
  have "entry_type (bytes_of_meta1 m1') = entry_type e0" "entry_type (bytes_of_meta2 m2) = entry_type e1"
    by (simp_all add: entry_type_meta1 entry_type_meta2 m1'_def m1_def m2_def flush_meta1_fields flush_meta2_def)
      (simp_all add: meta1_of_bytes_def meta2_of_bytes_def entry_type_def)
  then have chk: "check_entries (bytes_of_meta1 m1' # bytes_of_meta2 m2 # es) n" using check_entries_retyped old(1) unfolding e by metis
  note N = flushed_node_fields [where tz = ?tz and blank = blank and node = node and first = e0 and second = e1 and c = c and es = es and count = ?mand, folded m1_def m2_def, folded m1'_def, folded N_def]
  have mtime: "n_mtime N = n_mtime node" by (rule N(6) [OF assms(5-8)])
  have contig: "n_is_contiguous N = n_is_contiguous node" by (rule N(7) [OF assms(9)])
  have "node_consistent ef N" using assms(9) N(1-4) contig by (simp add: node_consistent_def is_dir_def)
  then have "check_node ef N c m1' = Some (True, ef, N)" by (rule check_node_consistent) (simp add: m1'_def)
  moreover have cont: "m1_continuations m1' = m1_continuations (meta1_of_bytes e0)" "m2_name_length m2 = m2_name_length (meta2_of_bytes e1)"
    by (simp_all add: m1'_def m1_def m2_def flush_meta1_fields flush_meta2_def)
  moreover have "\<not> m1_continuations m1' < 2" "\<not> unat (m1_continuations m1') < 1 + ?mand" using old(2,3) cont by (simp_all add: e)
  moreover have "m2_flags m2 AND NOT (EXFAT_FLAG_ALWAYS1 OR EXFAT_FLAG_CONTIGUOUS) = 0" unfolding m2_def by (rule flush_meta2_flags)
  ultimately have "parse_file_entries ef blank (flush_entries ?tz node entries) n = Some (0, ef, N)"
    unfolding fl using chk by (simp add: parse_file_entries_def Let_def r sum flip: N_def)
  then show ?thesis using N(1-5) mtime contig old(4) by (simp add: e)
qed

lemma parse_success_node:
  assumes "parse_file_entries ef blank entries n = Some (0, ef', old)"
  defines "node \<equiv> init_node_meta2 (init_node_meta1 (h_timezone (ef_host ef)) blank (meta1_of_bytes (entries ! 0)))
      (meta2_of_bytes (entries ! 1))"
  shows "node_consistent ef node" "n_attrib old = n_attrib node" "n_size old = n_size node"
    "n_valid_size old = n_valid_size node" "n_start_cluster old = n_start_cluster node"
    "n_is_contiguous old = n_is_contiguous node" "n_mtime old = n_mtime node" "n_atime old = n_atime node"
    "m2_flags (meta2_of_bytes (entries ! 1)) AND NOT (EXFAT_FLAG_ALWAYS1 OR EXFAT_FLAG_CONTIGUOUS) = 0"
proof -
  let ?mand = "2 + DIV_ROUND_UP (unat (m2_name_length (meta2_of_bytes (entries ! 1)))) EXFAT_ENAME_MAX"
  let ?N = "init_node_name node (drop 2 entries) (?mand - 2)"
  have "check_node ef ?N (exfat_calc_checksum entries n) (meta1_of_bytes (entries ! 0)) = Some (True, ef', old)"
    and flags: "m2_flags (meta2_of_bytes (entries ! 1)) AND NOT (EXFAT_FLAG_ALWAYS1 OR EXFAT_FLAG_CONTIGUOUS) = 0"
    using assms(1) unfolding parse_file_entries_def Let_def node_def
    by (auto simp: run_simps simp del: bit.de_Morgan_disj split: if_splits)
  note ok = check_node_ok [OF this(1)]
  have "n_attrib ?N = n_attrib node" "n_size ?N = n_size node" "n_valid_size ?N = n_valid_size node"
    "n_start_cluster ?N = n_start_cluster node" "n_is_contiguous ?N = n_is_contiguous node"
    "n_mtime ?N = n_mtime node" "n_atime ?N = n_atime node"
    by (simp_all add: init_node_name_def)
  then show "node_consistent ef node" "n_attrib old = n_attrib node" "n_size old = n_size node"
    "n_valid_size old = n_valid_size node" "n_start_cluster old = n_start_cluster node"
    "n_is_contiguous old = n_is_contiguous node" "n_mtime old = n_mtime node" "n_atime old = n_atime node"
    using ok by (auto simp: node_consistent_def is_dir_def)
  show "m2_flags (meta2_of_bytes (entries ! 1)) AND NOT (EXFAT_FLAG_ALWAYS1 OR EXFAT_FLAG_CONTIGUOUS) = 0" by (rule flags)
qed

text \<open>The entries of a set of this kind, read back one by one.\<close>

lemma named_set_entries:
  assumes "length (m1_unknown2 meta1) = 7" "length (m2_unknown3 meta2) = 4"
  shows "meta1_of_bytes (named_set meta1 meta2 name ! 0) = meta1\<lparr>m1_checksum := m1_checksum (meta1_of_bytes (named_set meta1 meta2 name ! 0))\<rparr>"
    "meta2_of_bytes (named_set meta1 meta2 name ! 1) = meta2"
    "drop 2 (named_set meta1 meta2 name) = map (name_entry name) [0..<DIV_ROUND_UP (exfat_utf16_length name) EXFAT_ENAME_MAX]"
  using assms by (simp_all add: named_set_def Let_def meta1_of_bytes_of_meta1 meta2_of_bytes_of_meta2 numeral_2_eq_2)

text \<open>
  C22: renaming keeps everything but the name in the two entries that describe the file.  When an entry set parses to a node, the entry set that
  \<^verbatim>\<open>rename_entry\<close> builds from its first two entries and a new name parses to a node with the new name and
  the old attributes, sizes, clusters and times.  In the entries themselves only the number of entries and the checksum of the first differ
  (its creation time, for instance, is the old one), and the length and the hash of the name in the second.  Behind them come the entries of the
  new name and nothing else: vendor entries at the end of the old set, which \<^verbatim>\<open>check_entries\<close> accepts, are lost.
\<close>

theorem rename_then_parse:
  assumes "parse_file_entries ef blank entries n = Some (0, ef', old)" "\<forall>e \<in> set entries. length e = 32"
    "length entries = n" "name_ok name" "n_name blank = replicate (EXFAT_NAME_MAX + 1) 0"
  shows "(\<exists>node. parse_file_entries ef blank (rename_entries upcase name (take 2 entries)) (name_slots name) = Some (0, ef, node) \<and>
    n_name node = name \<and> n_attrib node = n_attrib old \<and> n_size node = n_size old \<and> n_valid_size node = n_valid_size old \<and>
    n_start_cluster node = n_start_cluster old \<and> n_is_contiguous node = n_is_contiguous old \<and>
    n_mtime node = n_mtime old \<and> n_atime node = n_atime old) \<and>
    meta1_of_bytes (rename_entries upcase name (take 2 entries) ! 0) = (meta1_of_bytes (entries ! 0))
       \<lparr>m1_continuations := of_nat (name_slots name - 1),
        m1_checksum := m1_checksum (meta1_of_bytes (rename_entries upcase name (take 2 entries) ! 0))\<rparr> \<and>
    meta2_of_bytes (rename_entries upcase name (take 2 entries) ! 1) = (meta2_of_bytes (entries ! 1))
       \<lparr>m2_name_length := of_nat (exfat_utf16_length name), m2_name_hash := exfat_calc_name_hash upcase name (exfat_utf16_length name)\<rparr> \<and>
    drop 2 (rename_entries upcase name (take 2 entries)) =
       map (name_entry name) [0..<DIV_ROUND_UP (exfat_utf16_length name) EXFAT_ENAME_MAX]"
proof (intro conjI)
  note p = parse_success_node [OF assms(1)]
  obtain k ts where kt: "map entry_type (take n entries) =
      [EXFAT_ENTRY_FILE, EXFAT_ENTRY_FILE_INFO] @ replicate k EXFAT_ENTRY_FILE_NAME @ ts"
    using parse_successD(1) [OF assms(1)] unfolding check_entries_def check_types_None entry_set_def by blast
  then obtain e0 e1 es where e: "entries = e0 # e1 # es" "entry_type e0 = EXFAT_ENTRY_FILE" "entry_type e1 = EXFAT_ENTRY_FILE_INFO"
    using assms(3) by (auto simp: map_eq_Cons_conv)
  let ?m1 = "(meta1_of_bytes e0)\<lparr>m1_continuations := of_nat (name_slots name - 1)\<rparr>"
  let ?m2 = "(meta2_of_bytes e1)\<lparr>m2_name_length := of_nat (exfat_utf16_length name),
          m2_name_hash := exfat_calc_name_hash upcase name (exfat_utf16_length name)\<rparr>"
  let ?n = "init_node_meta2 (init_node_meta1 (h_timezone (ef_host ef)) blank ?m1) ?m2"
  have eq: "?n = (init_node_meta2 (init_node_meta1 (h_timezone (ef_host ef)) blank (meta1_of_bytes (entries ! 0)))
      (meta2_of_bytes (entries ! 1)))\<lparr>n_continuations := of_nat (name_slots name - 1)\<rparr>"
    by (simp add: init_node_meta1_def init_node_meta2_def e(1))
  have l: "length e0 = 32" "length e1 = 32" using assms(2) e(1) by simp_all
  have con: "node_consistent ef ?n" unfolding eq using p(1) by (simp add: node_consistent_def is_dir_def)
  have "parse_file_entries ef blank (named_set ?m1 ?m2 name) (name_slots name) = Some (0, ef, ?n\<lparr>n_name := name\<rparr>)"
  proof (rule parse_named_set_ok [OF assms(4) _ _ _ _ _ _ _ assms(5) con])
    show "length (m1_unknown2 ?m1) = 7" "length (m2_unknown3 ?m2) = 4"
      using l by (simp_all add: length_m1_unknown2 length_m2_unknown3)
    show "m1_type ?m1 = EXFAT_ENTRY_FILE" "m2_type ?m2 = EXFAT_ENTRY_FILE_INFO"
      using e(2,3) by (simp_all add: meta1_of_bytes_def meta2_of_bytes_def entry_type_def)
    show "m2_flags ?m2 AND NOT (EXFAT_FLAG_ALWAYS1 OR EXFAT_FLAG_CONTIGUOUS) = 0"
      using p(9) unfolding e(1) nth_Cons_0 One_nat_def nth_Cons_Suc by simp
  qed simp_all
  then show "\<exists>node. parse_file_entries ef blank (rename_entries upcase name (take 2 entries)) (name_slots name) = Some (0, ef, node) \<and>
    n_name node = name \<and> n_attrib node = n_attrib old \<and> n_size node = n_size old \<and> n_valid_size node = n_valid_size old \<and>
    n_start_cluster node = n_start_cluster old \<and> n_is_contiguous node = n_is_contiguous old \<and>
    n_mtime node = n_mtime old \<and> n_atime node = n_atime old"
    using p(2-8) unfolding eq by (simp add: rename_entries_named e(1))
  have "length (m1_unknown2 ?m1) = 7" "length (m2_unknown3 ?m2) = 4" using l by (simp_all add: length_m1_unknown2 length_m2_unknown3)
  note n = named_set_entries [OF this, of name]
  have r: "rename_entries upcase name (take 2 entries) = named_set ?m1 ?m2 name" by (simp add: rename_entries_named e(1))
  show "meta1_of_bytes (rename_entries upcase name (take 2 entries) ! 0) = (meta1_of_bytes (entries ! 0))
       \<lparr>m1_continuations := of_nat (name_slots name - 1),
        m1_checksum := m1_checksum (meta1_of_bytes (rename_entries upcase name (take 2 entries) ! 0))\<rparr>"
    using n(1) unfolding r by (simp add: e(1))
  show "meta2_of_bytes (rename_entries upcase name (take 2 entries) ! 1) = (meta2_of_bytes (entries ! 1))
       \<lparr>m2_name_length := of_nat (exfat_utf16_length name), m2_name_hash := exfat_calc_name_hash upcase name (exfat_utf16_length name)\<rparr>"
    using n(2) unfolding r by (simp add: e(1))
  show "drop 2 (rename_entries upcase name (take 2 entries)) =
       map (name_entry name) [0..<DIV_ROUND_UP (exfat_utf16_length name) EXFAT_ENAME_MAX]"
    using n(3) unfolding r .
qed

end
