(* ===== verification/Links.thy ===== *)
theory Links
  imports Namespace
begin

text \<open>
  The links between the nodes of a directory: a doubly linked list of children, which \<^verbatim>\<open>tree_attach\<close> and
  \<^verbatim>\<open>tree_detach\<close> keep.  The interface that the operations rely on is the locale \<open>child_list\<close>.
\<close>

section \<open>The interface\<close>

locale child_list =
  fixes kids :: "'s \<Rightarrow> 'a \<Rightarrow> 'a list \<Rightarrow> bool"
    and loose :: "'s \<Rightarrow> 'a \<Rightarrow> bool"
    and attach :: "'s \<Rightarrow> 'a \<Rightarrow> 'a \<Rightarrow> 's option"
    and detach :: "'s \<Rightarrow> 'a \<Rightarrow> 's option"
  assumes kids_distinct: "kids s d xs \<Longrightarrow> distinct xs \<and> d \<notin> set xs"
    and attach_kids: "kids s d xs \<Longrightarrow> loose s a \<Longrightarrow> a \<notin> set xs \<Longrightarrow> a \<noteq> d \<Longrightarrow> \<exists>s'. attach s d a = Some s' \<and> kids s' d (a # xs)"
    and attach_frame: "kids s d xs \<Longrightarrow> loose s a \<Longrightarrow> a \<notin> set xs \<Longrightarrow> a \<noteq> d \<Longrightarrow> attach s d a = Some s' \<Longrightarrow>
      kids s e ys \<Longrightarrow> e \<noteq> d \<Longrightarrow> set xs \<inter> set ys = {} \<Longrightarrow> a \<notin> set ys \<Longrightarrow> kids s' e ys"
    and detach_kids: "kids s d (xs @ a # ys) \<Longrightarrow> \<exists>s'. detach s a = Some s' \<and> kids s' d (xs @ ys) \<and> loose s' a"
    and detach_frame: "kids s d (xs @ a # ys) \<Longrightarrow> detach s a = Some s' \<Longrightarrow>
      kids s e zs \<Longrightarrow> e \<noteq> d \<Longrightarrow> set (xs @ a # ys) \<inter> set zs = {} \<Longrightarrow> kids s' e zs"
begin

text \<open>Moving a node to the front of its own directory.\<close>

lemma move_front:
  assumes "kids s d (xs @ a # ys)"
  shows "\<exists>s'. Option.bind (detach s a) (\<lambda>s. attach s d a) = Some s' \<and> kids s' d (a # xs @ ys)"
proof -
  obtain s1 where s1: "detach s a = Some s1" "kids s1 d (xs @ ys)" "loose s1 a" using detach_kids [OF assms] by blast
  moreover have "a \<notin> set (xs @ ys)" "a \<noteq> d" using kids_distinct [OF assms] by auto
  ultimately show ?thesis using attach_kids [of s1 d "xs @ ys" a] by auto
qed

text \<open>Moving a node to another directory, which may be one of its siblings.\<close>

lemma move_across:
  assumes "kids s d (xs @ a # ys)" "kids s e zs" "e \<noteq> d" "e \<noteq> a" "set (xs @ a # ys) \<inter> set zs = {}"
  shows "\<exists>s'. Option.bind (detach s a) (\<lambda>s. attach s e a) = Some s' \<and> kids s' e (a # zs) \<and> kids s' d (xs @ ys)"
proof -
  obtain s1 where s1: "detach s a = Some s1" "kids s1 d (xs @ ys)" "loose s1 a" using detach_kids [OF assms(1)] by blast
  have e1: "kids s1 e zs" by (rule detach_frame [OF assms(1) s1(1) assms(2,3,5)])
  have az: "a \<notin> set zs" "a \<noteq> e" using assms(4,5) by auto
  obtain s2 where s2: "attach s1 e a = Some s2" "kids s2 e (a # zs)"
    using attach_kids [OF e1 s1(3) az] by auto
  have "a \<notin> set (xs @ ys)" using kids_distinct [OF assms(1)] by auto
  then have "kids s2 d (xs @ ys)"
    using attach_frame [OF e1 s1(3) az s2(1) s1(2)] assms(3,5) by auto
  then show ?thesis using s1 s2 by auto
qed

end

section \<open>The list of children\<close>

text \<open>The two neighbours of position \<open>i\<close> of a list.\<close>

definition prev_at :: "'a list \<Rightarrow> nat \<Rightarrow> 'a option" where
  "prev_at xs i = (if i = 0 then None else Some (xs ! (i - 1)))"

definition next_at :: "'a list \<Rightarrow> nat \<Rightarrow> 'a option" where
  "next_at xs i = (if Suc i < length xs then Some (xs ! Suc i) else None)"

definition linked :: "exfat_node \<Rightarrow> addr \<Rightarrow> addr list \<Rightarrow> nat \<Rightarrow> bool" where
  "linked n d xs i \<longleftrightarrow> n_parent n = Some d \<and> n_prev n = prev_at xs i \<and> n_next n = next_at xs i"

definition first_of :: "'a list \<Rightarrow> 'a option" where
  "first_of xs = (if xs = [] then None else Some (xs ! 0))"

text \<open>\<open>children ef d xs\<close>: the list that starts at the child pointer of \<open>d\<close> is \<open>xs\<close>, linked in both directions.\<close>

definition children :: "exfat \<Rightarrow> addr \<Rightarrow> addr list \<Rightarrow> bool" where
  "children ef d xs \<longleftrightarrow> distinct xs \<and> d \<notin> set xs \<and>
     (\<exists>n. ef_nodes ef d = Some n \<and> n_child n = first_of xs) \<and>
     (\<forall>i < length xs. \<exists>n. ef_nodes ef (xs ! i) = Some n \<and> linked n d xs i)"

definition loose :: "exfat \<Rightarrow> addr \<Rightarrow> bool" where
  "loose ef a \<longleftrightarrow> (case ef_nodes ef a of None \<Rightarrow> False | Some n \<Rightarrow> n_prev n = None \<and> n_next n = None)"

lemma nodes_upd [simp]:
  "ef_nodes (set_node ef a n) = (ef_nodes ef)(a \<mapsto> n)" "ef_nodes (free_node ef a) = (ef_nodes ef)(a := None)"
  by (simp_all add: set_node_def free_node_def)

lemma upd_node_Some: "ef_nodes ef a = Some n \<Longrightarrow> upd_node ef a f = Some (set_node ef a (f n))"
  by (simp add: upd_node_def)

definition links :: "exfat_node \<Rightarrow> addr option \<times> addr option \<times> addr option" where
  "links n = (n_parent n, n_prev n, n_next n)"

definition bare :: "exfat_node \<Rightarrow> exfat_node" where
  "bare n = n\<lparr>n_parent := None, n_child := None, n_next := None, n_prev := None\<rparr>"

text \<open>\<open>relinked ef ef' D L\<close>: the volumes differ in the child pointers of \<open>D\<close> and the sibling links of \<open>L\<close> only.\<close>

definition relinked :: "exfat \<Rightarrow> exfat \<Rightarrow> addr set \<Rightarrow> addr set \<Rightarrow> bool" where
  "relinked ef ef' D L \<longleftrightarrow> (\<exists>h. ef' = ef\<lparr>ef_nodes := h\<rparr>) \<and>
     (\<forall>b. map_option bare (ef_nodes ef' b) = map_option bare (ef_nodes ef b)) \<and>
     (\<forall>b. b \<notin> D \<longrightarrow> map_option n_child (ef_nodes ef' b) = map_option n_child (ef_nodes ef b)) \<and>
     (\<forall>b. b \<notin> L \<longrightarrow> map_option links (ef_nodes ef' b) = map_option links (ef_nodes ef b))"

lemma children_alt:
  "children ef d xs \<longleftrightarrow> distinct xs \<and> d \<notin> set xs \<and> map_option n_child (ef_nodes ef d) = Some (first_of xs) \<and>
     (\<forall>i < length xs. map_option links (ef_nodes ef (xs ! i)) = Some (Some d, prev_at xs i, next_at xs i))"
  by (auto simp: children_def links_def linked_def)

lemma children_frame:
  assumes "relinked ef ef' D L" "children ef d xs" "d \<notin> D" "set xs \<inter> L = {}"
  shows "children ef' d xs"
proof -
  have "x \<notin> L" if "x \<in> set xs" for x using assms(4) that by auto
  then show ?thesis using assms(1-3) unfolding children_alt relinked_def by simp
qed

text \<open>Only the links of the children and the child pointer of the directory matter.\<close>

lemma childrenI:
  assumes "distinct xs" "d \<notin> set xs" "ef_nodes ef d = Some n" "n_child n = first_of xs"
    "\<And>i. i < length xs \<Longrightarrow> \<exists>n. ef_nodes ef (xs ! i) = Some n \<and> linked n d xs i"
  shows "children ef d xs"
  using assms by (auto simp: children_def)

lemma attach_run:
  assumes "children ef d xs" "a \<noteq> d" "a \<notin> set xs" "ef_nodes ef a = Some n" "n_prev n = None" "n_next n = None"
  shows "\<exists>ef'. tree_attach ef d a = Some ef' \<and> children ef' d (a # xs) \<and> relinked ef ef' {d} (insert a (set xs))"
proof -
  obtain dn where d: "ef_nodes ef d = Some dn" "n_child dn = first_of xs" using assms(1) by (auto simp: children_def)
  have dx: "distinct xs" "d \<notin> set xs" using assms(1) by (auto simp: children_def)
  show ?thesis
  proof (cases xs)
    case Nil
    let ?ef = "set_node (set_node ef a (n\<lparr>n_parent := Some d\<rparr>)) d (dn\<lparr>n_child := Some a\<rparr>)"
    have "tree_attach ef d a = Some ?ef"
      using d assms(2,4) Nil by (simp add: tree_attach_def upd_node_def first_of_def)
    moreover have "children ?ef d [a]"
      using assms(2,5,6) by (intro childrenI) (auto simp: first_of_def linked_def prev_at_def next_at_def)
    moreover have "relinked ef ?ef {d} (insert a (set xs))"
      using d(1) assms(2,4) by (auto simp: relinked_def bare_def links_def set_node_def)
    ultimately show ?thesis using Nil by metis
  next
    case (Cons c cs)
    obtain cn where c: "ef_nodes ef c = Some cn" "linked cn d xs 0" using assms(1) Cons by (force simp: children_def)
    have ne: "c \<noteq> a" "c \<noteq> d" using assms(3) dx Cons by auto
    let ?ef = "set_node (set_node (set_node ef a (n\<lparr>n_parent := Some d, n_next := Some c\<rparr>)) c (cn\<lparr>n_prev := Some a\<rparr>))
        d (dn\<lparr>n_child := Some a\<rparr>)"
    have "tree_attach ef d a = Some ?ef"
      using d c(1) ne assms(2,4) Cons by (simp add: tree_attach_def upd_node_def first_of_def set_node_def fun_upd_twist)
    moreover have "children ?ef d (a # xs)"
    proof (rule childrenI)
      show "distinct (a # xs)" "d \<notin> set (a # xs)" using dx assms(2,3) by auto
      show "ef_nodes ?ef d = Some (dn\<lparr>n_child := Some a\<rparr>)" by simp
      show "n_child (dn\<lparr>n_child := Some a\<rparr>) = first_of (a # xs)" by (simp add: first_of_def)
      fix i assume i: "i < length (a # xs)"
      consider "i = 0" | "i = 1" | j where "i = Suc (Suc j)" by (metis One_nat_def not0_implies_Suc)
      then show "\<exists>n. ef_nodes ?ef ((a # xs) ! i) = Some n \<and> linked n d (a # xs) i"
      proof cases
        case 1
        then show ?thesis using ne assms(2,5) Cons by (simp add: linked_def prev_at_def next_at_def)
      next
        case 2
        then show ?thesis using ne c(2) Cons by (simp add: linked_def prev_at_def next_at_def)
      next
        case (3 j)
        then have "Suc j < length xs" using i by simp
        moreover from this have "xs ! Suc j \<noteq> c" using dx(1) Cons nth_eq_iff_index_eq [of xs "Suc j" 0] by auto
        moreover have "xs ! Suc j \<noteq> a" "xs ! Suc j \<noteq> d" using \<open>Suc j < length xs\<close> assms(3) dx(2) nth_mem by metis+
        ultimately show ?thesis using assms(1) 3 by (fastforce simp: children_def linked_def prev_at_def next_at_def)
      qed
    qed
    moreover have "relinked ef ?ef {d} (insert a (set xs))"
      using d(1) c(1) ne assms(2,4) Cons by (auto simp: relinked_def bare_def links_def set_node_def)
    ultimately show ?thesis by blast
  qed
qed

text \<open>Removing position \<open>length xs\<close> from a list: elements and neighbours.\<close>

lemma nth_removed: "i < length (xs @ ys) \<Longrightarrow> (xs @ ys) ! i = (xs @ a # ys) ! (if i < length xs then i else Suc i)"
  by (simp add: nth_append Suc_diff_le)

lemma neighbours_removed:
  assumes "i < length (xs @ ys)"
  defines "k \<equiv> length xs"
  shows "prev_at (xs @ ys) i = (if i = k then prev_at (xs @ a # ys) k else prev_at (xs @ a # ys) (if i < k then i else Suc i))"
    "next_at (xs @ ys) i = (if Suc i = k then next_at (xs @ a # ys) k else next_at (xs @ a # ys) (if i < k then i else Suc i))"
proof -
  show "prev_at (xs @ ys) i = (if i = k then prev_at (xs @ a # ys) k else prev_at (xs @ a # ys) (if i < k then i else Suc i))"
    using assms(1) unfolding k_def
    by (auto simp: prev_at_def nth_append not_less nth_Cons' Suc_diff_le)
  consider "Suc i < k" | "Suc i = k" | "k \<le> i" unfolding k_def by linarith
  then show "next_at (xs @ ys) i = (if Suc i = k then next_at (xs @ a # ys) k else next_at (xs @ a # ys) (if i < k then i else Suc i))"
  proof cases
    case 3
    then have "Suc (Suc i) - length xs = Suc (Suc i - length xs)" unfolding k_def by simp
    with 3 show ?thesis unfolding k_def by (simp add: next_at_def nth_append)
  qed (auto simp: k_def next_at_def nth_append)
qed

lemma around:
  "prev_at (xs @ a # ys) (length xs) = (if xs = [] then None else Some (last xs))" "next_at (xs @ a # ys) (length xs) = first_of ys"
  by (auto simp: prev_at_def next_at_def first_of_def nth_append last_conv_nth)

lemma around_mem: "Some b = prev_at (xs @ a # ys) (length xs) \<Longrightarrow> b \<in> set xs" "Some b = next_at (xs @ a # ys) (length xs) \<Longrightarrow> b \<in> set ys"
  unfolding around by (auto simp: first_of_def split: if_splits)

text \<open>The nodes after \<open>a\<close> has been taken out from between \<open>xs\<close> and \<open>ys\<close>.\<close>

definition unlinked :: "exfat \<Rightarrow> addr \<Rightarrow> addr list \<Rightarrow> addr \<Rightarrow> addr list \<Rightarrow> addr \<Rightarrow> exfat_node option" where
  "unlinked ef d xs a ys b =
     (let prev = prev_at (xs @ a # ys) (length xs); nxt = next_at (xs @ a # ys) (length xs)
      in if b = a then map_option (\<lambda>n. n\<lparr>n_parent := None, n_prev := None, n_next := None\<rparr>) (ef_nodes ef b)
         else if Some b = prev then map_option (\<lambda>n. n\<lparr>n_next := nxt\<rparr>) (ef_nodes ef b)
         else if Some b = nxt then map_option (\<lambda>n. n\<lparr>n_prev := prev\<rparr>) (ef_nodes ef b)
         else if b = d \<and> prev = None then map_option (\<lambda>n. n\<lparr>n_child := nxt\<rparr>) (ef_nodes ef b)
         else ef_nodes ef b)"

lemma children_at: "children ef d xs \<Longrightarrow> i < length xs \<Longrightarrow> \<exists>n. ef_nodes ef (xs ! i) = Some n \<and> linked n d xs i"
  by (simp add: children_def)

lemma detach_unlinks:
  assumes ch: "children ef d (xs @ a # ys)"
  shows "tree_detach ef a = Some (ef\<lparr>ef_nodes := unlinked ef d xs a ys\<rparr>)"
proof -
  have dis: "distinct (xs @ a # ys)" "d \<notin> set (xs @ a # ys)" using ch by (auto simp: children_def)
  obtain dn where dn: "ef_nodes ef d = Some dn" using ch by (auto simp: children_def)
  note at = children_at [OF ch]
  have ex: "\<exists>m. ef_nodes ef b = Some m" if "b \<in> set (xs @ a # ys)" for b using at that by (metis in_set_conv_nth)
  obtain n where n: "ef_nodes ef a = Some n" "linked n d (xs @ a # ys) (length xs)"
    using at [of "length xs"] by (auto simp: nth_append)
  have ln: "n_parent n = Some d" "n_prev n = (if xs = [] then None else Some (last xs))" "n_next n = first_of ys"
    using n(2) by (simp_all add: linked_def around)
  have prev: "\<exists>m. ef_nodes ef (last xs) = Some m" "last xs \<noteq> a" "last xs \<noteq> d" if "xs \<noteq> []" using that ex [of "last xs"] dis by force+
  have nxt: "\<exists>m. ef_nodes ef (ys ! 0) = Some m" "ys ! 0 \<noteq> a" "ys ! 0 \<noteq> d" "xs \<noteq> [] \<Longrightarrow> ys ! 0 \<noteq> last xs" if "ys \<noteq> []"
    using that ex [of "ys ! 0"] dis nth_mem [of 0 ys] last_in_set [of xs] by force+
  have "d \<noteq> a" using dis by simp
  then show ?thesis
    using ln n(1) dn prev nxt unfolding tree_detach_def unlinked_def around Let_def
    by (cases "xs = []"; cases "ys = []") (auto simp: upd_node_def first_of_def set_node_def fun_eq_iff)
qed

lemma unlinked_children:
  assumes ch: "children ef d (xs @ a # ys)"
  shows "children (ef\<lparr>ef_nodes := unlinked ef d xs a ys\<rparr>) d (xs @ ys)"
proof -
  let ?L = "xs @ a # ys" and ?k = "length xs"
  have dis: "distinct ?L" "d \<notin> set ?L" using ch by (auto simp: children_def)
  obtain dn where dn: "ef_nodes ef d = Some dn" "n_child dn = first_of ?L" using ch by (auto simp: children_def)
  show ?thesis
  proof (rule childrenI)
    show "distinct (xs @ ys)" "d \<notin> set (xs @ ys)" using dis by auto
    show "ef_nodes (ef\<lparr>ef_nodes := unlinked ef d xs a ys\<rparr>) d = Some (if prev_at ?L ?k = None then dn\<lparr>n_child := next_at ?L ?k\<rparr> else dn)"
      using dis dn(1) around_mem [of d xs a ys] by (auto simp: unlinked_def Let_def)
    show "n_child (if prev_at ?L ?k = None then dn\<lparr>n_child := next_at ?L ?k\<rparr> else dn) = first_of (xs @ ys)"
      using dn(2) unfolding around by (auto simp: first_of_def nth_append)
    fix i assume i: "i < length (xs @ ys)"
    let ?j = "if i < ?k then i else Suc i"
    have j: "?j < length ?L" "(xs @ ys) ! i = ?L ! ?j" "?j \<noteq> ?k" using i nth_removed [OF i] by auto
    obtain m where m: "ef_nodes ef (?L ! ?j) = Some m" "linked m d ?L ?j" using ch j(1) by (auto simp: children_def)
    have inj: "?L ! ?j = ?L ! l \<longleftrightarrow> ?j = l" if "l < length ?L" for l
      using dis(1) j(1) that by (rule nth_eq_iff_index_eq)
    have pa: "Some (?L ! ?j) = prev_at ?L ?k \<longleftrightarrow> Suc i = ?k" using inj [of "?k - 1"] j(3) by (auto simp: prev_at_def)
    have na: "Some (?L ! ?j) = next_at ?L ?k \<longleftrightarrow> i = ?k" using inj [of "Suc ?k"] i j(1,3) by (auto simp: next_at_def)
    have ne: "?L ! ?j \<noteq> a" "?L ! ?j \<noteq> d" using inj [of ?k] j(1,3) dis(2) nth_mem [OF j(1)] by (auto simp: nth_append)
    show "\<exists>m. ef_nodes (ef\<lparr>ef_nodes := unlinked ef d xs a ys\<rparr>) ((xs @ ys) ! i) = Some m \<and> linked m d (xs @ ys) i"
      using m ne neighbours_removed [OF i, of a] pa na unfolding j(2)
      by (auto simp: unlinked_def Let_def linked_def split: if_splits)
  qed
qed

lemma detach_run:
  assumes ch: "children ef d (xs @ a # ys)"
  shows "\<exists>ef'. tree_detach ef a = Some ef' \<and> children ef' d (xs @ ys) \<and> loose ef' a \<and> relinked ef ef' {d} (set (xs @ a # ys))"
proof -
  let ?h = "unlinked ef d xs a ys"
  have "\<exists>n. ef_nodes ef a = Some n" using children_at [OF ch, of "length xs"] by (auto simp: nth_append)
  then have "loose (ef\<lparr>ef_nodes := ?h\<rparr>) a" by (auto simp: loose_def unlinked_def Let_def)
  moreover have "map_option bare (?h b) = map_option bare (ef_nodes ef b)" for b
    by (cases "ef_nodes ef b") (auto simp: unlinked_def Let_def bare_def)
  moreover have "map_option n_child (?h b) = map_option n_child (ef_nodes ef b)" if "b \<noteq> d" for b
    using that by (cases "ef_nodes ef b") (auto simp: unlinked_def Let_def)
  moreover have "map_option links (?h b) = map_option links (ef_nodes ef b)" if "b \<notin> set (xs @ a # ys)" for b
    using that around_mem [of b xs a ys] by (cases "ef_nodes ef b") (auto simp: unlinked_def Let_def links_def)
  ultimately show ?thesis using detach_unlinks [OF ch] unlinked_children [OF ch] by (auto simp: relinked_def)
qed

interpretation tree: child_list children loose tree_attach tree_detach
proof
  show "children s d xs \<Longrightarrow> distinct xs \<and> d \<notin> set xs" for s d xs by (simp add: children_def)
next
  fix s d xs a assume a: "children s d xs" "loose s a" "a \<notin> set xs" "a \<noteq> d"
  then have "\<exists>s'. tree_attach s d a = Some s' \<and> children s' d (a # xs) \<and> relinked s s' {d} (insert a (set xs))"
    using attach_run [of s d xs a] by (auto simp: loose_def split: option.splits)
  then obtain s' where s': "tree_attach s d a = Some s'" "children s' d (a # xs)" "relinked s s' {d} (insert a (set xs))" by blast
  then show "\<exists>s'. tree_attach s d a = Some s' \<and> children s' d (a # xs)" by blast
  fix e ys t assume t: "tree_attach s d a = Some t" and e: "children s e ys" "e \<noteq> d" "set xs \<inter> set ys = {}" "a \<notin> set ys"
  then show "children t e ys" using children_frame [OF s'(3) e(1)] s'(1) by auto
next
  fix s d xs a ys assume a: "children s d (xs @ a # ys)"
  then obtain s' where s': "tree_detach s a = Some s'" "children s' d (xs @ ys)" "loose s' a" "relinked s s' {d} (set (xs @ a # ys))"
    using detach_run by blast
  then show "\<exists>s'. tree_detach s a = Some s' \<and> children s' d (xs @ ys) \<and> loose s' a" by blast
  fix t e zs assume t: "tree_detach s a = Some t" and e: "children s e zs" "e \<noteq> d" "set (xs @ a # ys) \<inter> set zs = {}"
  then show "children t e zs" using children_frame [OF s'(4) e(1)] s'(1) by auto
qed

section \<open>Properties\<close>

text \<open>
  attaching a node that is in no list puts it in front of the children of the directory; nothing but the
  links of the directory, of the node and of its new neighbour changes.
\<close>

theorem attach_inserts:
  assumes "children ef d xs" "loose ef a" "a \<notin> set xs" "a \<noteq> d"
  shows "\<exists>ef'. tree_attach ef d a = Some ef' \<and> children ef' d (a # xs) \<and> relinked ef ef' {d} (insert a (set xs))"
  using attach_run [OF assms(1,4,3)] assms(2) by (auto simp: loose_def split: option.splits)

text \<open>
  Detaching a node removes it from the list of its directory wherever it stands in the list, and leaves
  the order of the others; nothing but links changes.
\<close>

theorem detach_removes:
  assumes "children ef d (xs @ a # ys)"
  shows "\<exists>ef'. tree_detach ef a = Some ef' \<and> children ef' d (xs @ ys) \<and> loose ef' a \<and>
    relinked ef ef' {d} (set (xs @ a # ys))"
  using detach_run [OF assms] .

text \<open>
  C23: a rename that moves a node, which detaches it and attaches it to the new directory, takes it out of
  one list and puts it in front of the other, also when the new directory is a sibling of the node.
\<close>

theorem move_between_directories:
  assumes "children ef d (xs @ a # ys)" "children ef e zs" "e \<noteq> d" "e \<noteq> a" "set (xs @ a # ys) \<inter> set zs = {}"
  shows "\<exists>ef'. Option.bind (tree_detach ef a) (\<lambda>ef. tree_attach ef e a) = Some ef' \<and>
    children ef' e (a # zs) \<and> children ef' d (xs @ ys)"
  by (rule tree.move_across [OF assms])

end
