(* ===== verification/Resolve.thy ===== *)
theory Resolve
  imports Links
begin

text \<open>
  What \<^verbatim>\<open>libexfat/lookup.c\<close> computes: the comparison of names is equality after case folding, and resolving a
  path walks the tree of cached directories and leaves one reference on the node it returns.
\<close>

section \<open>Comparing names\<close>

definition same_name :: "(u16 \<Rightarrow> u16) \<Rightarrow> u16 list \<Rightarrow> u16 list \<Rightarrow> bool" where
  "same_name up a b \<longleftrightarrow> map up (takeWhile (\<lambda>u. u \<noteq> 0) a) = map up (takeWhile (\<lambda>u. u \<noteq> 0) b)"

text \<open>A case table maps the terminator, and only the terminator, to itself.\<close>

definition case_table :: "(u16 \<Rightarrow> u16) \<Rightarrow> bool" where
  "case_table up \<longleftrightarrow> (\<forall>c. up c = 0 \<longleftrightarrow> c = 0)"

lemma compare_char_zero: "compare_char up a b = 0 \<longleftrightarrow> up a = up b"
  by (simp add: compare_char_def word_uint_eq_iff)

lemma compare_name_same:
  "case_table up \<Longrightarrow> 0 \<in> set a \<Longrightarrow> 0 \<in> set b \<Longrightarrow> \<exists>r. compare_name up a b = Some r \<and> (r = 0 \<longleftrightarrow> same_name up a b)"
proof (induction up a b rule: compare_name.induct)
  case (1 up a as b bs)
  note z = \<open>case_table up\<close> [unfolded case_table_def]
  show ?case
  proof (cases "a \<noteq> 0 \<and> b \<noteq> 0 \<and> compare_char up a b = 0")
    case True
    then have "0 \<in> set as" "0 \<in> set bs" using 1(3,4) by auto
    then obtain r where "compare_name up as bs = Some r" "r = 0 \<longleftrightarrow> same_name up as bs"
      using True 1 by auto
    then show ?thesis using True by (simp add: same_name_def compare_char_zero)
  next
    case False
    have "same_name up (a # as) (b # bs) \<longleftrightarrow> compare_char up a b = 0" if "a = 0 \<or> b = 0"
      using that z [rule_format, of a] z [rule_format, of b] by (auto simp: same_name_def compare_char_zero)
    moreover have "\<not> same_name up (a # as) (b # bs)" if "a \<noteq> 0" "b \<noteq> 0" "compare_char up a b \<noteq> 0"
      using that by (simp add: same_name_def compare_char_zero)
    ultimately show ?thesis using False by (auto simp: Let_def)
  qed
qed auto

section \<open>References\<close>

text \<open>\<open>pin ef a\<close>: the volume with one more reference to a node.\<close>

definition pin :: "exfat \<Rightarrow> addr \<Rightarrow> exfat" where
  "pin ef a = ef\<lparr>ef_nodes := (ef_nodes ef)(a := map_option (\<lambda>n. n\<lparr>n_references := n_references n + 1\<rparr>) (ef_nodes ef a))\<rparr>"

lemma pin_fields [simp]:
  "ef_root (pin ef a) = ef_root ef" "ef_upcase (pin ef a) = ef_upcase ef" "ef_dev (pin ef a) = ef_dev ef"
  "ef_sb (pin ef a) = ef_sb ef"
  by (simp_all add: pin_def)

lemma pin_node: "ef_nodes (pin ef a) b =
  (if b = a then map_option (\<lambda>n. n\<lparr>n_references := n_references n + 1\<rparr>) (ef_nodes ef b) else ef_nodes ef b)"
  by (simp add: pin_def)

lemma pin_commute: "pin (pin ef a) b = pin (pin ef b) a"
  by (simp add: pin_def fun_upd_def fun_eq_iff)

lemma get_node_pin: "ef_nodes ef a = Some n \<Longrightarrow> exfat_get_node ef a = Some (pin ef a)"
  by (simp add: exfat_get_node_def upd_node_def set_node_def pin_def)

text \<open>A node that can be released: its name converts, in case it has to be reported.\<close>

definition quiet :: "exfat_node \<Rightarrow> bool" where
  "quiet n \<longleftrightarrow> 0 \<le> n_references n \<and> (n_is_dirty n \<longrightarrow> exfat_get_name n \<noteq> None)"

lemma exfat_get_name_refs: "exfat_get_name (n\<lparr>n_references := r\<rparr>) = exfat_get_name n"
  by (simp add: exfat_get_name_def)

lemma put_node_pin:
  assumes "ef_nodes ef a = Some n" "quiet n"
  shows "exfat_put_node (pin ef a) a = Some ef"
proof -
  have p: "ef_nodes (pin ef a) a = Some (n\<lparr>n_references := n_references n + 1\<rparr>)" using assms(1) by (simp add: pin_node)
  have "set_node (pin ef a) a n = ef"
    using assms(1) by (simp add: set_node_def pin_def fun_upd_idem)
  moreover have "\<not> n_references n < 0" "n_is_dirty n \<Longrightarrow> \<exists>name. exfat_get_name n = Some name"
    using assms(2) by (auto simp: quiet_def)
  moreover have z: "n\<lparr>n_references := 0\<rparr> = n" if "n_references n = 0" using that by simp
  ultimately show ?thesis
    by (cases "n_references n = 0") (auto simp: exfat_put_node_def p z)
qed

text \<open>The links do not see the references.\<close>

lemma pin_links: "map_option links (ef_nodes (pin ef a) b) = map_option links (ef_nodes ef b)"
  "map_option n_child (ef_nodes (pin ef a) b) = map_option n_child (ef_nodes ef b)"
  by (simp_all add: pin_node option.map_comp o_def links_def [abs_def])

lemma children_pin [simp]: "children (pin ef a) d xs \<longleftrightarrow> children ef d xs"
  unfolding children_alt pin_links ..

section \<open>A tree of cached directories\<close>

text \<open>
  \<open>cached_tree ef kids\<close>: the nodes of the volume form the directories \<open>kids\<close>; every directory is cached and its
  list of children is the one in \<open>kids\<close>.
\<close>

definition cached_tree :: "exfat \<Rightarrow> (addr \<Rightarrow> addr list option) \<Rightarrow> bool" where
  "cached_tree ef kids \<longleftrightarrow> (\<exists>up. ef_upcase ef = Some up \<and> case_table up) \<and>
     (\<forall>a n. ef_nodes ef a = Some n \<longrightarrow> quiet n \<and> 0 \<in> set (n_name n) \<and>
        (case kids a of
           Some xs \<Rightarrow> n_is_cached n \<and> children ef a xs \<and> set xs \<subseteq> dom (ef_nodes ef)
         | None \<Rightarrow> \<not> is_dir n \<and> \<not> n_is_cached n))"

lemma tree_node: "cached_tree ef kids \<Longrightarrow> ef_nodes ef a = Some n \<Longrightarrow> quiet n \<and> 0 \<in> set (n_name n)"
  and tree_dir: "cached_tree ef kids \<Longrightarrow> ef_nodes ef a = Some n \<Longrightarrow> kids a = Some xs \<Longrightarrow>
    n_is_cached n \<and> children ef a xs \<and> set xs \<subseteq> dom (ef_nodes ef)"
  and tree_file: "cached_tree ef kids \<Longrightarrow> ef_nodes ef a = Some n \<Longrightarrow> kids a = None \<Longrightarrow> \<not> is_dir n \<and> \<not> n_is_cached n"
  unfolding cached_tree_def by fastforce+

definition name_of_node :: "exfat \<Rightarrow> addr \<Rightarrow> u16 list" where
  "name_of_node ef a = (case ef_nodes ef a of Some n \<Rightarrow> n_name n | None \<Rightarrow> [])"

definition find_child :: "exfat \<Rightarrow> u16 list \<Rightarrow> addr list \<Rightarrow> addr option" where
  "find_child ef name xs = find (\<lambda>a. same_name (the (ef_upcase ef)) name (name_of_node ef a)) xs"

text \<open>\<^verbatim>\<open>exfat_readdir\<close> walks the list.\<close>

definition current_at :: "addr list \<Rightarrow> nat \<Rightarrow> addr option" where
  "current_at xs i = (if i = 0 then None else Some (xs ! (i - 1)))"

lemma readdir_at:
  assumes "children ef d xs" "i < length xs"
  shows "exfat_readdir ef \<lparr>it_parent = Some d, it_current = current_at xs i\<rparr> =
    Some (Some (xs ! i), \<lparr>it_parent = Some d, it_current = current_at xs (Suc i)\<rparr>, pin ef (xs ! i))"
proof -
  obtain n where n: "ef_nodes ef (xs ! i) = Some n" using assms by (auto simp: children_def)
  obtain dn where dn: "ef_nodes ef d = Some dn" "n_child dn = first_of xs" using assms by (auto simp: children_def)
  show ?thesis
  proof (cases i)
    case 0
    then show ?thesis using dn n assms(2) by (simp add: exfat_readdir_def current_at_def first_of_def get_node_pin)
  next
    case (Suc j)
    then obtain m where "ef_nodes ef (xs ! j) = Some m" "n_next m = Some (xs ! i)"
      using assms unfolding children_def linked_def next_at_def by (metis Suc_lessD)
    then show ?thesis using Suc n by (simp add: exfat_readdir_def current_at_def get_node_pin)
  qed
qed

lemma readdir_end:
  assumes "children ef d xs"
  shows "exfat_readdir ef \<lparr>it_parent = Some d, it_current = current_at xs (length xs)\<rparr> =
    Some (None, \<lparr>it_parent = Some d, it_current = None\<rparr>, ef)"
proof (cases xs rule: rev_cases)
  case Nil
  then show ?thesis using assms by (auto simp: exfat_readdir_def current_at_def children_def first_of_def)
next
  case (snoc ys y)
  then have "length ys < length xs" by simp
  then obtain m where "ef_nodes ef (xs ! length ys) = Some m" "n_next m = None"
    using assms snoc by (auto simp: children_def linked_def next_at_def)
  then show ?thesis using snoc by (simp add: exfat_readdir_def current_at_def)
qed

lemma lookup_loop_correct:
  assumes tree: "cached_tree ef kids" and d: "kids d = Some xs" "ef_nodes ef d = Some dn" and "0 \<in> set name" "i \<le> length xs"
  shows "lookup_loop (pin ef d) \<lparr>it_parent = Some d, it_current = current_at xs i\<rparr> name =
    (case find_child ef name (drop i xs) of Some a \<Rightarrow> Some (0, Some a, pin ef a) | None \<Rightarrow> Some (- ENOENT, None, ef))"
  using assms(5)
proof (induction "length xs - i" arbitrary: i)
  case 0
  then have i: "i = length xs" by simp
  have ch: "children ef d xs" "quiet dn" using tree_dir [OF tree d(2,1)] tree_node [OF tree d(2)] by auto
  show ?case
    using readdir_end [of "pin ef d" d xs] ch(1) put_node_pin [OF d(2) ch(2)]
    by (subst lookup_loop.simps) (simp add: i find_child_def exfat_closedir_def)
next
  case (Suc k)
  then have i: "i < length xs" by simp
  have ch: "children ef d xs" "quiet dn" using tree_dir [OF tree d(2,1)] tree_node [OF tree d(2)] by auto
  define a where "a = xs ! i"
  have ne: "a \<noteq> d" using ch(1) i by (auto simp: children_def a_def)
  obtain n where n: "ef_nodes ef a = Some n" using ch(1) i by (auto simp: children_def a_def)
  then have q: "quiet n" "0 \<in> set (n_name n)" using tree_node [OF tree] by auto
  obtain up where up: "ef_upcase ef = Some up" "case_table up" using tree by (auto simp: cached_tree_def)
  obtain r where r: "compare_name up name (n_name n) = Some r" "r = 0 \<longleftrightarrow> same_name up name (n_name n)"
    using compare_name_same [OF up(2) assms(4) q(2)] by blast
  have dr: "drop i xs = a # drop (Suc i) xs" using i by (simp add: a_def Cons_nth_drop_Suc)
  have rd: "exfat_readdir (pin ef d) \<lparr>it_parent = Some d, it_current = current_at xs i\<rparr> =
    Some (Some a, \<lparr>it_parent = Some d, it_current = current_at xs (Suc i)\<rparr>, pin (pin ef d) a)"
    using readdir_at [of "pin ef d" d xs i] ch(1) i by (simp add: a_def)
  have nd: "ef_nodes (pin (pin ef d) a) a = Some (n\<lparr>n_references := n_references n + 1\<rparr>)"
    using n ne by (simp add: pin_node)
  have putd: "exfat_put_node (pin (pin ef d) a) d = Some (pin ef a)"
    using put_node_pin [of "pin ef a" d dn] ne d(2) ch(2) by (simp add: pin_commute [of ef d a] pin_node)
  have puta: "exfat_put_node (pin (pin ef d) a) a = Some (pin ef d)"
    using put_node_pin [of "pin ef d" a n] ne n q(1) by (simp add: pin_node)
  have fc: "find_child ef name (drop i xs) = (if r = 0 then Some a else find_child ef name (drop (Suc i) xs))"
    using r(2) n up(1) by (simp add: dr find_child_def name_of_node_def)
  show ?case
  proof (cases "r = 0")
    case True
    then show ?thesis using rd nd up(1) r(1) putd fc
      by (subst lookup_loop.simps) (simp add: exfat_closedir_def)
  next
    case False
    have "k = length xs - Suc i" "Suc i \<le> length xs" using Suc(2) i by simp_all
    note IH = Suc(1) [OF this]
    show ?thesis using False rd nd up(1) r(1) puta fc IH
      by (subst lookup_loop.simps) simp
  qed
qed

lemma utf8_to_utf16_loop_zero: "utf8_to_utf16_loop bs left = (0, out) \<Longrightarrow> 0 \<in> set out"
proof (induction bs left arbitrary: out rule: utf8_to_utf16_loop.induct)
  case (2 b bs left)
  then show ?case by (fastforce simp: Let_def split: option.splits prod.splits if_splits)
qed (auto simp: split: if_splits)

lemma lookup_name_correct:
  assumes tree: "cached_tree ef kids" and d: "ef_nodes ef d = Some dn"
  shows "lookup_name ef d p n =
    (let (rc, name) = exfat_utf8_to_utf16 p (EXFAT_NAME_MAX + 1) n
     in if rc \<noteq> 0 then Some (rc, None, ef)
        else case kids d of
          None \<Rightarrow> None
        | Some xs \<Rightarrow> (case find_child ef name xs of
              Some a \<Rightarrow> Some (0, Some a, pin ef a)
            | None \<Rightarrow> Some (- ENOENT, None, ef)))"
proof -
  obtain rc name where u: "exfat_utf8_to_utf16 p (EXFAT_NAME_MAX + 1) n = (rc, name)" by fastforce
  have pd: "ef_nodes (pin ef d) d = Some (dn\<lparr>n_references := n_references dn + 1\<rparr>)" using d by (simp add: pin_node)
  show ?thesis
  proof (cases "rc = 0")
    case True
    then have z: "0 \<in> set name" using u utf8_to_utf16_loop_zero by (auto simp: exfat_utf8_to_utf16_def)
    show ?thesis
    proof (cases "kids d")
      case None
      then have nd: "\<not> is_dir dn" "\<not> n_is_cached dn" using tree_file [OF tree d] by auto
      have "read_entries (pin ef d) d 1 0 = None" using nd(1) pd by (simp add: read_entries_def is_dir_def)
      then have "cache_loop (pin ef d) d 0 None = None"
        by (subst cache_loop.simps, subst readdir.simps) simp
      then show ?thesis
        using None True u nd(2) pd by (simp add: lookup_name_def exfat_opendir_def get_node_pin [OF d] exfat_cache_directory_def)
    next
      case (Some xs)
      then have c: "n_is_cached dn" using tree_dir [OF tree d] by auto
      have op: "exfat_opendir ef d = Some (0, \<lparr>it_parent = Some d, it_current = current_at xs 0\<rparr>, pin ef d)"
        using c pd by (simp add: exfat_opendir_def get_node_pin [OF d] exfat_cache_directory_def current_at_def Let_def)
      show ?thesis
        using lookup_loop_correct [OF tree Some d z, of 0] op True u Some by (simp add: lookup_name_def)
    qed
  next
    case False
    then show ?thesis using u by (simp add: lookup_name_def)
  qed
qed

section \<open>Paths\<close>

text \<open>The components of a path: what is between the slashes, without empty components and dots.\<close>

fun splits :: "u8 list \<Rightarrow> u8 list list" where
  "splits [] = [[]]"
| "splits (c # cs) = (if c = 0x2f then [] # splits cs else (c # hd (splits cs)) # tl (splits cs))"

definition path_comps :: "u8 list \<Rightarrow> u8 list list" where
  "path_comps path = filter (\<lambda>c. c \<noteq> [] \<and> c \<noteq> [0x2e]) (splits path)"

lemma splits_ne [simp]: "splits path \<noteq> []"
  by (cases path) auto

lemma splits_append: "\<forall>c \<in> set xs. c \<noteq> 0x2f \<Longrightarrow> splits (xs @ ys) = (xs @ hd (splits ys)) # tl (splits ys)"
  by (induction xs) auto

lemma path_comps_slash: "path_comps (0x2f # cs) = path_comps cs"
  by (simp add: path_comps_def)

lemma path_comps_drop: "path_comps (dropWhile (\<lambda>c. c = 0x2f) path) = path_comps path"
  by (induction path) (auto simp: path_comps_slash)

lemma path_comps_step:
  defines "n path \<equiv> fst (get_comp path)" and "p path \<equiv> snd (get_comp path)"
  shows "path_comps path = (if n path = 0 then [] else
    (if take (n path) (p path) = [0x2e] then [] else [take (n path) (p path)]) @ path_comps (drop (n path) (p path)))"
proof -
  define q where "q = dropWhile (\<lambda>c. c = 0x2f) path"
  let ?c = "takeWhile (\<lambda>c. c \<noteq> 0x2f) q" and ?r = "dropWhile (\<lambda>c. c \<noteq> 0x2f) q"
  have np: "n path = length ?c" "p path = q" by (simp_all add: n_def p_def get_comp_def q_def Let_def)
  have tk: "take (length ?c) q = ?c" "drop (length ?c) q = ?r"
    by (simp_all only: takeWhile_eq_take [symmetric] dropWhile_eq_drop [symmetric])
  have r: "path_comps ?r = filter (\<lambda>c. c \<noteq> [] \<and> c \<noteq> [0x2e]) (tl (splits ?r)) \<and> hd (splits ?r) = []"
  proof (cases ?r)
    case (Cons x xs)
    then have "x = 0x2f" using hd_dropWhile [of "\<lambda>c. c \<noteq> 0x2f" q] by auto
    then show ?thesis using Cons by (simp add: path_comps_def)
  next
    case Nil
    show ?thesis unfolding Nil by (simp add: path_comps_def)
  qed
  have "splits (?c @ ?r) = (?c @ hd (splits ?r)) # tl (splits ?r)"
    by (rule splits_append) (auto dest: set_takeWhileD)
  then have "splits q = ?c # tl (splits ?r)" using r by simp
  then have "path_comps q = filter (\<lambda>c. c \<noteq> [] \<and> c \<noteq> [0x2e]) [?c] @ path_comps ?r"
    using r by (simp add: path_comps_def)
  moreover have "path_comps path = path_comps q" unfolding q_def by (rule path_comps_drop [symmetric])
  moreover have "path_comps ?r = []" if "?c = []"
  proof -
    have "q = []" using that hd_dropWhile [of "\<lambda>c. c = 0x2f" path] unfolding q_def [symmetric] by (cases q) (auto split: if_splits)
    then show ?thesis by (simp add: path_comps_def)
  qed
  ultimately show ?thesis unfolding np tk by auto
qed

text \<open>The walk along the components from a directory: an error, a node, or no result at a file.\<close>

fun walk :: "exfat \<Rightarrow> (addr \<Rightarrow> addr list option) \<Rightarrow> addr \<Rightarrow> u8 list list \<Rightarrow> (int + addr) option" where
  "walk ef kids d [] = Some (Inr d)"
| "walk ef kids d (c # cs) =
     (let (rc, name) = exfat_utf8_to_utf16 c (EXFAT_NAME_MAX + 1) (length c)
      in if rc \<noteq> 0 then Some (Inl rc)
         else case kids d of
           None \<Rightarrow> None
         | Some xs \<Rightarrow> (case find_child ef name xs of
               None \<Rightarrow> Some (Inl (- ENOENT))
             | Some a \<Rightarrow> walk ef kids a cs))"

definition lookup_result :: "exfat \<Rightarrow> (int + addr) option \<Rightarrow> (int \<times> addr option \<times> exfat) option" where
  "lookup_result ef r = (case r of
      None \<Rightarrow> None
    | Some (Inl rc) \<Rightarrow> Some (rc, None, ef)
    | Some (Inr a) \<Rightarrow> Some (0, Some a, pin ef a))"

lemma find_child_in: "find_child ef name xs = Some a \<Longrightarrow> a \<in> set xs"
  by (auto simp: find_child_def find_Some_iff)

lemma name_of_node_pin [simp]: "name_of_node (pin ef d) a = name_of_node ef a"
  by (simp add: name_of_node_def pin_node split: option.splits)

lemma pin_view:
  "find_child (pin ef d) name xs = find_child ef name xs" "dom (ef_nodes (pin ef d)) = dom (ef_nodes ef)"
  by (simp add: find_child_def) (auto simp: pin_node dom_def)

lemma cached_tree_pin:
  assumes tree: "cached_tree ef kids"
  shows "cached_tree (pin ef d) kids"
proof -
  have "quiet m \<and> 0 \<in> set (n_name m) \<and> (case kids a of
           Some xs \<Rightarrow> n_is_cached m \<and> children ef a xs \<and> set xs \<subseteq> dom (ef_nodes ef)
         | None \<Rightarrow> \<not> is_dir m \<and> \<not> n_is_cached m)" if m: "ef_nodes (pin ef d) a = Some m" for a m
  proof -
    obtain n where n: "ef_nodes ef a = Some n" "m = n \<or> m = n\<lparr>n_references := n_references n + 1\<rparr>"
      using m by (auto simp: pin_node split: if_splits)
    then show ?thesis
      using tree_node [OF tree n(1)] tree_dir [OF tree n(1)] tree_file [OF tree n(1)]
      by (auto simp: quiet_def exfat_get_name_refs is_dir_def split: option.splits)
  qed
  then show ?thesis using tree unfolding cached_tree_def pin_view children_pin pin_fields by blast
qed

lemma comp_step:
  fixes path :: "u8 list"
  defines "n \<equiv> fst (get_comp path)" and "p \<equiv> snd (get_comp path)"
  shows "n = 1 \<and> p ! 0 = 0x2e \<longleftrightarrow> take n p = [0x2e]"
proof -
  have "n \<le> length p" by (simp add: n_def p_def get_comp_def Let_def length_takeWhile_le)
  then show ?thesis by (cases p) (auto simp: take_Cons' split: if_splits)
qed

lemma lookup_path_correct:
  assumes tree: "cached_tree ef kids"
  shows "d \<in> dom (ef_nodes ef) \<Longrightarrow> lookup_path (pin ef d) d path = lookup_result ef (walk ef kids d (path_comps path))"
proof (induction path arbitrary: d rule: measure_induct_rule [of length])
  case (less path)
  define n p where "n = fst (get_comp path)" and "p = snd (get_comp path)"
  define c where "c = take n p"
  obtain dn where d: "ef_nodes ef d = Some dn" using less(2) by blast
  show ?case
  proof (cases "n = 0")
    case True
    then have "path_comps path = []" using path_comps_step [of path] by (simp add: n_def)
    then show ?thesis using True by (subst lookup_path.simps) (simp add: lookup_result_def flip: n_def p_def)
  next
    case False
    have short: "length (drop n p) < length path" using get_comp_shorter [of path] False by (simp add: n_def p_def)
    have np: "n \<le> length p" by (simp add: n_def p_def get_comp_def Let_def length_takeWhile_le)
    have dot: "n = 1 \<and> p ! 0 = 0x2e \<longleftrightarrow> c = [0x2e]" using comp_step [of path] by (simp only: n_def p_def c_def)
    have step: "path_comps path = (if c = [0x2e] then [] else [c]) @ path_comps (drop n p)"
      using path_comps_step [of path] False by (simp add: n_def p_def c_def)
    show ?thesis
    proof (cases "c = [0x2e]")
      case True
      then have "lookup_path (pin ef d) d path = lookup_path (pin ef d) d (drop n p)"
        using False dot by (subst lookup_path.simps) (simp flip: n_def p_def)
      then show ?thesis using less(1) [OF short less(2)] step True by simp
    next
      case ne: False
      have u: "exfat_utf8_to_utf16 p (EXFAT_NAME_MAX + 1) n = exfat_utf8_to_utf16 c (EXFAT_NAME_MAX + 1) (length c)"
        using np by (simp add: exfat_utf8_to_utf16_def c_def)
      obtain rc name where rn: "exfat_utf8_to_utf16 c (EXFAT_NAME_MAX + 1) (length c) = (rc, name)" by fastforce
      have pd: "ef_nodes (pin ef d) d = Some (dn\<lparr>n_references := n_references dn + 1\<rparr>)" using d by (simp add: pin_node)
      have put: "exfat_put_node (pin ef d) d = Some ef" by (rule put_node_pin [OF d]) (use tree_node [OF tree d] in blast)
      have unf: "lookup_path (pin ef d) d path = Option.bind (lookup_name (pin ef d) d p n) (\<lambda>(rc, node, ef).
          Option.bind (exfat_put_node ef d) (\<lambda>ef. if rc \<noteq> 0 then Some (rc, None, ef)
            else Option.bind node (\<lambda>a. lookup_path ef a (drop n p))))"
        using False ne dot by (subst lookup_path.simps) (simp flip: n_def p_def, metis)
      note ln = lookup_name_correct [OF cached_tree_pin [OF tree] pd, of p n]
      show ?thesis
      proof (cases "rc = 0 \<and> (\<exists>xs a. kids d = Some xs \<and> find_child ef name xs = Some a)")
        case True
        then obtain xs a where xs: "kids d = Some xs" "find_child ef name xs = Some a" by blast
        have ch: "children ef d xs" "set xs \<subseteq> dom (ef_nodes ef)" using tree_dir [OF tree d xs(1)] by blast+
        have a: "a \<in> dom (ef_nodes ef)" "a \<noteq> d" using ch find_child_in [OF xs(2)] by (auto simp: children_def)
        have "exfat_put_node (pin (pin ef d) a) d = Some (pin ef a)"
          using put_node_pin [of "pin ef a" d dn] a(2) d tree_node [OF tree d] by (simp add: pin_commute [of ef d a] pin_node)
        then show ?thesis
          using less(1) [OF short a(1)] True xs ln [unfolded u] rn unfolding unf step
          by (simp add: pin_view ne)
      next
        case f: False
        then show ?thesis
          using ln [unfolded u] put rn unfolding unf step
          by (auto simp: pin_view ne lookup_result_def split: option.splits)
      qed
    qed
  qed
qed

lemma split_path_no_comps: "path_comps path = [] \<Longrightarrow> split_path ef d path = None"
proof (induction path rule: measure_induct_rule [of length])
  case (less path)
  define n p where "n = fst (get_comp path)" and "p = snd (get_comp path)"
  show ?case
  proof (cases "n = 0")
    case True
    then show ?thesis by (subst split_path.simps) (simp flip: n_def p_def)
  next
    case False
    have short: "length (drop n p) < length path" using get_comp_shorter [of path] False by (simp add: n_def p_def)
    have "take n p = [0x2e]" "path_comps (drop n p) = []"
      using path_comps_step [of path] less(2) False by (auto simp: n_def p_def split: if_splits)
    moreover from this have "n = 1 \<and> p ! 0 = 0x2e" using comp_step [of path] by (simp only: n_def p_def)
    ultimately show ?thesis using less(1) [OF short] by (subst split_path.simps) (simp flip: n_def p_def)
  qed
qed

lemma walk_error: "walk ef kids d cs = Some (Inl rc) \<Longrightarrow> rc \<noteq> 0"
  by (induction ef kids d cs rule: walk.induct) (auto simp: Let_def split: if_splits option.splits prod.splits)

lemma walk_node: "cached_tree ef kids \<Longrightarrow> walk ef kids d cs = Some (Inr a) \<Longrightarrow> d \<in> dom (ef_nodes ef) \<Longrightarrow> a \<in> dom (ef_nodes ef)"
proof (induction ef kids d cs rule: walk.induct)
  case (2 ef kids d c cs)
  obtain rc name where u: "exfat_utf8_to_utf16 c (EXFAT_NAME_MAX + 1) (length c) = (rc, name)" by fastforce
  then obtain xs b where b: "rc = 0" "kids d = Some xs" "find_child ef name xs = Some b" "walk ef kids b cs = Some (Inr a)"
    using 2(3) by (auto split: if_splits option.splits)
  have "b \<in> dom (ef_nodes ef)" using tree_dir [OF 2(2) _ b(2)] find_child_in [OF b(3)] 2(4) by fastforce
  then show ?case using 2(1) u b 2(2) by auto
qed simp

lemma lookup_walks:
  assumes "cached_tree ef kids" "ef_root ef \<in> dom (ef_nodes ef)"
  shows "exfat_lookup ef path = lookup_result ef (walk ef kids (ef_root ef) (path_comps path))"
  using lookup_path_correct [OF assms] get_node_pin assms(2) by (auto simp: exfat_lookup_def)

section \<open>Properties\<close>

text \<open>
  comparing two terminated names returns, without reading past their ends, and the result is 0 exactly
  when the names are equal after case folding.
\<close>

theorem compare_name_correct:
  assumes "case_table up" "0 \<in> set a" "0 \<in> set b"
  shows "\<exists>r. compare_name up a b = Some r \<and>
    (r = 0 \<longleftrightarrow> map up (takeWhile (\<lambda>u. u \<noteq> 0) a) = map up (takeWhile (\<lambda>u. u \<noteq> 0) b))"
  using compare_name_same [OF assms] unfolding same_name_def .

text \<open>
  C19: resolving a path on cached directories is the walk along its components, where empty components and
  dots are skipped: the return value is 0 and the node carries one more reference than before, or the return
  value is an error and no reference count has changed.  There is no result at all, that is
  \<^verbatim>\<open>exfat_bug\<close> is reached, exactly when a component is looked up below a file.
\<close>

theorem lookup_correct:
  assumes "cached_tree ef kids" "ef_root ef \<in> dom (ef_nodes ef)"
  shows "exfat_lookup ef path =
    (case walk ef kids (ef_root ef) (path_comps path) of
       None \<Rightarrow> None
     | Some (Inl rc) \<Rightarrow> Some (rc, None, ef)
     | Some (Inr a) \<Rightarrow> Some (0, Some a, pin ef a))"
  by (simp add: lookup_walks [OF assms] lookup_result_def)

text \<open>
  C29: \<^verbatim>\<open>exfat_split\<close> has no result on a path without components, such as the empty path, \<^verbatim>\<open>/\<close> or \<^verbatim>\<open>/.\<close>: it
  runs into \<^verbatim>\<open>exfat_bug\<close>.
\<close>

theorem split_aborts:
  assumes "path_comps path = []"
  shows "exfat_split ef path = None"
  by (cases "exfat_get_node ef (ef_root ef)") (simp_all add: exfat_split_def split_path_no_comps [OF assms])

end
