(* ===== verification/SampleTree.thy ===== *)
theory SampleTree
  imports Sample EntrySets Resolve
begin

text \<open>
  A small tree of cached directories on which the properties of the directory operations are exercised: the
  root with the directory \<^verbatim>\<open>A\<close> and the file \<^verbatim>\<open>b\<close>, and the file \<^verbatim>\<open>C\<close> in \<^verbatim>\<open>A\<close>.
\<close>

section \<open>The tree\<close>

definition tree_root :: exfat_node where
  "tree_root = zero_node\<lparr>n_child := Some 1, n_references := 1, n_attrib := EXFAT_ATTRIB_DIR, n_is_cached := True\<rparr>"

definition tree_A :: exfat_node where
  "tree_A = zero_node\<lparr>n_parent := Some 0, n_child := Some 3, n_next := Some 2, n_attrib := EXFAT_ATTRIB_DIR,
     n_is_cached := True, n_name := 0x41 # replicate 255 0\<rparr>"

definition tree_b :: exfat_node where
  "tree_b = zero_node\<lparr>n_parent := Some 0, n_prev := Some 1, n_name := 0x62 # replicate 255 0\<rparr>"

definition tree_C :: exfat_node where
  "tree_C = zero_node\<lparr>n_parent := Some 1, n_name := 0x43 # replicate 255 0\<rparr>"

definition tree_ef :: exfat where
  "tree_ef = sample_ef\<lparr>ef_nodes := [0 \<mapsto> tree_root, 1 \<mapsto> tree_A, 2 \<mapsto> tree_b, 3 \<mapsto> tree_C]\<rparr>"

definition tree_kids :: "addr \<Rightarrow> addr list option" where
  "tree_kids = [0 \<mapsto> [1, 2], 1 \<mapsto> [3]]"

lemmas tree_defs = tree_root_def tree_A_def tree_b_def tree_C_def

lemma tree_nodes [simp]: "ef_nodes tree_ef = [0 \<mapsto> tree_root, 1 \<mapsto> tree_A, 2 \<mapsto> tree_b, 3 \<mapsto> tree_C]"
  "ef_root tree_ef = 0" "ef_upcase tree_ef = Some id"
  by (simp_all add: tree_ef_def sample_ef_def)

lemma tree_children: "children tree_ef 0 [1, 2]" "children tree_ef 1 [3]"
  by (auto simp: children_def first_of_def linked_def prev_at_def next_at_def tree_defs zero_node_def less_Suc_eq)

lemma tree_cached: "cached_tree tree_ef tree_kids"
proof -
  have "quiet tree_root" "quiet tree_A" "quiet tree_b" "quiet tree_C"
    by (simp_all add: quiet_def tree_defs zero_node_def)
  moreover have "0 \<in> set (n_name tree_root)" "0 \<in> set (n_name tree_A)" "0 \<in> set (n_name tree_b)" "0 \<in> set (n_name tree_C)"
    by (simp_all add: tree_defs zero_node_def name_consts)
  moreover have "n_is_cached tree_root" "n_is_cached tree_A" "\<not> n_is_cached tree_b" "\<not> n_is_cached tree_C"
    "\<not> is_dir tree_b" "\<not> is_dir tree_C"
    by (simp_all add: tree_defs zero_node_def is_dir_def)
  ultimately show ?thesis
    using tree_children by (auto simp: cached_tree_def tree_kids_def case_table_def split: if_splits)
qed

theorem compare_name_witness:
  "case_table id \<and> (\<exists>r. compare_name id [0x41, 0x42, 0] [0x41, 0] = Some r \<and>
     (r = 0 \<longleftrightarrow> map id (takeWhile (\<lambda>u. u \<noteq> 0) [0x41, 0x42, 0 :: u16]) = map id (takeWhile (\<lambda>u. u \<noteq> 0) [0x41, 0])))"
  using compare_name_correct [of id "[0x41, 0x42, 0]" "[0x41, 0]"] by (simp add: case_table_def)

lemma tree_names: "exfat_utf8_to_utf16 [0x41] 256 1 = (0, [0x41, 0])" "exfat_utf8_to_utf16 [0x43] 256 1 = (0, [0x43, 0])"
  "exfat_utf8_to_utf16 [0x62] 256 1 = (0, [0x62, 0])"
  by code_simp+

lemma tree_find: "find_child tree_ef [0x41, 0] [1, 2] = Some 1" "find_child tree_ef [0x43, 0] [3] = Some 3"
  "find_child tree_ef [0x62, 0] [1, 2] = Some 2"
  by (simp_all add: find_child_def name_of_node_def same_name_def tree_defs)

text \<open>The paths \<^verbatim>\<open>/A/./C\<close> and \<^verbatim>\<open>b/C\<close>, the second of which leads through a file.\<close>

theorem lookup_witness:
  "cached_tree tree_ef tree_kids \<and> exfat_lookup tree_ef [0x2f, 0x41, 0x2f, 0x2e, 0x2f, 0x43] = Some (0, Some 3, pin tree_ef 3) \<and>
   exfat_lookup tree_ef [0x62, 0x2f, 0x43] = None"
proof -
  have 1: "path_comps [0x2f, 0x41, 0x2f, 0x2e, 0x2f, 0x43] = [[0x41], [0x43]]" "path_comps [0x62, 0x2f, 0x43] = [[0x62], [0x43]]"
    by (simp_all add: path_comps_def)
  have "ef_root tree_ef \<in> dom (ef_nodes tree_ef)" by simp
  note l = lookup_correct [OF tree_cached this]
  show ?thesis
    using tree_names tree_find tree_cached
    by (simp add: l 1 name_consts tree_kids_def)
qed

theorem split_aborts_witness: "path_comps [0x2f, 0x2e] = [] \<and> exfat_split tree_ef [0x2f, 0x2e] = None"
  using split_aborts [of "[0x2f, 0x2e]" tree_ef] by (simp add: path_comps_def)

section \<open>Links\<close>

theorem attach_inserts_witness:
  "\<exists>ef'. tree_attach (set_node tree_ef 4 zero_node) 1 4 = Some ef' \<and> children ef' 1 [4, 3] \<and>
     relinked (set_node tree_ef 4 zero_node) ef' {1} {4, 3}"
proof -
  have "children (set_node tree_ef 4 zero_node) 1 [3]"
    using tree_children(2) by (auto simp: children_def)
  moreover have "loose (set_node tree_ef 4 zero_node) 4" by (simp add: loose_def zero_node_def)
  ultimately show ?thesis using attach_inserts [of "set_node tree_ef 4 zero_node" 1 "[3]" 4] by simp
qed

theorem detach_removes_witness:
  "\<exists>ef'. tree_detach tree_ef 2 = Some ef' \<and> children ef' 0 [1] \<and> loose ef' 2 \<and> relinked tree_ef ef' {0} {1, 2}"
  using detach_removes [of tree_ef 0 "[1]" 2 "[]"] tree_children(1) by simp

text \<open>Moving the file \<^verbatim>\<open>b\<close> into the directory \<^verbatim>\<open>A\<close>.\<close>

theorem move_between_witness:
  "\<exists>ef'. Option.bind (tree_detach tree_ef 2) (\<lambda>ef. tree_attach ef 1 2) = Some ef' \<and>
     children ef' 1 [2, 3] \<and> children ef' 0 [1]"
  using move_between_directories [of tree_ef 0 "[1]" 2 "[]" 1 "[3]"] tree_children by simp

section \<open>Entry sets\<close>

definition name_A :: "u16 list" where
  "name_A = 0x41 # replicate 255 0"

lemma name_A_ok: "name_ok name_A" "name_slots name_A = 3"
proof -
  have l: "exfat_utf16_length name_A = 1" by (simp add: exfat_utf16_length_def name_A_def)
  show "name_slots name_A = 3" by (simp add: name_slots_def l DIV_ROUND_UP_def name_consts)
  show "name_ok name_A" unfolding name_ok_def l by (auto simp: name_A_def name_consts nth_Cons')
qed

lemma sample_time: "representable (h_timezone (ef_host sample_ef)) 1000000000" "h_timezone (ef_host sample_ef) = 0"
  by (simp_all add: sample_ef_def sample_host_def representable_def EPOCH_DIFF_SEC_value SEC_IN_DAY_def SEC_IN_HOUR_def SEC_IN_MIN_def)

definition entries_A :: "entry list" where
  "entries_A = commit_entries 0 1000000000 id name_A 0x20"

lemma entries_A_length: "length entries_A = 3" "\<forall>e \<in> set entries_A. length e = 32"
proof -
  have d: "DIV_ROUND_UP (exfat_utf16_length name_A) EXFAT_ENAME_MAX = 1"
    using name_A_ok(2) by (simp add: name_slots_def)
  then show "length entries_A = 3" by (simp add: entries_A_def commit_entries_def Let_def)
  have "length (name_entry name_A 0) = 32"
    by (simp add: name_entry_def length_bytes_of_name length_seg name_A_def name_consts)
  then show "\<forall>e \<in> set entries_A. length e = 32"
    by (simp add: entries_A_def commit_entries_def Let_def d length_bytes_of_meta1 length_bytes_of_meta2
        commit_meta1_fields commit_meta2_fields)
qed

theorem commit_then_parse_witness:
  "\<exists>node. parse_file_entries sample_ef (zero_node\<lparr>n_entry_offset := 64\<rparr>) entries_A 3 = Some (0, sample_ef, node) \<and>
    n_name node = name_A \<and> n_attrib node = 0x20 \<and> n_mtime node = 1000000000"
  using commit_then_parse [of name_A sample_ef 0 1000000000 64 id "0x20"] name_A_ok sample_time
  by (auto simp: entries_A_def)

lemma entries_A_parse: "\<exists>node. parse_file_entries sample_ef zero_node entries_A 3 = Some (0, sample_ef, node) \<and> n_name node = name_A"
proof -
  have "zero_node\<lparr>n_entry_offset := 0\<rparr> = zero_node" by (simp add: zero_node_def)
  then show ?thesis using commit_parses [of name_A sample_ef 0 1000000000 0 id "0x20"] name_A_ok sample_time
    by (auto simp: entries_A_def)
qed

text \<open>The node of 700 bytes is written over the entries of \<^verbatim>\<open>A\<close>, and then renamed.\<close>

theorem flush_then_parse_witness:
  "\<exists>node'. parse_file_entries sample_ef zero_node
       (flush_entries 0 (sample_node\<lparr>n_continuations := 2, n_mtime := 1000000001\<rparr>) entries_A) 3 = Some (0, sample_ef, node') \<and>
     n_size node' = 700 \<and> n_valid_size node' = 600 \<and> n_start_cluster node' = 2 \<and> n_is_contiguous node' \<and>
     n_mtime node' = 1000000001 \<and> n_name node' = name_A"
proof -
  let ?n = "sample_node\<lparr>n_continuations := 2, n_mtime := 1000000001\<rparr>"
  obtain old where "parse_file_entries sample_ef zero_node entries_A 3 = Some (0, sample_ef, old)" "n_name old = name_A"
    using entries_A_parse by blast
  moreover have "node_consistent sample_ef ?n"
    by (simp add: node_consistent_def CLUSTER_INVALID_def sample_node_def zero_node_def is_dir_def EXFAT_FIRST_DATA_CLUSTER_def)
  moreover have "representable (h_timezone (ef_host sample_ef)) (n_mtime ?n)"
    by (simp add: sample_time representable_def EPOCH_DIFF_SEC_value SEC_IN_DAY_def SEC_IN_HOUR_def SEC_IN_MIN_def)
  ultimately show ?thesis
    using flush_then_parse [of entries_A 3 ?n sample_ef zero_node sample_ef old 0] entries_A_length sample_time(2)
    by (auto simp: sample_node_def)
qed

text \<open>The file \<^verbatim>\<open>A\<close> gets the name \<^verbatim>\<open>BC\<close>.\<close>

definition name_BC :: "u16 list" where
  "name_BC = 0x42 # 0x43 # replicate 254 0"

lemma name_BC_ok: "name_ok name_BC" "name_slots name_BC = 3"
proof -
  have l: "exfat_utf16_length name_BC = 2" by (simp add: exfat_utf16_length_def name_BC_def)
  show "name_slots name_BC = 3" by (simp add: name_slots_def l DIV_ROUND_UP_def name_consts)
  show "name_ok name_BC" unfolding name_ok_def l by (auto simp: name_BC_def name_consts nth_Cons')
qed

theorem rename_then_parse_witness:
  "\<exists>old node. parse_file_entries sample_ef zero_node entries_A 3 = Some (0, sample_ef, old) \<and> n_name old = name_A \<and>
    parse_file_entries sample_ef zero_node (rename_entries id name_BC (take 2 entries_A)) 3 = Some (0, sample_ef, node) \<and>
    n_name node = name_BC \<and> n_mtime node = n_mtime old \<and>
    m1_crtime (meta1_of_bytes (rename_entries id name_BC (take 2 entries_A) ! 0)) = m1_crtime (meta1_of_bytes (entries_A ! 0))"
proof -
  obtain old where "parse_file_entries sample_ef zero_node entries_A 3 = Some (0, sample_ef, old)" "n_name old = name_A"
    using entries_A_parse by blast
  moreover have "n_name zero_node = replicate (EXFAT_NAME_MAX + 1) 0" by (simp add: zero_node_def name_consts)
  moreover have "m1_crtime (m\<lparr>m1_continuations := k, m1_checksum := c\<rparr>) = m1_crtime m" for m k c by simp
  ultimately show ?thesis
    using rename_then_parse [of sample_ef zero_node entries_A 3 sample_ef old name_BC id] entries_A_length name_BC_ok by metis
qed

end
