(* ===== verification/Mount.thy ===== *)
theory Mount
  imports Namespace
begin

text \<open>
  Mounting and unmounting: \<^verbatim>\<open>libexfat/mount.c\<close>, and the matching of options of \<^verbatim>\<open>libexfat/utils.c\<close>.  A C
  string is a \<open>string\<close> without its terminator.
\<close>

section \<open>Options\<close>

definition char_at :: "string \<Rightarrow> nat \<Rightarrow> char" where
  "char_at s i = (if i < length s then s ! i else CHR 0x00)"

text \<open>
  The positions where \<^verbatim>\<open>strstr\<close>, called again behind each hit, finds the name; the loops take the first
  one that passes their test.
\<close>

definition occurrences :: "string \<Rightarrow> string \<Rightarrow> nat list" where
  "occurrences options option_name =
     filter (\<lambda>i. take (length option_name) (drop i options) = option_name) [0 ..< Suc (length options)]"

definition exfat_match_option :: "string \<Rightarrow> string \<Rightarrow> bool" where
  "exfat_match_option options option_name =
     (\<exists>p \<in> set (occurrences options option_name).
        (p = 0 \<or> char_at options (p - 1) = CHR '','') \<and>
        (char_at options (p + length option_name) = CHR '','' \<or> char_at options (p + length option_name) = CHR 0x00))"

definition get_option :: "string \<Rightarrow> string \<Rightarrow> string option" where
  "get_option options option_name =
     (case find (\<lambda>p. (p = 0 \<or> char_at options (p - 1) = CHR '','') \<and> char_at options (p + length option_name) = CHR ''='')
        (occurrences options option_name) of
        Some p \<Rightarrow> Some (drop (p + length option_name + 1) options)
      | None \<Rightarrow> None)"

text \<open>\<^verbatim>\<open>strtol\<close> for bases up to ten: white space, a sign, digits; the result saturates.\<close>

definition isspace :: "char \<Rightarrow> bool" where
  "isspace c \<longleftrightarrow> c = CHR '' '' \<or> (9 \<le> (of_char c :: nat) \<and> (of_char c :: nat) \<le> 13)"

definition is_digit :: "nat \<Rightarrow> char \<Rightarrow> bool" where
  "is_digit base c \<longleftrightarrow> 48 \<le> (of_char c :: nat) \<and> (of_char c :: nat) < 48 + base"

definition digits_value :: "nat \<Rightarrow> string \<Rightarrow> int" where
  "digits_value base s = foldl (\<lambda>v c. v * int base + (of_char c - 48)) 0 (takeWhile (is_digit base) s)"

definition strtol :: "string \<Rightarrow> nat \<Rightarrow> int" where
  "strtol s base =
     (let s = dropWhile isspace s;
          v = (if s \<noteq> [] \<and> hd s = CHR ''-'' then - digits_value base (tl s)
               else if s \<noteq> [] \<and> hd s = CHR ''+'' then digits_value base (tl s)
               else digits_value base s)
      in max (- (2 ^ 63)) (min (2 ^ 63 - 1) v))"

definition get_int_option :: "string \<Rightarrow> string \<Rightarrow> nat \<Rightarrow> int \<Rightarrow> int" where
  "get_int_option options option_name base default_value =
     (case get_option options option_name of
        None \<Rightarrow> default_value
      | Some p \<Rightarrow> c_int (strtol p base))"

definition parse_options :: "exfat \<Rightarrow> string \<Rightarrow> exfat" where
  "parse_options ef options =
     (let opt_umask = get_int_option options ''umask'' 8 0;
          r = get_int_option options ''repair'' 10 0
      in ef\<lparr>ef_dmask := get_int_option options ''dmask'' 8 opt_umask,
            ef_fmask := get_int_option options ''fmask'' 8 opt_umask,
            ef_uid := get_int_option options ''uid'' 10 (h_euid (ef_host ef)) mod 2 ^ 32,
            ef_gid := get_int_option options ''gid'' 10 (h_egid (ef_host ef)) mod 2 ^ 32,
            ef_noatime := exfat_match_option options ''noatime'',
            ef_repair := (if r = 1 then EXFAT_REPAIR_ASK else if r = 2 then EXFAT_REPAIR_YES else EXFAT_REPAIR_NO)\<rparr>)"

section \<open>The root directory\<close>

text \<open>\<open>left\<close> counts down from the number of clusters of the volume; the result is the number of clusters, or 0.\<close>

primrec rootdir_loop :: "exfat \<Rightarrow> exfat_node \<Rightarrow> nat \<Rightarrow> u32 \<Rightarrow> cluster_t \<Rightarrow> u32 option" where
  "rootdir_loop ef root 0 clusters rootdir_cluster = Some 0"
| "rootdir_loop ef root (Suc left) clusters rootdir_cluster =
     (if CLUSTER_INVALID (ef_sb ef) rootdir_cluster then Some 0
      else do {
        next \<leftarrow> exfat_next_cluster ef root rootdir_cluster;
        if next \<noteq> EXFAT_CLUSTER_END then rootdir_loop ef root left (clusters + 1) next
        else Some (clusters + 1)
      })"

definition rootdir_size :: "exfat \<Rightarrow> exfat_node \<Rightarrow> u64 option" where
  "rootdir_size ef root =
     do {
       clusters \<leftarrow> rootdir_loop ef root (unat (sb_cluster_count (ef_sb ef))) 0 (sb_rootdir_cluster (ef_sb ef));
       Some (ucast clusters * of_nat (CLUSTER_SIZE (ef_sb ef)))
     }"

section \<open>The boot region\<close>

text \<open>
  Reading sector \<open>i\<close>: from the buffer, when it holds the whole boot region, otherwise from the medium
  into the buffer.  \<open>None\<close> is a read error.
\<close>

definition vbr_sector :: "exfat \<Rightarrow> bool \<Rightarrow> u8 list \<Rightarrow> nat \<Rightarrow> (u8 list \<times> u8 list) option" where
  "vbr_sector ef whole buffer i =
     (let sector_size = SECTOR_SIZE (ef_sb ef)
      in if whole then Some (seg buffer (i * sector_size) sector_size, buffer)
         else let (n, part) = exfat_pread (ef_dev ef) (take sector_size buffer) sector_size (int (i * sector_size));
                  buffer = part @ drop sector_size buffer
              in if n < 0 then None else Some (take sector_size buffer, buffer))"

fun vbr_sum_loop :: "exfat \<Rightarrow> bool \<Rightarrow> u8 list \<Rightarrow> u32 \<Rightarrow> nat list \<Rightarrow> (u32 \<times> u8 list) option" where
  "vbr_sum_loop ef whole buffer vbr_checksum [] = Some (vbr_checksum, buffer)"
| "vbr_sum_loop ef whole buffer vbr_checksum (i # is) =
     do {
       (sector, buffer) \<leftarrow> vbr_sector ef whole buffer i;
       vbr_sum_loop ef whole buffer (exfat_vbr_add_checksum sector vbr_checksum) is
     }"

fun vbr_check_loop :: "exfat \<Rightarrow> u8 list \<Rightarrow> u32 \<Rightarrow> nat list \<Rightarrow> bool \<times> exfat" where
  "vbr_check_loop ef sector vbr_checksum [] = (True, ef)"
| "vbr_check_loop ef sector vbr_checksum (i # is) =
     (if le_word (seg sector (4 * i) 4) \<noteq> vbr_checksum
      then let (yes, ef) = exfat_ask_to_fix ef
           in if \<not> yes then (False, ef)
              else let (ok, sector, ef) = exfat_fix_invalid_vbr_checksum ef sector vbr_checksum
                   in if \<not> ok then (False, ef) else vbr_check_loop ef sector vbr_checksum is
      else vbr_check_loop ef sector vbr_checksum is)"

definition verify_vbr_checksum :: "exfat \<Rightarrow> u8 list \<Rightarrow> bool \<times> exfat" where
  "verify_vbr_checksum ef buffer =
     (let sector_size = SECTOR_SIZE (ef_sb ef);
          whole = (12 * sector_size \<le> CLUSTER_SIZE (ef_sb ef));
          n = (if whole then 12 * sector_size else sector_size);
          (r, part) = exfat_pread (ef_dev ef) (take n buffer) n 0;
          buffer = part @ drop n buffer
      in if r < 0 then (False, ef)
         else case do {
           (vbr_checksum, buffer) \<leftarrow>
             vbr_sum_loop ef whole buffer (exfat_vbr_start_checksum (take sector_size buffer)) [1..<11];
           (sector, buffer) \<leftarrow> vbr_sector ef whole buffer 11;
           Some (vbr_checksum, sector)
         } of
           None \<Rightarrow> (False, ef)
         | Some (vbr_checksum, sector) \<Rightarrow> vbr_check_loop ef sector vbr_checksum [0 ..< sector_size div 4])"

definition commit_super_block :: "exfat \<Rightarrow> int \<times> exfat" where
  "commit_super_block ef =
     (let (n, dev) = exfat_pwrite (ef_dev ef) (bytes_of_sb (ef_sb ef)) 512 0;
          ef = ef\<lparr>ef_dev := dev\<rparr>
      in if n < 0 then (1, ef) else (exfat_fsync dev, ef))"

definition exfat_soil_super_block :: "exfat \<Rightarrow> int \<times> exfat" where
  "exfat_soil_super_block ef =
     (if ef_ro ef \<noteq> 0 then (0, ef)
      else commit_super_block
             (ef\<lparr>ef_sb := (ef_sb ef)\<lparr>sb_volume_state := sb_volume_state (ef_sb ef) OR EXFAT_STATE_MOUNTED\<rparr>\<rparr>))"

section \<open>Mounting\<close>

definition mount_mode :: "string \<Rightarrow> exfat_mode" where
  "mount_mode options =
     (if exfat_match_option options ''ro'' then EXFAT_MODE_RO
      else if exfat_match_option options ''ro_fallback'' then EXFAT_MODE_ANY else EXFAT_MODE_RW)"

text \<open>\<^verbatim>\<open>memset(ef, 0, sizeof(struct exfat))\<close>, with the opened device.\<close>

definition blank_ef :: "host \<Rightarrow> exfat_dev \<Rightarrow> exfat" where
  "blank_ef host dev =
     \<lparr>ef_dev = dev, ef_sb = sb_of_bytes (replicate 512 0), ef_upcase = None, ef_root = 0,
      ef_nodes = (\<lambda>_. None), ef_fresh = 1,
      ef_cmap = \<lparr>cm_start_cluster = 0, cm_size = 0, cm_chunk = [], cm_chunk_size = 0, cm_dirty = False\<rparr>,
      ef_label = replicate EXFAT_UTF8_ENAME_BUFFER_MAX 0, ef_zero_cluster = [], ef_dmask = 0, ef_fmask = 0,
      ef_uid = 0, ef_gid = 0, ef_ro = 0, ef_noatime = False, ef_repair = EXFAT_REPAIR_NO, ef_errors_fixed = 0,
      ef_host = host\<rparr>"

definition EXFAT_OEM_NAME :: "u8 list" where
  "EXFAT_OEM_NAME = [0x45, 0x58, 0x46, 0x41, 0x54, 0x20, 0x20, 0x20]"

text \<open>The checks of the super block before and after the checksum of the boot region.\<close>

definition sb_recognised :: "exfat_super_block \<Rightarrow> bool" where
  "sb_recognised sb \<longleftrightarrow> sb_oem_name sb = EXFAT_OEM_NAME \<and> \<not> sb_sector_bits sb < 9 \<and>
     \<not> 25 < unat (sb_sector_bits sb) + unat (sb_spc_bits sb)"

definition sb_supported :: "exfat \<Rightarrow> bool" where
  "sb_supported ef \<longleftrightarrow> sb_version_major (ef_sb ef) = 1 \<and> sb_version_minor (ef_sb ef) = 0 \<and>
     sb_fat_count (ef_sb ef) = 1 \<and>
     \<not> exfat_get_size (ef_dev ef) < uint (sb_cluster_count (ef_sb ef)) * int (CLUSTER_SIZE (ef_sb ef))"

text \<open>
  A mount returns the error number, the medium as it was left when it had been opened, and the volume
  when it succeeded.
\<close>

type_synonym mount_result = "int \<times> exfat_dev option \<times> exfat option"

definition mount_fail :: "int \<Rightarrow> exfat \<Rightarrow> mount_result" where
  "mount_fail rc ef = (rc, Some (ef_dev ef), None)"

definition root_node :: "exfat_super_block \<Rightarrow> exfat_node" where
  "root_node sb = zero_node\<lparr>n_attrib := EXFAT_ATTRIB_DIR, n_start_cluster := sb_rootdir_cluster sb,
     n_fptr_cluster := sb_rootdir_cluster sb\<rparr>"

definition mount_root :: "exfat \<Rightarrow> mount_result option" where
  "mount_root ef =
     (if \<not> h_malloc (ef_host ef) sizeof_exfat_node then Some (mount_fail (- ENOMEM) ef)
      else do {
        let root = root_node (ef_sb ef);
        sz \<leftarrow> rootdir_size ef root;
        if sz = 0 then Some (mount_fail (- EIO) ef)
        else do {
          ef \<leftarrow> exfat_get_node (set_node ef (ef_root ef) (root\<lparr>n_valid_size := sz, n_size := sz\<rparr>)) (ef_root ef);
          (rc, ef) \<leftarrow> exfat_cache_directory ef (ef_root ef);
          if rc \<noteq> 0 \<or> ef_upcase ef = None \<or> cm_chunk (ef_cmap ef) = []
          then do {
            ef \<leftarrow> exfat_put_node ef (ef_root ef);
            ef \<leftarrow> exfat_reset_cache ef;
            Some (mount_fail (- EIO) ef)
          }
          else Some (0, Some (ef_dev ef), Some ef)
        }
      })"

definition mount_opened :: "exfat \<Rightarrow> mount_result option" where
  "mount_opened ef =
     (if \<not> h_malloc (ef_host ef) 512 then Some (mount_fail (- ENOMEM) ef)
      else
        let (n, bytes) = exfat_pread (ef_dev ef) (replicate 512 0) 512 0;
            ef = ef\<lparr>ef_sb := sb_of_bytes bytes\<rparr>
        in if n < 0 then Some (mount_fail (- EIO) ef)
           else if \<not> sb_recognised (ef_sb ef) then Some (mount_fail (- EIO) ef)
           else if \<not> h_malloc (ef_host ef) (CLUSTER_SIZE (ef_sb ef)) then Some (mount_fail (- ENOMEM) ef)
           else
             let (ok, ef) = verify_vbr_checksum ef (garbage ef (CLUSTER_SIZE (ef_sb ef)))
             in if \<not> ok then Some (mount_fail (- EIO) ef)
                else
                  let ef = ef\<lparr>ef_zero_cluster := replicate (CLUSTER_SIZE (ef_sb ef)) 0\<rparr>
                  in if \<not> sb_supported ef then Some (mount_fail (- EIO) ef) else mount_root ef)"

definition exfat_mount :: "host \<Rightarrow> devnode \<Rightarrow> string \<Rightarrow> mount_result option" where
  "exfat_mount host spec options =
     (let mode = mount_mode options
      in case exfat_open spec mode of
           None \<Rightarrow> Some (- ENODEV, None, None)
         | Some dev \<Rightarrow>
             mount_opened ((parse_options (blank_ef host dev) options)
               \<lparr>ef_ro := (if exfat_get_mode dev = EXFAT_MODE_RO then if mode = EXFAT_MODE_ANY then - 1 else 1 else 0)\<rparr>))"

section \<open>Unmounting\<close>

definition allocated_percent :: "u32 \<Rightarrow> u32 \<Rightarrow> u8" where
  "allocated_percent clusters free = ucast (((clusters - free) * 100 + clusters div 2) div clusters)"

definition finalize_super_block :: "exfat \<Rightarrow> exfat" where
  "finalize_super_block ef =
     (if ef_ro ef \<noteq> 0 then ef
      else
        let sb = (ef_sb ef)\<lparr>sb_volume_state := sb_volume_state (ef_sb ef) AND NOT EXFAT_STATE_MOUNTED\<rparr>;
            sb = (if sb_allocated_percent sb \<noteq> 0xff
                  then sb\<lparr>sb_allocated_percent := allocated_percent (sb_cluster_count sb) (exfat_count_free_clusters ef)\<rparr>
                  else sb)
        in snd (commit_super_block (ef\<lparr>ef_sb := sb\<rparr>)))"

text \<open>What is left of the volume is its medium.\<close>

definition exfat_unmount :: "exfat \<Rightarrow> exfat_dev option" where
  "exfat_unmount ef =
     do {
       (rc, ef) \<leftarrow> exfat_flush_nodes ef;
       (rc, ef) \<leftarrow> exfat_flush ef;
       ef \<leftarrow> exfat_put_node ef (ef_root ef);
       ef \<leftarrow> exfat_reset_cache ef;
       Some (ef_dev (finalize_super_block ef))
     }"

end
