(* ===== verification/Mkfs.thy ===== *)
theory Mkfs
  imports Mount
begin

text \<open>
  Making a file system: \<^verbatim>\<open>mkfs/mkexfat.c\<close>, the objects of a volume in \<^verbatim>\<open>vbr.c\<close>, \<^verbatim>\<open>fat.c\<close>, \<^verbatim>\<open>cbm.c\<close>, \<^verbatim>\<open>uct.c\<close>
  and \<^verbatim>\<open>rootdir.c\<close>, the choice of parameters in \<^verbatim>\<open>mkfs/main.c\<close> and its counterpart in
  \<^verbatim>\<open>amiga/format.c\<close>.  The return value 0 of the C functions is success.
\<close>

section \<open>Parameters and objects\<close>

record mkfs_param =
  mp_sector_bits :: nat
  mp_spc_bits :: nat
  mp_volume_size :: off_t
  mp_volume_label :: "u16 list"
  mp_volume_serial :: u32
  mp_first_sector :: u64

definition get_sector_size :: "mkfs_param \<Rightarrow> int" where
  "get_sector_size p = 2 ^ mp_sector_bits p"

definition get_cluster_size :: "mkfs_param \<Rightarrow> int" where
  "get_cluster_size p = get_sector_size p * 2 ^ mp_spc_bits p"

datatype fs_object = VBR | FAT | CBM | UCT | ROOTDIR

definition objects :: "fs_object list" where
  "objects = [VBR, VBR, FAT, CBM, UCT, ROOTDIR]"

definition get_alignment :: "mkfs_param \<Rightarrow> fs_object \<Rightarrow> off_t" where
  "get_alignment p obj =
     (case obj of
        VBR \<Rightarrow> get_sector_size p
      | FAT \<Rightarrow> 128 * get_sector_size p
      | CBM \<Rightarrow> get_cluster_size p
      | UCT \<Rightarrow> get_cluster_size p
      | ROOTDIR \<Rightarrow> get_cluster_size p)"

definition vbr_size :: "mkfs_param \<Rightarrow> off_t" where
  "vbr_size p = 12 * get_sector_size p"

definition fat_size :: "mkfs_param \<Rightarrow> off_t" where
  "fat_size p = mp_volume_size p div get_cluster_size p * 4"

text \<open>The loop of \<^verbatim>\<open>get_position\<close> over the objects that are left; \<open>None\<close> is the unknown object.\<close>

fun position_loop :: "mkfs_param \<Rightarrow> (fs_object \<Rightarrow> off_t) \<Rightarrow> fs_object \<Rightarrow> fs_object list \<Rightarrow> off_t \<Rightarrow> off_t option" where
  "position_loop p sizeof obj [] position = None"
| "position_loop p sizeof obj (x # xs) position =
     (let position = ROUND_UP position (get_alignment p x)
      in if x = obj then Some position else position_loop p sizeof obj xs (position + sizeof x))"

text \<open>
  The size of the bitmap depends on its own position, for which only the sizes of the objects before it
  are asked.  The difference is negative when the volume is too small, hence the truncating division.
\<close>

definition cbm_position :: "mkfs_param \<Rightarrow> off_t" where
  "cbm_position p =
     the (position_loop p (\<lambda>obj. if obj = VBR then vbr_size p else fat_size p) CBM objects 0)"

definition cbm_size :: "mkfs_param \<Rightarrow> off_t" where
  "cbm_size p = ((mp_volume_size p - cbm_position p) sdiv get_cluster_size p + 8 - 1) sdiv 8"

text \<open>The table is a parameter of the functions that use it; \<^verbatim>\<open>upcase_table\<close> of \<^verbatim>\<open>uctc.c\<close> is its value.\<close>

definition get_size :: "u8 list \<Rightarrow> mkfs_param \<Rightarrow> fs_object \<Rightarrow> off_t" where
  "get_size upcase_table p obj =
     (case obj of
        VBR \<Rightarrow> vbr_size p
      | FAT \<Rightarrow> fat_size p
      | CBM \<Rightarrow> cbm_size p
      | UCT \<Rightarrow> int (length upcase_table)
      | ROOTDIR \<Rightarrow> get_cluster_size p)"

definition get_position :: "u8 list \<Rightarrow> mkfs_param \<Rightarrow> fs_object \<Rightarrow> off_t" where
  "get_position upcase_table p obj = the (position_loop p (get_size upcase_table p) obj objects 0)"

section \<open>The boot region\<close>

definition init_sb :: "u8 list \<Rightarrow> mkfs_param \<Rightarrow> exfat_super_block" where
  "init_sb upcase_table p =
     (let clusters_max = word_of_int (mp_volume_size p div get_cluster_size p) :: u32;
          fat_sectors = word_of_int (DIV_ROUND_UP (uint clusters_max * 4) (get_sector_size p)) :: u32;
          fat_sector_start = word_of_int (get_alignment p FAT div get_sector_size p) :: u32;
          fat_sector_count =
            ROUND_UP (fat_sector_start + fat_sectors) (2 ^ mp_spc_bits p) - fat_sector_start;
          cbm = get_position upcase_table p CBM
      in (sb_of_bytes (replicate 512 0))
         \<lparr>sb_jump := [0xeb, 0x76, 0x90], sb_oem_name := EXFAT_OEM_NAME,
          sb_sector_start := mp_first_sector p,
          sb_sector_count := word_of_int (mp_volume_size p div get_sector_size p),
          sb_fat_sector_start := fat_sector_start, sb_fat_sector_count := fat_sector_count,
          sb_cluster_sector_start := word_of_int (cbm div get_sector_size p),
          sb_cluster_count := clusters_max - drop_bit (mp_spc_bits p) (fat_sector_start + fat_sector_count),
          sb_rootdir_cluster :=
            word_of_int ((get_position upcase_table p ROOTDIR - cbm) div get_cluster_size p + 2),
          sb_volume_serial := mp_volume_serial p, sb_version_major := 1, sb_version_minor := 0,
          sb_volume_state := 0, sb_sector_bits := of_nat (mp_sector_bits p), sb_spc_bits := of_nat (mp_spc_bits p),
          sb_fat_count := 1, sb_drive_no := 0x80, sb_allocated_percent := 0, sb_boot_signature := 0xaa55\<rparr>)"

definition boot_sector :: "nat \<Rightarrow> u8 list" where
  "boot_sector sector_size = replicate (sector_size - 4) 0 @ le_bytes 4 (0xaa550000 :: u32)"

text \<open>\<open>write_sectors n\<close>: the same sector \<open>n\<close> times, with the running checksum; \<open>None\<close> is a failed write.\<close>

primrec write_sectors :: "nat \<Rightarrow> exfat_dev \<Rightarrow> u8 list \<Rightarrow> u32 \<Rightarrow> bool \<times> exfat_dev \<times> u32" where
  "write_sectors 0 dev sector checksum = (True, dev, checksum)"
| "write_sectors (Suc n) dev sector checksum =
     (let (r, dev) = exfat_write dev sector (length sector)
      in if r < 0 then (False, dev, checksum)
         else write_sectors n dev sector (exfat_vbr_add_checksum sector checksum))"

definition vbr_write :: "host \<Rightarrow> u8 list \<Rightarrow> mkfs_param \<Rightarrow> exfat_dev \<Rightarrow> int \<times> exfat_dev" where
  "vbr_write host upcase_table p dev =
     (let sector_size = nat (get_sector_size p)
      in if \<not> h_malloc host sector_size then (1, dev)
         else
           let sb = bytes_of_sb (init_sb upcase_table p);
               (r, dev) = exfat_write dev sb 512
           in if r < 0 then (1, dev)
              else
                let checksum = exfat_vbr_start_checksum sb;
                    (ok, dev, checksum) = write_sectors 8 dev (boot_sector sector_size) checksum
                in if \<not> ok then (1, dev)
                   else
                     let (ok, dev, checksum) = write_sectors 2 dev (replicate sector_size 0) checksum
                     in if \<not> ok then (1, dev)
                        else
                          let (r, dev) = exfat_write dev (concat (replicate (sector_size div 4) (le_bytes 4 checksum))) sector_size
                          in if r < 0 then (1, dev) else (0, dev))"

section \<open>The allocation table\<close>

text \<open>The entry's value is the new cluster number, or 0 when the write failed.\<close>

definition fat_write_entry :: "exfat_dev \<Rightarrow> cluster_t \<Rightarrow> cluster_t \<Rightarrow> cluster_t \<times> exfat_dev" where
  "fat_write_entry dev cluster v =
     (let (r, dev) = exfat_write dev (le_bytes 4 v) 4 in if r < 0 then (0, dev) else (cluster + 1, dev))"

function fat_entries_loop :: "exfat_dev \<Rightarrow> cluster_t \<Rightarrow> cluster_t \<Rightarrow> cluster_t \<times> exfat_dev" where
  "fat_entries_loop dev cluster en =
     (if cluster < en - 1
      then let next = fat_write_entry dev cluster (cluster + 1)
           in if fst next = 0 then (0, snd next) else fat_entries_loop (snd next) (fst next) en
      else fat_write_entry dev cluster EXFAT_CLUSTER_END)"
  by pat_completeness auto
termination
proof (relation "measure (\<lambda>(dev, cluster, en). unat (en - 1) - unat cluster)")
  fix dev :: exfat_dev and cluster en :: cluster_t and x
  assume lt: "cluster < en - 1" and x: "x = fat_write_entry dev cluster (cluster + 1)" and nz: "fst x \<noteq> 0"
  have "fst x = cluster + 1" using x nz by (auto simp: fat_write_entry_def Let_def split: prod.splits if_splits)
  moreover have "unat (cluster + 1) = unat cluster + 1"
    using lt unat_u32 [of "en - 1"] by (simp add: word_less_nat_alt unat_word_ariths)
  ultimately show "((snd x, fst x, en), dev, cluster, en) \<in> measure (\<lambda>(dev, cluster, en). unat (en - 1) - unat cluster)"
    using lt by (simp add: word_less_nat_alt)
qed simp

declare fat_entries_loop.simps [simp del]

definition fat_write_entries :: "mkfs_param \<Rightarrow> exfat_dev \<Rightarrow> cluster_t \<Rightarrow> int \<Rightarrow> cluster_t \<times> exfat_dev" where
  "fat_write_entries p dev cluster sz =
     fat_entries_loop dev cluster (cluster + word_of_int (DIV_ROUND_UP sz (get_cluster_size p)))"

definition fat_write :: "u8 list \<Rightarrow> mkfs_param \<Rightarrow> exfat_dev \<Rightarrow> int \<times> exfat_dev" where
  "fat_write upcase_table p dev =
     (let (c, dev) = fat_write_entry dev 0 0xfffffff8
      in if c = 0 then (1, dev)
         else let (c, dev) = fat_write_entry dev c 0xffffffff
              in if c = 0 then (1, dev)
                 else let (c, dev) = fat_write_entries p dev c (cbm_size p)
                      in if c = 0 then (1, dev)
                         else let (c, dev) = fat_write_entries p dev c (int (length upcase_table))
                              in if c = 0 then (1, dev)
                                 else let (c, dev) = fat_write_entries p dev c (get_cluster_size p)
                                      in if c = 0 then (1, dev) else (0, dev))"

section \<open>The bitmap, the table and the root directory\<close>

definition allocated_clusters :: "u8 list \<Rightarrow> mkfs_param \<Rightarrow> u32" where
  "allocated_clusters upcase_table p =
     word_of_int (DIV_ROUND_UP (cbm_size p) (get_cluster_size p) +
                  DIV_ROUND_UP (int (length upcase_table)) (get_cluster_size p) +
                  DIV_ROUND_UP (get_cluster_size p) (get_cluster_size p))"

definition cbm_write :: "host \<Rightarrow> u8 list \<Rightarrow> mkfs_param \<Rightarrow> exfat_dev \<Rightarrow> int \<times> exfat_dev" where
  "cbm_write host upcase_table p dev =
     (let allocated = unat (allocated_clusters upcase_table p);
          bitmap_size = ROUND_UP allocated 8
      in if \<not> h_malloc host (BMAP_SIZE bitmap_size) then (1, dev)
         else
           let bitmap = foldl (\<lambda>b i. if i < allocated then BMAP_SET b i else b)
                          (replicate (BMAP_SIZE bitmap_size div 8) 0) [0..<bitmap_size];
               (r, dev) = exfat_write dev (bytes_of_words bitmap) (bitmap_size div 8)
           in if r < 0 then (1, dev) else (0, dev))"

definition uct_write :: "u8 list \<Rightarrow> exfat_dev \<Rightarrow> int \<times> exfat_dev" where
  "uct_write upcase_table dev =
     (let (r, dev) = exfat_write dev upcase_table (length upcase_table) in if r < 0 then (1, dev) else (0, dev))"

definition init_label_entry :: "mkfs_param \<Rightarrow> exfat_entry_label" where
  "init_label_entry p =
     (let label = mp_volume_label p;
          e = \<lparr>el_type = EXFAT_ENTRY_LABEL XOR EXFAT_ENTRY_VALID, el_length = 0, el_name = replicate EXFAT_ENAME_MAX 0\<rparr>
      in if exfat_utf16_length label = 0 then e
         else e\<lparr>el_name := take EXFAT_ENAME_MAX label, el_length := of_nat (exfat_utf16_length label),
                el_type := el_type e OR EXFAT_ENTRY_VALID\<rparr>)"

definition init_bitmap_entry :: "mkfs_param \<Rightarrow> exfat_entry_bitmap" where
  "init_bitmap_entry p =
     (bitmap_of_bytes (replicate 32 0))
     \<lparr>eb_type := EXFAT_ENTRY_BITMAP, eb_start_cluster := EXFAT_FIRST_DATA_CLUSTER, eb_size := word_of_int (cbm_size p)\<rparr>"

definition upcase_checksum :: "u8 list \<Rightarrow> u32" where
  "upcase_checksum upcase_table = foldl (\<lambda>acc b. (push_bit 31 acc OR drop_bit 1 acc) + ucast b) 0 upcase_table"

definition init_upcase_entry :: "u8 list \<Rightarrow> mkfs_param \<Rightarrow> exfat_entry_upcase" where
  "init_upcase_entry upcase_table p =
     (upcase_of_bytes (replicate 32 0))
     \<lparr>eu_type := EXFAT_ENTRY_UPCASE, eu_checksum := upcase_checksum upcase_table,
      eu_start_cluster := word_of_int
        ((get_position upcase_table p UCT - get_position upcase_table p CBM) div get_cluster_size p + 2),
      eu_size := of_nat (length upcase_table)\<rparr>"

definition rootdir_write :: "u8 list \<Rightarrow> mkfs_param \<Rightarrow> exfat_dev \<Rightarrow> int \<times> exfat_dev" where
  "rootdir_write upcase_table p dev =
     (let (r, dev) = exfat_write dev (bytes_of_label (init_label_entry p)) ENTRY_SIZE
      in if r < 0 then (1, dev)
         else let (r, dev) = exfat_write dev (bytes_of_bitmap (init_bitmap_entry p)) ENTRY_SIZE
              in if r < 0 then (1, dev)
                 else let (r, dev) = exfat_write dev (bytes_of_upcase (init_upcase_entry upcase_table p)) ENTRY_SIZE
                      in if r < 0 then (1, dev) else (0, dev))"

section \<open>Making the file system\<close>

fun size_loop :: "u8 list \<Rightarrow> mkfs_param \<Rightarrow> fs_object list \<Rightarrow> off_t \<Rightarrow> off_t" where
  "size_loop upcase_table p [] position = position"
| "size_loop upcase_table p (x # xs) position =
     size_loop upcase_table p xs (ROUND_UP position (get_alignment p x) + get_size upcase_table p x)"

definition check_size :: "u8 list \<Rightarrow> mkfs_param \<Rightarrow> off_t \<Rightarrow> int" where
  "check_size upcase_table p volume_size =
     (if volume_size < size_loop upcase_table p objects 0 then 1 else 0)"

function erase_blocks :: "exfat_dev \<Rightarrow> u8 list \<Rightarrow> nat \<Rightarrow> nat \<Rightarrow> nat \<Rightarrow> int \<times> exfat_dev" where
  "erase_blocks dev block block_size i sz =
     (if i < sz \<and> 0 < block_size
      then let r = exfat_write dev block (min (sz - i) block_size)
           in if fst r < 0 then (1, snd r) else erase_blocks (snd r) block block_size (i + block_size) sz
      else (0, dev))"
  by pat_completeness auto
termination
  by (relation "measure (\<lambda>(dev, block, block_size, i, sz). sz - i)") auto

declare erase_blocks.simps [simp del]

definition erase_object :: "exfat_dev \<Rightarrow> u8 list \<Rightarrow> nat \<Rightarrow> off_t \<Rightarrow> off_t \<Rightarrow> int \<times> exfat_dev" where
  "erase_object dev block block_size start sz =
     (let (r, dev) = exfat_seek dev start SEEK_SET
      in if r = - 1 then (1, dev) else erase_blocks dev block block_size 0 (nat sz))"

fun mkfs_erase_loop ::
    "u8 list \<Rightarrow> mkfs_param \<Rightarrow> u8 list \<Rightarrow> nat \<Rightarrow> fs_object list \<Rightarrow> off_t \<Rightarrow> exfat_dev \<Rightarrow> int \<times> exfat_dev" where
  "mkfs_erase_loop upcase_table p block block_size [] position dev = (0, dev)"
| "mkfs_erase_loop upcase_table p block block_size (x # xs) position dev =
     (let position = ROUND_UP position (get_alignment p x);
          (r, dev) = erase_object dev block block_size position (get_size upcase_table p x)
      in if r \<noteq> 0 then (1, dev)
         else mkfs_erase_loop upcase_table p block block_size xs (position + get_size upcase_table p x) dev)"

definition mkfs_erase :: "host \<Rightarrow> u8 list \<Rightarrow> mkfs_param \<Rightarrow> exfat_dev \<Rightarrow> int \<times> exfat_dev" where
  "mkfs_erase host upcase_table p dev =
     (let block_size = 1024 * 1024
      in if \<not> h_malloc host block_size then (1, dev)
         else mkfs_erase_loop upcase_table p (replicate block_size 0) block_size objects 0 dev)"

definition object_write :: "host \<Rightarrow> u8 list \<Rightarrow> mkfs_param \<Rightarrow> fs_object \<Rightarrow> exfat_dev \<Rightarrow> int \<times> exfat_dev" where
  "object_write host upcase_table p obj dev =
     (case obj of
        VBR \<Rightarrow> vbr_write host upcase_table p dev
      | FAT \<Rightarrow> fat_write upcase_table p dev
      | CBM \<Rightarrow> cbm_write host upcase_table p dev
      | UCT \<Rightarrow> uct_write upcase_table dev
      | ROOTDIR \<Rightarrow> rootdir_write upcase_table p dev)"

fun mkfs_create_loop ::
    "host \<Rightarrow> u8 list \<Rightarrow> mkfs_param \<Rightarrow> fs_object list \<Rightarrow> off_t \<Rightarrow> exfat_dev \<Rightarrow> int \<times> exfat_dev" where
  "mkfs_create_loop host upcase_table p [] position dev = (0, dev)"
| "mkfs_create_loop host upcase_table p (x # xs) position dev =
     (let position = ROUND_UP position (get_alignment p x);
          (r, dev) = exfat_seek dev position SEEK_SET
      in if r = - 1 then (1, dev)
         else let (r, dev) = object_write host upcase_table p x dev
              in if r \<noteq> 0 then (1, dev)
                 else mkfs_create_loop host upcase_table p xs (position + get_size upcase_table p x) dev)"

definition mkfs_create :: "host \<Rightarrow> u8 list \<Rightarrow> mkfs_param \<Rightarrow> exfat_dev \<Rightarrow> int \<times> exfat_dev" where
  "mkfs_create host upcase_table p dev = mkfs_create_loop host upcase_table p objects 0 dev"

definition mkfs :: "host \<Rightarrow> u8 list \<Rightarrow> mkfs_param \<Rightarrow> exfat_dev \<Rightarrow> int \<times> exfat_dev" where
  "mkfs host upcase_table p dev =
     (if check_size upcase_table p (mp_volume_size p) \<noteq> 0 then (1, dev)
      else let (r, dev) = mkfs_erase host upcase_table p dev
           in if r \<noteq> 0 then (1, dev)
              else let (r, dev) = mkfs_create host upcase_table p dev
                   in if r \<noteq> 0 then (1, dev)
                      else if exfat_fsync dev \<noteq> 0 then (1, dev) else (0, dev))"

section \<open>Choosing the parameters\<close>

text \<open>
  The search for a cluster size has no bound in \<^verbatim>\<open>mkfs/main.c\<close>; shifting the \<^verbatim>\<open>int\<close> 1 by 31 places or more is
  undefined behaviour and has no result.
\<close>

partial_function (option) spc_loop :: "int \<Rightarrow> off_t \<Rightarrow> nat \<Rightarrow> nat option" where
  "spc_loop sector_bits volume_size i =
     (if 31 \<le> i then None
      else if DIV_ROUND_UP volume_size (2 ^ i) \<le> uint EXFAT_LAST_DATA_CLUSTER then Some (nat (max 0 (int i - sector_bits)))
      else spc_loop sector_bits volume_size (i + 1))"

text \<open>\<open>- 1\<close> asks for a choice; the inner \<open>None\<close> is the return value \<open>- 1\<close>.\<close>

definition setup_spc_bits :: "nat \<Rightarrow> int \<Rightarrow> off_t \<Rightarrow> nat option option" where
  "setup_spc_bits sector_bits user_defined volume_size =
     (if user_defined \<noteq> - 1
      then let cluster_size = 2 ^ sector_bits * 2 ^ nat user_defined
           in if uint EXFAT_LAST_DATA_CLUSTER < volume_size div cluster_size then Some None
              else Some (Some (nat user_defined))
      else if volume_size < 256 * 1024 * 1024 then Some (Some (12 - sector_bits))
      else if volume_size < 32 * 1024 * 1024 * 1024 then Some (Some (15 - sector_bits))
      else do { bits \<leftarrow> spc_loop (int sector_bits) volume_size 17; Some (Some bits) })"

definition setup_volume_label :: "u8 list option \<Rightarrow> int \<times> u16 list" where
  "setup_volume_label s =
     (let label = replicate (EXFAT_ENAME_MAX + 1) 0
      in case s of
           None \<Rightarrow> (0, label)
         | Some s \<Rightarrow> let (rc, out) = exfat_utf8_to_utf16 s (EXFAT_ENAME_MAX + 1) (length s) in (rc, fill label out))"

text \<open>\<open>now\<close> is what \<^verbatim>\<open>gettimeofday\<close> returns, or its failure.\<close>

definition setup_volume_serial :: "u32 \<Rightarrow> (int \<times> int) option \<Rightarrow> u32" where
  "setup_volume_serial user_defined now =
     (if user_defined \<noteq> 0 then user_defined
      else case now of
        None \<Rightarrow> 0
      | Some (tv_sec, tv_usec) \<Rightarrow> word_of_int (push_bit 20 tv_sec OR tv_usec))"

definition mkfs_setup ::
    "host \<Rightarrow> u8 list \<Rightarrow> (int \<times> int) option \<Rightarrow> exfat_dev \<Rightarrow> nat \<Rightarrow> int \<Rightarrow> u8 list option \<Rightarrow> u32 \<Rightarrow> u64 \<Rightarrow> (int \<times> exfat_dev) option" where
  "mkfs_setup host upcase_table now dev sector_bits spc_bits volume_label volume_serial first_sector =
     do {
       let volume_size = exfat_get_size dev;
       bits \<leftarrow> setup_spc_bits sector_bits spc_bits volume_size;
       (case bits of
          None \<Rightarrow> Some (1, dev)
        | Some b \<Rightarrow>
            let (rc, label) = setup_volume_label volume_label;
                serial = setup_volume_serial volume_serial now
            in if rc \<noteq> 0 then Some (1, dev)
               else if serial = 0 then Some (1, dev)
               else Some (mkfs host upcase_table
                      \<lparr>mp_sector_bits = sector_bits, mp_spc_bits = b, mp_volume_size = volume_size,
                       mp_volume_label = label, mp_volume_serial = serial, mp_first_sector = first_sector\<rparr> dev))
     }"

definition logarithm2 :: "int \<Rightarrow> nat option" where
  "logarithm2 n = find (\<lambda>i. 2 ^ i = n) [0..<31]"

section \<open>Formatting on AmigaOS\<close>

definition choose_spc_bits :: "nat \<Rightarrow> off_t \<Rightarrow> nat option" where
  "choose_spc_bits sector_bits volume_size =
     (if volume_size < 256 * 1024 * 1024 then Some (12 - sector_bits)
      else if volume_size < 32 * 1024 * 1024 * 1024 then Some (15 - sector_bits)
      else case find (\<lambda>i. DIV_ROUND_UP volume_size (2 ^ i) \<le> uint EXFAT_LAST_DATA_CLUSTER) [17..<32] of
             Some i \<Rightarrow> Some (i - sector_bits)
           | None \<Rightarrow> None)"

text \<open>\<open>stamp\<close> is the system's date stamp (days, minutes, ticks), or the failure to open the library.\<close>

definition make_serial :: "(u32 \<times> u32 \<times> u32) option \<Rightarrow> u32" where
  "make_serial stamp =
     (case stamp of
        None \<Rightarrow> 1
      | Some (days, minute, tick) \<Rightarrow>
          let serial = push_bit 20 days XOR push_bit 10 minute XOR tick in if serial \<noteq> 0 then serial else 1)"

text \<open>
  \<open>blocksize\<close> and \<open>firstbyte\<close> come from the device specification; \<open>dev\<close> is what opening the device
  returns.
\<close>

definition exfat_amiga_format ::
    "host \<Rightarrow> u8 list \<Rightarrow> (u32 \<times> u32 \<times> u32) option \<Rightarrow> nat \<Rightarrow> u64 \<Rightarrow> exfat_dev option \<Rightarrow> u8 list option \<Rightarrow> int \<times> exfat_dev option" where
  "exfat_amiga_format host upcase_table stamp blocksize firstbyte opened label_utf8 =
     (case logarithm2 (int blocksize) of
        None \<Rightarrow> (- 1, opened)
      | Some sector_bits \<Rightarrow>
          if sector_bits < 9 \<or> 12 < sector_bits then (- 1, opened)
          else case opened of
            None \<Rightarrow> (- 1, None)
          | Some dev \<Rightarrow>
              (case choose_spc_bits sector_bits (exfat_get_size dev) of
                 None \<Rightarrow> (- 1, Some dev)
               | Some spc_bits \<Rightarrow>
                   let (rc, label) = (case label_utf8 of
                          None \<Rightarrow> (0, replicate (EXFAT_ENAME_MAX + 1) 0)
                        | Some s \<Rightarrow> if s = [] then (0, replicate (EXFAT_ENAME_MAX + 1) 0) else setup_volume_label (Some s));
                       label = (if rc \<noteq> 0 then replicate (EXFAT_ENAME_MAX + 1) 0 else label);
                       (rc, dev) = mkfs host upcase_table
                         \<lparr>mp_sector_bits = sector_bits, mp_spc_bits = spc_bits, mp_volume_size = exfat_get_size dev,
                          mp_volume_label = label, mp_volume_serial = make_serial stamp,
                          mp_first_sector = firstbyte div of_nat blocksize\<rparr> dev
                   in (if rc \<noteq> 0 then - 1 else 0, Some dev)))"

end
