(* ===== verification/Boot.thy ===== *)
theory Boot
  imports Mkfs
begin

text \<open>
  The boot region, between the programs that write it and the library that reads it: what
  \<^verbatim>\<open>verify_vbr_checksum\<close> of \<^verbatim>\<open>libexfat/mount.c\<close> accepts, and that it accepts what \<^verbatim>\<open>vbr_write\<close> of \<^verbatim>\<open>mkfs/vbr.c\<close> writes.
\<close>

section \<open>Verifying\<close>

definition sector_at :: "exfat_dev \<Rightarrow> nat \<Rightarrow> nat \<Rightarrow> u8 list" where
  "sector_at dev s i = map (dev_data dev) [i * s..<i * s + s]"

text \<open>The checksum of the first eleven sectors.\<close>

definition boot_checksum :: "exfat_dev \<Rightarrow> nat \<Rightarrow> u32" where
  "boot_checksum dev s =
     foldl (\<lambda>acc i. exfat_vbr_add_checksum (sector_at dev s i) acc) (exfat_vbr_start_checksum (sector_at dev s 0)) [1..<11]"

text \<open>The boot region is signed: the twelfth sector repeats the checksum.\<close>

definition boot_signed :: "exfat_dev \<Rightarrow> nat \<Rightarrow> bool" where
  "boot_signed dev s \<longleftrightarrow> (\<forall>i < s div 4. le_word (seg (sector_at dev s 11) (4 * i) 4) = boot_checksum dev s)"

definition boot_readable :: "exfat_dev \<Rightarrow> nat \<Rightarrow> bool" where
  "boot_readable dev s \<longleftrightarrow> (\<forall>off n. off + n \<le> 12 * s \<longrightarrow> dev_readable dev n off)"

text \<open>The buffer of the loops: the whole region, or room for one sector.\<close>

definition buffer_ok :: "exfat \<Rightarrow> bool \<Rightarrow> u8 list \<Rightarrow> bool" where
  "buffer_ok ef whole buffer \<longleftrightarrow>
     (if whole then take (12 * SECTOR_SIZE (ef_sb ef)) buffer = map (dev_data (ef_dev ef)) [0..<12 * SECTOR_SIZE (ef_sb ef)]
      else SECTOR_SIZE (ef_sb ef) \<le> length buffer)"

lemma seg_take: "off + n \<le> m \<Longrightarrow> seg (take m xs) off n = seg xs off n"
  by (simp add: seg_def take_drop min_def)

lemma sector_in_region:
  assumes "i < 12" "take (12 * s) buffer = map (dev_data dev) [0..<12 * s]"
  shows "seg buffer (i * s) s = sector_at dev s i"
proof -
  have fit: "i * s + s \<le> 12 * s" using assms(1) mult_le_mono1 [of "Suc i" 12 s] by simp
  have "seg buffer (i * s) s = seg (map (dev_data dev) [0..<12 * s]) (i * s) s"
    using seg_take [OF fit, of buffer] assms(2) by simp
  also have "\<dots> = sector_at dev s i"
  proof (rule nth_equalityI)
    have "s \<le> 12 * s - i * s" using fit by linarith
    then show l: "length (seg (map (dev_data dev) [0..<12 * s]) (i * s) s) = length (sector_at dev s i)"
      by (simp add: seg_def sector_at_def)
    show "seg (map (dev_data dev) [0..<12 * s]) (i * s) s ! k = sector_at dev s i ! k"
      if "k < length (seg (map (dev_data dev) [0..<12 * s]) (i * s) s)" for k
    proof -
      have k: "k < s" using that unfolding l by (simp add: sector_at_def)
      then have "i * s + k < 12 * s" using fit by linarith
      then have "map (dev_data dev) [0..<12 * s] ! (i * s + k) = dev_data dev (i * s + k)" by (subst nth_map) simp_all
      moreover have "i * s \<le> length (map (dev_data dev) [0..<12 * s])" using fit by (simp only: length_map length_upt)
      ultimately show ?thesis using k by (simp add: seg_def sector_at_def nth_drop del: length_map)
    qed
  qed
  finally show ?thesis .
qed

lemma vbr_sector_ok:
  assumes "boot_readable (ef_dev ef) (SECTOR_SIZE (ef_sb ef))" "i < 12" "buffer_ok ef whole buffer"
  shows "\<exists>buffer'. vbr_sector ef whole buffer i = Some (sector_at (ef_dev ef) (SECTOR_SIZE (ef_sb ef)) i, buffer') \<and>
    buffer_ok ef whole buffer'"
proof (cases whole)
  case True
  then show ?thesis using assms(3) sector_in_region [OF assms(2)] by (simp add: vbr_sector_def buffer_ok_def Let_def)
next
  case False
  let ?s = "SECTOR_SIZE (ef_sb ef)"
  have l: "?s \<le> length buffer" using assms(3) False by (simp add: buffer_ok_def)
  have "i * ?s + ?s \<le> 12 * ?s" using assms(2) mult_le_mono1 [of "Suc i" 12 ?s] by simp
  then have "dev_readable (ef_dev ef) ?s (i * ?s)" using assms(1) by (simp add: boot_readable_def)
  then have "exfat_pread (ef_dev ef) (take ?s buffer) ?s (int (i * ?s)) = (int ?s, sector_at (ef_dev ef) ?s i)"
    using exfat_pread_full [of "take ?s buffer" ?s "ef_dev ef" "i * ?s"] l by (simp add: sector_at_def)
  then show ?thesis using False l by (simp add: vbr_sector_def buffer_ok_def Let_def sector_at_def)
qed

lemma vbr_sum_ok:
  assumes "boot_readable (ef_dev ef) (SECTOR_SIZE (ef_sb ef))" "\<forall>i \<in> set is. i < 12" "buffer_ok ef whole buffer"
  shows "\<exists>buffer'. vbr_sum_loop ef whole buffer acc is =
      Some (foldl (\<lambda>acc i. exfat_vbr_add_checksum (sector_at (ef_dev ef) (SECTOR_SIZE (ef_sb ef)) i) acc) acc is, buffer') \<and>
    buffer_ok ef whole buffer'"
  using assms(2,3)
proof (induction "is" arbitrary: acc buffer)
  case (Cons i "is")
  obtain b where b: "vbr_sector ef whole buffer i = Some (sector_at (ef_dev ef) (SECTOR_SIZE (ef_sb ef)) i, b)" "buffer_ok ef whole b"
    using vbr_sector_ok [OF assms(1) _ Cons.prems(2)] Cons.prems(1) by auto
  show ?case using Cons.IH [OF _ b(2)] Cons.prems(1) b(1) by simp
qed auto

lemma vbr_check_ok:
  "\<forall>i \<in> set is. le_word (seg sector (4 * i) 4) = c \<Longrightarrow> vbr_check_loop ef sector c is = (True, ef)"
  by (induction "is") auto

lemma vbr_check_eq:
  "ef_repair ef = EXFAT_REPAIR_NO \<Longrightarrow>
    vbr_check_loop ef sector c is = ((\<forall>i \<in> set is. le_word (seg sector (4 * i) 4) = c), ef)"
  by (induction "is") (auto simp: exfat_ask_to_fix_def)

lemma verify_unfold:
  assumes "boot_readable (ef_dev ef) (SECTOR_SIZE (ef_sb ef))" "length buffer = CLUSTER_SIZE (ef_sb ef)"
  shows "verify_vbr_checksum ef buffer =
    vbr_check_loop ef (sector_at (ef_dev ef) (SECTOR_SIZE (ef_sb ef)) 11) (boot_checksum (ef_dev ef) (SECTOR_SIZE (ef_sb ef)))
      [0..<SECTOR_SIZE (ef_sb ef) div 4]"
proof -
  let ?s = "SECTOR_SIZE (ef_sb ef)"
  define whole where "whole = (12 * ?s \<le> CLUSTER_SIZE (ef_sb ef))"
  define n where "n = (if whole then 12 * ?s else ?s)"
  have sc: "?s \<le> CLUSTER_SIZE (ef_sb ef)" by (simp add: SECTOR_SIZE_def CLUSTER_SIZE_def)
  have n: "n \<le> length buffer" "n \<le> 12 * ?s" "?s \<le> n" using sc assms(2) by (auto simp: n_def whole_def)
  define b where "b = map (dev_data (ef_dev ef)) [0..<n] @ drop n buffer"
  have "dev_readable (ef_dev ef) n 0" using assms(1) n(2) by (simp add: boot_readable_def)
  then have p: "exfat_pread (ef_dev ef) (take n buffer) n 0 = (int n, map (dev_data (ef_dev ef)) [0..<n])"
    using exfat_pread_full [of "take n buffer" n "ef_dev ef" 0] n(1) by simp
  have ok: "buffer_ok ef whole b" using n by (auto simp: buffer_ok_def b_def n_def)
  have first: "take ?s b = sector_at (ef_dev ef) ?s 0" using n(3) by (simp add: b_def sector_at_def take_map)
  obtain b1 where b1: "vbr_sum_loop ef whole b (exfat_vbr_start_checksum (take ?s b)) [1..<11] = Some (boot_checksum (ef_dev ef) ?s, b1)"
    "buffer_ok ef whole b1"
    using vbr_sum_ok [OF assms(1) _ ok, of "[1..<11]" "exfat_vbr_start_checksum (take ?s b)"]
    unfolding first boot_checksum_def by auto
  obtain b2 where b2: "vbr_sector ef whole b1 11 = Some (sector_at (ef_dev ef) ?s 11, b2)"
    using vbr_sector_ok [OF assms(1) _ b1(2), of 11] by auto
  show ?thesis
    unfolding verify_vbr_checksum_def Let_def whole_def [symmetric] n_def [symmetric] p prod.case b_def [symmetric]
    by (simp add: b1(1) [simplified] b2)
qed

section \<open>Writing\<close>

text \<open>A write at the current position that stays inside the medium: it fails, or stores its bytes and moves on.\<close>

definition appended :: "exfat_dev \<Rightarrow> nat \<Rightarrow> u8 list \<Rightarrow> exfat_dev" where
  "appended dev q bs = dev\<lparr>dev_data := store (dev_data dev) q bs, dev_pos := int (q + length bs)\<rparr>"

lemma appended_Nil: "dev_pos dev = int q \<Longrightarrow> appended dev q [] = dev"
proof -
  assume "dev_pos dev = int q"
  moreover have "store (dev_data dev) q [] = dev_data dev" by (auto simp: store_def fun_eq_iff)
  ultimately show ?thesis by (simp add: appended_def flip: \<open>dev_pos dev = int q\<close>)
qed

lemma appended_append: "appended (appended dev q a) (q + length a) b = appended dev q (a @ b)"
  by (simp add: appended_def store_store)

lemma appended_fields [simp]: "dev_pos (appended dev q bs) = int (q + length bs)" "dev_size (appended dev q bs) = dev_size dev"
  by (simp_all add: appended_def)

lemma write_appends:
  assumes "exfat_write dev bs (length bs) = (r, dev')" "0 \<le> r" "dev_pos dev = int q" "int (q + length bs) \<le> dev_size dev"
  shows "dev' = appended dev q bs"
  using assms by (auto simp: exfat_write_def sys_pwrite_def appended_def Let_def min_def split: option.splits if_splits)

lemma write_sectors_appends:
  assumes "write_sectors n dev sector c = (True, dev', c')" "dev_pos dev = int q" "int (q + n * length sector) \<le> dev_size dev"
  shows "dev' = appended dev q (concat (replicate n sector)) \<and> c' = (exfat_vbr_add_checksum sector ^^ n) c"
  using assms
proof (induction n arbitrary: dev c q)
  case 0
  then show ?case by (simp add: appended_Nil)
next
  case (Suc n)
  obtain r dev1 where w: "exfat_write dev sector (length sector) = (r, dev1)" by fastforce
  then have run: "write_sectors n dev1 sector (exfat_vbr_add_checksum sector c) = (True, dev', c')" "0 \<le> r"
    using Suc.prems(1) by (auto split: if_splits)
  have "int (q + length sector) \<le> int (q + Suc n * length sector)" by simp
  then have fit: "int (q + length sector) \<le> dev_size dev" using Suc.prems(3) by linarith
  have d1: "dev1 = appended dev q sector" by (rule write_appends [OF w run(2) Suc.prems(2) fit])
  have "dev_pos dev1 = int (q + length sector)" "int (q + length sector + n * length sector) \<le> dev_size dev1"
    using Suc.prems(3) by (simp_all add: d1 algebra_simps)
  from Suc.IH [OF run(1) this] show ?case
    by (simp add: d1 appended_append funpow_swap1)
qed

text \<open>The image of the boot region that \<open>vbr_write\<close> leaves behind.\<close>

definition vbr_checksum :: "u8 list \<Rightarrow> nat \<Rightarrow> u32" where
  "vbr_checksum sb s = (exfat_vbr_add_checksum (replicate s 0) ^^ 2)
     ((exfat_vbr_add_checksum (boot_sector s) ^^ 8) (exfat_vbr_start_checksum sb))"

definition vbr_image :: "u8 list \<Rightarrow> nat \<Rightarrow> u8 list" where
  "vbr_image sb s = sb @ concat (replicate 8 (boot_sector s)) @ concat (replicate 2 (replicate s 0)) @
     concat (replicate (s div 4) (le_bytes 4 (vbr_checksum sb s)))"

lemma length_boot_sector: "4 \<le> s \<Longrightarrow> length (boot_sector s) = s"
  by (simp add: boot_sector_def)

lemma length_concat_replicate [simp]: "length (concat (replicate n xs)) = n * length xs"
  by (induction n) simp_all

lemma init_sb_len: "sb_len (init_sb upcase_table p)"
  using sb_len_of_bytes [of "replicate 512 0"]
  by (simp add: init_sb_def Let_def sb_len_def EXFAT_OEM_NAME_def)

lemma vbr_write_image:
  assumes "vbr_write host upcase_table p dev = (0, dev')" "9 \<le> mp_sector_bits p" "dev_pos dev = int q"
    "int q + 12 * get_sector_size p \<le> dev_size dev"
  defines "s \<equiv> nat (get_sector_size p)" and "sb \<equiv> bytes_of_sb (init_sb upcase_table p)"
  shows "dev' = appended dev q (vbr_image sb s)" "length (vbr_image sb s) = 512 + 11 * s"
proof -
  have s: "s = 2 ^ mp_sector_bits p" by (simp add: s_def get_sector_size_def nat_power_eq)
  have s512: "512 \<le> s" using power_increasing [OF assms(2), of "2 :: nat"] by (simp add: s)
  have s4: "s div 4 * 4 = s"
    using assms(2) by (simp add: s le_imp_power_dvd [of 2 _ "2 :: nat", simplified])
  have lb: "length sb = 512" by (simp add: sb_def length_bytes_of_sb init_sb_len)
  have lbo: "length (boot_sector s) = s" using s512 by (simp add: length_boot_sector)
  have fit: "int (q + 12 * s) \<le> dev_size dev" using assms(4) by (simp add: s get_sector_size_def)
  show len: "length (vbr_image sb s) = 512 + 11 * s" using s4 by (simp add: vbr_image_def lb lbo)
  obtain r1 d1 where w1: "exfat_write dev sb 512 = (r1, d1)" by fastforce
  obtain ok2 d2 c2 where w2: "write_sectors 8 d1 (boot_sector s) (exfat_vbr_start_checksum sb) = (ok2, d2, c2)" by (metis prod_cases3)
  obtain ok3 d3 c3 where w3: "write_sectors 2 d2 (replicate s 0) c2 = (ok3, d3, c3)" by (metis prod_cases3)
  obtain r4 d4 where w4: "exfat_write d3 (concat (replicate (s div 4) (le_bytes 4 c3))) s = (r4, d4)" by fastforce
  have ok: "0 \<le> r1" "ok2" "ok3" "0 \<le> r4" "d4 = dev'"
    using assms(1) w1 w2 w3 w4 unfolding vbr_write_def s_def [symmetric] sb_def [symmetric] Let_def
    by (auto split: if_splits)
  have d1: "d1 = appended dev q sb"
    using write_appends [of dev sb r1 d1 q] w1 ok(1) assms(3) fit s512 lb by simp
  have 2: "d2 = appended dev q (sb @ concat (replicate 8 (boot_sector s)))"
    "c2 = (exfat_vbr_add_checksum (boot_sector s) ^^ 8) (exfat_vbr_start_checksum sb)"
    using write_sectors_appends [of 8 d1 "boot_sector s" _ d2 c2 "q + 512"] w2 ok(2) fit s512 lb lbo
      appended_append [of dev q sb] by (auto simp: d1)
  have 3: "d3 = appended dev q (sb @ concat (replicate 8 (boot_sector s)) @ concat (replicate 2 (replicate s 0)))"
    "c3 = vbr_checksum sb s"
    using write_sectors_appends [of 2 d2 "replicate s 0" c2 d3 c3 "q + 512 + 8 * s"] w3 ok(3) fit s512 lb lbo
      appended_append [of dev q "sb @ concat (replicate 8 (boot_sector s))"]
    by (auto simp: 2 vbr_checksum_def add.assoc)
  have "d4 = appended dev q (vbr_image sb s)"
    using write_appends [of d3 "concat (replicate (s div 4) (le_bytes 4 c3))" r4 d4 "q + 512 + 10 * s"] w4 ok(4) fit s512 lb lbo s4
      appended_append [of dev q "sb @ concat (replicate 8 (boot_sector s)) @ concat (replicate 2 (replicate s 0))"]
    by (auto simp: 3 vbr_image_def add.assoc)
  then show "dev' = appended dev q (vbr_image sb s)" using ok(5) by simp
qed

text \<open>On a writable medium nothing of it fails.\<close>

definition boot_writable :: "exfat_dev \<Rightarrow> bool" where
  "boot_writable dev \<longleftrightarrow> dev_mode dev \<noteq> EXFAT_MODE_RO \<and> (\<forall>off n. \<not> dev_bad_write dev off n)"

lemma write_succeeds:
  assumes "boot_writable dev" "dev_pos dev = int q" "int (q + length bs) \<le> dev_size dev" "0 < length bs"
  shows "exfat_write dev bs (length bs) = (int (length bs), appended dev q bs)"
  using assms by (auto simp: exfat_write_def sys_pwrite_def boot_writable_def appended_def Let_def min_def)

lemma appended_writable [simp]: "boot_writable (appended dev q bs) = boot_writable dev"
  by (simp add: boot_writable_def appended_def)

lemma write_sectors_succeed:
  assumes "boot_writable dev" "dev_pos dev = int q" "int (q + n * length sector) \<le> dev_size dev" "0 < length sector"
  shows "\<exists>c'. write_sectors n dev sector c = (True, appended dev q (concat (replicate n sector)), c')"
  using assms(1-3)
proof (induction n arbitrary: dev c q)
  case 0
  then show ?case by (simp add: appended_Nil)
next
  case (Suc n)
  have "int (q + length sector) \<le> int (q + Suc n * length sector)" by simp
  then have fit: "int (q + length sector) \<le> dev_size dev" using Suc.prems(3) by linarith
  note w = write_succeeds [OF Suc.prems(1,2) fit assms(4)]
  have "\<exists>c'. write_sectors n (appended dev q sector) sector (exfat_vbr_add_checksum sector c) =
      (True, appended (appended dev q sector) (q + length sector) (concat (replicate n sector)), c')"
    using Suc.prems by (intro Suc.IH) (simp_all add: algebra_simps)
  then show ?case using w by (simp add: appended_append)
qed

lemma vbr_write_succeeds:
  assumes "boot_writable dev" "h_malloc host (nat (get_sector_size p))" "9 \<le> mp_sector_bits p" "dev_pos dev = int q"
    "int q + 12 * get_sector_size p \<le> dev_size dev"
  shows "\<exists>dev'. vbr_write host upcase_table p dev = (0, dev')"
proof -
  define s where "s = nat (get_sector_size p)"
  define sb where "sb = bytes_of_sb (init_sb upcase_table p)"
  have s: "s = 2 ^ mp_sector_bits p" by (simp add: s_def get_sector_size_def nat_power_eq)
  have s512: "512 \<le> s" using power_increasing [OF assms(3), of "2 :: nat"] by (simp add: s)
  have s4: "s div 4 * 4 = s"
    using assms(3) by (simp add: s le_imp_power_dvd [of 2 _ "2 :: nat", simplified])
  have lb: "length sb = 512" by (simp add: sb_def length_bytes_of_sb init_sb_len)
  have lbo: "length (boot_sector s) = s" using s512 by (simp add: length_boot_sector)
  have fit: "int (q + 12 * s) \<le> dev_size dev" using assms(5) by (simp add: s get_sector_size_def)
  have w1: "exfat_write dev sb 512 = (512, appended dev q sb)"
    using write_succeeds [OF assms(1,4), of sb] lb fit s512 by simp
  obtain c2 where w2: "write_sectors 8 (appended dev q sb) (boot_sector s) (exfat_vbr_start_checksum sb) =
      (True, appended (appended dev q sb) (q + 512) (concat (replicate 8 (boot_sector s))), c2)"
    using write_sectors_succeed [of "appended dev q sb" "q + 512" 8 "boot_sector s"] assms(1) lb lbo fit s512 by auto
  define d2 where "d2 = appended (appended dev q sb) (q + 512) (concat (replicate 8 (boot_sector s)))"
  obtain c3 where w3: "write_sectors 2 d2 (replicate s 0) c2 = (True, appended d2 (q + 512 + 8 * s) (concat (replicate 2 (replicate s 0))), c3)"
    using write_sectors_succeed [of d2 "q + 512 + 8 * s" 2 "replicate s 0"] assms(1) lb lbo fit s512 by (auto simp: d2_def)
  define d3 where "d3 = appended d2 (q + 512 + 8 * s) (concat (replicate 2 (replicate s 0)))"
  have "exfat_write d3 (concat (replicate (s div 4) (le_bytes 4 c3))) s =
      (int s, appended d3 (q + 512 + 10 * s) (concat (replicate (s div 4) (le_bytes 4 c3))))"
    using write_succeeds [of d3 "q + 512 + 10 * s" "concat (replicate (s div 4) (le_bytes 4 c3))"] assms(1) lb lbo fit s512 s4
    by (simp add: d3_def d2_def)
  then show ?thesis
    using w1 w2 w3 assms(2)
    unfolding vbr_write_def Let_def s_def [symmetric] sb_def [symmetric] d2_def [symmetric] d3_def [symmetric] by simp
qed

lemma sector_of_image:
  "(i + 1) * s \<le> length img \<Longrightarrow> sector_at (appended dev 0 img) s i = seg img (i * s) s"
  by (rule nth_equalityI) (auto simp: sector_at_def appended_def store_def seg_def)

lemma seg_concat_replicate:
  "length xs = k \<Longrightarrow> i < n \<Longrightarrow> seg (concat (replicate n xs)) (k * i) k = xs"
proof (induction n arbitrary: i)
  case (Suc n)
  show ?case
  proof (cases i)
    case (Suc j)
    then show ?thesis using Suc.IH [of j] Suc.prems by (simp add: seg_def)
  qed (use Suc.prems in \<open>simp add: seg_def\<close>)
qed simp

text \<open>The image is sectors one after the other, when a sector has the size of the super block.\<close>

lemma image_sectors:
  assumes "length sb = 512"
  shows "seg (vbr_image sb 512) 0 512 = sb"
    "1 \<le> i \<Longrightarrow> i < 9 \<Longrightarrow> seg (vbr_image sb 512) (i * 512) 512 = boot_sector 512"
    "9 \<le> i \<Longrightarrow> i < 11 \<Longrightarrow> seg (vbr_image sb 512) (i * 512) 512 = replicate 512 0"
    "seg (vbr_image sb 512) (11 * 512) 512 = concat (replicate 128 (le_bytes 4 (vbr_checksum sb 512)))"
proof -
  have l: "length (boot_sector 512) = 512" by (rule length_boot_sector) simp
  let ?A = "concat (replicate 8 (boot_sector 512))" and ?B = "concat (replicate 2 (replicate 512 (0 :: u8)))"
    and ?C = "concat (replicate 128 (le_bytes 4 (vbr_checksum sb 512)))"
  have im: "vbr_image sb 512 = sb @ ?A @ ?B @ ?C" by (simp add: vbr_image_def del: replicate.simps)
  have lA: "length ?A = 4096" "length ?B = 1024" "length ?C = 512" using l by simp_all
  show "seg (vbr_image sb 512) 0 512 = sb" using assms unfolding im by (simp add: seg_def)
  show "seg (vbr_image sb 512) (i * 512) 512 = boot_sector 512" if "1 \<le> i" "i < 9"
  proof -
    have "seg (vbr_image sb 512) (i * 512) 512 = seg ?A (512 * (i - 1)) 512"
      using that assms lA(1) unfolding im by (simp add: seg_def algebra_simps)
    then show ?thesis using seg_concat_replicate [OF l, of "i - 1" 8] that by (simp del: replicate.simps)
  qed
  show "seg (vbr_image sb 512) (i * 512) 512 = replicate 512 0" if "9 \<le> i" "i < 11"
  proof -
    have "seg (vbr_image sb 512) (i * 512) 512 = seg ?B (512 * (i - 9)) 512"
      using that assms lA unfolding im by (simp add: seg_def algebra_simps)
    moreover have "i - 9 < 2" using that by linarith
    ultimately show ?thesis using seg_concat_replicate [of "replicate 512 0" 512 "i - 9" 2] by (simp del: replicate.simps)
  qed
  show "seg (vbr_image sb 512) (11 * 512) 512 = ?C"
    using assms lA unfolding im by (simp add: seg_def)
qed

lemma funpow_2_8: "(f ^^ 2) x = f (f x)" "(f ^^ 8) x = f (f (f (f (f (f (f (f x)))))))"
  by (simp_all add: eval_nat_numeral)

lemma image_signed:
  assumes "length sb = 512" "length (vbr_image sb 512) = 512 + 11 * 512"
  shows "boot_signed (appended dev 0 (vbr_image sb 512)) 512" "sector_at (appended dev 0 (vbr_image sb 512)) 512 0 = sb"
proof -
  have at: "sector_at (appended dev 0 (vbr_image sb 512)) 512 i = seg (vbr_image sb 512) (i * 512) 512" if "i < 12" for i
    using that assms(2) by (intro sector_of_image) simp
  show "sector_at (appended dev 0 (vbr_image sb 512)) 512 0 = sb" using at [of 0] image_sectors(1) [OF assms(1)] by simp
  note sec = image_sectors [OF assms(1)]
  have u: "[1..<11] = [1, 2, 3, 4, 5, 6, 7, 8, 9, 10 :: nat]" by (simp add: upt_rec)
  have "boot_checksum (appended dev 0 (vbr_image sb 512)) 512 = vbr_checksum sb 512"
    unfolding boot_checksum_def u using at [of 0] sec(1)
    by (simp add: at sec(2) [of 1, simplified] sec(2) [of 2, simplified] sec(2) [of 3, simplified] sec(2) [of 4, simplified]
        sec(2) [of 5, simplified] sec(2) [of 6, simplified] sec(2) [of 7, simplified] sec(2) [of 8, simplified]
        sec(3) [of 9, simplified] sec(3) [of 10, simplified] vbr_checksum_def funpow_2_8 del: replicate.simps)
  moreover have "le_word (seg (sector_at (appended dev 0 (vbr_image sb 512)) 512 11) (4 * i) 4) = vbr_checksum sb 512" if "i < 128" for i
    using at [of 11] sec(4) seg_concat_replicate [of "le_bytes 4 (vbr_checksum sb 512)" 4 i 128] that
    by (simp add: le_word_le_bytes del: replicate.simps)
  ultimately show "boot_signed (appended dev 0 (vbr_image sb 512)) 512" by (simp add: boot_signed_def)
qed

section \<open>Properties\<close>

text \<open>
  C26: which boot regions are accepted.  On a readable medium, in one request or sector by sector,
  \<^verbatim>\<open>verify_vbr_checksum\<close> accepts a region whose twelfth sector repeats the checksum of the other eleven,
  leaves the volume alone then, and without permission to repair refuses every other region.
\<close>

theorem verify_vbr_correct:
  assumes "boot_readable (ef_dev ef) (SECTOR_SIZE (ef_sb ef))" "length buffer = CLUSTER_SIZE (ef_sb ef)"
    "ef_repair ef = EXFAT_REPAIR_NO"
  shows "verify_vbr_checksum ef buffer = (boot_signed (ef_dev ef) (SECTOR_SIZE (ef_sb ef)), ef)"
  unfolding verify_unfold [OF assms(1,2)] boot_signed_def
  by (simp add: vbr_check_eq [OF assms(3)] Ball_def)

text \<open>
  C25: a fresh volume is accepted.  With sectors of 512 bytes, the boot region that a successful \<^verbatim>\<open>vbr_write\<close> leaves
  at the beginning of the medium reads back as the super block of the parameters, and its checksum is verified.
\<close>

theorem vbr_written_verified:
  assumes "vbr_write host upcase_table p dev = (0, ef_dev ef)" "mp_sector_bits p = 9" "dev_pos dev = 0"
    "12 * 512 \<le> dev_size dev" "boot_readable (ef_dev ef) 512" "ef_sb ef = sb_of_bytes (sector_at (ef_dev ef) 512 0)"
    "length buffer = CLUSTER_SIZE (ef_sb ef)"
  shows "ef_sb ef = init_sb upcase_table p \<and> verify_vbr_checksum ef buffer = (True, ef)"
proof -
  let ?sb = "bytes_of_sb (init_sb upcase_table p)"
  have s: "get_sector_size p = 512" by (simp add: get_sector_size_def assms(2))
  have im: "ef_dev ef = appended dev 0 (vbr_image ?sb 512)" "length (vbr_image ?sb 512) = 512 + 11 * 512"
    using vbr_write_image [OF assms(1), of 0] assms(2-4) by (simp_all add: s)
  note sg = image_signed [OF length_bytes_of_sb [OF init_sb_len] im(2), of dev]
  have sb: "ef_sb ef = init_sb upcase_table p"
    using sg(2) by (simp add: assms(6) im(1) sb_of_bytes_of_sb init_sb_len)
  have ss: "SECTOR_SIZE (ef_sb ef) = 512" unfolding sb by (simp add: SECTOR_SIZE_def init_sb_def Let_def assms(2))
  have "verify_vbr_checksum ef buffer = (True, ef)"
    using verify_unfold [of ef buffer] assms(5,7) sg(1) vbr_check_ok [of "[0..<128]"]
    by (simp add: ss boot_signed_def flip: im(1))
  with sb show ?thesis by simp
qed

text \<open>
  the boot region has its proper length only for sectors of 512 bytes.  The super block is always written
  as 512 bytes, so that for larger sectors, which the formatter for AmigaOS allows, everything behind it comes too
  early and the region ends before the place that the layout reserves for it.
\<close>

theorem vbr_write_length:
  assumes "vbr_write host upcase_table p dev = (0, dev')" "9 \<le> mp_sector_bits p" "dev_pos dev = int q"
    "int q + 12 * get_sector_size p \<le> dev_size dev"
  shows "dev_pos dev' = int q + vbr_size p - (get_sector_size p - 512) \<and>
    (dev_pos dev' = int q + vbr_size p \<longleftrightarrow> mp_sector_bits p = 9)"
proof -
  note im = vbr_write_image [OF assms]
  have g: "get_sector_size p = int (nat (get_sector_size p))" by (simp add: get_sector_size_def)
  have "get_sector_size p = 512 \<longleftrightarrow> mp_sector_bits p = 9"
    using power_inject_exp [of "2 :: int" "mp_sector_bits p" 9] by (simp add: get_sector_size_def)
  then show ?thesis using im g by (simp add: vbr_size_def)
qed

end
