(* ===== verification/Layout.thy ===== *)
theory Layout
  imports Mkfs
begin

text \<open>
  The layout that \<^verbatim>\<open>mkfs\<close> computes: where the objects of a volume are placed, and that the super block and the
  entries of the root directory describe these places to the library.
\<close>

section \<open>Rounding\<close>

lemma ROUND_UP_int:
  fixes x d :: int
  assumes "0 < d"
  shows "d dvd ROUND_UP x d" "x \<le> ROUND_UP x d" "ROUND_UP x d < x + d"
proof -
  have "(x + d - 1) div d * d + (x + d - 1) mod d = x + d - 1" by simp
  moreover have "0 \<le> (x + d - 1) mod d" "(x + d - 1) mod d < d" using assms by simp_all
  ultimately show "x \<le> ROUND_UP x d" "ROUND_UP x d < x + d"
    unfolding ROUND_UP_def DIV_ROUND_UP_def by linarith+
  show "d dvd ROUND_UP x d" by (simp add: ROUND_UP_def)
qed

lemma ROUND_UP_unique:
  fixes x d y :: int
  assumes "0 < d" "d dvd y" "x \<le> y" "y < x + d"
  shows "ROUND_UP x d = y"
proof -
  obtain m where m: "y = d * m" using assms(2) by blast
  have "(x + d - 1) div d = m"
    using assms(1,3,4) unfolding m by (intro int_div_pos_eq [where r = "x + d - 1 - d * m"]) auto
  then show ?thesis by (simp add: ROUND_UP_def DIV_ROUND_UP_def m mult.commute)
qed

lemma ROUND_UP_same: "0 < d \<Longrightarrow> d dvd x \<Longrightarrow> ROUND_UP x d = x" for x d :: int
  by (rule ROUND_UP_unique) auto

lemma uint_power_of_2: "k < 32 \<Longrightarrow> uint (2 ^ k :: u32) = 2 ^ k"
proof -
  assume "k < 32"
  then have "(2 :: int) ^ k < 2 ^ 32" by (intro power_strict_increasing) simp_all
  then have "uint (word_of_int (2 ^ k) :: u32) = 2 ^ k" by (intro uint_small) simp_all
  then show ?thesis by simp
qed

text \<open>Rounding a word to a power of two is rounding its value, when nothing overflows.\<close>

lemma uint_ROUND_UP:
  fixes x :: u32
  assumes "k < 32" "uint x + 2 ^ k \<le> 2 ^ 32"
  shows "uint (ROUND_UP x (2 ^ k)) = ROUND_UP (uint x) (2 ^ k)"
proof -
  have k: "uint (2 ^ k :: u32) = 2 ^ k" by (rule uint_power_of_2 [OF assms(1)])
  have ge: "0 \<le> uint x + 2 ^ k - 1" using one_le_power [of "2 :: int" k] uint_ge_0 [of x] by linarith
  have s: "uint (x + 2 ^ k - 1) = uint x + 2 ^ k - 1"
  proof -
    have e: "x + 2 ^ k - 1 = word_of_int (uint x + 2 ^ k - 1)" by simp
    show ?thesis unfolding e using assms(2) ge by (intro uint_small) simp_all
  qed
  have d: "uint ((x + 2 ^ k - 1) div 2 ^ k) = (uint x + 2 ^ k - 1) div 2 ^ k" by (simp add: uint_div k s)
  have "(uint x + 2 ^ k - 1) div 2 ^ k * 2 ^ k < 2 ^ 32"
    using ROUND_UP_int(3) [of "2 ^ k" "uint x"] assms(2) by (simp add: ROUND_UP_def DIV_ROUND_UP_def)
  moreover have "0 \<le> (uint x + 2 ^ k - 1) div 2 ^ k" using ge by (subst pos_imp_zdiv_nonneg_iff) simp_all
  ultimately show ?thesis
    unfolding ROUND_UP_def DIV_ROUND_UP_def
    by (simp add: uint_word_ariths d k)
qed

section \<open>Positions\<close>

text \<open>
  Parameters as the format allows them: a cluster is at most 32 MB and the volume has fewer clusters than a table can name.  The size of a cluster
  is a condition of the properties; a number of sectors that is given to \<^verbatim>\<open>mkfs\<close> by hand is not checked against it.
\<close>

definition param_ok :: "mkfs_param \<Rightarrow> bool" where
  "param_ok p \<longleftrightarrow> 9 \<le> mp_sector_bits p \<and> mp_sector_bits p + mp_spc_bits p \<le> 25 \<and> 0 \<le> mp_volume_size p \<and>
     mp_volume_size p div get_cluster_size p \<le> uint EXFAT_LAST_DATA_CLUSTER"

lemma sizes:
  shows "0 < get_sector_size p" "0 < get_cluster_size p" "get_sector_size p dvd get_cluster_size p"
  by (simp_all add: get_sector_size_def get_cluster_size_def)

lemma fat_size_nonneg: "0 \<le> mp_volume_size p \<Longrightarrow> 0 \<le> fat_size p"
  by (simp add: fat_size_def sizes pos_imp_zdiv_nonneg_iff)

lemma first_positions: "ROUND_UP 0 (get_sector_size p) = 0"
  "ROUND_UP (12 * get_sector_size p) (get_sector_size p) = 12 * get_sector_size p"
  "ROUND_UP (24 * get_sector_size p) (128 * get_sector_size p) = 128 * get_sector_size p"
proof -
  show "ROUND_UP 0 (get_sector_size p) = 0" "ROUND_UP (12 * get_sector_size p) (get_sector_size p) = 12 * get_sector_size p"
    using sizes(1) [of p] by (simp_all add: ROUND_UP_same)
  show "ROUND_UP (24 * get_sector_size p) (128 * get_sector_size p) = 128 * get_sector_size p"
    using sizes(1) [of p] by (intro ROUND_UP_unique) simp_all
qed

lemma position_CBM:
  "get_position upcase_table p CBM = ROUND_UP (128 * get_sector_size p + fat_size p) (get_cluster_size p)"
  "cbm_position p = get_position upcase_table p CBM"
  by (simp_all add: get_position_def cbm_position_def objects_def get_alignment_def get_size_def vbr_size_def
      first_positions Let_def)

lemma position_UCT:
  "get_position upcase_table p UCT = ROUND_UP (get_position upcase_table p CBM + cbm_size p) (get_cluster_size p)"
  by (simp add: get_position_def objects_def get_alignment_def get_size_def vbr_size_def first_positions Let_def)

lemma position_ROOTDIR:
  "get_position upcase_table p ROOTDIR =
     ROUND_UP (get_position upcase_table p UCT + int (length upcase_table)) (get_cluster_size p)"
  by (simp add: get_position_def objects_def get_alignment_def get_size_def vbr_size_def first_positions Let_def)

lemma check_size_eq:
  "check_size upcase_table p v = (if v < get_position upcase_table p ROOTDIR + get_cluster_size p then 1 else 0)"
  by (simp add: check_size_def get_position_def objects_def get_alignment_def get_size_def vbr_size_def first_positions Let_def)

section \<open>The super block\<close>

text \<open>The number of sectors before the first cluster.\<close>

definition heap_sector :: "mkfs_param \<Rightarrow> int" where
  "heap_sector p = ROUND_UP (128 + DIV_ROUND_UP (fat_size p) (get_sector_size p)) (2 ^ mp_spc_bits p)"

lemma heap_sector_bounds:
  assumes "param_ok p"
  shows "128 \<le> heap_sector p" "heap_sector p < 2 ^ 27" "DIV_ROUND_UP (fat_size p) (get_sector_size p) < 2 ^ 26"
    "0 \<le> DIV_ROUND_UP (fat_size p) (get_sector_size p)"
proof -
  let ?S = "DIV_ROUND_UP (fat_size p) (get_sector_size p)"
  have "(2 :: int) ^ 9 \<le> 2 ^ mp_sector_bits p" using assms by (intro power_increasing) (simp_all add: param_ok_def)
  then have ss: "512 \<le> get_sector_size p" by (simp add: get_sector_size_def)
  have f: "0 \<le> fat_size p" "fat_size p \<le> 4 * 0xfffffff6"
    using assms fat_size_nonneg [of p] by (simp_all add: param_ok_def fat_size_def EXFAT_LAST_DATA_CLUSTER_def)
  have "fat_size p + get_sector_size p - 1 < 2 ^ 26 * get_sector_size p" using f ss by simp
  then have "?S * get_sector_size p < 2 ^ 26 * get_sector_size p"
    using ROUND_UP_int(3) [OF sizes(1) [of p], of "fat_size p"] f by (simp add: ROUND_UP_def)
  then show lt: "?S < 2 ^ 26" using sizes(1) [of p] by simp
  show ge: "0 \<le> ?S" using f ss by (simp add: DIV_ROUND_UP_def pos_imp_zdiv_nonneg_iff)
  have k: "(2 :: int) ^ mp_spc_bits p \<le> 2 ^ 16" using assms by (intro power_increasing) (auto simp: param_ok_def)
  show "128 \<le> heap_sector p" "heap_sector p < 2 ^ 27"
    using ROUND_UP_int [of "2 ^ mp_spc_bits p" "128 + ?S"] lt ge k unfolding heap_sector_def by simp_all
qed

lemma heap_sector_position:
  assumes "param_ok p"
  shows "get_position upcase_table p CBM = heap_sector p * get_sector_size p"
    "heap_sector p div 2 ^ mp_spc_bits p * get_cluster_size p = get_position upcase_table p CBM"
proof -
  let ?s = "get_sector_size p" and ?k = "2 ^ mp_spc_bits p :: int"
  let ?S = "DIV_ROUND_UP (fat_size p) ?s"
  note R = ROUND_UP_int [of ?k "128 + ?S", folded heap_sector_def]
  have S: "fat_size p \<le> ?S * ?s" "?S * ?s < fat_size p + ?s"
    using ROUND_UP_int [OF sizes(1) [of p], of "fat_size p"] by (simp_all add: ROUND_UP_def)
  have lo: "128 * ?s + fat_size p \<le> heap_sector p * ?s"
  proof -
    have "(128 + ?S) * ?s \<le> heap_sector p * ?s" using R(2) sizes(1) [of p] by (intro mult_right_mono) simp_all
    then show ?thesis using S(1) by (simp add: algebra_simps)
  qed
  have hi: "heap_sector p * ?s < 128 * ?s + fat_size p + get_cluster_size p"
  proof -
    have "heap_sector p + 1 \<le> 128 + ?S + ?k" using R(3) by simp
    then have "(heap_sector p + 1) * ?s \<le> (128 + ?S + ?k) * ?s" using sizes(1) [of p] by (intro mult_right_mono) simp_all
    then show ?thesis using S(2) by (simp add: algebra_simps get_cluster_size_def)
  qed
  have dv: "?k dvd heap_sector p" using R(1) by simp
  then have "get_cluster_size p dvd heap_sector p * ?s"
    unfolding get_cluster_size_def by (simp add: mult.commute mult_dvd_mono)
  then show pos: "get_position upcase_table p CBM = heap_sector p * ?s"
    unfolding position_CBM using lo hi sizes(2) by (intro ROUND_UP_unique) simp_all
  show "heap_sector p div ?k * get_cluster_size p = get_position upcase_table p CBM"
    using dv unfolding pos get_cluster_size_def by (simp add: mult.left_commute mult.commute)
qed

lemma LAST_value: "uint EXFAT_LAST_DATA_CLUSTER = 0xfffffff6"
  by (simp add: EXFAT_LAST_DATA_CLUSTER_def)

lemma sdiv_lower: "0 < b \<Longrightarrow> min 0 a \<le> a sdiv b" for a b :: int
proof -
  assume b: "0 < b"
  have "0 \<le> \<bar>a\<bar> div b" "\<bar>a\<bar> div b \<le> \<bar>a\<bar>" using b using zdiv_mono2 [of "\<bar>a\<bar>" 1 b]
    by (simp_all add: pos_imp_zdiv_nonneg_iff)
  then show ?thesis using b by (cases "0 \<le> a") (auto simp: signed_divide_int_def sgn_if)
qed

text \<open>The objects are placed in order, and a volume that passes the check has room for all of them.\<close>

lemma positions_order:
  "get_position upcase_table p CBM + cbm_size p \<le> get_position upcase_table p UCT"
  "get_position upcase_table p UCT + int (length upcase_table) \<le> get_position upcase_table p ROOTDIR"
  "get_cluster_size p dvd get_position upcase_table p CBM" "get_cluster_size p dvd get_position upcase_table p UCT"
  "get_cluster_size p dvd get_position upcase_table p ROOTDIR"
  using ROUND_UP_int [OF sizes(2) [of p]] by (simp_all add: position_CBM(1) position_UCT position_ROOTDIR)

lemma positions_fit:
  assumes "check_size upcase_table p (mp_volume_size p) = 0"
  shows "get_position upcase_table p CBM \<le> mp_volume_size p" "0 \<le> cbm_size p"
    "get_position upcase_table p ROOTDIR + get_cluster_size p \<le> mp_volume_size p"
proof -
  let ?c = "get_position upcase_table p CBM" and ?v = "mp_volume_size p"
  show fit: "get_position upcase_table p ROOTDIR + get_cluster_size p \<le> ?v"
    using assms by (simp add: check_size_eq split: if_splits)
  have c: "cbm_size p = ((?v - ?c) sdiv get_cluster_size p + 7) sdiv 8" by (simp add: cbm_size_def position_CBM(2) [of p upcase_table] add.commute)
  have "min 0 (?v - ?c) \<le> cbm_size p"
    using sdiv_lower [OF sizes(2) [of p], of "?v - ?c"] sdiv_lower [of 8 "(?v - ?c) sdiv get_cluster_size p + 7"] unfolding c by linarith
  then show le: "?c \<le> ?v" using positions_order(1,2) [of upcase_table p] fit sizes(2) [of p] by linarith
  then show "0 \<le> cbm_size p" using \<open>min 0 (?v - ?c) \<le> cbm_size p\<close> by simp
qed

lemma init_sb_fields:
  assumes "param_ok p" "check_size upcase_table p (mp_volume_size p) = 0"
  defines "sb \<equiv> init_sb upcase_table p"
  shows "sb_sector_bits sb = of_nat (mp_sector_bits p)" "sb_spc_bits sb = of_nat (mp_spc_bits p)"
    "uint (sb_fat_sector_start sb) = 128" "uint (sb_cluster_sector_start sb) = heap_sector p"
    "uint (sb_cluster_count sb) = mp_volume_size p div get_cluster_size p - heap_sector p div 2 ^ mp_spc_bits p"
    "sb_rootdir_cluster sb =
      word_of_int ((get_position upcase_table p ROOTDIR - get_position upcase_table p CBM) div get_cluster_size p + 2)"
proof -
  let ?s = "get_sector_size p" and ?k = "mp_spc_bits p" and ?M = "mp_volume_size p div get_cluster_size p"
  let ?S = "DIV_ROUND_UP (fat_size p) ?s"
  note b = heap_sector_bounds [OF assms(1)]
  have M: "0 \<le> ?M" "?M \<le> 0xfffffff6" using assms(1) sizes(2) [of p] by (simp_all add: param_ok_def LAST_value pos_imp_zdiv_nonneg_iff)
  have k16: "?k \<le> 16" using assms(1) by (simp add: param_ok_def)
  then have k: "?k < 32" "(2 :: int) ^ ?k \<le> 2 ^ 16" by (simp, intro power_increasing) simp_all
  show "sb_sector_bits sb = of_nat (mp_sector_bits p)" "sb_spc_bits sb = of_nat (mp_spc_bits p)"
    "sb_rootdir_cluster sb =
      word_of_int ((get_position upcase_table p ROOTDIR - get_position upcase_table p CBM) div get_cluster_size p + 2)"
    by (simp_all add: sb_def init_sb_def Let_def)
  have st: "get_alignment p FAT div ?s = 128" using sizes(1) [of p] by (simp add: get_alignment_def)
  then show "uint (sb_fat_sector_start sb) = 128" by (simp add: sb_def init_sb_def Let_def)
  have cs: "get_position upcase_table p CBM div ?s = heap_sector p"
    using heap_sector_position(1) [OF assms(1), of upcase_table] sizes(1) [of p] by simp
  have "uint (word_of_int (heap_sector p) :: u32) = heap_sector p" using b(1,2) by (intro uint_small) simp_all
  then show "uint (sb_cluster_sector_start sb) = heap_sector p" using cs by (simp add: sb_def init_sb_def Let_def)
  define x where "x = (128 + word_of_int ?S :: u32)"
  have S: "uint (word_of_int ?S :: u32) = ?S" using b(3,4) by (intro uint_small) simp_all
  have x: "uint x = 128 + ?S" using b(3,4) S by (simp add: x_def uint_word_ariths)
  have r: "uint (ROUND_UP x (2 ^ ?k)) = heap_sector p"
    using uint_ROUND_UP [OF k(1), of x] x b(3) k(2) by (simp add: heap_sector_def)
  have mx: "uint (word_of_int ?M :: u32) = ?M" using M by (intro uint_small) simp_all
  have "get_position upcase_table p CBM \<le> mp_volume_size p" by (rule positions_fit [OF assms(2)])
  then have le: "heap_sector p div 2 ^ ?k \<le> ?M"
    using heap_sector_position(2) [OF assms(1), of upcase_table] sizes(2) [of p] zdiv_mono1
    by (metis less_irrefl nonzero_mult_div_cancel_right)
  have dr: "uint (drop_bit ?k (ROUND_UP x (2 ^ ?k))) = heap_sector p div 2 ^ ?k"
    by (simp add: drop_bit_eq_div uint_div r uint_power_of_2 [OF k(1)])
  have f4: "uint (word_of_int ?M :: u32) * 4 = fat_size p" using mx by (simp add: fat_size_def)
  have "sb_cluster_count sb = word_of_int ?M - drop_bit ?k (ROUND_UP x (2 ^ ?k))"
    using st f4 by (simp add: sb_def init_sb_def Let_def x_def)
  also have "uint \<dots> = ?M - heap_sector p div 2 ^ ?k"
    using mx dr le M by (simp add: uint_sub_lem [THEN iffD1] word_le_def)
  finally show "uint (sb_cluster_count sb) = ?M - heap_sector p div 2 ^ ?k" .
qed

section \<open>Addresses\<close>

text \<open>The super block of a volume is the one that was made for these parameters.\<close>

definition formatted :: "u8 list \<Rightarrow> mkfs_param \<Rightarrow> exfat \<Rightarrow> bool" where
  "formatted upcase_table p ef \<longleftrightarrow> param_ok p \<and> check_size upcase_table p (mp_volume_size p) = 0 \<and>
     ef_sb ef = init_sb upcase_table p"

lemma formattedD:
  assumes "formatted upcase_table p ef"
  shows "param_ok p" "check_size upcase_table p (mp_volume_size p) = 0" "ef_sb ef = init_sb upcase_table p"
  using assms by (simp_all add: formatted_def)

lemma formatted_fields:
  assumes "formatted upcase_table p ef"
  shows "unat (sb_sector_bits (ef_sb ef)) = mp_sector_bits p" "unat (sb_spc_bits (ef_sb ef)) = mp_spc_bits p"
    "uint (sb_fat_sector_start (ef_sb ef)) = 128" "int (unat (sb_cluster_sector_start (ef_sb ef))) = heap_sector p"
    "int (unat (sb_cluster_count (ef_sb ef))) = mp_volume_size p div get_cluster_size p - heap_sector p div 2 ^ mp_spc_bits p"
    "sb_rootdir_cluster (ef_sb ef) =
      word_of_int ((get_position upcase_table p ROOTDIR - get_position upcase_table p CBM) div get_cluster_size p + 2)"
proof -
  note f = init_sb_fields [OF formattedD(1,2) [OF assms], folded formattedD(3) [OF assms]]
  show "unat (sb_sector_bits (ef_sb ef)) = mp_sector_bits p" "unat (sb_spc_bits (ef_sb ef)) = mp_spc_bits p"
    using formattedD(1) [OF assms] unfolding f(1,2) param_ok_def by (simp_all add: unat_of_nat)
  show "uint (sb_fat_sector_start (ef_sb ef)) = 128" by (rule f(3))
  show "int (unat (sb_cluster_sector_start (ef_sb ef))) = heap_sector p"
    "int (unat (sb_cluster_count (ef_sb ef))) = mp_volume_size p div get_cluster_size p - heap_sector p div 2 ^ mp_spc_bits p"
    using f(4,5) by (simp_all only: of_nat_unat)
  show "sb_rootdir_cluster (ef_sb ef) =
      word_of_int ((get_position upcase_table p ROOTDIR - get_position upcase_table p CBM) div get_cluster_size p + 2)" by (rule f(6))
qed

lemma formatted_units:
  assumes "formatted upcase_table p ef"
  shows "int (SECTOR_SIZE (ef_sb ef)) = get_sector_size p" "int (CLUSTER_SIZE (ef_sb ef)) = get_cluster_size p" "geometry_ok (ef_sb ef)"
  using formattedD(1) [OF assms]
  by (simp_all add: SECTOR_SIZE_def CLUSTER_SIZE_def formatted_fields [OF assms] get_sector_size_def get_cluster_size_def
      geometry_ok_def param_ok_def)

text \<open>The clusters divide what follows the table.\<close>

lemma formatted_clusters:
  assumes fm: "formatted upcase_table p ef"
  shows "int (unat (sb_cluster_count (ef_sb ef))) = (mp_volume_size p - get_position upcase_table p CBM) div get_cluster_size p"
proof -
  let ?h = "heap_sector p div 2 ^ mp_spc_bits p"
  have "mp_volume_size p - get_position upcase_table p CBM = mp_volume_size p - ?h * get_cluster_size p"
    using heap_sector_position(2) [OF formattedD(1) [OF fm], of upcase_table] by simp
  also have "\<dots> div get_cluster_size p = mp_volume_size p div get_cluster_size p - ?h"
    using div_mult_self2 [of "get_cluster_size p" "mp_volume_size p" "- ?h"] sizes(2) [of p] by (simp add: mult.commute)
  finally show ?thesis using formatted_fields(5) [OF fm] by simp
qed

lemma formatted_offset:
  assumes fm: "formatted upcase_table p ef" and "2 \<le> unat c"
  shows "int (cluster_off ef c) = get_position upcase_table p CBM + (int (unat c) - 2) * get_cluster_size p"
  unfolding cluster_off_def of_nat_add of_nat_mult formatted_units [OF fm] formatted_fields(4) [OF fm]
    heap_sector_position(1) [OF formattedD(1) [OF fm], of upcase_table] of_nat_diff [OF assms(2)] by simp

lemma formatted_cluster_fits:
  assumes fm: "formatted upcase_table p ef" and "valid ef c"
  shows "int (cluster_off ef c + CLUSTER_SIZE (ef_sb ef)) \<le> mp_volume_size p"
proof -
  let ?c = "get_cluster_size p" and ?d = "mp_volume_size p - get_position upcase_table p CBM"
  have c: "2 \<le> unat c" "int (unat c) - 1 \<le> ?d div ?c"
    using assms(2) formatted_clusters [OF fm] unfolding valid_unat by linarith+
  have "(int (unat c) - 1) * ?c \<le> ?d div ?c * ?c" using c(2) sizes(2) [of p] by (intro mult_right_mono) simp_all
  also have "\<dots> \<le> ?d"
    using div_mult_mod_eq [of ?d ?c] pos_mod_sign [OF sizes(2) [of p], of ?d] by linarith
  finally show ?thesis using formatted_offset [OF fm c(1)] by (simp add: formatted_units(2) [OF fm] algebra_simps)
qed

lemma unat_u32_count:
  assumes fm: "formatted upcase_table p ef"
  shows "int (unat (sb_cluster_count (ef_sb ef))) \<le> 0xfffffff6"
proof -
  have "0 \<le> heap_sector p div 2 ^ mp_spc_bits p" using heap_sector_bounds(1) [OF formattedD(1) [OF fm]] by (simp add: pos_imp_zdiv_nonneg_iff)
  then show ?thesis using formatted_fields(5) [OF fm] formattedD(1) [OF fm] by (simp add: param_ok_def LAST_value)
qed

lemma formatted_cluster_at:
  assumes fm: "formatted upcase_table p ef" and "get_position upcase_table p CBM \<le> pos" "get_cluster_size p dvd pos" "pos + get_cluster_size p \<le> mp_volume_size p"
    "c = word_of_int ((pos - get_position upcase_table p CBM) div get_cluster_size p + 2)"
  shows "valid ef c" "int (cluster_off ef c) = pos"
proof -
  let ?c = "get_cluster_size p" and ?b = "get_position upcase_table p CBM"
  define q where "q = (pos - ?b) div ?c"
  have dv: "?c dvd pos - ?b" using assms(3) positions_order(3) by (intro dvd_diff) simp_all
  have q: "q * ?c = pos - ?b" using dv by (simp add: q_def)
  have "0 \<le> q" using assms(2) sizes(2) [of p] by (simp add: q_def pos_imp_zdiv_nonneg_iff)
  have "(q + 1) * ?c \<le> mp_volume_size p - ?b" using q assms(4) by (simp add: algebra_simps)
  then have "q + 1 \<le> (mp_volume_size p - ?b) div ?c"
    using zdiv_mono1 [of "(q + 1) * ?c" "mp_volume_size p - ?b" ?c] sizes(2) [of p] by simp
  then have lt: "q < int (unat (sb_cluster_count (ef_sb ef)))" using formatted_clusters [OF fm] by simp
  moreover have "int (unat (sb_cluster_count (ef_sb ef))) \<le> 0xfffffff6"
    using unat_u32_count [OF fm] .
  ultimately have "uint c = q + 2" unfolding assms(5) q_def [symmetric] using \<open>0 \<le> q\<close> by (intro uint_small) simp_all
  then have u: "int (unat c) = q + 2" by (simp only: of_nat_unat)
  then show "valid ef c" using lt \<open>0 \<le> q\<close> unfolding valid_unat by linarith
  show "int (cluster_off ef c) = pos" using formatted_offset [OF fm, of c] u \<open>0 \<le> q\<close> q by simp
qed

lemma formatted_table_fits:
  assumes fm: "formatted upcase_table p ef" and "128 * get_sector_size p + fat_size p \<noteq> get_cluster_size p" "valid ef c"
  shows "fat_offset ef c + 4 \<le> int (cluster_off ef 2)"
proof -
  let ?c = "get_cluster_size p" and ?b = "get_position upcase_table p CBM" and ?M = "mp_volume_size p div get_cluster_size p"
  define k where "k = heap_sector p div 2 ^ mp_spc_bits p"
  have b: "k * ?c = ?b" using heap_sector_position(2) [OF formattedD(1) [OF fm], of upcase_table] by (simp add: k_def)
  have lo: "128 * get_sector_size p + fat_size p \<le> ?b" using ROUND_UP_int(2) [OF sizes(2)] by (simp add: position_CBM(1))
  have F: "fat_size p = ?M * 4" by (simp add: fat_size_def)
  have "0 \<le> fat_size p" using formattedD(1) [OF fm] by (simp add: fat_size_nonneg param_ok_def)
  then have "0 < ?b" using lo sizes(1) [of p] by linarith
  then have k: "1 \<le> k" using b sizes(2) [of p] by (metis int_one_le_iff_zero_less zero_less_mult_pos2)
  have u: "uint c + 1 \<le> ?M - k + 2" 
  proof -
    have "int (unat c) + 1 \<le> ?M - k + 2" using assms(3) formatted_fields(5) [OF fm] unfolding valid_unat k_def by linarith
    then show ?thesis by (simp only: of_nat_unat)
  qed
  have fo: "fat_offset ef c = 128 * get_sector_size p + uint c * 4"
    by (simp add: fat_offset_def s2o_def formatted_fields [OF fm] get_sector_size_def)
  have off: "int (cluster_off ef 2) = ?b" using formatted_offset [OF fm, of 2] by simp
  have "128 * get_sector_size p + 4 * (uint c + 1) \<le> ?b"
  proof (cases "k = 1")
    case True
    have "(2 :: int) ^ 2 dvd 2 ^ mp_sector_bits p" using formattedD(1) [OF fm] by (intro le_imp_power_dvd) (simp add: param_ok_def)
    then have "4 dvd get_sector_size p" by (simp add: get_sector_size_def)
    then have "4 dvd ?c - (128 * get_sector_size p + fat_size p)" unfolding get_cluster_size_def F by simp
    moreover have "0 < ?c - (128 * get_sector_size p + fat_size p)" using assms(2) lo b True by simp
    ultimately have "4 \<le> ?c - (128 * get_sector_size p + fat_size p)" by (rule zdvd_imp_le)
    then show ?thesis using u True b F by simp
  next
    case False
    then show ?thesis using u k lo F by simp
  qed
  then show ?thesis using fo off by simp
qed

lemma formatted_bitmap_covers:
  assumes fm: "formatted upcase_table p ef"
  shows "int (unat (sb_cluster_count (ef_sb ef))) \<le> 8 * cbm_size p"
proof -
  let ?n = "(mp_volume_size p - get_position upcase_table p CBM) div get_cluster_size p"
  have n: "0 \<le> ?n" using positions_fit(1) [OF formattedD(2) [OF fm]] sizes(2) [of p] by (simp add: pos_imp_zdiv_nonneg_iff)
  have "cbm_size p = (?n + 7) div 8"
    using positions_fit(1) [OF formattedD(2) [OF fm]] sizes(2) [of p] n by (simp add: cbm_size_def position_CBM(2) [of p upcase_table] sdiv_pos)
  then show ?thesis using formatted_clusters [OF fm] n by linarith
qed

section \<open>The cluster size\<close>

lemma DIV_ROUND_UP_int_le: "0 < d \<Longrightarrow> DIV_ROUND_UP x d \<le> n \<longleftrightarrow> x \<le> n * d" for x d n :: int
proof -
  assume d: "0 < d"
  note r = ROUND_UP_int [OF d, of x, unfolded ROUND_UP_def]
  show ?thesis
  proof
    assume "DIV_ROUND_UP x d \<le> n"
    then have "DIV_ROUND_UP x d * d \<le> n * d" using d by (intro mult_right_mono) simp_all
    then show "x \<le> n * d" using r(2) by linarith
  next
    assume "x \<le> n * d"
    then have "DIV_ROUND_UP x d * d < (n + 1) * d" using r(3) by (simp add: algebra_simps)
    then show "DIV_ROUND_UP x d \<le> n" using d by (simp add: mult_less_cancel_right)
  qed
qed

lemma spc_loop_finds:
  assumes "v \<le> 0xfffffff6 * 2 ^ 30" "i \<le> 30"
  shows "\<exists>k. spc_loop b v i = Some (nat (max 0 (int k - b))) \<and> i \<le> k \<and> k \<le> 30 \<and> v \<le> 0xfffffff6 * 2 ^ k \<and>
    (i < k \<longrightarrow> 0xfffffff6 * 2 ^ (k - 1) < v)"
  using assms(2)
proof (induction "30 - i" arbitrary: i)
  case 0
  then have "i = 30" by simp
  then show ?case using assms(1) by (subst spc_loop.simps) (auto simp: DIV_ROUND_UP_int_le LAST_value intro!: exI [of _ 30])
next
  case (Suc n)
  then have i: "i < 30" by simp
  show ?case
  proof (cases "v \<le> 0xfffffff6 * 2 ^ i")
    case True
    then show ?thesis using i by (subst spc_loop.simps) (auto simp: DIV_ROUND_UP_int_le LAST_value)
  next
    case False
    obtain k where k: "spc_loop b v (Suc i) = Some (nat (max 0 (int k - b)))" "Suc i \<le> k" "k \<le> 30" "v \<le> 0xfffffff6 * 2 ^ k"
      "Suc i < k \<longrightarrow> 0xfffffff6 * 2 ^ (k - 1) < v"
    proof -
      have "n = 30 - Suc i" "Suc i \<le> 30" using Suc.hyps(2) i by linarith+
      from Suc.hyps(1) [OF this] show ?thesis using that by blast
    qed
    have "0xfffffff6 * 2 ^ (k - 1) < v" using k(2,5) False by (cases "k = Suc i") auto
    then show ?thesis using k False i by (subst spc_loop.simps) (auto simp: DIV_ROUND_UP_int_le LAST_value intro!: exI [of _ k])
  qed
qed

section \<open>Properties\<close>

text \<open>
  C24: the super block describes the layout.  For every volume that \<^verbatim>\<open>mkfs\<close> agrees to format, the geometry is one the
  library accepts; the first cluster is where the allocation bitmap is written, the clusters named in the super
  block and in the entry of the upper-case table are clusters of the volume and lie where the root directory and
  the table are written; all clusters end inside the volume, the bitmap has a bit for each of them, and the
  allocation table ends before the first cluster unless it fills the first cluster to its last byte.
\<close>

theorem mkfs_geometry:
  assumes "param_ok p" "check_size upcase_table p (mp_volume_size p) = 0" "ef_sb ef = init_sb upcase_table p"
  shows "geometry_ok (ef_sb ef) \<and> int (cluster_off ef EXFAT_FIRST_DATA_CLUSTER) = get_position upcase_table p CBM \<and>
    valid ef (sb_rootdir_cluster (ef_sb ef)) \<and>
    int (cluster_off ef (sb_rootdir_cluster (ef_sb ef))) = get_position upcase_table p ROOTDIR \<and>
    valid ef (eu_start_cluster (init_upcase_entry upcase_table p)) \<and>
    int (cluster_off ef (eu_start_cluster (init_upcase_entry upcase_table p))) = get_position upcase_table p UCT \<and>
    (\<forall>c. valid ef c \<longrightarrow> int (cluster_off ef c + CLUSTER_SIZE (ef_sb ef)) \<le> mp_volume_size p) \<and>
    int (unat (sb_cluster_count (ef_sb ef))) \<le> 8 * cbm_size p \<and>
    (128 * get_sector_size p + fat_size p \<noteq> get_cluster_size p \<longrightarrow>
      (\<forall>c. valid ef c \<longrightarrow> fat_offset ef c + 4 \<le> int (cluster_off ef EXFAT_FIRST_DATA_CLUSTER)))"
proof -
  have fm: "formatted upcase_table p ef" using assms by (simp add: formatted_def)
  note fit = positions_fit [OF assms(2)] and ord = positions_order [where p = p and upcase_table = upcase_table]
  have first: "EXFAT_FIRST_DATA_CLUSTER = 2" by (simp add: EXFAT_FIRST_DATA_CLUSTER_def)
  have "int (cluster_off ef 2) = get_position upcase_table p CBM" using formatted_offset [OF fm, of 2] by simp
  moreover have "get_position upcase_table p CBM \<le> get_position upcase_table p UCT"
    "get_position upcase_table p UCT \<le> get_position upcase_table p ROOTDIR" using ord(1,2) fit(2) by linarith+
  note le = this
  have root: "valid ef (sb_rootdir_cluster (ef_sb ef))"
    "int (cluster_off ef (sb_rootdir_cluster (ef_sb ef))) = get_position upcase_table p ROOTDIR"
    using formatted_cluster_at [OF fm _ ord(5) fit(3) formatted_fields(6) [OF fm]] le by simp_all
  have uct: "valid ef (eu_start_cluster (init_upcase_entry upcase_table p))"
    "int (cluster_off ef (eu_start_cluster (init_upcase_entry upcase_table p))) = get_position upcase_table p UCT"
    using formatted_cluster_at [OF fm le(1) ord(4), of "eu_start_cluster (init_upcase_entry upcase_table p)"] le(2) fit(3)
    by (simp_all add: init_upcase_entry_def)
  show ?thesis
    unfolding first using calculation root uct formatted_units(3) [OF fm] formatted_cluster_fits [OF fm]
      formatted_bitmap_covers [OF fm] formatted_table_fits [OF fm] by blast
qed

text \<open>
  the exception is real.  For a volume of 2 GB and clusters of 128 KB, parameters that the program accepts,
  the table entry of the last cluster is the first four bytes of the allocation bitmap.
\<close>

theorem fat_overlaps_bitmap:
  fixes ef :: exfat
  defines "p \<equiv> \<lparr>mp_sector_bits = 9, mp_spc_bits = 8, mp_volume_size = 2147483648, mp_volume_label = replicate 16 0,
      mp_volume_serial = 1, mp_first_sector = 0\<rparr>"
  shows "param_ok p \<and> check_size (replicate 5836 0) p (mp_volume_size p) = 0 \<and>
    valid (ef\<lparr>ef_sb := init_sb (replicate 5836 0) p\<rparr>) 16384 \<and>
    fat_offset (ef\<lparr>ef_sb := init_sb (replicate 5836 0) p\<rparr>) 16384 =
      int (cluster_off (ef\<lparr>ef_sb := init_sb (replicate 5836 0) p\<rparr>) EXFAT_FIRST_DATA_CLUSTER)"
proof -
  have ok: "param_ok p" by (simp add: p_def param_ok_def get_cluster_size_def get_sector_size_def LAST_value)
  have pos: "get_position (replicate 5836 0) p CBM = 131072"
    by (simp add: position_CBM(1) p_def fat_size_def get_cluster_size_def get_sector_size_def ROUND_UP_def DIV_ROUND_UP_def)
  have "cbm_position p = 131072" using position_CBM(2) [of p "replicate 5836 0"] pos by simp
  then have cbm: "get_position (replicate 5836 0) p CBM = 131072" "cbm_size p = 2048"
    using pos by (simp_all add: cbm_size_def) (simp add: p_def get_cluster_size_def get_sector_size_def sdiv_pos)
  have chk: "check_size (replicate 5836 0) p (mp_volume_size p) = 0"
    by (simp add: check_size_eq position_ROOTDIR position_UCT cbm)
      (simp add: p_def get_cluster_size_def get_sector_size_def ROUND_UP_def DIV_ROUND_UP_def)
  let ?ef = "ef\<lparr>ef_sb := init_sb (replicate 5836 0) p\<rparr>"
  have fm: "formatted (replicate 5836 0) p ?ef" using ok chk by (simp add: formatted_def)
  have "int (unat (sb_cluster_count (ef_sb ?ef))) = int 16383"
    using formatted_clusters [OF fm] cbm by (simp add: p_def get_cluster_size_def get_sector_size_def)
  then have "unat (sb_cluster_count (ef_sb ?ef)) = 16383" by (simp only: of_nat_eq_iff)
  then have "valid ?ef 16384" unfolding valid_unat by simp
  moreover have "fat_offset ?ef 16384 = 131072"
    using formatted_fields(1,3) [OF fm] by (simp add: fat_offset_def s2o_def p_def)
  moreover have "int (cluster_off ?ef EXFAT_FIRST_DATA_CLUSTER) = 131072"
    using formatted_offset [OF fm, of EXFAT_FIRST_DATA_CLUSTER] cbm by (simp add: EXFAT_FIRST_DATA_CLUSTER_def)
  ultimately show ?thesis using ok chk by simp
qed

text \<open>
  The search for a cluster size ends, for volumes up to 4 EB, with a size for which the clusters of the
  volume can be numbered; up to 128 PB it is a size that the library mounts.
\<close>

theorem setup_spc_bits_total:
  assumes "0 \<le> volume_size" "volume_size \<le> uint EXFAT_LAST_DATA_CLUSTER * 2 ^ 30" "sector_bits \<le> 12"
  shows "\<exists>spc_bits. setup_spc_bits sector_bits (- 1) volume_size = Some (Some spc_bits) \<and>
    volume_size div 2 ^ (sector_bits + spc_bits) \<le> uint EXFAT_LAST_DATA_CLUSTER \<and>
    (volume_size \<le> uint EXFAT_LAST_DATA_CLUSTER * 2 ^ 25 \<longrightarrow> sector_bits + spc_bits \<le> 25)"
proof -
  have bound: "volume_size div 2 ^ k \<le> 0xfffffff6" if "volume_size \<le> 0xfffffff6 * 2 ^ k" for k
    using zdiv_mono1 [OF that, of "2 ^ k"] by simp
  consider "volume_size < 256 * 1024 * 1024" | "256 * 1024 * 1024 \<le> volume_size" "volume_size < 32 * 1024 * 1024 * 1024"
    | "32 * 1024 * 1024 * 1024 \<le> volume_size" by linarith
  then show ?thesis
  proof cases
    case 1
    then have "setup_spc_bits sector_bits (- 1) volume_size = Some (Some (12 - sector_bits))" by (simp add: setup_spc_bits_def)
    then show ?thesis using 1 assms(3) bound [of 12] by (simp add: LAST_value)
  next
    case 2
    then have "setup_spc_bits sector_bits (- 1) volume_size = Some (Some (15 - sector_bits))" by (simp add: setup_spc_bits_def)
    then show ?thesis using 2 assms(3) bound [of 15] by (simp add: LAST_value)
  next
    case 3
    obtain k where k: "spc_loop (int sector_bits) volume_size 17 = Some (nat (max 0 (int k - int sector_bits)))" "17 \<le> k"
      "volume_size \<le> 0xfffffff6 * 2 ^ k" "17 < k \<longrightarrow> 0xfffffff6 * 2 ^ (k - 1) < volume_size"
      using spc_loop_finds [of volume_size 17 "int sector_bits"] assms(2) by (auto simp: LAST_value)
    have m: "nat (max 0 (int k - int sector_bits)) = k - sector_bits" "sector_bits + (k - sector_bits) = k"
      using k(2) assms(3) by simp_all
    have "k \<le> 25" if "volume_size \<le> 0xfffffff6 * 2 ^ 25"
    proof (rule ccontr)
      assume "\<not> k \<le> 25"
      then have "(2 :: int) ^ 25 \<le> 2 ^ (k - 1)" by (intro power_increasing) simp_all
      then show False using k(4) \<open>\<not> k \<le> 25\<close> that by simp
    qed
    then show ?thesis
      using 3 k(1,3) bound [of k] by (simp add: setup_spc_bits_def m LAST_value)
  qed
qed

end
