(* ===== verification/MountFacts.thy ===== *)
theory MountFacts
  imports Mount
begin

text \<open>
  Facts about mounting and unmounting: options, the size of the root directory, the percentage in the super block.
\<close>

section \<open>Options\<close>

fun comma_split :: "string \<Rightarrow> string list" where
  "comma_split [] = [[]]"
| "comma_split (c # cs) = (if c = CHR '','' then [] # comma_split cs else (c # hd (comma_split cs)) # tl (comma_split cs))"

lemma comma_split_ne [simp]: "comma_split s \<noteq> []"
  by (cases s) auto

text \<open>A word of a list: what stands between two commas, or a comma and an end.\<close>

lemma comma_split_head:
  "hd (comma_split s) = w \<longleftrightarrow> CHR '','' \<notin> set w \<and> (s = w \<or> (\<exists>t. s = w @ CHR '','' # t))"
proof (induction s arbitrary: w)
  case (Cons c s)
  show ?case
  proof (cases "c = CHR '',''")
    case True
    then show ?thesis by (cases w) auto
  next
    case False
    then have "hd (comma_split (c # s)) = w \<longleftrightarrow> (\<exists>v. w = c # v \<and> hd (comma_split s) = v)" by (cases w) auto
    also have "\<dots> \<longleftrightarrow> CHR '','' \<notin> set w \<and> (c # s = w \<or> (\<exists>t. c # s = w @ CHR '','' # t))"
      unfolding Cons.IH using False by (cases w) auto
    finally show ?thesis .
  qed
qed auto

definition word_at :: "string \<Rightarrow> string \<Rightarrow> string \<Rightarrow> string \<Rightarrow> bool" where
  "word_at s a w b \<longleftrightarrow> s = a @ w @ b \<and> (a = [] \<or> last a = CHR '','') \<and> (b = [] \<or> hd b = CHR '','')"

lemma word_at_head: "hd (comma_split s) = w \<longleftrightarrow> CHR '','' \<notin> set w \<and> (\<exists>b. word_at s [] w b)"
  unfolding comma_split_head word_at_def by (metis append.left_neutral append.right_neutral list.exhaust_sel list.sel(1))

lemma word_at_Cons: "word_at (c # s) (x # a) w b \<longleftrightarrow> x = c \<and> (if a = [] then c = CHR '','' \<and> word_at s [] w b else word_at s a w b)"
  by (auto simp: word_at_def)

lemma word_at_tail: "w \<in> set (tl (comma_split s)) \<longleftrightarrow> CHR '','' \<notin> set w \<and> (\<exists>x a b. word_at s (x # a) w b)"
proof (induction s)
  case Nil
  show ?case by (simp add: word_at_def)
next
  case (Cons c s)
  have split: "w \<in> set (comma_split s) \<longleftrightarrow> hd (comma_split s) = w \<or> w \<in> set (tl (comma_split s))"
    by (cases "comma_split s") auto
  have ex: "(\<exists>x a b. word_at (c # s) (x # a) w b) \<longleftrightarrow>
      (c = CHR '','' \<and> (\<exists>b. word_at s [] w b)) \<or> (\<exists>x a b. word_at s (x # a) w b)" (is "?l \<longleftrightarrow> ?r")
  proof
    assume ?l
    then obtain x a b where "word_at (c # s) (x # a) w b" by blast
    then show ?r unfolding word_at_Cons by (cases a) auto
  next
    assume ?r
    then consider b where "c = CHR '',''" "word_at s [] w b" | x a b where "word_at s (x # a) w b" by blast
    then show ?l
    proof cases
      case (1 b)
      then have "word_at (c # s) (c # []) w b" unfolding word_at_Cons by simp
      then show ?thesis by blast
    next
      case (2 x a b)
      then have "word_at (c # s) (c # x # a) w b" unfolding word_at_Cons by simp
      then show ?thesis by blast
    qed
  qed
  show ?case
  proof (cases "c = CHR '',''")
    case True
    then have "tl (comma_split (c # s)) = comma_split s" by simp
    then show ?thesis unfolding ex using True split Cons.IH word_at_head [of s w] by auto
  next
    case False
    then have "tl (comma_split (c # s)) = tl (comma_split s)" by simp
    then show ?thesis unfolding ex using False Cons.IH by simp
  qed
qed

lemma comma_split_word: "w \<in> set (comma_split s) \<longleftrightarrow> CHR '','' \<notin> set w \<and> (\<exists>a b. word_at s a w b)"
proof -
  have "w \<in> set (comma_split s) \<longleftrightarrow> hd (comma_split s) = w \<or> w \<in> set (tl (comma_split s))"
    by (cases "comma_split s") auto
  then show ?thesis unfolding word_at_head word_at_tail by (metis list.exhaust)
qed

lemma occurrences_iff: "p \<in> set (occurrences options name) \<longleftrightarrow> p \<le> length options \<and> take (length name) (drop p options) = name"
  by (auto simp: occurrences_def less_Suc_eq_le simp del: upt_Suc)

lemma match_option_word:
  assumes "CHR 0x00 \<notin> set options"
  shows "exfat_match_option options name \<longleftrightarrow> (\<exists>a b. word_at options a name b)"
proof
  assume "exfat_match_option options name"
  then obtain p where p: "p \<le> length options" "take (length name) (drop p options) = name" "p = 0 \<or> char_at options (p - 1) = CHR '',''"
    "char_at options (p + length name) = CHR '','' \<or> char_at options (p + length name) = CHR 0x00"
    unfolding exfat_match_option_def Bex_def occurrences_iff by blast
  let ?a = "take p options" and ?b = "drop (p + length name) options"
  have "options = ?a @ name @ ?b" using p(2) by (metis append_take_drop_id drop_drop add.commute)
  moreover have "?a = [] \<or> last ?a = CHR '',''"
  proof (cases "p = 0")
    case False
    then have "last ?a = options ! (p - 1)" using p(1) last_conv_nth [of ?a] by (cases options) (auto simp: min_def)
    then show ?thesis using False p(1,3) by (auto simp: char_at_def split: if_splits)
  qed simp
  moreover have "?b = [] \<or> hd ?b = CHR '',''"
  proof (cases "p + length name < length options")
    case True
    then have "options ! (p + length name) \<noteq> CHR 0x00" using assms nth_mem [OF True] by metis
    then show ?thesis using p(4) True assms by (auto simp: char_at_def hd_drop_conv_nth)
  qed simp
  ultimately show "\<exists>a b. word_at options a name b" unfolding word_at_def by blast
next
  assume "\<exists>a b. word_at options a name b"
  then obtain a b where w: "options = a @ name @ b" "a = [] \<or> last a = CHR '',''" "b = [] \<or> hd b = CHR '',''"
    by (auto simp: word_at_def)
  have "length a = 0 \<or> char_at options (length a - 1) = CHR '',''"
    using w(1,2) by (cases a rule: rev_cases) (auto simp: char_at_def nth_append)
  moreover have "char_at options (length a + length name) = CHR '','' \<or> char_at options (length a + length name) = CHR 0x00"
    using w(1,3) by (cases b) (auto simp: char_at_def nth_append)
  moreover have "length a \<in> set (occurrences options name)" using w(1) by (simp add: occurrences_iff)
  ultimately show "exfat_match_option options name" unfolding exfat_match_option_def by blast
qed

section \<open>The root directory\<close>

text \<open>A chain of valid clusters that ends with the end mark.\<close>

fun root_chain :: "exfat \<Rightarrow> exfat_node \<Rightarrow> cluster_t \<Rightarrow> cluster_t list \<Rightarrow> bool" where
  "root_chain ef root c [] \<longleftrightarrow> False"
| "root_chain ef root c (d # ds) \<longleftrightarrow> d = c \<and> valid ef c \<and>
     (case exfat_next_cluster ef root c of
        None \<Rightarrow> False
      | Some next \<Rightarrow> if next = EXFAT_CLUSTER_END then ds = [] else root_chain ef root next ds)"

lemma next_cluster_total: "valid ef c \<Longrightarrow> \<exists>next. exfat_next_cluster ef node c = Some next"
  by (auto simp: exfat_next_cluster_def CLUSTER_INVALID_def Let_def not_less split: prod.splits)

lemma rootdir_loop_correct:
  "\<exists>n. rootdir_loop ef root left k c = Some n \<and>
     (\<forall>cs. root_chain ef root c cs \<and> length cs \<le> left \<longrightarrow> n = k + of_nat (length cs)) \<and>
     ((\<forall>cs. root_chain ef root c cs \<longrightarrow> left < length cs) \<longrightarrow> n = 0)"
proof (induction left arbitrary: k c)
  case 0
  have "root_chain ef root c cs \<Longrightarrow> cs \<noteq> []" for cs by auto
  then show ?case by auto
next
  case (Suc left)
  show ?case
  proof (cases "valid ef c")
    case False
    then have "\<not> root_chain ef root c cs" for cs by (cases cs) auto
    then show ?thesis using False by auto
  next
    case True
    then obtain nx where eq: "exfat_next_cluster ef root c = Some nx" using next_cluster_total by blast
    show ?thesis
    proof (cases "nx = EXFAT_CLUSTER_END")
      case t: True
      then have "root_chain ef root c cs \<longleftrightarrow> cs = [c]" for cs using eq True by (cases cs) auto
      then show ?thesis using True eq t by (auto simp: add.commute)
    next
      case f: False
      then have ch: "root_chain ef root c cs \<longleftrightarrow> (\<exists>ds. cs = c # ds \<and> root_chain ef root nx ds)" for cs
        using eq True by (cases cs) auto
      obtain n where n: "rootdir_loop ef root left (k + 1) nx = Some n"
        "\<forall>cs. root_chain ef root nx cs \<and> length cs \<le> left \<longrightarrow> n = k + 1 + of_nat (length cs)"
        "(\<forall>cs. root_chain ef root nx cs \<longrightarrow> left < length cs) \<longrightarrow> n = 0" using Suc.IH by metis
      have "rootdir_loop ef root (Suc left) k c = Some n" using True eq f n(1) by simp
      moreover have "n = k + of_nat (length cs)" if "root_chain ef root c cs" "length cs \<le> Suc left" for cs
        using that n(2) unfolding ch by (auto simp: add.assoc)
      moreover have "n = 0" if "\<forall>cs. root_chain ef root c cs \<longrightarrow> Suc left < length cs"
        using that n(3) unfolding ch by (metis Suc_less_SucD length_Cons not_less_eq)
      ultimately show ?thesis by blast
    qed
  qed
qed

section \<open>The percentage\<close>

lemma allocated_percent_value:
  assumes "free \<le> clusters" "unat clusters * 100 + unat clusters div 2 < 2 ^ 32" "clusters \<noteq> 0"
  shows "unat (allocated_percent clusters free) =
    ((unat clusters - unat free) * 100 + unat clusters div 2) div unat clusters" "unat (allocated_percent clusters free) \<le> 100"
proof -
  let ?n = "unat clusters" and ?f = "unat free"
  have fn: "?f \<le> ?n" "0 < ?n" using assms(1,3) by (simp_all add: word_le_nat_alt unat_gt_0)
  have d: "unat (clusters - free) = ?n - ?f" using assms(1) by (rule unat_sub)
  have h: "unat (clusters div 2) = ?n div 2" by (simp add: unat_div)
  have le: "(?n - ?f) * 100 + ?n div 2 \<le> ?n * 100 + ?n div 2" by simp
  have t: "unat ((clusters - free) * 100) = (?n - ?f) * 100"
    using le assms(2) by (subst unat_mult_lem [THEN iffD1]) (simp_all add: d)
  have "unat ((clusters - free) * 100 + clusters div 2) = unat ((clusters - free) * 100) + unat (clusters div 2)"
    by (rule unat_add_lem [THEN iffD1], unfold t h) (use le assms(2) in simp)
  then have m: "unat ((clusters - free) * 100 + clusters div 2) = (?n - ?f) * 100 + ?n div 2" unfolding t h .
  have q: "((?n - ?f) * 100 + ?n div 2) div ?n \<le> 100"
  proof -
    have "(?n - ?f) * 100 + ?n div 2 < 101 * ?n" using fn(2) le by linarith
    then have "((?n - ?f) * 100 + ?n div 2) div ?n < 101" by (rule less_mult_imp_div_less)
    then show ?thesis by simp
  qed
  show v: "unat (allocated_percent clusters free) = ((?n - ?f) * 100 + ?n div 2) div ?n"
  proof -
    have "unat (((clusters - free) * 100 + clusters div 2) div clusters) = ((?n - ?f) * 100 + ?n div 2) div ?n"
      unfolding unat_div m ..
    then show ?thesis using q unfolding allocated_percent_def unsigned_ucast_eq by (simp only:) (simp add: take_bit_nat_eq_self)
  qed
  show "unat (allocated_percent clusters free) \<le> 100" unfolding v by (rule q)
qed

section \<open>Properties\<close>

text \<open>an option is recognised exactly when it is one of the words of the comma-separated list.\<close>

theorem match_option_correct:
  assumes "CHR 0x00 \<notin> set options" "CHR '','' \<notin> set option_name"
  shows "exfat_match_option options option_name \<longleftrightarrow> option_name \<in> set (comma_split options)"
  using match_option_word [OF assms(1)] assms(2) by (simp add: comma_split_word)

text \<open>
  C27: finding the size of the root directory ends on every medium, also when the table is unreadable or its
  chain is cyclic; the size is that of the chain from the first cluster to the end mark when there is one of at
  most as many clusters as the volume has, and 0 otherwise.
\<close>

theorem rootdir_size_total:
  fixes ef :: exfat
  defines "left \<equiv> unat (sb_cluster_count (ef_sb ef))" and "c \<equiv> sb_rootdir_cluster (ef_sb ef)"
  shows "\<exists>sz. rootdir_size ef root = Some sz \<and>
    (\<forall>cs. root_chain ef root c cs \<and> length cs \<le> left \<longrightarrow>
       sz = ucast (of_nat (length cs) :: u32) * of_nat (CLUSTER_SIZE (ef_sb ef))) \<and>
    ((\<forall>cs. root_chain ef root c cs \<longrightarrow> left < length cs) \<longrightarrow> sz = 0)"
proof -
  obtain n where n: "rootdir_loop ef root left 0 c = Some n"
    "\<forall>cs. root_chain ef root c cs \<and> length cs \<le> left \<longrightarrow> n = 0 + of_nat (length cs)"
    "(\<forall>cs. root_chain ef root c cs \<longrightarrow> left < length cs) \<longrightarrow> n = 0"
    using rootdir_loop_correct by metis
  then show ?thesis unfolding rootdir_size_def left_def [symmetric] c_def [symmetric] by auto
qed

text \<open>
  the percentage of allocated clusters that is stored when a volume is unmounted is the rounded percentage,
  and at most 100, as long as a hundred times the number of clusters fits into 32 bits.
\<close>

theorem allocated_percent_correct:
  assumes "free \<le> clusters" "unat clusters * 100 + unat clusters div 2 < 2 ^ 32" "clusters \<noteq> 0"
  shows "unat (allocated_percent clusters free) =
      ((unat clusters - unat free) * 100 + unat clusters div 2) div unat clusters \<and>
    unat (allocated_percent clusters free) \<le> 100"
  using allocated_percent_value [OF assms] by blast

text \<open>on larger volumes the product wraps: a full volume of 67108864 clusters is recorded as 36 percent full.\<close>

theorem allocated_percent_wraps: "allocated_percent 67108864 0 = 36"
  by (simp add: allocated_percent_def)

end
