(* ===== verification/SampleBoot.thy ===== *)
theory SampleBoot
  imports SampleTree Boot Layout MountFacts
begin

text \<open>Instances of the properties of formatting, of the boot region and of mounting on concrete volumes.\<close>

section \<open>Formatting\<close>

text \<open>A volume of 2 MB with sectors of 512 bytes and clusters of 4 KB, and its medium.\<close>

definition sample_param :: mkfs_param where
  "sample_param = \<lparr>mp_sector_bits = 9, mp_spc_bits = 3, mp_volume_size = 2097152, mp_volume_label = replicate 16 0,
     mp_volume_serial = 1, mp_first_sector = 0\<rparr>"

definition sample_disk :: exfat_dev where
  "sample_disk = sample_dev\<lparr>dev_size := 2097152\<rparr>"

lemma sample_disk_writable: "boot_writable sample_disk"
  by (simp add: boot_writable_def sample_disk_def sample_dev_def)

lemma sample_disk_pos: "dev_pos sample_disk = 0" "dev_size sample_disk = 2097152"
  by (simp_all add: sample_disk_def sample_dev_def)

lemma sample_vbr: "\<exists>dev. vbr_write sample_host [0] sample_param sample_disk = (0, dev)"
  using sample_disk_writable sample_disk_pos
  by (intro vbr_write_succeeds [of _ _ _ 0]) (simp_all add: sample_host_def sample_param_def get_sector_size_def)

definition fresh_dev :: exfat_dev where
  "fresh_dev = snd (vbr_write sample_host [0] sample_param sample_disk)"

definition fresh_ef :: exfat where
  "fresh_ef = sample_ef\<lparr>ef_dev := fresh_dev, ef_sb := init_sb [0] sample_param\<rparr>"

lemma fresh_dev: "vbr_write sample_host [0] sample_param sample_disk = (0, fresh_dev)"
  using sample_vbr by (auto simp: fresh_dev_def)

lemma fresh_image: "fresh_dev = appended sample_disk 0 (vbr_image (bytes_of_sb (init_sb [0] sample_param)) 512)"
  using vbr_write_image(1) [OF fresh_dev, of 0] sample_disk_pos by (simp add: sample_param_def get_sector_size_def)

lemma fresh_readable: "boot_readable fresh_dev 512"
proof -
  have "dev_readable fresh_dev n off" if "off + n \<le> 12 * 512" for off n
    using that unfolding fresh_image appended_def dev_readable_def by (simp add: sample_disk_def sample_dev_def)
  then show ?thesis by (simp add: boot_readable_def)
qed

lemma fresh_sb: "sb_of_bytes (sector_at fresh_dev 512 0) = init_sb [0] sample_param"
proof -
  have "length (vbr_image (bytes_of_sb (init_sb [0] sample_param)) 512) = 512 + 11 * 512"
    using vbr_write_image(2) [OF fresh_dev, of 0] sample_disk_pos by (simp add: sample_param_def get_sector_size_def)
  from image_signed(2) [OF length_bytes_of_sb [OF init_sb_len] this] show ?thesis
    unfolding fresh_image by (simp add: sb_of_bytes_of_sb init_sb_len)
qed

lemma fresh_sizes: "SECTOR_SIZE (init_sb [0] sample_param) = 512" "CLUSTER_SIZE (init_sb [0] sample_param) = 4096"
  by (simp_all add: SECTOR_SIZE_def CLUSTER_SIZE_def init_sb_def Let_def sample_param_def)

lemma fresh_fields: "ef_dev fresh_ef = fresh_dev" "ef_sb fresh_ef = init_sb [0] sample_param" "ef_repair fresh_ef = EXFAT_REPAIR_NO"
  by (simp_all add: fresh_ef_def sample_ef_def)

theorem vbr_written_verified_witness: "verify_vbr_checksum fresh_ef (replicate 4096 0) = (True, fresh_ef)"
  using vbr_written_verified [of sample_host "[0]" sample_param sample_disk fresh_ef "replicate 4096 0"] fresh_dev
    sample_disk_pos fresh_readable fresh_sb
  by (simp add: fresh_fields fresh_sizes) (simp add: sample_param_def)

theorem verify_vbr_correct_witness:
  "verify_vbr_checksum fresh_ef (replicate 4096 0) = (boot_signed fresh_dev 512, fresh_ef)"
  using verify_vbr_correct [of fresh_ef "replicate 4096 0"] fresh_readable
  by (simp add: fresh_fields fresh_sizes)

theorem vbr_write_length_witness: "dev_pos fresh_dev = 12 * 512"
  using vbr_write_length [OF fresh_dev, of 0] sample_disk_pos
  by (simp add: sample_param_def get_sector_size_def vbr_size_def)

lemma sample_param_ok: "param_ok sample_param"
  by (simp add: sample_param_def param_ok_def get_cluster_size_def get_sector_size_def EXFAT_LAST_DATA_CLUSTER_def)

lemma sample_param_CBM: "get_position [0] sample_param CBM = 69632" "cbm_size sample_param = 62"
proof -
  show c: "get_position [0] sample_param CBM = 69632"
    by (simp add: position_CBM(1) sample_param_def fat_size_def get_cluster_size_def get_sector_size_def ROUND_UP_def DIV_ROUND_UP_def)
  then show "cbm_size sample_param = 62"
    using position_CBM(2) [of sample_param "[0]"]
    by (simp add: cbm_size_def) (simp add: sample_param_def get_cluster_size_def get_sector_size_def sdiv_pos)
qed

lemma sample_param_fits: "check_size [0] sample_param (mp_volume_size sample_param) = 0"
  by (simp add: check_size_eq position_ROOTDIR position_UCT sample_param_CBM)
    (simp add: sample_param_def get_cluster_size_def get_sector_size_def ROUND_UP_def DIV_ROUND_UP_def)

theorem mkfs_geometry_witness:
  "geometry_ok (init_sb [0] sample_param) \<and> valid fresh_ef (sb_rootdir_cluster (init_sb [0] sample_param)) \<and>
   int (cluster_off fresh_ef EXFAT_FIRST_DATA_CLUSTER) = 69632"
  using mkfs_geometry [OF sample_param_ok sample_param_fits fresh_fields(2)] by (simp add: fresh_fields sample_param_CBM)

theorem setup_spc_bits_witness:
  "\<exists>spc_bits. setup_spc_bits 9 (- 1) 1099511627776 = Some (Some spc_bits) \<and> 9 + spc_bits \<le> 25"
  using setup_spc_bits_total [of 1099511627776 9] by (auto simp: EXFAT_LAST_DATA_CLUSTER_def)

section \<open>Mounting\<close>

lemma comma_split_Cons:
  "comma_split (c # cs) = (case comma_split cs of [] \<Rightarrow> [[]] | w # ws \<Rightarrow> if c = CHR '','' then [] # w # ws else (c # w) # ws)"
  by (cases "comma_split cs") simp_all

lemma sample_options: "comma_split ''ro,noatime,uid=1'' = [''ro'', ''noatime'', ''uid=1'']"
  by (simp add: comma_split_Cons del: comma_split.simps(2))

theorem match_option_witness:
  "exfat_match_option ''ro,noatime,uid=1'' ''noatime'' \<and> \<not> exfat_match_option ''ro,noatime,uid=1'' ''atime''"
  using match_option_correct [of "''ro,noatime,uid=1''" "''noatime''"]
    match_option_correct [of "''ro,noatime,uid=1''" "''atime''"] by (simp add: sample_options del: comma_split.simps)

theorem allocated_percent_witness: "unat (allocated_percent 1000 250) = 75"
  using allocated_percent_correct [of 250 1000] by simp

text \<open>A medium of all ones: every entry of its table is the end mark.\<close>

definition ones_ef :: exfat where
  "ones_ef = sample_ef\<lparr>ef_dev := sample_dev\<lparr>dev_data := (\<lambda>_. 0xff)\<rparr>\<rparr>"

lemma ones_fields: "ef_sb ones_ef = sample_sb" "ef_dev ones_ef = sample_dev\<lparr>dev_data := (\<lambda>_. 0xff)\<rparr>"
  by (simp_all add: ones_ef_def)

lemma ones_next: "exfat_next_cluster ones_ef sample_empty 2 = Some EXFAT_CLUSTER_END"
proof -
  have "dev_readable (ef_dev ones_ef) 4 520" by (simp add: ones_fields dev_readable_def sample_dev_def)
  then have "exfat_pread (ef_dev ones_ef) (garbage ones_ef 4) 4 520 = (4, map (dev_data (ef_dev ones_ef)) [520..<524])"
    using exfat_pread_full [of "garbage ones_ef 4" 4 "ef_dev ones_ef" 520] by (simp add: garbage_def)
  moreover have "map (dev_data (ef_dev ones_ef)) [520..<524] = [0xff, 0xff, 0xff, 0xff]" by (simp add: ones_fields upt_rec)
  moreover have "fat_offset ones_ef 2 = 520" by (simp add: fat_offset_def s2o_def ones_fields)
  ultimately show ?thesis
    by (simp add: exfat_next_cluster_def EXFAT_FIRST_DATA_CLUSTER_def sample_empty_def zero_node_def EXFAT_CLUSTER_END_def le_word_def)
qed

theorem rootdir_size_witness: "rootdir_size ones_ef sample_empty = Some 512"
proof -
  have "valid ones_ef 2" unfolding valid_unat by (simp add: ones_fields)
  then have "root_chain ones_ef sample_empty 2 [2]" by (simp add: ones_next)
  moreover have root: "sb_rootdir_cluster sample_sb = 2" by (simp add: sample_sb_def)
  moreover obtain sz where sz: "rootdir_size ones_ef sample_empty = Some sz"
    "\<And>cs. root_chain ones_ef sample_empty 2 cs \<Longrightarrow> length cs \<le> 8 \<Longrightarrow> sz = ucast (of_nat (length cs) :: u32) * 512"
    using rootdir_size_total [of ones_ef sample_empty] by (auto simp: ones_fields root simp del: root_chain.simps)
  ultimately have "sz = 512" using sz(2) [of "[2]"] by (simp del: root_chain.simps)
  then show ?thesis using sz(1) by simp
qed

end
