(* ===== verification/AmigaText.thy ===== *)
theory AmigaText
  imports Utf Time Mount
begin

text \<open>
  The support code of the AmigaOS handler in \<^verbatim>\<open>amiga/amigaos.c\<close>: formatted output, the conversion of names
  between UTF-8 and the 8-bit character set, date stamps and number parsing.  A \<^verbatim>\<open>long\<close> has 32 bits on that
  system, and its arithmetic wraps.
\<close>

section \<open>Formatted output\<close>

text \<open>\<open>sb_text\<close> is what was stored before \<^verbatim>\<open>sb.p\<close>.\<close>

record sbuf =
  sb_text :: string
  sb_left :: nat
  sb_count :: nat

definition sb_putc :: "sbuf \<Rightarrow> char \<Rightarrow> sbuf" where
  "sb_putc sb c =
     (let sb = sb\<lparr>sb_count := sb_count sb + 1\<rparr>
      in if 0 < sb_left sb then sb\<lparr>sb_text := sb_text sb @ [c], sb_left := sb_left sb - 1\<rparr> else sb)"

definition sb_puts :: "sbuf \<Rightarrow> string option \<Rightarrow> sbuf" where
  "sb_puts sb s = foldl sb_putc sb (case s of None \<Rightarrow> ''(null)'' | Some s \<Rightarrow> s)"

definition digit_char :: "bool \<Rightarrow> nat \<Rightarrow> char" where
  "digit_char upper d = (if upper then ''0123456789ABCDEF'' else ''0123456789abcdef'') ! d"

text \<open>The digits in \<^verbatim>\<open>tmp\<close>, the last one first; \<open>left\<close> is the room that is left in \<^verbatim>\<open>tmp\<close>.\<close>

primrec digits_loop :: "nat \<Rightarrow> u64 \<Rightarrow> u64 \<Rightarrow> bool \<Rightarrow> string" where
  "digits_loop 0 v base upper = []"
| "digits_loop (Suc left) v base upper =
     (if v = 0 then [] else digit_char upper (unat (v mod base)) # digits_loop left (v div base) base upper)"

definition sb_putu :: "sbuf \<Rightarrow> u64 \<Rightarrow> u64 \<Rightarrow> bool \<Rightarrow> int \<Rightarrow> char \<Rightarrow> sbuf" where
  "sb_putu sb v base upper width pad =
     (let tmp = (if v = 0 then ''0'' else digits_loop 24 v base upper);
          sb = foldl sb_putc sb (replicate (nat (width - int (length tmp))) pad)
      in foldl sb_putc sb (rev tmp))"

text \<open>\<open>v\<close> is a value of type \<^verbatim>\<open>int64_t\<close>; \<^verbatim>\<open>-(v + 1) + 1\<close> also has a place for the smallest one.\<close>

definition sb_putd :: "sbuf \<Rightarrow> int \<Rightarrow> int \<Rightarrow> char \<Rightarrow> sbuf" where
  "sb_putd sb v width pad =
     (if v < 0 then
        sb_putu (sb_putc sb CHR ''-'') (word_of_int (- (v + 1)) + 1) 10 False (if 0 < width then width - 1 else 0) pad
      else sb_putu sb (word_of_int v) 10 False width pad)"

text \<open>
  The variable arguments: a string, or the value that \<^verbatim>\<open>va_arg\<close> reads at the type the conversion asks for.
  An argument that is missing or of another kind has no result.
\<close>

datatype varg = VStr "string option" | VNum int

fun skip_flags :: "string \<Rightarrow> char \<Rightarrow> string \<times> char" where
  "skip_flags [] pad = ([], pad)"
| "skip_flags (c # fmt) pad =
     (if c \<in> {CHR ''-'', CHR ''+'', CHR '' '', CHR ''#'', CHR ''0''}
      then skip_flags fmt (if c = CHR ''0'' then CHR ''0'' else pad) else (c # fmt, pad))"

fun skip_width :: "string \<Rightarrow> int \<Rightarrow> string \<times> int" where
  "skip_width [] width = ([], width)"
| "skip_width (c # fmt) width =
     (if is_digit 10 c then skip_width fmt (width * 10 + (of_char c - 48)) else (c # fmt, width))"

definition skip_precision :: "string \<Rightarrow> string" where
  "skip_precision fmt =
     (case fmt of [] \<Rightarrow> [] | c # rest \<Rightarrow> if c = CHR ''.'' then dropWhile (is_digit 10) rest else fmt)"

fun skip_modifiers :: "string \<Rightarrow> nat \<Rightarrow> string \<times> nat" where
  "skip_modifiers [] longs = ([], longs)"
| "skip_modifiers (c # fmt) longs =
     (if c = CHR ''l'' then skip_modifiers fmt (longs + 1)
      else if c = CHR ''h'' then skip_modifiers fmt longs
      else if c = CHR ''z'' \<or> c = CHR ''j'' \<or> c = CHR ''t'' then skip_modifiers fmt (if c = CHR ''j'' then 2 else longs)
      else (c # fmt, longs))"

text \<open>One conversion: the character, the width, the padding and the size, and the arguments that are left.\<close>

definition convert :: "sbuf \<Rightarrow> char \<Rightarrow> int \<Rightarrow> char \<Rightarrow> nat \<Rightarrow> varg list \<Rightarrow> (sbuf \<times> varg list) option" where
  "convert sb c width pad longs ap =
     (if c = CHR ''s'' then
        (case ap of VStr s # ap \<Rightarrow> Some (sb_puts sb s, ap) | _ \<Rightarrow> None)
      else if c = CHR ''c'' then
        (case ap of VNum v # ap \<Rightarrow> Some (sb_putc sb (char_of (v mod 256)), ap) | _ \<Rightarrow> None)
      else if c = CHR ''d'' \<or> c = CHR ''i'' then
        (case ap of VNum v # ap \<Rightarrow> Some (sb_putd sb (if 2 \<le> longs then sint (word_of_int v :: u64) else c_int v) width pad, ap) | _ \<Rightarrow> None)
      else if c = CHR ''u'' then
        (case ap of VNum v # ap \<Rightarrow> Some (sb_putu sb (word_of_int (if 2 \<le> longs then v else v mod 2 ^ 32)) 10 False width pad, ap) | _ \<Rightarrow> None)
      else if c = CHR ''x'' \<or> c = CHR ''X'' then
        (case ap of VNum v # ap \<Rightarrow> Some (sb_putu sb (word_of_int (if 2 \<le> longs then v else v mod 2 ^ 32)) 16 (c = CHR ''X'') width pad, ap) | _ \<Rightarrow> None)
      else if c = CHR ''p'' then
        (case ap of VNum v # ap \<Rightarrow> Some (sb_putu (sb_puts sb (Some ''0x'')) (word_of_int (v mod 2 ^ 32)) 16 False 8 CHR ''0'', ap) | _ \<Rightarrow> None)
      else Some (sb_putc sb c, ap))"

text \<open>What is between the percent sign and the conversion character.\<close>

definition parse_spec :: "string \<Rightarrow> string \<times> int \<times> char \<times> nat" where
  "parse_spec fmt =
     (let (fmt, pad) = skip_flags fmt CHR '' '';
          (fmt, width) = skip_width fmt 0;
          (fmt, longs) = skip_modifiers (skip_precision fmt) 0
      in (fmt, width, pad, longs))"

lemma skip_flags_length: "length (fst (skip_flags fmt pad)) \<le> length fmt"
  by (induction fmt pad rule: skip_flags.induct) auto

lemma skip_width_length: "length (fst (skip_width fmt w)) \<le> length fmt"
  by (induction fmt w rule: skip_width.induct) auto

lemma skip_precision_length: "length (skip_precision fmt) \<le> length fmt"
  by (auto simp: skip_precision_def intro: le_SucI length_dropWhile_le split: list.split)

lemma skip_modifiers_length: "length (fst (skip_modifiers fmt l)) \<le> length fmt"
  by (induction fmt l rule: skip_modifiers.induct) auto

lemma parse_spec_length: "length (fst (parse_spec fmt)) \<le> length fmt"
  using skip_flags_length [of fmt "CHR '' ''"] skip_width_length [of "fst (skip_flags fmt CHR '' '')" 0]
    skip_precision_length [of "fst (skip_width (fst (skip_flags fmt CHR '' '')) 0)"]
    skip_modifiers_length [of "skip_precision (fst (skip_width (fst (skip_flags fmt CHR '' '')) 0))" 0]
  by (simp add: parse_spec_def Let_def case_prod_beta)

function format_loop :: "sbuf \<Rightarrow> string \<Rightarrow> varg list \<Rightarrow> sbuf option" where
  "format_loop sb [] ap = Some sb"
| "format_loop sb (c # fmt) ap =
     (if c \<noteq> CHR ''%'' then format_loop (sb_putc sb c) fmt ap
      else case parse_spec fmt of
        ([], width, pad, longs) \<Rightarrow> Some sb
      | (c # fmt, width, pad, longs) \<Rightarrow>
          do { (sb, ap) \<leftarrow> convert sb c width pad longs ap; format_loop sb fmt ap })"
  by pat_completeness auto
termination
proof (relation "measure (\<lambda>(sb, fmt, ap). length fmt)", goal_cases)
  case (3 sb c fmt ap x)
  then show ?case using parse_spec_length [of fmt] by (auto dest!: sym [of _ "parse_spec fmt"])
qed auto

text \<open>The text before the zero byte (none for a buffer of size 0), and the returned count.\<close>

definition exfat_amiga_vsnprintf :: "nat \<Rightarrow> string \<Rightarrow> varg list \<Rightarrow> (int \<times> string) option" where
  "exfat_amiga_vsnprintf sz fmt ap =
     do {
       sb \<leftarrow> format_loop \<lparr>sb_text = [], sb_left = sz - 1, sb_count = 0\<rparr> fmt ap;
       Some (c_int (int (sb_count sb)), sb_text sb)
     }"

section \<open>Numbers\<close>

text \<open>\<^verbatim>\<open>strtol\<close> of the handler; the end of the string is a zero byte.  The second component is where it stopped.\<close>

definition digit_value :: "char \<Rightarrow> int option" where
  "digit_value c =
     (let n = of_char c :: int
      in if 48 \<le> n \<and> n \<le> 57 then Some (n - 48)
         else if 97 \<le> n \<and> n \<le> 122 then Some (n - 97 + 10)
         else if 65 \<le> n \<and> n \<le> 90 then Some (n - 65 + 10)
         else None)"

fun strtol_loop :: "string \<Rightarrow> int \<Rightarrow> int \<Rightarrow> nat \<Rightarrow> int \<times> nat \<times> string" where
  "strtol_loop [] base val digits = (val, digits, [])"
| "strtol_loop (c # p) base val digits =
     (case digit_value c of
        None \<Rightarrow> (val, digits, c # p)
      | Some d \<Rightarrow> if base \<le> d then (val, digits, c # p) else strtol_loop p base (c_int (val * base + d)) (digits + 1))"

definition strtol_prefix :: "string \<Rightarrow> int \<Rightarrow> int \<times> string" where
  "strtol_prefix p base =
     (if (base = 0 \<or> base = 16) \<and> char_at p 0 = CHR ''0'' \<and> (char_at p 1 = CHR ''x'' \<or> char_at p 1 = CHR ''X'')
      then (16, drop 2 p)
      else if base = 0 \<and> char_at p 0 = CHR ''0'' then (8, drop 1 p)
      else if base = 0 then (10, p)
      else (base, p))"

definition amiga_strtol :: "string \<Rightarrow> int \<Rightarrow> int \<times> string" where
  "amiga_strtol nptr base =
     (let p = dropWhile (\<lambda>c. c \<in> {CHR '' '', CHR 0x09, CHR 0x0a, CHR 0x0d}) nptr;
          negative = (char_at p 0 = CHR ''-'');
          p = (if negative \<or> char_at p 0 = CHR ''+'' then drop 1 p else p);
          (base, p) = strtol_prefix p base;
          (val, digits, p) = strtol_loop p base 0 0
      in (if negative then c_int (- val) else val, if 0 < digits then p else nptr))"

section \<open>Names\<close>

text \<open>
  A C string is the list of its bytes before the zero byte.  A sequence that runs into the zero byte has no result:
  the loop would go on behind the end of the string.
\<close>

definition next_byte :: "u8 list \<Rightarrow> (u32 \<times> u8 list) option" where
  "next_byte s = (case s of [] \<Rightarrow> None | b # s \<Rightarrow> Some (ucast b AND 0x3f, s))"

definition utf8_next :: "u8 list \<Rightarrow> (u32 \<times> u8 list) option" where
  "utf8_next s =
     (case s of
        [] \<Rightarrow> None
      | b # p \<Rightarrow>
          let c = ucast b :: u32
          in if c < 0x80 then Some (c, p)
             else if c AND 0xe0 = 0xc0 then
               do { (x, p) \<leftarrow> next_byte p; Some (push_bit 6 (c AND 0x1f) OR x, p) }
             else if c AND 0xf0 = 0xe0 then
               do { (x, p) \<leftarrow> next_byte p; (y, p) \<leftarrow> next_byte p;
                    Some (push_bit 12 (c AND 0x0f) OR push_bit 6 x OR y, p) }
             else if c AND 0xf8 = 0xf0 then
               do { (x, p) \<leftarrow> next_byte p; (y, p) \<leftarrow> next_byte p; (z, p) \<leftarrow> next_byte p;
                    Some (push_bit 18 (c AND 0x07) OR push_bit 12 x OR push_bit 6 y OR z, p) }
             else Some (0x3f, p))"

lemma next_byte_length: "next_byte s = Some (x, p) \<Longrightarrow> length p < length s"
  by (auto simp: next_byte_def split: list.splits)

lemma utf8_next_length: "utf8_next s = Some (c, p) \<Longrightarrow> length p < length s"
  by (auto simp: utf8_next_def Let_def bind_eq_Some_conv dest!: next_byte_length split: list.splits if_splits)

function name_to_bstr_loop :: "u8 list \<Rightarrow> nat \<Rightarrow> u8 list option" where
  "name_to_bstr_loop utf8 left =
     (if utf8 \<noteq> [] \<and> 0 < left then
        (case utf8_next utf8 of
           None \<Rightarrow> None
         | Some (c, utf8) \<Rightarrow>
             do { bs \<leftarrow> name_to_bstr_loop utf8 (left - 1); Some ((if c < 0x100 then ucast c else 0x3f) # bs) })
      else Some [])"
  by pat_completeness auto
termination
  by (relation "measure (\<lambda>(utf8, left). length utf8)") (auto dest: utf8_next_length)

declare name_to_bstr_loop.simps [simp del]

text \<open>The length byte and the characters behind it.\<close>

definition exfat_amiga_name_to_bstr :: "u8 list \<Rightarrow> nat \<Rightarrow> u8 list option" where
  "exfat_amiga_name_to_bstr utf8 maxlen =
     do { bs \<leftarrow> name_to_bstr_loop utf8 maxlen; Some (of_nat (length bs) # bs) }"

text \<open>\<open>n\<close> bytes were written; the loop goes on while \<^verbatim>\<open>n < maxlen - 3\<close>.\<close>

definition latin1_utf8 :: "u8 \<Rightarrow> u8 list" where
  "latin1_utf8 c = (if c < 0x80 then [c] else [0xc0 OR drop_bit 6 c, 0x80 OR (c AND 0x3f)])"

fun to_utf8_loop :: "u8 list \<Rightarrow> nat \<Rightarrow> int \<Rightarrow> u8 list" where
  "to_utf8_loop [] n maxlen = []"
| "to_utf8_loop (c # src) n maxlen =
     (if int n < maxlen - 3 then latin1_utf8 c @ to_utf8_loop src (n + length (latin1_utf8 c)) maxlen else [])"

definition exfat_amiga_cstr_to_utf8 :: "u8 list \<Rightarrow> int \<Rightarrow> u8 list" where
  "exfat_amiga_cstr_to_utf8 src maxlen = to_utf8_loop src 0 maxlen"

text \<open>The result is the C string in the buffer: a zero byte of the BSTR ends it.  A missing byte has no result.\<close>

definition exfat_amiga_bstr_to_utf8 :: "u8 list \<Rightarrow> int \<Rightarrow> u8 list option" where
  "exfat_amiga_bstr_to_utf8 bstr maxlen =
     (case bstr of
        [] \<Rightarrow> None
      | len # bs \<Rightarrow>
          if length bs < unat len then None
          else Some (takeWhile (\<lambda>b. b \<noteq> 0) (to_utf8_loop (take (unat len) bs) 0 maxlen)))"

section \<open>Date stamps\<close>

record DateStamp =
  ds_Days :: int
  ds_Minute :: int
  ds_Tick :: int

definition SECS_PER_DAY :: int where "SECS_PER_DAY = 24 * 60 * 60"
definition DAYS_1970_TO_1978 :: int where "DAYS_1970_TO_1978 = 2922"
definition TICKS_PER_SECOND :: int where "TICKS_PER_SECOND = 50"

definition exfat_amiga_time_to_datestamp :: "time_t \<Rightarrow> DateStamp" where
  "exfat_amiga_time_to_datestamp t =
     (let secs = c_int t;
          secs = (if secs < 0 then 0 else secs);
          days = secs sdiv SECS_PER_DAY;
          secs = c_int (secs - days * SECS_PER_DAY);
          days = days - DAYS_1970_TO_1978;
          (days, secs) = (if days < 0 then (0, 0) else (days, secs))
      in \<lparr>ds_Days = days, ds_Minute = secs sdiv 60, ds_Tick = (secs smod 60) * TICKS_PER_SECOND\<rparr>)"

definition exfat_amiga_datestamp_to_time :: "DateStamp \<Rightarrow> time_t" where
  "exfat_amiga_datestamp_to_time ds =
     (let days = (if ds_Days ds < 0 then 0 else ds_Days ds);
          secs = c_int (c_int (ds_Minute ds * 60) + ds_Tick ds sdiv TICKS_PER_SECOND)
      in c_int (c_int (c_int (days + DAYS_1970_TO_1978) * SECS_PER_DAY) + secs))"

text \<open>The clock: \<open>stamp\<close> is what \<^verbatim>\<open>DateStamp\<close> stores, or the failure to open the library.\<close>

definition amiga_time :: "DateStamp option \<Rightarrow> time_t" where
  "amiga_time stamp =
     (case stamp of
        None \<Rightarrow> 0
      | Some ds \<Rightarrow> c_int (c_int (c_int (c_int (ds_Days ds + DAYS_1970_TO_1978) * SECS_PER_DAY) + c_int (ds_Minute ds * 60)) +
                      ds_Tick ds sdiv TICKS_PER_SECOND))"

end
