(* ===== verification/AmigaTextFacts.thy ===== *)
theory AmigaTextFacts
  imports AmigaText
begin

text \<open>
  What the support code guarantees: formatted output is a prefix of the full text, numbers print and parse, names in
  the 8-bit character set and date stamps survive the way through the library.
\<close>

section \<open>Formatted output\<close>

definition put_text :: "sbuf \<Rightarrow> string \<Rightarrow> sbuf" where
  "put_text sb t = sb\<lparr>sb_text := sb_text sb @ take (sb_left sb) t, sb_left := sb_left sb - length t, sb_count := sb_count sb + length t\<rparr>"

lemma put_text_Nil [simp]: "put_text sb [] = sb"
  by (simp add: put_text_def)

lemma put_text_append [simp]: "put_text (put_text sb s) t = put_text sb (s @ t)"
  by (simp add: put_text_def)

lemma putc_text [simp]: "sb_putc sb c = put_text sb [c]"
  by (auto simp: sb_putc_def put_text_def Let_def take_Cons split: nat.split)

lemma foldl_putc [simp]: "foldl sb_putc sb s = put_text sb s"
  by (induction s arbitrary: sb) auto

text \<open>The digits of a number, in the usual way.\<close>

function (sequential) number_text :: "bool \<Rightarrow> nat \<Rightarrow> nat \<Rightarrow> string" where
  "number_text upper base n =
     (if base < 2 \<or> n < base then [digit_char upper n] else number_text upper base (n div base) @ [digit_char upper (n mod base)])"
  by pat_completeness auto
termination
  by (relation "measure (\<lambda>(upper, base, n). n)") auto

declare number_text.simps [simp del]

definition padded :: "int \<Rightarrow> char \<Rightarrow> string \<Rightarrow> string" where
  "padded width pad t = replicate (nat (width - int (length t))) pad @ t"

lemma digits_loop_text:
  assumes "2 \<le> unat base" "v \<noteq> 0" "unat v < unat base ^ k"
  shows "rev (digits_loop k v base upper) = number_text upper (unat base) (unat v)"
  using assms(2,3)
proof (induction k arbitrary: v)
  case (Suc k)
  show ?case
  proof (cases "unat v < unat base")
    case True
    then have "v div base = 0" "v mod base = v" by (simp_all add: word_unat_eq_iff unat_div unat_mod)
    moreover have "digits_loop k 0 base upper = []" by (cases k) simp_all
    ultimately show ?thesis using True Suc.prems(1) by (subst number_text.simps) simp
  next
    case False
    then have "0 < unat v div unat base" using assms(1) by (simp add: div_greater_zero_iff)
    then have ne: "v div base \<noteq> 0" by (auto simp: word_unat_eq_iff unat_div)
    have "unat (v div base) < unat base ^ k" using Suc.prems(2) by (simp add: unat_div less_mult_imp_div_less mult.commute)
    from Suc.IH [OF ne this] show ?thesis
      using False assms(1) Suc.prems(1) by (subst number_text.simps) (simp add: unat_div unat_mod)
  qed
next
  case 0
  then show ?case using unat_eq_zero [of v] by simp
qed

lemma putu_text:
  assumes "10 \<le> unat base"
  shows "sb_putu sb v base upper width pad = put_text sb (padded width pad (number_text upper (unat base) (unat v)))"
proof -
  let ?tmp = "if v = 0 then ''0'' else digits_loop 24 v base upper"
  have "(2 :: nat) ^ 64 < 10 ^ 24" by simp
  also have "\<dots> \<le> unat base ^ 24" using assms by (intro power_mono) simp_all
  finally have "unat v < unat base ^ 24" using unsigned_less [of v, where 'a = nat] by simp
  then have t: "rev ?tmp = number_text upper (unat base) (unat v)"
    using digits_loop_text [of base v 24 upper] assms by (cases "v = 0") (auto simp: number_text.simps [of _ _ 0] digit_char_def)
  have "length ?tmp = length (rev ?tmp)" by simp
  then show ?thesis unfolding sb_putu_def padded_def by (simp only: Let_def foldl_putc put_text_append t)
qed

definition int_text :: "int \<Rightarrow> int \<Rightarrow> char \<Rightarrow> string" where
  "int_text v width pad =
     (if v < 0 then ''-'' @ padded (if 0 < width then width - 1 else 0) pad (number_text False 10 (nat (- v)))
      else padded width pad (number_text False 10 (nat v)))"

lemma putd_text:
  assumes "- (2 ^ 63) \<le> v" "v < 2 ^ 63"
  shows "sb_putd sb v width pad = put_text sb (int_text v width pad)"
proof -
  have u: "unat (word_of_int x :: u64) = nat x" if "0 \<le> x" "x < 2 ^ 64" for x using that by (simp add: unat_eq_nat_uint uint_word_of_int)
  show ?thesis
  proof (cases "v < 0")
    case True
    have "word_of_int (- (v + 1)) + 1 = (word_of_int (- v) :: u64)" by simp
    then show ?thesis using True assms u [of "- v"] by (simp add: sb_putd_def putu_text int_text_def)
  next
    case False
    then show ?thesis using assms u [of v] by (simp add: sb_putd_def putu_text int_text_def)
  qed
qed

text \<open>The text of a conversion and of a whole format, whatever the size of the buffer.\<close>

definition conversion_text :: "char \<Rightarrow> int \<Rightarrow> char \<Rightarrow> nat \<Rightarrow> varg list \<Rightarrow> (string \<times> varg list) option" where
  "conversion_text c width pad longs ap =
     (if c \<in> {CHR ''s'', CHR ''c'', CHR ''d'', CHR ''i'', CHR ''u'', CHR ''x'', CHR ''X'', CHR ''p''} then
        (case ap of
           [] \<Rightarrow> None
         | VStr s # ap \<Rightarrow> if c = CHR ''s'' then Some (case s of None \<Rightarrow> ''(null)'' | Some s \<Rightarrow> s, ap) else None
         | VNum v # ap \<Rightarrow>
             let u = nat (if 2 \<le> longs then v mod 2 ^ 64 else v mod 2 ^ 32)
             in if c = CHR ''s'' then None
                else if c = CHR ''c'' then Some ([char_of (v mod 256)], ap)
                else if c = CHR ''d'' \<or> c = CHR ''i'' then
                  Some (int_text (if 2 \<le> longs then sint (word_of_int v :: u64) else c_int v) width pad, ap)
                else if c = CHR ''u'' then Some (padded width pad (number_text False 10 u), ap)
                else if c = CHR ''p'' then Some (''0x'' @ padded 8 CHR ''0'' (number_text False 16 (nat (v mod 2 ^ 32))), ap)
                else Some (padded width pad (number_text (c = CHR ''X'') 16 u), ap))
      else Some ([c], ap))"

function render :: "string \<Rightarrow> varg list \<Rightarrow> string option" where
  "render [] ap = Some []"
| "render (c # fmt) ap =
     (if c \<noteq> CHR ''%'' then map_option ((#) c) (render fmt ap)
      else case parse_spec fmt of
        ([], width, pad, longs) \<Rightarrow> Some []
      | (c # fmt, width, pad, longs) \<Rightarrow>
          do { (t, ap) \<leftarrow> conversion_text c width pad longs ap; u \<leftarrow> render fmt ap; Some (t @ u) })"
  by pat_completeness auto
termination
proof (relation "measure (\<lambda>(fmt, ap). length fmt)", goal_cases)
  case (3 c fmt ap x)
  then show ?case using parse_spec_length [of fmt] by (auto dest!: sym [of _ "parse_spec fmt"])
qed auto

lemma c_int_range: "- (2 ^ 31) \<le> c_int x \<and> c_int x < 2 ^ 31"
  using sint_ge [of "word_of_int x :: u32"] sint_lt [of "word_of_int x :: u32"] by (simp add: c_int_def)

lemma convert_text:
  "convert sb c width pad longs ap = map_option (\<lambda>(t, ap). (put_text sb t, ap)) (conversion_text c width pad longs ap)"
proof -
  have u: "unat (word_of_int (v mod 2 ^ 32) :: u64) = nat (v mod 2 ^ 32)" "unat (word_of_int v :: u64) = nat (v mod 2 ^ 64)" for v
    by (simp_all add: unat_eq_nat_uint uint_word_of_int)
  have d: "sb_putd sb (c_int v) width pad = put_text sb (int_text (c_int v) width pad)" for v
    using c_int_range [of v] by (intro putd_text) simp_all
  have l: "sb_putd sb (sint w) width pad = put_text sb (int_text (sint w) width pad)" for w :: u64
    using sint_ge [of w] sint_lt [of w] by (intro putd_text) simp_all
  show ?thesis
    by (cases ap rule: list.exhaust; cases "hd ap")
      (auto simp: convert_def conversion_text_def sb_puts_def putu_text u d l Let_def split: option.split)
qed

lemma format_text: "format_loop sb fmt ap = map_option (put_text sb) (render fmt ap)"
proof (induction sb fmt ap rule: format_loop.induct)
  case (2 sb c fmt ap)
  show ?case
  proof (cases "c = CHR ''%''")
    case True
    obtain fmt' width pad longs where p: "parse_spec fmt = (fmt', width, pad, longs)" by (metis prod_cases4)
    show ?thesis
    proof (cases fmt')
      case (Cons c' rest)
      show ?thesis
      proof (cases "conversion_text c' width pad longs ap")
        case None
        then show ?thesis using True p Cons by (simp add: convert_text)
      next
        case (Some r)
        obtain t ap' where r: "r = (t, ap')" by fastforce
        have "format_loop (put_text sb t) rest ap' = map_option (put_text (put_text sb t)) (render rest ap')"
          using "2.IH"(2) [OF _ p [symmetric] Cons refl refl] True Some r by (simp add: convert_text)
        then show ?thesis using True p Cons Some r by (cases "render rest ap'") (simp_all add: convert_text)
      qed
    qed (use True p in simp)
  next
    case False
    then show ?thesis using "2.IH"(1) by (cases "render fmt ap") simp_all
  qed
qed simp

section \<open>Parsing numbers\<close>

lemma digit_value_char: "d < 10 \<Longrightarrow> digit_value (digit_char False d) = Some (int d)"
proof -
  assume "d < 10"
  then have "d \<in> {0, 1, 2, 3, 4, 5, 6, 7, 8, 9}" by auto
  then show ?thesis by (elim insertE emptyE) (simp_all add: digit_char_def digit_value_def)
qed

lemma strtol_loop_number:
  "n < 2 ^ 31 \<Longrightarrow> strtol_loop (number_text False 10 n @ rest) 10 0 m = strtol_loop rest 10 (int n) (m + length (number_text False 10 n))"
proof (induction n arbitrary: rest rule: less_induct)
  case (less n)
  show ?case
  proof (cases "n < 10")
    case True
    then show ?thesis using c_int_id [of "int n"] less.prems by (subst (1 2) number_text.simps) (simp add: digit_value_char)
  next
    case False
    have "int (n div 10) * 10 + int (n mod 10) = int n" by (simp add: zdiv_int zmod_int)
    then have "c_int (int (n div 10) * 10 + int (n mod 10)) = int n" using c_int_id [of "int n"] less.prems by simp
    moreover have "strtol_loop (digit_char False (n mod 10) # rest) 10 (int (n div 10)) k =
        strtol_loop rest 10 (c_int (int (n div 10) * 10 + int (n mod 10))) (k + 1)" for k
      using digit_value_char [of "n mod 10"] mod_less_divisor [of 10 n] by (simp del: mod_less_divisor)
    moreover have "number_text False 10 n = number_text False 10 (n div 10) @ [digit_char False (n mod 10)]"
      using False by (subst number_text.simps) simp
    ultimately show ?thesis
      using less.IH [of "n div 10" "digit_char False (n mod 10) # rest"] less.prems False
      by (simp add: less_le_trans [of "n div 10" n] del: strtol_loop.simps of_nat_mod of_nat_div)
  qed
qed

lemma number_text_head:
  "\<exists>d t. number_text False 10 n = digit_char False d # t \<and> d < 10"
proof (induction n rule: less_induct)
  case (less n)
  show ?case
  proof (cases "n < 10")
    case False
    then obtain d t where "number_text False 10 (n div 10) = digit_char False d # t" "d < 10" using less.IH [of "n div 10"] by auto
    then show ?thesis using False by (subst number_text.simps) auto
  qed (subst number_text.simps, auto)
qed

lemma digit_char_plain:
  "d < 10 \<Longrightarrow> digit_char False d \<notin> {CHR '' '', CHR 0x09, CHR 0x0a, CHR 0x0d, CHR ''-'', CHR ''+''}"
proof -
  assume "d < 10"
  then have "d \<in> {0, 1, 2, 3, 4, 5, 6, 7, 8, 9}" by auto
  then show ?thesis by (elim insertE emptyE) (simp_all add: digit_char_def)
qed

lemma int_text_parse:
  assumes "- (2 ^ 31) < v" "v < 2 ^ 31"
  shows "amiga_strtol (int_text v 0 pad) 10 = (v, [])"
proof (cases "v < 0")
  case True
  obtain d t where h: "number_text False 10 (nat (- v)) = digit_char False d # t" using number_text_head by blast
  have "strtol_loop (number_text False 10 (nat (- v))) 10 0 0 = (- v, length (number_text False 10 (nat (- v))), [])"
    using strtol_loop_number [of "nat (- v)" "[]" 0] assms True by simp
  then show ?thesis
    using True h c_int_id [of v] assms by (simp add: int_text_def padded_def amiga_strtol_def char_at_def strtol_prefix_def)
next
  case False
  obtain d t where h: "number_text False 10 (nat v) = digit_char False d # t" "d < 10" using number_text_head by blast
  have "strtol_loop (number_text False 10 (nat v)) 10 0 0 = (v, length (number_text False 10 (nat v)), [])"
    using strtol_loop_number [of "nat v" "[]" 0] assms False by simp
  then show ?thesis
    using False h digit_char_plain [OF h(2)] assms by (simp add: int_text_def padded_def amiga_strtol_def char_at_def strtol_prefix_def)
qed

lemma number_text_length: "0 < k \<Longrightarrow> n < 10 ^ k \<Longrightarrow> length (number_text False 10 n) \<le> k"
proof (induction k arbitrary: n)
  case (Suc k)
  show ?case
  proof (cases "n < 10")
    case False
    then have "0 < k" using Suc.prems by (cases k) simp_all
    moreover have "n div 10 < 10 ^ k" using Suc.prems(2) by (intro less_mult_imp_div_less) (simp add: mult.commute)
    ultimately show ?thesis using False Suc.IH [of "n div 10"] by (subst number_text.simps) simp
  qed (subst number_text.simps, simp)
qed simp

lemma int_text_length: "- (2 ^ 31) < v \<Longrightarrow> v < 2 ^ 31 \<Longrightarrow> length (int_text v 0 pad) \<le> 11"
proof -
  assume "- (2 ^ 31) < v" "v < 2 ^ 31"
  then have "nat v < 10 ^ 10" "nat (- v) < 10 ^ 10" by simp_all
  then have "length (number_text False 10 (nat v)) \<le> 10" "length (number_text False 10 (nat (- v))) \<le> 10"
    by (simp_all only: number_text_length zero_less_numeral)
  then show ?thesis by (simp add: int_text_def padded_def)
qed

section \<open>Names\<close>

lemma masks_u8: "(0xc0 :: u8) = push_bit 6 (mask 2)" "(0x80 :: u8) = push_bit 7 (mask 1)" "(0x3f :: u8) = mask 6"
  by (simp_all add: mask_eq_exp_minus_1)

lemma unsigned_numeral_u8: "(ucast (0x3f :: u8) :: u32) = 0x3f"
  by simp

lemma latin1_next:
  "utf8_next (latin1_utf8 c @ s) = Some (ucast c, s)"
proof (cases "c < 0x80")
  case True
  then have "(ucast c :: u32) < 0x80" by (simp add: word_less_nat_alt unsigned_ucast_eq take_bit_nat_eq_self)
  then show ?thesis using True by (simp add: latin1_utf8_def utf8_next_def)
next
  case False
  let ?a = "ucast (0xc0 OR drop_bit 6 c :: u8) :: u32" and ?b = "ucast (0x80 OR (c AND 0x3f) :: u8) :: u32"
  have tag: "?a AND 0xe0 = 0xc0"
    unfolding masks_u32 masks_u8 by (rule bit_word_eqI) (auto simp: bit_simps dest: bit_imp_le_length)
  have "?a AND 0xe0 \<le> ?a" by (rule word_and_le2)
  then have big: "\<not> ?a < 0x80" unfolding tag by (simp add: not_less order_trans [of "0x80" "0xc0"])
  have "(0x80 OR (c AND 0x3f)) AND 0x3f = c AND 0x3f" by (rule u8_eqI) (auto simp: bit_simps)
  then have "?b AND 0x3f = ucast (c AND 0x3f)" by (metis unsigned_and_eq unsigned_numeral_u8)
  then have low: "?b AND 0x3f = ucast (c AND mask 6)" by (simp only: mask_3f)
  have high: "?a AND 0x1f = ucast (drop_bit 6 c)"
    unfolding masks_u32 masks_u8 by (rule bit_word_eqI) (auto simp: bit_simps dest: bit_imp_le_length)
  have "push_bit 6 (ucast (drop_bit 6 c)) OR ucast (c AND mask 6) = (ucast c :: u32)"
    by (rule bit_word_eqI) (auto simp: bit_simps dest: bit_imp_le_length)
  then have "push_bit 6 (?a AND 0x1f) OR (?b AND 0x3f) = ucast c" unfolding low high .
  then show ?thesis using False tag big by (simp add: latin1_utf8_def utf8_next_def next_byte_def Let_def)
qed

lemma to_utf8_all:
  "int n + 2 * int (length bs) + 2 \<le> maxlen \<Longrightarrow> to_utf8_loop bs n maxlen = concat (map latin1_utf8 bs)"
proof (induction bs arbitrary: n)
  case (Cons c bs)
  have "length (latin1_utf8 c) \<le> 2" by (simp add: latin1_utf8_def)
  then show ?case using Cons by simp
qed simp

lemma latin1_nonzero: "c \<noteq> 0 \<Longrightarrow> 0 \<notin> set (latin1_utf8 c)"
proof -
  assume "c \<noteq> 0"
  moreover have "0xc0 OR drop_bit 6 c \<noteq> 0" "0x80 OR (c AND 0x3f) \<noteq> 0" by (auto simp: or_eq_0_iff)
  ultimately show ?thesis by (auto simp: latin1_utf8_def)
qed

lemma name_to_bstr_latin1:
  "length bs \<le> left \<Longrightarrow> name_to_bstr_loop (concat (map latin1_utf8 bs)) left = Some bs"
proof (induction bs arbitrary: left)
  case (Cons c bs)
  have "(ucast c :: u32) < 0x100" by (simp add: word_less_nat_alt unsigned_ucast_eq take_bit_nat_eq_self unsigned_less [of c, where 'a = nat, simplified] less_trans [OF unsigned_less [of c, where 'a = nat, simplified]])
  moreover have "ucast (ucast c :: u32) = c" by (rule bit_word_eqI) (auto simp: bit_simps)
  moreover have "latin1_utf8 c \<noteq> []" by (simp add: latin1_utf8_def)
  ultimately show ?case using Cons by (subst name_to_bstr_loop.simps) (simp add: latin1_next)
qed (simp add: name_to_bstr_loop.simps)

section \<open>Date stamps\<close>

lemma sdiv_nonneg: "0 \<le> a \<Longrightarrow> 0 < b \<Longrightarrow> a sdiv b = a div b \<and> a smod b = a mod b" for a b :: int
  by (simp add: signed_divide_int_def signed_modulo_int_def sgn_if)

lemma to_datestamp:
  assumes "DAYS_1970_TO_1978 * SECS_PER_DAY \<le> t" "t < 2 ^ 31"
  shows "exfat_amiga_time_to_datestamp t =
    \<lparr>ds_Days = t div SECS_PER_DAY - DAYS_1970_TO_1978, ds_Minute = t mod SECS_PER_DAY div 60, ds_Tick = t mod 60 * TICKS_PER_SECOND\<rparr>"
proof -
  have t: "0 \<le> t" "c_int t = t" using assms c_int_id [of t] by (simp_all add: DAYS_1970_TO_1978_def SECS_PER_DAY_def)
  have m: "t - t div SECS_PER_DAY * SECS_PER_DAY = t mod SECS_PER_DAY" by (simp add: minus_div_mult_eq_mod)
  have pos: "0 < SECS_PER_DAY" by (simp add: SECS_PER_DAY_def)
  have b: "0 \<le> t mod SECS_PER_DAY" "t mod SECS_PER_DAY < SECS_PER_DAY" by (simp_all add: SECS_PER_DAY_def)
  have c: "c_int (t mod SECS_PER_DAY) = t mod SECS_PER_DAY" using b by (intro c_int_id) (simp_all add: SECS_PER_DAY_def)
  have "2922 \<le> t div SECS_PER_DAY" using zdiv_mono1 [OF assms(1), of SECS_PER_DAY] by (simp add: DAYS_1970_TO_1978_def SECS_PER_DAY_def)
  moreover have "t mod SECS_PER_DAY mod 60 = t mod 60" by (simp add: SECS_PER_DAY_def mod_mod_cancel)
  ultimately show ?thesis
    using t(1) b(1) sdiv_nonneg [of t SECS_PER_DAY] sdiv_nonneg [of "t mod SECS_PER_DAY" 60] pos
    by (simp add: exfat_amiga_time_to_datestamp_def Let_def t(2) m c DAYS_1970_TO_1978_def)
qed

section \<open>Properties\<close>

text \<open>
  formatted output.  Whatever the size of the buffer, \<^verbatim>\<open>exfat_amiga_vsnprintf\<close> stores the longest prefix of the full
  text that leaves room for the terminating zero, and returns the length of the full text; numbers appear in the
  usual positional notation of their base.
\<close>

theorem vsnprintf_correct:
  "exfat_amiga_vsnprintf sz fmt ap = map_option (\<lambda>t. (c_int (int (length t)), take (sz - 1) t)) (render fmt ap)"
  by (cases "render fmt ap") (simp_all add: exfat_amiga_vsnprintf_def format_text put_text_def)

text \<open>a number that is printed with \<^verbatim>\<open>%ld\<close> is read back by the number parser, up to the end of the text.\<close>

theorem print_then_parse:
  assumes "- (2 ^ 31) < v" "v < 2 ^ 31" "12 \<le> sz"
  shows "\<exists>n t. exfat_amiga_vsnprintf sz ''%ld'' [VNum v] = Some (n, t) \<and> amiga_strtol t 10 = (v, [])"
proof -
  have "render ''%ld'' [VNum v] = Some (int_text v 0 CHR '' '')"
    using c_int_id [of v] assms by (simp add: parse_spec_def skip_precision_def is_digit_def conversion_text_def)
  moreover have "length (int_text v 0 CHR '' '') \<le> sz - 1" using int_text_length [OF assms(1,2), of "CHR '' ''"] assms(3) by linarith
  ultimately show ?thesis using int_text_parse [OF assms(1,2)] by (simp add: exfat_amiga_vsnprintf_def format_text put_text_def)
qed

text \<open>
  C40: a name in the 8-bit character set survives the way into the library and back: converted to UTF-8, as for a lookup,
  and then to a BSTR, as for an examine, it is the same name, if it has no zero byte and the buffers have room for it.
\<close>

theorem amiga_name_roundtrip:
  assumes "length bs \<le> 255" "0 \<notin> set bs" "2 * int (length bs) + 2 \<le> maxlen" "length bs \<le> maxname"
  shows "Option.bind (exfat_amiga_bstr_to_utf8 (of_nat (length bs) # bs) maxlen) (\<lambda>u. exfat_amiga_name_to_bstr u maxname) =
    Some (of_nat (length bs) # bs)"
proof -
  have l: "unat (of_nat (length bs) :: u8) = length bs" using assms(1) by (simp add: unat_of_nat)
  have "0 \<notin> set (concat (map latin1_utf8 bs))" 
  proof
    assume "0 \<in> set (concat (map latin1_utf8 bs))"
    then obtain c where "c \<in> set bs" "0 \<in> set (latin1_utf8 c)" by auto
    then show False using latin1_nonzero [of c] assms(2) by (cases "c = 0") auto
  qed
  then have tw: "takeWhile (\<lambda>b. b \<noteq> 0) (concat (map latin1_utf8 bs)) = concat (map latin1_utf8 bs)" by (auto simp: takeWhile_eq_all_conv)
  have "exfat_amiga_bstr_to_utf8 (of_nat (length bs) # bs) maxlen = Some (concat (map latin1_utf8 bs))"
    unfolding exfat_amiga_bstr_to_utf8_def using to_utf8_all [of 0 bs maxlen] assms(3) tw by (simp add: l)
  then show ?thesis using name_to_bstr_latin1 [OF assms(4)] by (simp add: exfat_amiga_name_to_bstr_def)
qed

text \<open>
  times survive the way through a date stamp, in the range that both can express: from 1978 until a 32-bit time
  overflows in 2038.
\<close>

theorem datestamp_roundtrip:
  assumes "DAYS_1970_TO_1978 * SECS_PER_DAY \<le> t" "t < 2 ^ 31"
  shows "exfat_amiga_datestamp_to_time (exfat_amiga_time_to_datestamp t) = t"
proof -
  define D where "D = t div SECS_PER_DAY"
  define S where "S = t mod SECS_PER_DAY"
  have S: "0 \<le> S" "S < SECS_PER_DAY" "t = D * SECS_PER_DAY + S" by (simp_all add: D_def S_def SECS_PER_DAY_def)
  have "2922 \<le> D" using zdiv_mono1 [OF assms(1), of SECS_PER_DAY] by (simp add: D_def DAYS_1970_TO_1978_def SECS_PER_DAY_def)
  moreover have "D * SECS_PER_DAY \<le> t" using S(1,3) by linarith
  ultimately have D: "2922 \<le> D" "D * SECS_PER_DAY \<le> t" by simp_all
  have "D < 2 ^ 31" using D assms(2) by (simp add: SECS_PER_DAY_def)
  then have c: "c_int D = D" "c_int (D * SECS_PER_DAY) = D * SECS_PER_DAY" "c_int (D * SECS_PER_DAY + S) = t"
    using D assms(2) unfolding S(3) [symmetric] by (simp_all add: c_int_id SECS_PER_DAY_def)
  have "t mod 60 = S mod 60" by (simp add: S_def SECS_PER_DAY_def mod_mod_cancel)
  then have s: "S div 60 * 60 + t mod 60 = S" by simp
  have "0 \<le> S div 60 * 60" "S div 60 * 60 \<le> S" "0 \<le> t mod 60" using S(1) by (simp_all add: pos_imp_zdiv_nonneg_iff)
  then have k: "c_int (S div 60 * 60) = S div 60 * 60" "c_int S = S"
    using S(2) by (simp_all add: c_int_id SECS_PER_DAY_def)
  have "(t mod 60 * TICKS_PER_SECOND) sdiv TICKS_PER_SECOND = t mod 60"
    using sdiv_nonneg [of "t mod 60 * TICKS_PER_SECOND" TICKS_PER_SECOND] by (simp add: TICKS_PER_SECOND_def)
  moreover have "exfat_amiga_time_to_datestamp t =
      \<lparr>ds_Days = D - DAYS_1970_TO_1978, ds_Minute = S div 60, ds_Tick = t mod 60 * TICKS_PER_SECOND\<rparr>"
    by (simp add: to_datestamp [OF assms] D_def S_def)
  ultimately show ?thesis
    using D(1) by (simp add: exfat_amiga_datestamp_to_time_def DAYS_1970_TO_1978_def Let_def k(1) s k(2) c)
qed

end
