(* ===== verification/SampleAmiga.thy ===== *)
theory SampleAmiga
  imports AmigaTextFacts
begin

text \<open>Concrete inputs for the properties of the AmigaOS conversions.\<close>

theorem print_then_parse_witness:
  "- (2 ^ 31) < (- 70512 :: int) \<and>
   (\<exists>n t. exfat_amiga_vsnprintf 32 ''%ld'' [VNum (- 70512)] = Some (n, t) \<and> amiga_strtol t 10 = (- 70512, []))"
  using print_then_parse [of "- 70512" 32] by simp

text \<open>A name of two letters, one of them outside ASCII.\<close>

theorem amiga_name_witness:
  "length [0xe4 :: u8, 0x62] \<le> 255 \<and>
   Option.bind (exfat_amiga_bstr_to_utf8 (of_nat (length [0xe4 :: u8, 0x62]) # [0xe4, 0x62]) 1024) (\<lambda>u. exfat_amiga_name_to_bstr u 106) =
     Some (of_nat (length [0xe4 :: u8, 0x62]) # [0xe4, 0x62])"
  using amiga_name_roundtrip [of "[0xe4, 0x62]" 1024 106] by simp

text \<open>A second in 2023.\<close>

theorem datestamp_witness:
  "DAYS_1970_TO_1978 * SECS_PER_DAY \<le> (1700000000 :: int) \<and>
   exfat_amiga_datestamp_to_time (exfat_amiga_time_to_datestamp 1700000000) = 1700000000"
  using datestamp_roundtrip [of 1700000000] by (simp add: DAYS_1970_TO_1978_def SECS_PER_DAY_def)

end
