(* ===== verification/Small.thy ===== *)
theory Small
  imports Prelude Mount
begin

text \<open>
  The run-time support of the AmigaOS build, \<^verbatim>\<open>amiga/small.c\<close>: 64-bit division in software and \<^verbatim>\<open>strstr\<close>,
  compared with the operations that the other theories use in their place.
\<close>

section \<open>Division\<close>

text \<open>\<^verbatim>\<open>while ((d >> shift) != 1) shift++\<close>; a shift by 64 places or more is undefined.\<close>

function shift_loop :: "u64 \<Rightarrow> nat \<Rightarrow> nat option" where
  "shift_loop d shift =
     (if 64 \<le> shift then None
      else if drop_bit shift d \<noteq> 1 then shift_loop d (shift + 1)
      else Some shift)"
  by pat_completeness auto
termination
  by (relation "measure (\<lambda>(d, shift). 64 - shift)") auto

declare shift_loop.simps [simp del]

text \<open>\<open>div_loop i\<close> is the rest of the loop in which the bits below \<open>i\<close> are still to be done.\<close>

primrec div_loop :: "nat \<Rightarrow> u64 \<Rightarrow> u64 \<Rightarrow> u64 \<Rightarrow> u64 \<Rightarrow> u64 \<times> u64" where
  "div_loop 0 n d q r = (q, r)"
| "div_loop (Suc i) n d q r =
     (let r = push_bit 1 r OR (drop_bit i n AND 1)
      in if d \<le> r then div_loop i n d (q OR push_bit i 1) (r - d) else div_loop i n d q r)"

definition exfat_small_udivmod64 :: "u64 \<Rightarrow> u64 \<Rightarrow> (u64 \<times> u64) option" where
  "exfat_small_udivmod64 n d =
     (if d = 0 then Some (0, 0)
      else if d AND (d - 1) = 0 then
        do {
          shift \<leftarrow> shift_loop d 0;
          Some (drop_bit shift n, n AND (d - 1))
        }
      else if drop_bit 32 n = 0 \<and> drop_bit 32 d = 0 then
        (let a = ucast n :: u32; b = ucast d :: u32 in Some (ucast (a div b), ucast (a mod b)))
      else Some (div_loop 64 n d 0 0))"

definition udivdi3 :: "u64 \<Rightarrow> u64 \<Rightarrow> u64 option" where
  "udivdi3 n d = do { (q, r) \<leftarrow> exfat_small_udivmod64 n d; Some q }"

definition umoddi3 :: "u64 \<Rightarrow> u64 \<Rightarrow> u64 option" where
  "umoddi3 n d = do { (q, r) \<leftarrow> exfat_small_udivmod64 n d; Some r }"

text \<open>The signed division: negating the smallest value is undefined.\<close>

definition divdi3 :: "int \<Rightarrow> int \<Rightarrow> int option" where
  "divdi3 n d =
     (if n = - (2 ^ 63) \<or> d = - (2 ^ 63) then None
      else do {
        (q, r) \<leftarrow> exfat_small_udivmod64 (word_of_int \<bar>n\<bar>) (word_of_int \<bar>d\<bar>);
        Some (if (n < 0) \<noteq> (d < 0) then - uint q else uint q)
      })"

section \<open>Searching\<close>

text \<open>\<open>strstr\<close> returns the offset of what it found; the strings end before their zero byte.\<close>

fun strstr_loop :: "string \<Rightarrow> string \<Rightarrow> nat \<Rightarrow> nat option" where
  "strstr_loop [] needle p = None"
| "strstr_loop (c # haystack) needle p =
     (if take (length needle) (c # haystack) = needle then Some p else strstr_loop haystack needle (p + 1))"

definition strstr :: "string \<Rightarrow> string \<Rightarrow> nat option" where
  "strstr haystack needle = (if needle = [] then Some 0 else strstr_loop haystack needle 0)"

section \<open>Facts\<close>

lemma u64_less: "unat w < 2 ^ 64" for w :: u64
  using unsigned_less [of w, where 'a = nat] by simp

lemma u64_add: "unat a + unat b < 2 ^ 64 \<Longrightarrow> unat (a + b) = unat a + unat b" for a b :: u64
  using unat_add_lem [of a b] by simp

lemma unat_drop_bit: "unat (drop_bit k w) = unat w div 2 ^ k" for w :: u64
  by (subst unsigned_drop_bit_eq) (simp add: drop_bit_eq_div take_bit_nat_eq_self u64_less [simplified])

lemma unat_bit: "k < 64 \<Longrightarrow> unat (push_bit k 1 :: u64) = 2 ^ k"
  by (subst unsigned_push_bit_eq) (simp add: push_bit_eq_mult take_bit_nat_eq_self power_strict_increasing [of k 64 "2 :: nat", simplified])

lemma bit_top: "2 ^ k \<le> unat w \<Longrightarrow> unat w < 2 ^ Suc k \<Longrightarrow> bit w k" for w :: u64
proof -
  assume w: "2 ^ k \<le> unat w" "unat w < 2 ^ Suc k"
  have "1 \<le> unat w div 2 ^ k" using div_le_mono [OF w(1), of "2 ^ k"] by simp
  moreover have "unat w div 2 ^ k < 2" using w(2) by (intro less_mult_imp_div_less) simp
  ultimately have "unat w div 2 ^ k = 1" by linarith
  then have "bit (unat w) k" by (simp add: bit_iff_odd)
  then show ?thesis by (simp add: bit_unsigned_iff)
qed

lemma power_of_two:
  fixes d :: u64
  assumes "d \<noteq> 0" "d AND (d - 1) = 0"
  obtains k where "k < 64" "unat d = 2 ^ k"
proof -
  have "1 \<le> unat d" using assms(1) by (simp add: Suc_le_eq unat_gt_0)
  then obtain k where k: "2 ^ k \<le> unat d" "unat d < 2 ^ Suc k" using ex_power_ivl1 [of 2 "unat d"] by auto
  have "unat (d - 1) = unat d - 1" using assms(1) by (rule unat_minus_one)
  moreover have "\<not> (bit d k \<and> bit (d - 1) k)" using assms(2) by (metis bit_and_iff bit_0_eq bot_apply bot_bool_def)
  ultimately have "unat d = 2 ^ k" using bit_top [OF k] bit_top [of k "d - 1"] k by (metis Suc_le_eq Suc_pred' le_neq_implies_less less_imp_diff_less less_le_trans nat_le_iff_add not_less_eq_eq zero_less_numeral zero_less_power One_nat_def)
  moreover have "k < 64"
  proof (rule ccontr)
    assume "\<not> k < 64"
    then have "(2 :: nat) ^ 64 \<le> 2 ^ k" by (intro power_increasing) simp_all
    then show False using k(1) u64_less [of d] by simp
  qed
  ultimately show thesis using that by blast
qed

lemma shift_loop_finds:
  assumes "unat d = 2 ^ k" "k < 64" "j \<le> k"
  shows "shift_loop d j = Some k"
  using assms(3)
proof (induction "k - j" arbitrary: j)
  case (Suc n)
  have "drop_bit j d \<noteq> 1"
  proof
    assume "drop_bit j d = 1"
    then have "unat (drop_bit j d) = 1" by simp
    then have "2 ^ k div 2 ^ j = (1 :: nat)" by (simp only: unat_drop_bit assms(1))
    then show False using Suc.hyps(2) Suc.prems by (simp add: power_diff [symmetric])
  qed
  then show ?case using Suc.hyps(1) [of "Suc j"] Suc.hyps(2) Suc.prems assms(2) by (subst shift_loop.simps) simp
next
  case 0
  then have "j = k" by simp
  moreover have "drop_bit k d = 1" by (simp only: word_unat_eq_iff unat_drop_bit assms(1)) simp
  ultimately show ?case using assms(2) by (subst shift_loop.simps) simp
qed

lemma or_bit: "unat (push_bit 1 r OR (drop_bit i n AND 1)) = 2 * unat r + unat n div 2 ^ i mod 2"
  if "2 * unat r + 1 < 2 ^ 64" for r n :: u64
proof -
  have b: "unat (drop_bit i n AND 1) = unat n div 2 ^ i mod 2"
    using unat_drop_bit [of i n] by (simp add: unat_mod and_one_eq del: drop_bit_eq_div)
  have p: "unat (push_bit 1 r) = 2 * unat r"
    using that by (subst unsigned_push_bit_eq) (simp add: push_bit_eq_mult take_bit_nat_eq_self)
  have "push_bit 1 r AND (drop_bit i n AND 1) = 0"
    by (rule bit_eqI) (simp only: bit_and_iff bit_push_bit_iff bit_1_iff bit_0_eq bot_apply bot_bool_def, auto)
  then have "push_bit 1 r OR (drop_bit i n AND 1) = push_bit 1 r + (drop_bit i n AND 1)" by (simp add: disjunctive_add_eq_or)
  moreover have "unat (push_bit 1 r) + unat (drop_bit i n AND 1) < 2 ^ 64" using that p b by simp
  ultimately show ?thesis using p b u64_add [of "push_bit 1 r" "drop_bit i n AND 1"] by (simp only:)
qed

lemma set_low_bit:
  fixes q :: u64
  assumes "unat q = m * 2 ^ Suc i" "i < 64"
  shows "unat (q OR push_bit i 1) = (2 * m + 1) * 2 ^ i"
proof -
  have "q AND push_bit i 1 = 0"
  proof (rule bit_eqI)
    fix j
    have "\<not> bit (unat q) i" by (simp add: assms(1) bit_iff_odd)
    then have "\<not> bit q i" by (simp add: bit_unsigned_iff)
    then show "bit (q AND push_bit i 1) j \<longleftrightarrow> bit 0 j" by (auto simp: bit_simps)
  qed
  then have "q OR push_bit i 1 = q + push_bit i 1" by (simp add: disjunctive_add_eq_or)
  moreover note unat_bit [OF assms(2)]
  moreover have "m * 2 ^ Suc i + 2 ^ i < 2 ^ 64"
  proof -
    have e: "(2 :: nat) ^ 64 = 2 ^ (63 - i) * 2 ^ Suc i" using assms(2) by (simp add: power_add [symmetric] del: power_Suc)
    have "m * 2 ^ Suc i < 2 ^ (63 - i) * 2 ^ Suc i" using u64_less [of q] assms(1) unfolding e by (simp only:)
    then have "m < 2 ^ (63 - i)" by simp
    then have "(m + 1) * 2 ^ Suc i \<le> 2 ^ (63 - i) * 2 ^ Suc i" by (intro mult_le_mono1) simp
    moreover have "(2 :: nat) ^ i < 2 ^ Suc i" by simp
    ultimately show ?thesis unfolding e [symmetric] add_mult_distrib by linarith
  qed
  ultimately have "unat (q OR push_bit i 1) = m * 2 ^ Suc i + 2 ^ i"
    using assms(1) u64_add [of q "push_bit i 1"] by (simp only:)
  then show ?thesis by (simp add: algebra_simps)
qed

lemma div_mod_add: "0 < d \<Longrightarrow> r < d \<Longrightarrow> (q * d + r) mod d = r \<and> (q * d + r) div d = q" for q d r :: nat
  by simp

lemma div_loop_correct:
  assumes "i \<le> 64" "0 < unat d" "unat r = unat n div 2 ^ i mod unat d" "unat q = unat n div 2 ^ i div unat d * 2 ^ i"
  shows "div_loop i n d q r = (n div d, n mod d)"
  using assms
proof (induction i arbitrary: q r)
  case 0
  then show ?case by (simp add: word_unat_eq_iff unat_div unat_mod)
next
  case (Suc i)
  let ?M = "unat n div 2 ^ Suc i" and ?D = "unat d" and ?b = "unat n div 2 ^ i mod 2"
  have "unat n div 2 ^ Suc i = unat n div 2 ^ i div 2" by (simp only: power_Suc2 div_mult2_eq)
  then have step: "unat n div 2 ^ i = 2 * ?M + ?b" by (simp only: mult_div_mod_eq)
  have "?M \<le> unat n div 2" unfolding power_Suc div_mult2_eq by (rule div_le_dividend)
  then have "?M < 2 ^ 63" using u64_less [of n] by simp
  then have "unat r < 2 ^ 63" using Suc.prems(3) mod_less_eq_dividend [of ?M ?D] by (simp only: order_le_less_trans)
  then have small: "2 * unat r + 1 < 2 ^ 64" by simp
  define r' where "r' = push_bit 1 r OR (drop_bit i n AND 1)"
  have r': "unat r' = 2 * (?M mod ?D) + ?b" using or_bit [OF small] Suc.prems(3) by (simp add: r'_def)
  have split: "2 * ?M + ?b = (?M div ?D * 2) * ?D + unat r'"
  proof -
    have "2 * ?M = 2 * (?M div ?D * ?D + ?M mod ?D)" by (simp only: div_mult_mod_eq)
    then show ?thesis unfolding r' by (simp only: distrib_left mult.assoc mult.left_commute add.assoc mult.commute)
  qed
  have whole: "unat n div 2 ^ i = (?M div ?D * 2) * ?D + unat r'" by (rule trans [OF step split])
  have lt: "unat r' < 2 * ?D" unfolding r' using Suc.prems(2) mod_less_divisor [of ?D ?M] by linarith
  show ?case
  proof (cases "d \<le> r'")
    case True
    then have r: "unat (r' - d) = unat r' - ?D" "?D \<le> unat r'" by (simp_all add: unat_sub word_le_nat_alt)
    then have w: "unat n div 2 ^ i = (?M div ?D * 2 + 1) * ?D + (unat r' - ?D)" unfolding whole by (simp add: algebra_simps)
    have "unat r' - ?D < ?D" using lt by linarith
    then have m: "unat n div 2 ^ i mod ?D = unat r' - ?D" "unat n div 2 ^ i div ?D = ?M div ?D * 2 + 1"
      unfolding w using div_mod_add [OF Suc.prems(2)] by blast+
    have "unat (q OR push_bit i 1) = (2 * (?M div ?D) + 1) * 2 ^ i" using set_low_bit [OF Suc.prems(4)] Suc.prems(1) by simp
    then have "div_loop i n d (q OR push_bit i 1) (r' - d) = (n div d, n mod d)"
      using Suc.prems(1,2) m r by (intro Suc.IH) (simp_all add: mult.commute)
    then show ?thesis using True unfolding div_loop.simps Let_def r'_def [symmetric] by simp
  next
    case False
    then have "unat r' < ?D" by (simp add: word_le_nat_alt)
    then have "unat n div 2 ^ i mod ?D = unat r'" "unat n div 2 ^ i div ?D = ?M div ?D * 2"
      unfolding whole using div_mod_add [OF Suc.prems(2)] by blast+
    then have "div_loop i n d q r' = (n div d, n mod d)"
      using Suc.prems(1,2,4) by (intro Suc.IH) simp_all
    then show ?thesis using False unfolding div_loop.simps Let_def r'_def [symmetric] by simp
  qed
qed

lemma udivmod_value:
  "exfat_small_udivmod64 n d = Some (if d = 0 then (0, 0) else (n div d, n mod d))"
proof -
  consider "d = 0" | "d \<noteq> 0" "d AND (d - 1) = 0" | "d \<noteq> 0" "d AND (d - 1) \<noteq> 0" "drop_bit 32 n = 0 \<and> drop_bit 32 d = 0"
    | "d \<noteq> 0" "d AND (d - 1) \<noteq> 0" "\<not> (drop_bit 32 n = 0 \<and> drop_bit 32 d = 0)" by blast
  then show ?thesis
  proof cases
    case 2
    obtain k where k: "k < 64" "unat d = 2 ^ k" using power_of_two [OF 2] .
    have "drop_bit k n = n div d" by (simp only: word_unat_eq_iff unat_drop_bit unat_div k(2))
    moreover have "n AND (d - 1) = n mod d"
    proof -
      have "d = push_bit k 1" by (simp only: word_unat_eq_iff unat_bit [OF k(1)] k(2))
      then have "d - 1 = mask k" by (simp add: mask_eq_exp_minus_1)
      then have "unat (n AND (d - 1)) = take_bit k (unat n)" by (simp only: take_bit_eq_mask [symmetric] unsigned_take_bit_eq)
      then show ?thesis by (simp only: word_unat_eq_iff unat_mod k(2) take_bit_eq_mod)
    qed
    ultimately show ?thesis using 2 shift_loop_finds [OF k(2,1)] by (simp add: exfat_small_udivmod64_def)
  next
    case 3
    have small: "unat n < 2 ^ 32" "unat d < 2 ^ 32"
      using 3(3) unat_drop_bit [of 32 n] unat_drop_bit [of 32 d] by (auto simp: div_eq_0_iff simp del: drop_bit_eq_div)
    then have c: "unat (ucast n :: u32) = unat n" "unat (ucast d :: u32) = unat d"
      by (simp_all add: unsigned_ucast_eq take_bit_nat_eq_self)
    have "unat n div unat d < 2 ^ 32" "unat n mod unat d < 2 ^ 32"
      using small div_le_dividend [of "unat n" "unat d"] mod_less_eq_dividend [of "unat n" "unat d"] by linarith+
    then have "unat ((ucast n :: u32) div ucast d) = unat n div unat d" "unat ((ucast n :: u32) mod ucast d) = unat n mod unat d"
      by (simp_all only: unat_div unat_mod c)
    then have "ucast ((ucast n :: u32) div ucast d) = n div d" "ucast ((ucast n :: u32) mod ucast d) = n mod d"
      using u64_less [of "n div d"] u64_less [of "n mod d"]
      by (simp_all add: word_unat_eq_iff unat_div unat_mod unsigned_ucast_eq [of _, where 'b = 32] take_bit_nat_eq_self)
    then show ?thesis using 3 by (simp add: exfat_small_udivmod64_def Let_def)
  next
    case 4
    have "unat n div 2 ^ 64 = 0" using u64_less [of n] by simp
    then have "div_loop 64 n d 0 0 = (n div d, n mod d)" using 4(1) by (intro div_loop_correct) (simp_all add: unat_gt_0)
    then show ?thesis using 4 unfolding exfat_small_udivmod64_def by (simp only: if_False)
  qed (simp add: exfat_small_udivmod64_def)
qed

lemma strstr_loop_find:
  "needle \<noteq> [] \<Longrightarrow> strstr_loop haystack needle p =
    map_option ((+) p) (find (\<lambda>i. take (length needle) (drop i haystack) = needle) [0..<Suc (length haystack)])"
proof (induction haystack arbitrary: p)
  case (Cons c haystack)
  have "[0..<Suc (length (c # haystack))] = 0 # map Suc [0..<Suc (length haystack)]"
    by (simp add: upt_conv_Cons map_Suc_upt del: upt_Suc)
  moreover have "find P (map Suc xs) = map_option Suc (find (P \<circ> Suc) xs)" for P xs by (induction xs) auto
  ultimately show ?case using Cons.IH [OF Cons.prems, of "p + 1"] Cons.prems
    by (simp add: option.map_comp comp_def del: upt_Suc)
qed auto

text \<open>The search is for the first of the occurrences that the option parser goes through.\<close>

lemma strstr_correct:
  "strstr haystack needle = (case occurrences haystack needle of [] \<Rightarrow> None | p # ps \<Rightarrow> Some p)"
proof (cases "needle = []")
  case True
  then show ?thesis by (simp add: strstr_def occurrences_def upt_conv_Cons del: upt_Suc)
next
  case False
  have "find P xs = (case filter P xs of [] \<Rightarrow> None | p # ps \<Rightarrow> Some p)" for P and xs :: "nat list"
    by (induction xs) auto
  then show ?thesis using False by (simp add: strstr_def occurrences_def strstr_loop_find del: upt_Suc split: list.split)
qed

lemma divdi3_correct: "\<bar>n\<bar> < 2 ^ 63 \<Longrightarrow> \<bar>d\<bar> < 2 ^ 63 \<Longrightarrow> divdi3 n d = Some (n sdiv d)"
proof -
  assume b: "\<bar>n\<bar> < 2 ^ 63" "\<bar>d\<bar> < 2 ^ 63"
  let ?n = "word_of_int \<bar>n\<bar> :: u64" and ?d = "word_of_int \<bar>d\<bar> :: u64"
  have u: "uint ?n = \<bar>n\<bar>" "uint ?d = \<bar>d\<bar>" using b by (simp_all add: uint_word_of_int)
  have "uint (fst (if ?d = 0 then (0, 0) else (?n div ?d, ?n mod ?d))) = \<bar>n\<bar> div \<bar>d\<bar>"
  proof (cases "d = 0")
    case False
    then have "?d \<noteq> 0" using u(2) by auto
    then show ?thesis by (simp add: uint_div u)
  qed simp
  then show ?thesis
    using b unfolding divdi3_def udivmod_value signed_divide_int_def
    by (cases "d = 0"; cases n "0 :: int" rule: linorder_cases; cases d "0 :: int" rule: linorder_cases)
      (auto split: prod.splits simp: sgn_if)
qed

section \<open>Properties\<close>

text \<open>
  the division routine is division.  For all 64-bit operands, whichever of its three ways it takes, the result is
  the quotient and the remainder, as the compiler expects them; by zero it answers zero.
\<close>

theorem udivmod_correct:
  "exfat_small_udivmod64 n d = Some (if d = 0 then (0, 0) else (n div d, n mod d)) \<and>
   udivdi3 n d = Some (if d = 0 then 0 else n div d) \<and> umoddi3 n d = Some (if d = 0 then 0 else n mod d)"
  by (simp add: udivmod_value udivdi3_def umoddi3_def)

end
