(* ===== verification/AmigaDev.thy ===== *)
theory AmigaDev
  imports Device
begin

text \<open>
  The block-device back end of the AmigaOS port, \<^verbatim>\<open>amiga/dev_io.c\<close>.  The Exec device behind it is code of another
  program: it is a parameter, a record of the three things that are asked of it, over an unknown state \<open>'m\<close>.  A buffer
  is its contents together with the address where the driver finds it.  Reading or writing behind a buffer has no result.
\<close>

section \<open>The driver\<close>

text \<open>
  \<open>drv_io\<close> is \<^verbatim>\<open>DoIO\<close> for a transfer: command, data, \<^verbatim>\<open>io_Length\<close>, \<^verbatim>\<open>io_Offset\<close> and \<^verbatim>\<open>io_Actual\<close> give the error, the new
  \<^verbatim>\<open>io_Actual\<close>, the data afterwards and the new state.  \<open>drv_query\<close> answers \<^verbatim>\<open>NSCMD_DEVICEQUERY\<close> with \<^verbatim>\<open>nsdqr_SizeAvailable\<close>,
  \<^verbatim>\<open>io_Actual\<close> and the list of commands, or fails; \<open>drv_control\<close> is \<^verbatim>\<open>DoIO\<close> for a command without data.
\<close>

record 'm driver =
  drv_io :: "'m \<Rightarrow> u16 \<Rightarrow> u8 list \<Rightarrow> u32 \<Rightarrow> u32 \<Rightarrow> u32 \<Rightarrow> int \<times> u32 \<times> u8 list \<times> 'm"
  drv_query :: "'m \<Rightarrow> (u32 \<times> u32 \<times> u16 list option) option"
  drv_control :: "'m \<Rightarrow> u16 \<Rightarrow> int \<times> u32 \<times> 'm"

definition CMD_READ :: u16 where "CMD_READ = 2"
definition CMD_WRITE :: u16 where "CMD_WRITE = 3"
definition CMD_UPDATE :: u16 where "CMD_UPDATE = 4"
definition TD_PROTSTATUS :: u16 where "TD_PROTSTATUS = 15"
definition TD_READ64 :: u16 where "TD_READ64 = 24"
definition TD_WRITE64 :: u16 where "TD_WRITE64 = 25"
definition NSCMD_TD_READ64 :: u16 where "NSCMD_TD_READ64 = 0xc000"
definition NSCMD_TD_WRITE64 :: u16 where "NSCMD_TD_WRITE64 = 0xc001"

definition NO_BLOCK :: u64 where "NO_BLOCK = NOT 0"

section \<open>State\<close>

record ExfatDevSpec =
  sp_blocksize :: u32
  sp_maxtransfer :: u32
  sp_mask :: u32
  sp_firstbyte :: u64
  sp_length :: u64

record 'm amiga_dev =
  ad_medium :: 'm
  ad_mode :: exfat_mode
  ad_firstbyte :: u64
  ad_size :: off_t
  ad_pos :: off_t
  ad_blocksize :: u32
  ad_blockmask :: u32
  ad_maxtransfer :: u32
  ad_mask :: u32
  ad_cmd_read :: u16
  ad_cmd_write :: u16
  ad_bounce :: "u8 list"
  ad_bounce_lba :: u64

section \<open>Opening\<close>

definition probe_commands :: "'m driver \<Rightarrow> 'm amiga_dev \<Rightarrow> 'm amiga_dev" where
  "probe_commands drv dev =
     (let lastbyte = ad_firstbyte dev + word_of_int (ad_size dev);
          need64 = (0xffffffff < lastbyte);
          dev = dev\<lparr>ad_cmd_read := CMD_READ, ad_cmd_write := CMD_WRITE\<rparr>;
          dev = (case drv_query drv (ad_medium dev) of
                   Some (available, actual, Some cmds) \<Rightarrow>
                     if 16 \<le> available \<and> 16 \<le> actual \<and> NSCMD_TD_READ64 \<in> set (takeWhile (\<lambda>c. c \<noteq> 0) cmds)
                     then dev\<lparr>ad_cmd_read := NSCMD_TD_READ64, ad_cmd_write := NSCMD_TD_WRITE64\<rparr> else dev
                 | _ \<Rightarrow> dev)
      in if ad_cmd_read dev = CMD_READ \<and> need64
         then dev\<lparr>ad_cmd_read := TD_READ64, ad_cmd_write := TD_WRITE64\<rparr> else dev)"

text \<open>
  \<open>resources\<close> says whether the allocations, the port, the request and the device can be had, \<open>bounce_ok\<close> whether the
  block buffer can; \<open>None\<close> is the NULL that is returned then, and for a block size that is not a power of two.
\<close>

definition amiga_open :: "'m driver \<Rightarrow> 'm \<Rightarrow> bool \<Rightarrow> bool \<Rightarrow> ExfatDevSpec \<Rightarrow> exfat_mode \<Rightarrow> 'm amiga_dev option" where
  "amiga_open drv medium resources bounce_ok spec mode =
     (if \<not> resources \<or> sp_blocksize spec = 0 \<or> sp_blocksize spec AND (sp_blocksize spec - 1) \<noteq> 0 \<or> \<not> bounce_ok then None
      else
        let dev = probe_commands drv
              \<lparr>ad_medium = medium, ad_mode = mode, ad_firstbyte = sp_firstbyte spec, ad_size = sint (sp_length spec),
               ad_pos = 0, ad_blocksize = sp_blocksize spec, ad_blockmask = sp_blocksize spec - 1,
               ad_maxtransfer = sp_maxtransfer spec,
               ad_mask = (if sp_mask spec \<noteq> 0 then sp_mask spec else 0xffffffff),
               ad_cmd_read = 0, ad_cmd_write = 0,
               ad_bounce = replicate (unat (sp_blocksize spec)) 0, ad_bounce_lba = NO_BLOCK\<rparr>
        in if mode = EXFAT_MODE_RO then Some dev
           else let (err, actual, m) = drv_control drv (ad_medium dev) TD_PROTSTATUS;
                    dev = dev\<lparr>ad_medium := m\<rparr>
                in Some (if err = 0 \<and> actual \<noteq> 0 then dev\<lparr>ad_mode := EXFAT_MODE_RO\<rparr> else dev))"

section \<open>Transfers\<close>

definition raw_io :: "'m driver \<Rightarrow> 'm amiga_dev \<Rightarrow> bool \<Rightarrow> u8 list \<Rightarrow> u64 \<Rightarrow> int \<times> u8 list \<times> 'm amiga_dev" where
  "raw_io drv dev wr buf off =
     (let len = of_nat (length buf);
          (err, actual, buf, m) = drv_io drv (ad_medium dev) (if wr then ad_cmd_write dev else ad_cmd_read dev) buf len
            (ucast off) (ucast (drop_bit 32 off));
          dev = dev\<lparr>ad_medium := m\<rparr>
      in if err \<noteq> 0 then (err, buf, dev) else if actual \<noteq> len then (- 1, buf, dev) else (0, buf, dev))"

text \<open>One round of the loop of \<^verbatim>\<open>aligned_io\<close> on a chunk that may go to the driver directly, or through the block buffer.\<close>

definition chunk_io :: "'m driver \<Rightarrow> 'm amiga_dev \<Rightarrow> bool \<Rightarrow> bool \<Rightarrow> u8 list \<Rightarrow> u64 \<Rightarrow> int \<times> u8 list \<times> 'm amiga_dev" where
  "chunk_io drv dev wr bounced chunk off =
     (if \<not> bounced then raw_io drv dev wr chunk off
      else if wr then
        let (rc, bounce, dev) = raw_io drv dev True chunk off in (rc, chunk, dev\<lparr>ad_bounce := bounce\<rparr>)
      else
        let (rc, bounce, dev) = raw_io drv dev False (ad_bounce dev) off
        in (rc, if rc \<noteq> 0 then chunk else bounce, dev\<lparr>ad_bounce := bounce\<rparr>))"

partial_function (option) aligned_loop ::
    "'m driver \<Rightarrow> 'm amiga_dev \<Rightarrow> bool \<Rightarrow> u32 \<Rightarrow> u8 list \<Rightarrow> u64 \<Rightarrow> (int \<times> u8 list \<times> 'm amiga_dev) option" where
  "aligned_loop drv dev wr addr buf off =
     (if buf = [] then Some (0, [], dev)
      else
        let chunk = (if ad_maxtransfer dev \<noteq> 0 \<and> unat (ad_maxtransfer dev) < length buf
                     then unat (ad_maxtransfer dev AND NOT (ad_blockmask dev)) else length buf);
            chunk = (if chunk = 0 then unat (ad_blocksize dev) else chunk);
            bounced = (addr AND NOT (ad_mask dev) \<noteq> 0);
            chunk = (if bounced then unat (ad_blocksize dev) else chunk)
        in if length buf < chunk then None
           else
             let r = chunk_io drv dev wr bounced (take chunk buf) off
             in if fst r \<noteq> 0 then Some (- 1, fst (snd r) @ drop chunk buf, snd (snd r))
                else do {
                  s \<leftarrow> aligned_loop drv (snd (snd r)) wr (addr + of_nat chunk) (drop chunk buf) (off + of_nat chunk);
                  Some (fst s, fst (snd r) @ fst (snd s), snd (snd s))
                })"

definition aligned_io :: "'m driver \<Rightarrow> 'm amiga_dev \<Rightarrow> bool \<Rightarrow> u32 \<Rightarrow> u8 list \<Rightarrow> u64 \<Rightarrow> (int \<times> u8 list \<times> 'm amiga_dev) option" where
  "aligned_io drv dev wr addr buf off =
     aligned_loop drv (if wr then dev\<lparr>ad_bounce_lba := NO_BLOCK\<rparr> else dev) wr addr buf off"

definition fetch_block :: "'m driver \<Rightarrow> 'm amiga_dev \<Rightarrow> u64 \<Rightarrow> int \<times> 'm amiga_dev" where
  "fetch_block drv dev blockoff =
     (if ad_bounce_lba dev = blockoff then (0, dev)
      else
        let dev = dev\<lparr>ad_bounce_lba := NO_BLOCK\<rparr>;
            (rc, bounce, dev) = raw_io drv dev False (ad_bounce dev) blockoff;
            dev = dev\<lparr>ad_bounce := bounce\<rparr>
        in if rc \<noteq> 0 then (- 1, dev) else (0, dev\<lparr>ad_bounce_lba := blockoff\<rparr>))"

text \<open>
  The part of a request that lies inside one block: \<open>head\<close> bytes of the block come before it.  The unaligned head and
  the unaligned tail are both of this kind.
\<close>

definition part_io :: "'m driver \<Rightarrow> 'm amiga_dev \<Rightarrow> bool \<Rightarrow> u8 list \<Rightarrow> u64 \<Rightarrow> nat \<Rightarrow> int \<times> u8 list \<times> 'm amiga_dev" where
  "part_io drv dev wr part blockoff head =
     (let (rc, dev) = fetch_block drv dev blockoff
      in if rc \<noteq> 0 then (- 1, part, dev)
         else if wr then
           let bounce = take head (ad_bounce dev) @ part @ drop (head + length part) (ad_bounce dev);
               (rc, bounce, dev) = raw_io drv (dev\<lparr>ad_bounce := bounce\<rparr>) True bounce blockoff;
               dev = dev\<lparr>ad_bounce := bounce\<rparr>
           in if rc \<noteq> 0 then (- 1, part, dev\<lparr>ad_bounce_lba := NO_BLOCK\<rparr>) else (0, part, dev)
         else (0, take (length part) (drop head (ad_bounce dev)), dev))"

definition partition_io :: "'m driver \<Rightarrow> 'm amiga_dev \<Rightarrow> bool \<Rightarrow> u32 \<Rightarrow> u8 list \<Rightarrow> off_t \<Rightarrow> (int \<times> u8 list \<times> 'm amiga_dev) option" where
  "partition_io drv dev wr addr buffer offset =
     (if offset < 0 \<or> buffer = [] \<or> ad_size dev \<le> offset then Some (0, buffer, dev)
      else if ad_size dev < offset + int (length buffer) then Some (- 1, buffer, dev)
      else
        let abs = ad_firstbyte dev + word_of_int offset;
            head = unat (ucast abs AND ad_blockmask dev :: u32);
            n = (if head = 0 then 0 else min (unat (ad_blocksize dev) - head) (length buffer));
            (rc, b1, dev) = (if head = 0 then (0, [], dev) else part_io drv dev wr (take n buffer) (abs - of_nat head) head)
        in if rc \<noteq> 0 then Some (- 1, b1 @ drop n buffer, dev)
           else
             let buf = drop n buffer;
                 abs = abs + of_nat n;
                 m = (if unat (ad_blocksize dev) \<le> length buf then unat (of_nat (length buf) AND NOT (ad_blockmask dev)) else 0)
             in do {
                  (rc, b2, dev) \<leftarrow> (if m = 0 then Some (0, [], dev) else aligned_io drv dev wr (addr + of_nat n) (take m buf) abs);
                  if rc \<noteq> 0 then Some (- 1, b1 @ b2 @ drop m buf, dev)
                  else
                    let tail = drop m buf;
                        abs = abs + of_nat m
                    in if tail = [] then Some (int (length buffer), b1 @ b2, dev)
                       else let (rc, b3, dev) = part_io drv dev wr tail abs 0
                            in if rc \<noteq> 0 then Some (- 1, b1 @ b2 @ b3, dev)
                               else Some (int (length buffer), b1 @ b2 @ b3, dev)
                })"

section \<open>The interface\<close>

definition amiga_fsync :: "'m driver \<Rightarrow> 'm amiga_dev \<Rightarrow> int \<times> 'm amiga_dev" where
  "amiga_fsync drv dev =
     (if ad_mode dev = EXFAT_MODE_RO then (0, dev)
      else let (err, actual, m) = drv_control drv (ad_medium dev) CMD_UPDATE; dev = dev\<lparr>ad_medium := m\<rparr>
           in if err \<noteq> 0 then (- EIO, dev) else (0, dev))"

definition amiga_get_mode :: "'m amiga_dev \<Rightarrow> exfat_mode" where
  "amiga_get_mode dev = ad_mode dev"

definition amiga_get_size :: "'m amiga_dev \<Rightarrow> off_t" where
  "amiga_get_size dev = ad_size dev"

definition amiga_seek :: "'m amiga_dev \<Rightarrow> off_t \<Rightarrow> whence \<Rightarrow> off_t \<times> 'm amiga_dev" where
  "amiga_seek dev offset wh =
     (let p = (case wh of SEEK_SET \<Rightarrow> offset | SEEK_CUR \<Rightarrow> ad_pos dev + offset | SEEK_END \<Rightarrow> ad_size dev + offset)
      in if p < 0 then (- 1, dev\<lparr>ad_pos := 0\<rparr>) else (p, dev\<lparr>ad_pos := p\<rparr>))"

definition amiga_transfer :: "'m driver \<Rightarrow> 'm amiga_dev \<Rightarrow> bool \<Rightarrow> u32 \<Rightarrow> u8 list \<Rightarrow> (int \<times> u8 list \<times> 'm amiga_dev) option" where
  "amiga_transfer drv dev wr addr buffer =
     do {
       (n, buffer, dev) \<leftarrow> partition_io drv dev wr addr buffer (ad_pos dev);
       Some (n, buffer, if 0 < n then dev\<lparr>ad_pos := ad_pos dev + n\<rparr> else dev)
     }"

definition amiga_read :: "'m driver \<Rightarrow> 'm amiga_dev \<Rightarrow> u32 \<Rightarrow> u8 list \<Rightarrow> (int \<times> u8 list \<times> 'm amiga_dev) option" where
  "amiga_read drv dev addr buffer = amiga_transfer drv dev False addr buffer"

definition amiga_write :: "'m driver \<Rightarrow> 'm amiga_dev \<Rightarrow> u32 \<Rightarrow> u8 list \<Rightarrow> (int \<times> u8 list \<times> 'm amiga_dev) option" where
  "amiga_write drv dev addr buffer = amiga_transfer drv dev True addr buffer"

definition amiga_pread :: "'m driver \<Rightarrow> 'm amiga_dev \<Rightarrow> u32 \<Rightarrow> u8 list \<Rightarrow> off_t \<Rightarrow> (int \<times> u8 list \<times> 'm amiga_dev) option" where
  "amiga_pread drv dev addr buffer offset = partition_io drv dev False addr buffer offset"

definition amiga_pwrite :: "'m driver \<Rightarrow> 'm amiga_dev \<Rightarrow> u32 \<Rightarrow> u8 list \<Rightarrow> off_t \<Rightarrow> (int \<times> u8 list \<times> 'm amiga_dev) option" where
  "amiga_pwrite drv dev addr buffer offset = partition_io drv dev True addr buffer offset"

end
