(* ===== verification/AmigaDevFacts.thy ===== *)
theory AmigaDevFacts
  imports AmigaDev
begin

text \<open>
  The AmigaOS back end as a store of bytes: on a driver that keeps what is documented of it, \<^verbatim>\<open>partition_io\<close> reads and
  writes exactly the bytes of the request, through unaligned ends, chunks and the block that is kept in memory.
\<close>

section \<open>What is expected of the driver\<close>

text \<open>
  \<open>contents\<close> are the bytes of a medium.  A read transfer leaves the medium alone and, when it reports success and the
  full length, delivers the bytes; a write transfer that reports the same has stored its bytes.  The position is the 64-bit
  number in \<^verbatim>\<open>io_Offset\<close> and \<^verbatim>\<open>io_Actual\<close>, below \<open>limit\<close> (4 GB for the 32-bit commands), and all of this is expected of
  transfers of whole blocks of \<open>bs\<close> bytes only.
\<close>

definition position :: "u32 \<Rightarrow> u32 \<Rightarrow> nat" where
  "position lo hi = unat lo + 2 ^ 32 * unat hi"

definition driver_laws :: "'m driver \<Rightarrow> ('m \<Rightarrow> nat \<Rightarrow> u8) \<Rightarrow> nat \<Rightarrow> u16 \<Rightarrow> u16 \<Rightarrow> nat \<Rightarrow> bool" where
  "driver_laws drv contents bs rcmd wcmd limit \<longleftrightarrow>
     (\<forall>m data lo hi err act data' m'. position lo hi < limit \<longrightarrow> bs dvd position lo hi \<longrightarrow> bs dvd length data \<longrightarrow>
        drv_io drv m rcmd data (of_nat (length data)) lo hi = (err, act, data', m') \<longrightarrow>
        contents m' = contents m \<and> length data' = length data \<and>
        (err = 0 \<and> act = of_nat (length data) \<longrightarrow> data' = map (contents m) [position lo hi..<position lo hi + length data])) \<and>
     (\<forall>m data lo hi err act data' m'. position lo hi < limit \<longrightarrow> bs dvd position lo hi \<longrightarrow> bs dvd length data \<longrightarrow>
        drv_io drv m wcmd data (of_nat (length data)) lo hi = (err, act, data', m') \<longrightarrow>
        data' = data \<and> (err = 0 \<and> act = of_nat (length data) \<longrightarrow> contents m' = store (contents m) (position lo hi) data))"

definition faultless :: "'m driver \<Rightarrow> bool" where
  "faultless drv \<longleftrightarrow> (\<forall>m cmd data len lo hi. fst (drv_io drv m cmd data len lo hi) = 0 \<and> fst (snd (drv_io drv m cmd data len lo hi)) = len)"

abbreviation BS :: "'m amiga_dev \<Rightarrow> nat" where
  "BS dev \<equiv> unat (ad_blocksize dev)"

text \<open>
  \<open>noted contents dev blk\<close>: if the block in memory is said to be the one at \<open>blk\<close>, it is that block of the medium.  The block in memory
  is \<open>coherent\<close> with the medium if this holds for the block it is said to be.
\<close>

definition noted :: "('m \<Rightarrow> nat \<Rightarrow> u8) \<Rightarrow> 'm amiga_dev \<Rightarrow> u64 \<Rightarrow> bool" where
  "noted contents dev blk \<longleftrightarrow>
     (ad_bounce_lba dev = blk \<longrightarrow> ad_bounce dev = map (contents (ad_medium dev)) [unat blk..<unat blk + BS dev])"

definition coherent :: "('m \<Rightarrow> nat \<Rightarrow> u8) \<Rightarrow> 'm amiga_dev \<Rightarrow> bool" where
  "coherent contents dev \<longleftrightarrow> (ad_bounce_lba dev \<noteq> NO_BLOCK \<longrightarrow> noted contents dev (ad_bounce_lba dev))"

lemma coherent_noted: "coherent contents dev \<Longrightarrow> blk \<noteq> NO_BLOCK \<Longrightarrow> noted contents dev blk"
  by (auto simp: coherent_def noted_def)

text \<open>The driver takes buffers at every address, so that no aligned transfer goes through the block buffer.\<close>

definition takes_all :: "'m amiga_dev \<Rightarrow> bool" where
  "takes_all dev \<longleftrightarrow> ad_mask dev = 0xffffffff"

definition unit_ok :: "'m driver \<Rightarrow> ('m \<Rightarrow> nat \<Rightarrow> u8) \<Rightarrow> nat \<Rightarrow> 'm amiga_dev \<Rightarrow> bool" where
  "unit_ok drv contents limit dev \<longleftrightarrow>
     driver_laws drv contents (BS dev) (ad_cmd_read dev) (ad_cmd_write dev) limit \<and>
     (\<exists>k < 32. BS dev = 2 ^ k) \<and> ad_blockmask dev = ad_blocksize dev - 1 \<and> length (ad_bounce dev) = BS dev \<and>
     unat (ad_firstbyte dev) + nat (ad_size dev) \<le> limit \<and> unat (ad_firstbyte dev) + nat (ad_size dev) < 2 ^ 64"

definition same_unit :: "'m amiga_dev \<Rightarrow> 'm amiga_dev \<Rightarrow> bool" where
  "same_unit dev dev' \<longleftrightarrow>
     dev' = dev\<lparr>ad_medium := ad_medium dev', ad_bounce := ad_bounce dev', ad_bounce_lba := ad_bounce_lba dev'\<rparr>"

lemma same_unit_fields:
  "same_unit dev dev' \<Longrightarrow> ad_cmd_read dev' = ad_cmd_read dev \<and> ad_cmd_write dev' = ad_cmd_write dev \<and>
    ad_blocksize dev' = ad_blocksize dev \<and> ad_blockmask dev' = ad_blockmask dev \<and> ad_mask dev' = ad_mask dev \<and>
    ad_firstbyte dev' = ad_firstbyte dev \<and> ad_size dev' = ad_size dev \<and> ad_maxtransfer dev' = ad_maxtransfer dev"
  by (cases dev; cases dev'; simp add: same_unit_def)

lemma same_unit_refl [simp]: "same_unit dev dev"
  by (simp add: same_unit_def)

lemma same_unit_trans: "same_unit a b \<Longrightarrow> same_unit b c \<Longrightarrow> same_unit a c"
  by (cases a; cases b; cases c; simp add: same_unit_def)

lemma same_unit_upd [simp]:
  "same_unit dev (dev'\<lparr>ad_medium := m\<rparr>) = same_unit dev dev'"
  "same_unit dev (dev'\<lparr>ad_bounce := b\<rparr>) = same_unit dev dev'"
  "same_unit dev (dev'\<lparr>ad_bounce_lba := l\<rparr>) = same_unit dev dev'"
  by (cases dev; cases dev'; simp add: same_unit_def)+

lemma unit_ok_same:
  "unit_ok drv contents limit dev \<Longrightarrow> same_unit dev dev' \<Longrightarrow> length (ad_bounce dev') = BS dev \<Longrightarrow> unit_ok drv contents limit dev'"
  using same_unit_fields [of dev dev'] by (simp add: unit_ok_def)

section \<open>Single transfers\<close>

lemma unat_add_nat_u64: "unat w + n < 2 ^ 64 \<Longrightarrow> unat (w + of_nat n) = unat w + n" for w :: u64
  by (simp add: unat_word_ariths unat_of_nat)

lemma split_position: "position (ucast off) (ucast (drop_bit 32 off)) = unat off" for off :: u64
proof -
  have "unat off < 2 ^ 64" using unsigned_less [of off, where 'a = nat] by simp
  then have h: "unat off div 2 ^ 32 < 2 ^ 32" by (intro less_mult_imp_div_less) simp
  have "unat (ucast (drop_bit 32 off) :: u32) = unat off div 2 ^ 32"
    unfolding unsigned_ucast_eq unsigned_drop_bit_eq using h \<open>unat off < 2 ^ 64\<close> by (simp add: drop_bit_eq_div take_bit_nat_eq_self)
  moreover have "unat (ucast off :: u32) = unat off mod 2 ^ 32" by (simp add: unsigned_ucast_eq take_bit_eq_mod)
  ultimately show ?thesis by (simp add: position_def)
qed

text \<open>What a transfer of \<open>buf\<close> at \<open>o\<close> promises.\<close>

definition transferred :: "('m \<Rightarrow> nat \<Rightarrow> u8) \<Rightarrow> bool \<Rightarrow> u8 list \<Rightarrow> nat \<Rightarrow> 'm \<Rightarrow> u8 list \<Rightarrow> 'm \<Rightarrow> bool" where
  "transferred contents wr buf p m buf' m' \<longleftrightarrow>
     (if wr then buf' = buf \<and> contents m' = store (contents m) p buf
      else buf' = map (contents m) [p..<p + length buf] \<and> contents m' = contents m)"

lemma raw_io_ok:
  assumes "driver_laws drv contents (BS dev) (ad_cmd_read dev) (ad_cmd_write dev) limit" "unat off < limit"
    "BS dev dvd unat off" "BS dev dvd length buf" "raw_io drv dev wr buf off = (rc, buf', dev')"
  shows "dev' = dev\<lparr>ad_medium := ad_medium dev'\<rparr>" "length buf' = length buf" "wr \<Longrightarrow> buf' = buf"
    "\<not> wr \<Longrightarrow> contents (ad_medium dev') = contents (ad_medium dev)"
    "rc = 0 \<Longrightarrow> transferred contents wr buf (unat off) (ad_medium dev) buf' (ad_medium dev')"
    "faultless drv \<Longrightarrow> rc = 0"
proof -
  let ?c = "if wr then ad_cmd_write dev else ad_cmd_read dev" and ?n = "of_nat (length buf) :: u32"
  obtain err act d m where r: "drv_io drv (ad_medium dev) ?c buf ?n (ucast off) (ucast (drop_bit 32 off)) = (err, act, d, m)"
    by (metis prod_cases4)
  then have e: "buf' = d" "dev' = dev\<lparr>ad_medium := m\<rparr>" "rc = (if err \<noteq> 0 then err else if act \<noteq> ?n then - 1 else 0)"
    using assms(5) by (auto simp: raw_io_def Let_def split: if_splits)
  show "dev' = dev\<lparr>ad_medium := ad_medium dev'\<rparr>" using e(2) by simp
  have law: "if wr then d = buf \<and> (err = 0 \<and> act = ?n \<longrightarrow> contents m = store (contents (ad_medium dev)) (unat off) buf)
      else contents m = contents (ad_medium dev) \<and> length d = length buf \<and>
        (err = 0 \<and> act = ?n \<longrightarrow> d = map (contents (ad_medium dev)) [unat off..<unat off + length buf])"
    using assms(1-4) r split_position [of off] unfolding driver_laws_def by (cases wr) (simp_all, metis+)
  show "length buf' = length buf" "wr \<Longrightarrow> buf' = buf" "\<not> wr \<Longrightarrow> contents (ad_medium dev') = contents (ad_medium dev)"
    using law e(1,2) by (auto split: if_splits)
  show "transferred contents wr buf (unat off) (ad_medium dev) buf' (ad_medium dev')" if "rc = 0"
    using law e that by (auto simp: transferred_def split: if_splits)
  show "rc = 0" if "faultless drv" using that r e(3) unfolding faultless_def by (metis fst_conv snd_conv)
qed

section \<open>Parts of a block\<close>

lemma fetch_block_ok:
  assumes "unit_ok drv contents limit dev" "noted contents dev blockoff" "unat blockoff < limit" "blockoff \<noteq> NO_BLOCK"
    "BS dev dvd unat blockoff" "fetch_block drv dev blockoff = (rc, dev')"
  shows "same_unit dev dev'" "coherent contents dev'" "contents (ad_medium dev') = contents (ad_medium dev)" "rc = 0 \<or> rc = - 1"
    "rc = 0 \<Longrightarrow> ad_bounce_lba dev' = blockoff" "faultless drv \<Longrightarrow> rc = 0" "length (ad_bounce dev') = BS dev"
proof -
  have laws: "driver_laws drv contents (BS dev) (ad_cmd_read dev) (ad_cmd_write dev) limit" and len: "length (ad_bounce dev) = BS dev"
    using assms(1) by (simp_all add: unit_ok_def)
  have "same_unit dev dev' \<and> coherent contents dev' \<and> contents (ad_medium dev') = contents (ad_medium dev) \<and> (rc = 0 \<or> rc = - 1) \<and>
    (rc = 0 \<longrightarrow> ad_bounce_lba dev' = blockoff) \<and> (faultless drv \<longrightarrow> rc = 0) \<and> length (ad_bounce dev') = BS dev"
  proof (cases "ad_bounce_lba dev = blockoff")
    case True
    then show ?thesis using assms(2,6) len by (auto simp: fetch_block_def coherent_def)
  next
    case False
    let ?d = "dev\<lparr>ad_bounce_lba := NO_BLOCK\<rparr>"
    obtain r b d where io: "raw_io drv ?d False (ad_bounce ?d) blockoff = (r, b, d)" by (metis prod_cases3)
    have eq: "dev' = (if r \<noteq> 0 then d\<lparr>ad_bounce := b\<rparr> else d\<lparr>ad_bounce := b, ad_bounce_lba := blockoff\<rparr>)" "rc = (if r \<noteq> 0 then - 1 else 0)"
      using assms(6) False io by (auto simp: fetch_block_def Let_def split: if_splits)
    have l: "driver_laws drv contents (BS ?d) (ad_cmd_read ?d) (ad_cmd_write ?d) limit" using laws by simp
    have al: "BS ?d dvd unat blockoff" "BS ?d dvd length (ad_bounce ?d)" using assms(5) len by simp_all
    note raw = raw_io_ok [OF l assms(3) al io]
    have d: "d = ?d\<lparr>ad_medium := ad_medium d\<rparr>" by (rule raw(1))
    have s: "same_unit dev d" using same_unit_refl [of dev] by (subst d) simp
    have bs: "ad_blocksize d = ad_blocksize dev" using same_unit_fields [OF s] by simp
    have lba: "ad_bounce_lba d = NO_BLOCK" by (subst d) simp
    have "coherent contents dev'"
      using raw(2,4,5) len bs lba by (auto simp: coherent_def noted_def eq transferred_def)
    then show ?thesis using raw(2,4,6) len s by (auto simp: eq)
  qed
  then show "same_unit dev dev'" "coherent contents dev'" "contents (ad_medium dev') = contents (ad_medium dev)" "rc = 0 \<or> rc = - 1"
    "rc = 0 \<Longrightarrow> ad_bounce_lba dev' = blockoff" "faultless drv \<Longrightarrow> rc = 0" "length (ad_bounce dev') = BS dev" by auto
qed

lemma store_in_block:
  assumes "B = map f [p..<p + n]" "h + length part \<le> n"
  shows "store f p (take h B @ part @ drop (h + length part) B) = store f (p + h) part"
    "length (take h B @ part @ drop (h + length part) B) = n"
  using assms by (auto simp: store_def fun_eq_iff nth_append min_def)

lemma map_store: "map (store f p bs) [p..<p + length bs] = bs"
  by (rule nth_equalityI) (auto simp: store_def)

text \<open>A transfer inside one block leaves that block in memory, whatever was there before.\<close>

lemma part_io_ok:
  assumes "unit_ok drv contents limit dev" "noted contents dev blockoff" "unat blockoff < limit" "blockoff \<noteq> NO_BLOCK"
    "BS dev dvd unat blockoff" "head + length part \<le> BS dev" "part_io drv dev wr part blockoff head = (rc, b, dev')"
  shows "same_unit dev dev' \<and> coherent contents dev' \<and> length (ad_bounce dev') = BS dev \<and> length b = length part \<and> (rc = 0 \<or> rc = - 1) \<and>
    (rc = 0 \<longrightarrow> ad_bounce_lba dev' = blockoff) \<and>
    (\<not> wr \<longrightarrow> contents (ad_medium dev') = contents (ad_medium dev)) \<and> (faultless drv \<longrightarrow> rc = 0) \<and>
    (rc = 0 \<longrightarrow> transferred contents wr part (unat blockoff + head) (ad_medium dev) b (ad_medium dev'))"
proof -
  obtain r d where f: "fetch_block drv dev blockoff = (r, d)" by fastforce
  note fetch = fetch_block_ok [OF assms(1-5) f]
  have bs: "BS d = BS dev" using same_unit_fields [OF fetch(1)] by simp
  show ?thesis
  proof (cases "r = 0")
    case False
    then show ?thesis using assms(7) f fetch by (auto simp: part_io_def)
  next
    case True
    then have blk: "ad_bounce d = map (contents (ad_medium dev)) [unat blockoff..<unat blockoff + BS dev]"
      using fetch(2,3,5) assms(4) bs by (simp add: coherent_def noted_def)
    show ?thesis
    proof (cases wr)
      case False
      then have "rc = 0" "dev' = d" "b = take (length part) (drop head (ad_bounce d))" using assms(7) f True by (auto simp: part_io_def)
      moreover have "take (length part) (drop head (ad_bounce d)) =
          map (contents (ad_medium dev)) [unat blockoff + head..<unat blockoff + head + length part]"
        using assms(6) by (intro nth_equalityI) (auto simp: blk add.assoc)
      ultimately show ?thesis using False True fetch assms(6) by (auto simp: transferred_def)
    next
      case w: True
      define B where "B = take head (ad_bounce d) @ part @ drop (head + length part) (ad_bounce d)"
      obtain q c e where io: "raw_io drv (d\<lparr>ad_bounce := B\<rparr>) True B blockoff = (q, c, e)" by (metis prod_cases3)
      have eq: "b = part" "rc = (if q \<noteq> 0 then - 1 else 0)"
          "dev' = (if q \<noteq> 0 then e\<lparr>ad_bounce := c, ad_bounce_lba := NO_BLOCK\<rparr> else e\<lparr>ad_bounce := c\<rparr>)"
        using assms(7) f True w io by (auto simp: part_io_def Let_def B_def [symmetric] split: if_splits)
      have l: "driver_laws drv contents (BS (d\<lparr>ad_bounce := B\<rparr>)) (ad_cmd_read (d\<lparr>ad_bounce := B\<rparr>)) (ad_cmd_write (d\<lparr>ad_bounce := B\<rparr>)) limit"
        using assms(1) same_unit_fields [OF fetch(1)] by (simp add: unit_ok_def)
      note st = store_in_block [OF blk assms(6), folded B_def]
      have al: "BS (d\<lparr>ad_bounce := B\<rparr>) dvd unat blockoff" "BS (d\<lparr>ad_bounce := B\<rparr>) dvd length B" using assms(5) bs st(2) by simp_all
      note raw = raw_io_ok [OF l assms(3) al io]
      have s: "same_unit dev e" using fetch(1) by (subst raw(1)) simp
      have "e = d\<lparr>ad_bounce := B, ad_medium := ad_medium e\<rparr>" using raw(1) by simp
      then have lba: "ad_bounce_lba e = blockoff"
        using fetch(5) True by (metis amiga_dev.select_convs(13) amiga_dev.surjective amiga_dev.update_convs(1,12))
      have ebs: "BS e = BS dev" using same_unit_fields [OF s] by simp
      have "coherent contents dev'"
        using raw(3,5) st lba ebs map_store [of "contents (ad_medium d)" "unat blockoff" B]
        by (auto simp: coherent_def noted_def eq transferred_def fetch(3))
      then show ?thesis using w raw(3,5,6) st s lba by (auto simp: eq transferred_def fetch(3))
    qed
  qed
qed

section \<open>The aligned middle\<close>

lemma round_down: "unat (w AND NOT (mask k)) = unat w - unat w mod 2 ^ k" for w :: u32
proof -
  let ?x = "w AND NOT (mask k)"
  have "?x AND take_bit k w = 0" by (rule bit_word_eqI) (auto simp: bit_simps)
  moreover have "?x OR take_bit k w = w" by (rule bit_word_eqI) (auto simp: bit_simps)
  ultimately have "?x + take_bit k w = w" by (simp add: disjunctive_add_eq_or)
  then have "take_bit k w = w - ?x" by (metis add_diff_cancel_left')
  moreover have le: "?x \<le> w" by (rule word_and_le2)
  ultimately have "unat (take_bit k w) = unat w - unat ?x" by (simp add: unat_sub)
  moreover have "unat (take_bit k w) = unat w mod 2 ^ k" by (subst unsigned_take_bit_eq) (simp add: take_bit_eq_mod)
  ultimately show ?thesis using le by (simp add: word_le_nat_alt)
qed

lemma unat_power_u32: "k < 32 \<Longrightarrow> unat (2 ^ k :: u32) = 2 ^ k"
  using unat_of_nat [of "2 ^ k", where 'a = 32] power_strict_increasing [of k 32 "2 :: nat"] by simp

lemma unit_block:
  assumes "unit_ok drv contents limit dev"
  obtains k where "k < 32" "BS dev = 2 ^ k" "ad_blockmask dev = mask k"
proof -
  obtain k where k: "k < 32" "BS dev = 2 ^ k" using assms by (auto simp: unit_ok_def)
  then have "ad_blocksize dev = 2 ^ k" by (metis k(1) unat_power_u32 word_unat_eq_iff)
  then have "ad_blockmask dev = mask k" using assms by (simp add: unit_ok_def mask_eq_exp_minus_1)
  with k that show thesis by blast
qed

lemma transferred_append:
  assumes "transferred contents wr a p m a' m'" "transferred contents wr b (p + length a) m' b' m''"
  shows "transferred contents wr (a @ b) p m (a' @ b') m''"
proof (cases wr)
  case True
  then show ?thesis using assms by (auto simp: transferred_def store_store)
next
  case False
  have "[p..<p + (length a + length b)] = [p..<p + length a] @ [p + length a..<p + length a + length b]"
    using upt_add_eq_append [of p "p + length a" "length b"] by (simp add: add.assoc)
  then show ?thesis using False assms by (auto simp: transferred_def)
qed

lemma transferred_Nil: "transferred contents wr [] p m [] m"
  by (auto simp: transferred_def store_def fun_eq_iff)

text \<open>A chunk is transferred, directly or through the block buffer, which then holds another block than the one that is noted.\<close>

lemma chunk_io_ok:
  assumes "unit_ok drv contents limit dev" "unat off < limit" "BS dev dvd unat off" "BS dev dvd length chunk"
    "bounced \<longrightarrow> length chunk = BS dev" "chunk_io drv dev wr bounced chunk off = (rc, b, d)"
  shows "same_unit dev d \<and> ad_bounce_lba d = ad_bounce_lba dev \<and> length (ad_bounce d) = BS dev \<and> (\<not> bounced \<longrightarrow> ad_bounce d = ad_bounce dev) \<and>
    length b = length chunk \<and> (\<not> wr \<longrightarrow> contents (ad_medium d) = contents (ad_medium dev)) \<and> (faultless drv \<longrightarrow> rc = 0) \<and>
    (rc = 0 \<longrightarrow> transferred contents wr chunk (unat off) (ad_medium dev) b (ad_medium d))"
proof -
  have laws: "driver_laws drv contents (BS dev) (ad_cmd_read dev) (ad_cmd_write dev) limit" and len: "length (ad_bounce dev) = BS dev"
    using assms(1) by (simp_all add: unit_ok_def)
  define src where "src = (if bounced \<and> \<not> wr then ad_bounce dev else chunk)"
  have l: "length src = length chunk" using assms(5) len by (simp add: src_def)
  obtain r c e where io: "raw_io drv dev wr src off = (r, c, e)" by (metis prod_cases3)
  have eq: "rc = r" "b = (if bounced then (if wr \<or> r \<noteq> 0 then chunk else c) else c)" "d = (if bounced then e\<lparr>ad_bounce := c\<rparr> else e)"
    using assms(6) io by (auto simp: chunk_io_def src_def split: if_splits)
  have "BS dev dvd length src" using assms(4) l by simp
  note raw = raw_io_ok [OF laws assms(2,3) this io]
  have e: "same_unit dev e" "ad_bounce_lba e = ad_bounce_lba dev" "ad_bounce e = ad_bounce dev" by (subst raw(1), simp)+
  have "transferred contents wr chunk (unat off) (ad_medium dev) b (ad_medium e)" if "r = 0"
    using raw(5) [OF that] that l by (cases wr) (auto simp: transferred_def eq src_def)
  moreover have "length b = length chunk" "length (ad_bounce d) = BS dev" "ad_medium d = ad_medium e" using raw(2) l len assms(5) e(3) by (auto simp: eq)
  ultimately show ?thesis using e raw(4,6) by (auto simp: eq(1,3))
qed

lemma aligned_loop_ok:
  assumes "unit_ok drv contents limit dev" "BS dev dvd length buf" "BS dev dvd unat off" "unat off + length buf \<le> limit" "unat off + length buf < 2 ^ 64"
  shows "\<exists>rc b dev'. aligned_loop drv dev wr addr buf off = Some (rc, b, dev') \<and> same_unit dev dev' \<and>
    ad_bounce_lba dev' = ad_bounce_lba dev \<and> length (ad_bounce dev') = BS dev \<and> (takes_all dev \<longrightarrow> ad_bounce dev' = ad_bounce dev) \<and>
    length b = length buf \<and> (rc = 0 \<or> rc = - 1) \<and> (\<not> wr \<longrightarrow> contents (ad_medium dev') = contents (ad_medium dev)) \<and>
    (faultless drv \<longrightarrow> rc = 0) \<and> (rc = 0 \<longrightarrow> transferred contents wr buf (unat off) (ad_medium dev) b (ad_medium dev'))"
  using assms
proof (induction "length buf" arbitrary: dev addr buf off rule: less_induct)
  case less
  show ?case
  proof (cases "buf = []")
    case True
    then show ?thesis using less.prems(1) by (subst aligned_loop.simps) (auto simp: unit_ok_def transferred_Nil)
  next
    case False
    obtain k where k: "k < 32" "BS dev = 2 ^ k" "ad_blockmask dev = mask k" using unit_block [OF less.prems(1)] .
    define bounced where "bounced = (addr AND NOT (ad_mask dev) \<noteq> 0)"
    define n where "n = (let c = (if ad_maxtransfer dev \<noteq> 0 \<and> unat (ad_maxtransfer dev) < length buf
        then unat (ad_maxtransfer dev AND NOT (ad_blockmask dev)) else length buf); c = (if c = 0 then BS dev else c)
      in if bounced then BS dev else c)"
    have "BS dev \<le> length buf" using less.prems(2) False by (intro dvd_imp_le) simp_all
    moreover have md: "unat (ad_maxtransfer dev) < length buf \<Longrightarrow> 2 ^ k * (unat (ad_maxtransfer dev) div 2 ^ k) \<le> length buf"
      by (rule order_trans [OF times_div_less_eq_dividend less_imp_le])
    ultimately have n: "0 < n" "n \<le> length buf" "BS dev dvd n"
      using less.prems(2) k(2) by (auto simp: n_def Let_def k(3) round_down minus_mod_eq_mult_div md)
    obtain r b1 d where io: "chunk_io drv dev wr bounced (take n buf) off = (r, b1, d)" by (metis prod_cases3)
    have lt: "unat off < limit" using less.prems(4) False by (cases buf) simp_all
    have "BS dev dvd length (take n buf)" "bounced \<longrightarrow> length (take n buf) = BS dev" using n by (simp_all add: min_def) (simp add: n_def)
    note c = chunk_io_ok [OF less.prems(1) lt less.prems(3) this io]
    have nb: "\<not> bounced" if "takes_all dev"
    proof -
      have "ad_mask dev = - 1" using that by (simp add: takes_all_def)
      then show ?thesis by (simp add: bounced_def)
    qed
    have step: "aligned_loop drv dev wr addr buf off =
        (if r \<noteq> 0 then Some (- 1, b1 @ drop n buf, d)
         else do { s \<leftarrow> aligned_loop drv d wr (addr + of_nat n) (drop n buf) (off + of_nat n); Some (fst s, b1 @ fst (snd s), snd (snd s)) })"
      using False n(2)
      by (subst aligned_loop.simps) (simp add: Let_def bounced_def [symmetric] n_def [unfolded Let_def, symmetric] io not_less)
    show ?thesis
    proof (cases "r = 0")
      case False
      then show ?thesis using step c nb n(2) by auto
    next
      case True
      have off: "unat (off + of_nat n) = unat off + n"
        using n(2) less.prems(5) by (intro unat_add_nat_u64) simp
      have f: "BS d = BS dev" "takes_all d = takes_all dev" "unit_ok drv contents limit d"
        using c same_unit_fields [of dev d] unit_ok_same [OF less.prems(1), of d] by (simp_all add: takes_all_def)
      have "\<exists>rc b dev'. aligned_loop drv d wr (addr + of_nat n) (drop n buf) (off + of_nat n) = Some (rc, b, dev') \<and> same_unit d dev' \<and>
          ad_bounce_lba dev' = ad_bounce_lba d \<and> length (ad_bounce dev') = BS d \<and> (takes_all d \<longrightarrow> ad_bounce dev' = ad_bounce d) \<and>
          length b = length (drop n buf) \<and> (rc = 0 \<or> rc = - 1) \<and>
          (\<not> wr \<longrightarrow> contents (ad_medium dev') = contents (ad_medium d)) \<and> (faultless drv \<longrightarrow> rc = 0) \<and>
          (rc = 0 \<longrightarrow> transferred contents wr (drop n buf) (unat (off + of_nat n)) (ad_medium d) b (ad_medium dev'))"
        using n less.prems f by (intro less.hyps) (auto simp: off dvd_diff_nat dvd_add)
      then obtain rc b dev' where rec: "aligned_loop drv d wr (addr + of_nat n) (drop n buf) (off + of_nat n) = Some (rc, b, dev')"
        "same_unit d dev'" "ad_bounce_lba dev' = ad_bounce_lba d" "length (ad_bounce dev') = BS dev" "takes_all dev \<longrightarrow> ad_bounce dev' = ad_bounce d"
        "length b = length (drop n buf)" "rc = 0 \<or> rc = - 1"
        "\<not> wr \<longrightarrow> contents (ad_medium dev') = contents (ad_medium d)" "faultless drv \<longrightarrow> rc = 0"
        "rc = 0 \<longrightarrow> transferred contents wr (drop n buf) (unat off + n) (ad_medium d) b (ad_medium dev')" unfolding off f(1,2) by blast
      have "transferred contents wr buf (unat off) (ad_medium dev) (b1 @ b) (ad_medium dev')" if "rc = 0"
        using transferred_append [of contents wr "take n buf" "unat off" "ad_medium dev" b1 "ad_medium d" "drop n buf" b "ad_medium dev'"]
          rec(10) that n(2) c True by simp
      then show ?thesis
        using step True rec c nb n(2) same_unit_trans [of dev d dev'] by auto
    qed
  qed
qed

section \<open>The whole request\<close>

lemma block_rest:
  "k < 32 \<Longrightarrow> unat (ucast w AND mask k :: u32) = unat w mod 2 ^ k" for w :: u64
proof -
  assume k: "k < 32"
  have "ucast w AND mask k = (ucast (take_bit k w) :: u32)" using k by (intro bit_word_eqI) (auto simp: bit_simps)
  moreover have "unat (take_bit k w) = unat w mod 2 ^ k" by (subst unsigned_take_bit_eq) (simp add: take_bit_eq_mod)
  moreover have "unat w mod 2 ^ k < 2 ^ 32" using k power_strict_increasing [of k 32 "2 :: nat"] by (intro less_trans [OF mod_less_divisor]) simp_all
  ultimately show ?thesis by (simp add: unsigned_ucast_eq take_bit_nat_eq_self)
qed

text \<open>A stage of a request, and how stages follow one another.\<close>

definition stage :: "'m driver \<Rightarrow> ('m \<Rightarrow> nat \<Rightarrow> u8) \<Rightarrow> bool \<Rightarrow> 'm amiga_dev \<Rightarrow> u8 list \<Rightarrow> nat \<Rightarrow> int \<Rightarrow> u8 list \<Rightarrow> 'm amiga_dev \<Rightarrow> bool" where
  "stage drv contents wr dev buf p rc b dev' \<longleftrightarrow>
     same_unit dev dev' \<and> length (ad_bounce dev') = BS dev \<and> (coherent contents dev \<and> (wr \<or> takes_all dev) \<longrightarrow> coherent contents dev') \<and>
     length b = length buf \<and> (rc = 0 \<or> rc = - 1) \<and>
     (\<not> wr \<longrightarrow> contents (ad_medium dev') = contents (ad_medium dev)) \<and> (faultless drv \<longrightarrow> rc = 0) \<and>
     (rc = 0 \<longrightarrow> transferred contents wr buf p (ad_medium dev) b (ad_medium dev'))"

lemma stage_empty: "unit_ok drv' contents' limit dev \<Longrightarrow> stage drv contents wr dev [] p 0 [] dev"
  by (simp add: stage_def transferred_Nil unit_ok_def)

lemma stage_seq:
  assumes "stage drv contents wr dev a p 0 a' dev'" "stage drv contents wr dev' b (p + length a) rc b' dev''"
  shows "stage drv contents wr dev (a @ b) p rc (a' @ b') dev''"
  using assms transferred_append [of contents wr a p "ad_medium dev" a' "ad_medium dev'" b b' "ad_medium dev''"]
    same_unit_trans [of dev dev' dev''] same_unit_fields [of dev dev'] unfolding stage_def takes_all_def by auto

lemma stage_stop:
  assumes "stage drv contents wr dev a p rc a' dev'" "rc \<noteq> 0"
  shows "stage drv contents wr dev (a @ b) p (- 1) (a' @ b) dev'"
  using assms unfolding stage_def by auto

lemma aligned_io_stage:
  assumes "unit_ok drv contents limit dev" "BS dev dvd length buf" "BS dev dvd unat off" "unat off + length buf \<le> limit" "unat off + length buf < 2 ^ 64"
  shows "\<exists>rc b dev'. aligned_io drv dev wr addr buf off = Some (rc, b, dev') \<and> stage drv contents wr dev buf (unat off) rc b dev' \<and>
    (\<not> wr \<longrightarrow> ad_bounce_lba dev' = ad_bounce_lba dev)"
proof -
  define d where "d = (if wr then dev\<lparr>ad_bounce_lba := NO_BLOCK\<rparr> else dev)"
  have d: "same_unit dev d" "ad_medium d = ad_medium dev" "length (ad_bounce d) = BS dev" "ad_bounce d = ad_bounce dev"
    "ad_bounce_lba d = (if wr then NO_BLOCK else ad_bounce_lba dev)"
    using assms(1) by (auto simp: d_def unit_ok_def)
  have f: "BS d = BS dev" "takes_all d = takes_all dev" using same_unit_fields [OF d(1)] by (simp_all add: takes_all_def)
  obtain rc b dev' where r: "aligned_loop drv d wr addr buf off = Some (rc, b, dev')" "same_unit d dev'"
    "ad_bounce_lba dev' = ad_bounce_lba d" "length (ad_bounce dev') = BS dev" "takes_all dev \<longrightarrow> ad_bounce dev' = ad_bounce d"
    "length b = length buf" "rc = 0 \<or> rc = - 1" "\<not> wr \<longrightarrow> contents (ad_medium dev') = contents (ad_medium dev)" "faultless drv \<longrightarrow> rc = 0"
    "rc = 0 \<longrightarrow> transferred contents wr buf (unat off) (ad_medium dev) b (ad_medium dev')"
    using aligned_loop_ok [OF unit_ok_same [OF assms(1) d(1,3)] _ _ assms(4,5), of wr addr] assms(2,3) unfolding f d(2) by blast
  have s: "same_unit dev dev'" by (rule same_unit_trans [OF d(1) r(2)])
  have "coherent contents dev'" if "coherent contents dev" "wr \<or> takes_all dev"
    using that r(3,5,8) d(4,5) same_unit_fields [OF s] by (cases wr) (auto simp: coherent_def noted_def)
  then show ?thesis using r(1,3-10) s d(5) unfolding aligned_io_def d_def [symmetric] stage_def by auto
qed

lemma part_io_stage:
  assumes "unit_ok drv contents limit dev" "noted contents dev blockoff" "unat blockoff < limit" "blockoff \<noteq> NO_BLOCK"
    "BS dev dvd unat blockoff" "head + length part \<le> BS dev"
  shows "\<exists>rc b dev'. part_io drv dev wr part blockoff head = (rc, b, dev') \<and> stage drv contents wr dev part (unat blockoff + head) rc b dev' \<and>
    coherent contents dev' \<and> (rc = 0 \<longrightarrow> ad_bounce_lba dev' = blockoff)"
proof -
  obtain rc b dev' where "part_io drv dev wr part blockoff head = (rc, b, dev')" by (metis prod_cases3)
  with part_io_ok [OF assms this] show ?thesis by (auto simp: stage_def)
qed

lemma not_no_block: "unat w < 2 ^ 64 - 1 \<Longrightarrow> w \<noteq> NO_BLOCK"
  by (auto simp: NO_BLOCK_def unsigned_minus_1_eq_mask mask_eq_exp_minus_1)

text \<open>The three parts of a request: the rest of a block, whole blocks, the beginning of a block.\<close>

lemma head_stage:
  assumes "unit_ok drv contents limit dev" "coherent contents dev" "BS dev = 2 ^ k" "unat pos = p" "head = p mod 2 ^ k"
    and "p + length part \<le> limit" "p + length part < 2 ^ 64" "if head = 0 then part = [] else part \<noteq> [] \<and> head + length part \<le> BS dev"
  shows "\<exists>rc b d. (if head = 0 then (0, [], dev) else part_io drv dev wr part (pos - of_nat head) head) = (rc, b, d) \<and>
    stage drv contents wr dev part p rc b d \<and> coherent contents d \<and>
    (rc = 0 \<longrightarrow> ad_bounce_lba d = ad_bounce_lba dev \<or> unat (ad_bounce_lba d) < p)"
proof (cases "head = 0")
  case True
  then show ?thesis using stage_empty [OF assms(1)] assms(2,8) by simp
next
  case False
  then have part: "0 < length part" "head + length part \<le> BS dev" using assms(8) by auto
  have le: "head \<le> p" by (simp add: assms(5))
  then have first: "unat (pos - of_nat head) = p - head"
    using unat_sub [of "of_nat head" pos] assms(4,7) by (simp add: word_le_nat_alt unat_of_nat)
  have lt: "unat (pos - of_nat head) < limit" "unat (pos - of_nat head) < 2 ^ 64 - 1" using first part(1) assms(6,7) by linarith+
  have "BS dev dvd unat (pos - of_nat head)" unfolding first assms(3) unfolding assms(5) by (rule dvd_minus_mod)
  moreover note nb = not_no_block [OF lt(2)]
  ultimately show ?thesis
    using part_io_stage [OF assms(1) coherent_noted [OF assms(2) nb] lt(1) nb _ part(2), of wr] first le False by auto
qed

lemma blocks_stage:
  assumes "unit_ok drv contents limit dev" "BS dev dvd m" "m = length part" "part \<noteq> [] \<longrightarrow> BS dev dvd unat pos"
    and "unat pos + length part \<le> limit" "unat pos + length part < 2 ^ 64"
  shows "\<exists>rc b d. (if m = 0 then Some (0, [], dev) else aligned_io drv dev wr addr part pos) = Some (rc, b, d) \<and>
    stage drv contents wr dev part (unat pos) rc b d \<and> (\<not> wr \<longrightarrow> ad_bounce_lba d = ad_bounce_lba dev)"
proof (cases "m = 0")
  case True
  then show ?thesis using stage_empty [OF assms(1)] assms(3) by simp
next
  case False
  then show ?thesis using aligned_io_stage [OF assms(1) _ _ assms(5,6)] assms(2-4) by auto
qed

lemma tail_stage:
  assumes "unit_ok drv contents limit dev" "part \<noteq> []" "BS dev dvd unat pos" "length part \<le> BS dev"
    and "unat pos + length part \<le> limit" "unat pos + length part < 2 ^ 64" "pos \<noteq> NO_BLOCK \<Longrightarrow> noted contents dev pos"
  shows "\<exists>rc b d. part_io drv dev wr part pos 0 = (rc, b, d) \<and> stage drv contents wr dev part (unat pos) rc b d"
proof -
  have "0 < length part" using assms(2) by simp
  then have lt: "unat pos < limit" "unat pos < 2 ^ 64 - 1" using assms(5,6) by linarith+
  note nb = not_no_block [OF lt(2)]
  show ?thesis using part_io_stage [OF assms(1) assms(7) [OF nb] lt(1) nb assms(3), of 0 part wr] assms(4) by auto
qed

lemma behind_head:
  fixes p :: nat
  assumes "n = (if p mod 2 ^ k = 0 then 0 else min (2 ^ k - p mod 2 ^ k) l)" "n < l"
  shows "2 ^ k dvd p + n"
proof (cases "p mod 2 ^ k = 0")
  case True
  then show ?thesis using assms(1) by (simp add: dvd_eq_mod_eq_0)
next
  case False
  then have "n = 2 ^ k - p mod 2 ^ k" using assms by (auto simp: min_def split: if_splits)
  moreover have "p mod 2 ^ k < 2 ^ k" "p mod 2 ^ k \<le> p" by simp_all
  ultimately have "p + n = p - p mod 2 ^ k + 2 ^ k" by linarith
  then show ?thesis by (metis dvd_add dvd_minus_mod dvd_refl)
qed

lemma stage_unit:
  assumes "unit_ok drv contents limit dev" "stage drv contents wr dev a p rc b d"
  shows "unit_ok drv contents limit d" "ad_blocksize d = ad_blocksize dev" "ad_blockmask d = ad_blockmask dev"
  using assms(2) unit_ok_same [OF assms(1), of d] same_unit_fields [of dev d] by (simp_all add: stage_def)

text \<open>The place of the last, incomplete block of a request.\<close>

lemma last_block:
  fixes q :: nat
  assumes "q \<le> e" "e - q < bs" "bs dvd q"
  shows "q = e - e mod bs"
proof -
  obtain r where r: "e = q + r" "r < bs" using assms(1,2) by (metis le_add_diff_inverse)
  then have "e mod bs = r" using assms(3) by (auto simp: mod_add_eq [symmetric] dvd_eq_mod_eq_0)
  then show ?thesis using r(1) by simp
qed

lemma partition_io_ok:
  assumes "unit_ok drv contents limit dev" "coherent contents dev" "0 \<le> offset" "buffer \<noteq> []" "offset + int (length buffer) \<le> ad_size dev"
    "length buffer < 2 ^ 32"
  defines "p \<equiv> unat (ad_firstbyte dev) + nat offset"
  assumes "wr \<or> takes_all dev \<or> unat (ad_bounce_lba dev) \<noteq> p + length buffer - (p + length buffer) mod BS dev"
  shows "\<exists>n b dev'. partition_io drv dev wr addr buffer offset = Some (n, b, dev') \<and>
    stage drv contents wr dev buffer p (if n < 0 then - 1 else 0) b dev' \<and> (n = int (length buffer) \<or> n = - 1)"
proof -
  obtain k where k: "k < 32" "BS dev = 2 ^ k" "ad_blockmask dev = mask k" using unit_block [OF assms(1)] .
  define abs where "abs = ad_firstbyte dev + word_of_int offset"
  have lo: "nat offset + length buffer \<le> nat (ad_size dev)" using assms(3,5) by linarith
  then have range: "p + length buffer \<le> limit" "p + length buffer < 2 ^ 64" using assms(1) by (simp_all add: unit_ok_def p_def)
  have abs: "unat abs = p"
    using range(2) assms(3) unat_add_nat_u64 [of "ad_firstbyte dev" "nat offset"] by (simp add: abs_def p_def)
  define head where "head = p mod 2 ^ k"
  have head: "unat (ucast abs AND ad_blockmask dev :: u32) = head" using block_rest [OF k(1), of abs] by (simp add: k(3) abs head_def)
  define n where "n = (if head = 0 then 0 else min (BS dev - head) (length buffer))"
  have hk: "head < 2 ^ k" by (simp add: head_def)
  then have np: "n \<le> length buffer" "head + n \<le> BS dev" using k(2) by (auto simp: n_def)
  define buf where "buf = drop n buffer"
  have whole: "take n buffer @ buf = buffer" and bl: "length buf = length buffer - n" by (simp_all add: buf_def)
  define m where "m = (if BS dev \<le> length buf then unat (of_nat (length buf) AND NOT (ad_blockmask dev)) else 0)"
  have "length buf < 2 ^ 32" using assms(6) bl by simp
  then have "m = length buf - length buf mod 2 ^ k" by (auto simp: m_def k(2,3) round_down unat_of_nat)
  then have m: "m \<le> length buf" "2 ^ k dvd m" "length buf - m < 2 ^ k" by (simp_all add: dvd_minus_mod)
  have absn: "unat (abs + of_nat n) = p + n" using unat_add_nat_u64 [of abs n] abs range(2) np(1) by simp
  have absm: "unat (abs + of_nat n + of_nat m) = p + n + m"
    using unat_add_nat_u64 [of "abs + of_nat n" m] absn range(2) m(1) bl np(1) by simp
  have al: "2 ^ k dvd p + n" if "buf \<noteq> []"
  proof (rule behind_head)
    show "n = (if p mod 2 ^ k = 0 then 0 else min (2 ^ k - p mod 2 ^ k) (length buffer))" by (simp only: n_def k(2) head_def)
  qed (use that in \<open>simp add: buf_def\<close>)
  have "0 < n" if "head \<noteq> 0" using that hk k(2) assms(4) by (simp add: n_def)
  then have part: "if head = 0 then take n buffer = [] else take n buffer \<noteq> [] \<and> head + length (take n buffer) \<le> BS dev"
    using np assms(4) by (auto simp: n_def)
  have len: "p + length (take n buffer) \<le> limit" "p + length (take n buffer) < 2 ^ 64" using range np(1) by simp_all
  obtain r1 b1 d1 where st1: "(if head = 0 then (0, [], dev) else part_io drv dev wr (take n buffer) (abs - of_nat head) head) = (r1, b1, d1)"
      "stage drv contents wr dev (take n buffer) p r1 b1 d1" "r1 = 0 \<longrightarrow> ad_bounce_lba d1 = ad_bounce_lba dev \<or> unat (ad_bounce_lba d1) < p"
    using head_stage [OF assms(1,2) k(2) abs head_def len part, of wr] by blast
  note u1 = stage_unit [OF assms(1) st1(2)]
  have "p + n + m \<le> p + length buffer" using m(1) bl np(1) by linarith
  then have blocks: "BS d1 dvd m" "m = length (take m buf)" "take m buf \<noteq> [] \<longrightarrow> BS d1 dvd unat (abs + of_nat n)"
    "unat (abs + of_nat n) + length (take m buf) \<le> limit" "unat (abs + of_nat n) + length (take m buf) < 2 ^ 64"
    using m(1,2) al u1(2) k(2) absn range by auto
  obtain r2 b2 d2 where st2: "(if m = 0 then Some (0, [], d1) else aligned_io drv d1 wr (addr + of_nat n) (take m buf) (abs + of_nat n)) = Some (r2, b2, d2)"
      "stage drv contents wr d1 (take m buf) (p + n) r2 b2 d2" "\<not> wr \<longrightarrow> ad_bounce_lba d2 = ad_bounce_lba d1"
    using blocks_stage [OF u1(1) blocks(1-4), of wr "addr + of_nat n"] blocks(5) absn by auto
  have eq: "partition_io drv dev wr addr buffer offset =
      (if r1 \<noteq> 0 then Some (- 1, b1 @ buf, d1)
       else if r2 \<noteq> 0 then Some (- 1, b1 @ b2 @ drop m buf, d2)
       else if drop m buf = [] then Some (int (length buffer), b1 @ b2, d2)
       else let (rc, b3, d3) = part_io drv d2 wr (drop m buf) (abs + of_nat n + of_nat m) 0
            in if rc \<noteq> 0 then Some (- 1, b1 @ b2 @ b3, d3) else Some (int (length buffer), b1 @ b2 @ b3, d3))"
  proof -
    have c: "(offset < 0 \<or> buffer = [] \<or> ad_size dev \<le> offset) = False" "(ad_size dev < offset + int (length buffer)) = False"
      using assms(3-5) by (cases buffer; simp)+
    show ?thesis
      unfolding partition_io_def Let_def abs_def [symmetric] head n_def [symmetric] st1(1) prod.case u1(2,3)
        buf_def [symmetric] m_def [symmetric] c if_False st2(1) bind.bind_lunit ..
  qed
  show ?thesis
  proof (cases "r1 = 0")
    case False
    then show ?thesis using eq stage_stop [OF st1(2) False, of buf] by (simp add: whole)
  next
    case True
    have st12: "stage drv contents wr dev (take n buffer @ take m buf) p r2 (b1 @ b2) d2"
      using stage_seq [OF st1(2) [unfolded True], of "take m buf" r2 b2 d2] st2(2) np(1) by (simp add: min_def)
    note u2 = stage_unit [OF assms(1) st12]
    have lens: "length (take n buffer) = n" "length (take m buf) = m" using np(1) m(1) by simp_all
    consider "r2 \<noteq> 0" | "r2 = 0" "drop m buf = []" | "r2 = 0" "drop m buf \<noteq> []" by blast
    then show ?thesis
    proof cases
      case 1
      then show ?thesis using eq True stage_stop [OF st12 1, of "drop m buf"] whole by simp
    next
      case 2
      then have "take n buffer @ take m buf = buffer" using whole by (metis append_Nil2 append_take_drop_id)
      then show ?thesis using eq True 2 st12 by simp
    next
      case 3
      then have "buf \<noteq> []" by auto
      then have al2: "2 ^ k dvd p + n + m" using al m(2) by (simp add: dvd_add)
      have "p + n + m = p + length buffer - (p + length buffer) mod 2 ^ k" using m(1,3) bl np(1) by (intro last_block al2) auto
      then have ne: "ad_bounce_lba d2 \<noteq> abs + of_nat n + of_nat m" if "\<not> (wr \<or> takes_all dev)"
        using that assms(8) True st1(3) st2(3) absm k(2) by auto
      have "coherent contents d2" if "wr \<or> takes_all dev" using that st12 assms(2) by (simp add: stage_def)
      with ne have "noted contents d2 (abs + of_nat n + of_nat m)" if "abs + of_nat n + of_nat m \<noteq> NO_BLOCK"
        using that coherent_noted [of contents d2] by (cases "wr \<or> takes_all dev") (blast, simp add: noted_def)
      moreover have "BS d2 dvd unat (abs + of_nat n + of_nat m)" using al2 k(2) u2(2) by (simp add: absm)
      ultimately obtain r3 b3 d3 where st3: "part_io drv d2 wr (drop m buf) (abs + of_nat n + of_nat m) 0 = (r3, b3, d3)"
        "stage drv contents wr d2 (drop m buf) (p + n + m) r3 b3 d3"
        using tail_stage [OF u2(1) 3(2), of "abs + of_nat n + of_nat m" wr] m k(2) u2(2) absm range bl np(1) by auto
      have "stage drv contents wr dev ((take n buffer @ take m buf) @ drop m buf) p r3 ((b1 @ b2) @ b3) d3"
        using stage_seq [of drv contents wr dev "take n buffer @ take m buf" p "b1 @ b2" d2 "drop m buf" r3 b3 d3] st12 3(1) st3(2) lens
        by (simp add: add.assoc del: length_take)
      then have "stage drv contents wr dev buffer p r3 (b1 @ b2 @ b3) d3" by (simp add: whole)
      moreover have "r3 = 0 \<or> r3 = - 1" using st3(2) by (simp add: stage_def)
      ultimately show ?thesis using eq True 3 st3(1) by auto
    qed
  qed
qed

section \<open>Properties\<close>

text \<open>
  C37: the AmigaOS back end is a store of bytes.  A request inside the partition, however it lies on the blocks, and whether its whole blocks
  go to the driver directly or, for a buffer outside the mask of the driver, one by one through the block buffer, returns
  its full length or \<open>- 1\<close>, and the full length whenever the driver reports no fault.  With the full length a write has stored
  its bytes at the offset, counted from the beginning of the partition, and nothing else; a read returns the bytes there
  and never changes the medium.  The request may rely on the block that is in memory from earlier requests if that is a true copy of the
  medium and, for a read from a driver with a mask, not the last block of the request.  After a write, and after a read from a driver that takes
  every address, the block in memory is a true copy again; after a read through the block buffer it need not be (C39).
\<close>

theorem partition_io_correct:
  assumes "unit_ok drv contents limit dev" "coherent contents dev" "0 \<le> offset" "buffer \<noteq> []" "offset + int (length buffer) \<le> ad_size dev"
    "length buffer < 2 ^ 32"
    "wr \<or> takes_all dev \<or> unat (ad_bounce_lba dev) \<noteq>
       unat (ad_firstbyte dev) + nat offset + length buffer - (unat (ad_firstbyte dev) + nat offset + length buffer) mod BS dev"
  shows "\<exists>n b dev'. partition_io drv dev wr addr buffer offset = Some (n, b, dev') \<and> unit_ok drv contents limit dev' \<and>
    (wr \<or> takes_all dev \<longrightarrow> coherent contents dev') \<and>
    (n = int (length buffer) \<or> n = - 1) \<and> (faultless drv \<longrightarrow> n = int (length buffer)) \<and>
    (\<not> wr \<longrightarrow> contents (ad_medium dev') = contents (ad_medium dev)) \<and>
    (n = int (length buffer) \<longrightarrow>
       (if wr then contents (ad_medium dev') = store (contents (ad_medium dev)) (unat (ad_firstbyte dev) + nat offset) buffer
        else b = map (contents (ad_medium dev))
               [unat (ad_firstbyte dev) + nat offset..<unat (ad_firstbyte dev) + nat offset + length buffer]))"
proof -
  obtain n b dev' where io: "partition_io drv dev wr addr buffer offset = Some (n, b, dev')"
    "stage drv contents wr dev buffer (unat (ad_firstbyte dev) + nat offset) (if n < 0 then - 1 else 0) b dev'"
    "n = int (length buffer) \<or> n = - 1" using partition_io_ok [OF assms] by blast
  then have "unit_ok drv contents limit dev'" using stage_unit(1) [OF assms(1)] by blast
  then show ?thesis using io assms(2) by (auto simp: stage_def transferred_def split: if_splits)
qed

text \<open>
  The device as the library sees it, in the place of the POSIX calls.  As long as the medium stays the same and the driver takes every address
  and reports no faults, a transfer inside the partition has the result of the POSIX call on this view, and leaves the view as that does; the
  other layers of the handler are modelled on this view.
\<close>

definition device_view :: "('m \<Rightarrow> nat \<Rightarrow> u8) \<Rightarrow> 'm amiga_dev \<Rightarrow> exfat_dev" where
  "device_view contents dev =
     \<lparr>dev_mode = ad_mode dev, dev_size = ad_size dev, dev_pos = ad_pos dev,
      dev_data = (\<lambda>i. contents (ad_medium dev) (unat (ad_firstbyte dev) + i)),
      dev_bad_read = (\<lambda>_ _. False), dev_bad_write = (\<lambda>_ _. False), dev_sync_ok = True\<rparr>"

lemma device_view_same:
  "same_unit dev dev' \<Longrightarrow> device_view contents dev' =
     (device_view contents dev)\<lparr>dev_data := (\<lambda>i. contents (ad_medium dev') (unat (ad_firstbyte dev) + i))\<rparr>"
  by (cases dev; cases dev'; simp add: same_unit_def device_view_def)

lemma shifted_window: "map (\<lambda>i. f (k + i)) [a..<a + n] = map f [k + a..<k + a + n]" for f :: "nat \<Rightarrow> u8"
  by (rule nth_equalityI) (auto simp: add.assoc)

lemma shifted_store: "(\<lambda>i. store f (k + a) bs (k + i)) = store (\<lambda>i. f (k + i)) a bs"
  by (auto simp: store_def fun_eq_iff)

theorem device_view_refined:
  assumes "unit_ok drv contents limit dev" "coherent contents dev" "takes_all dev" "faultless drv"
    "0 \<le> offset" "buffer \<noteq> []" "offset + int (length buffer) \<le> ad_size dev" "length buffer < 2 ^ 32"
  shows "\<exists>n b dev'. amiga_pread drv dev addr buffer offset = Some (n, b, dev') \<and>
      (n, b) = exfat_pread (device_view contents dev) buffer (length buffer) offset \<and>
      device_view contents dev' = device_view contents dev \<and> unit_ok drv contents limit dev' \<and> coherent contents dev' \<and> takes_all dev'"
    "ad_mode dev \<noteq> EXFAT_MODE_RO \<Longrightarrow> \<exists>n b dev'. amiga_pwrite drv dev addr buffer offset = Some (n, b, dev') \<and>
      (n, device_view contents dev') = exfat_pwrite (device_view contents dev) buffer (length buffer) offset \<and>
      unit_ok drv contents limit dev' \<and> coherent contents dev' \<and> takes_all dev'"
proof -
  let ?p = "unat (ad_firstbyte dev) + nat offset" and ?v = "device_view contents dev"
  have io: "\<exists>n b dev'. partition_io drv dev wr addr buffer offset = Some (n, b, dev') \<and>
    stage drv contents wr dev buffer ?p (if n < 0 then - 1 else 0) b dev' \<and> (n = int (length buffer) \<or> n = - 1)" for wr
    using partition_io_ok [OF assms(1,2,5-8), of wr addr] assms(3) by blast
  have inside: "int (nat offset + length buffer) \<le> dev_size ?v" "int (nat offset) = offset" using assms(5,7) by (simp_all add: device_view_def)
  have lt: "offset < ad_size dev" using assms(6,7) by (cases buffer) auto
  have kept: "unit_ok drv contents limit dev' \<and> coherent contents dev' \<and> takes_all dev'" if "stage drv contents wr dev buffer ?p rc b dev'" for wr rc b dev'
    using stage_unit(1) [OF assms(1) that] that assms(2,3) same_unit_fields [of dev dev'] by (auto simp: stage_def takes_all_def)
  show "\<exists>n b dev'. amiga_pread drv dev addr buffer offset = Some (n, b, dev') \<and> (n, b) = exfat_pread ?v buffer (length buffer) offset \<and>
      device_view contents dev' = ?v \<and> unit_ok drv contents limit dev' \<and> coherent contents dev' \<and> takes_all dev'"
  proof -
    obtain n b dev' where r: "partition_io drv dev False addr buffer offset = Some (n, b, dev')"
      "stage drv contents False dev buffer ?p (if n < 0 then - 1 else 0) b dev'" "n = int (length buffer) \<or> n = - 1" using io by blast
    have "exfat_pread ?v buffer (length buffer) (int (nat offset)) = (int (length buffer), map (dev_data ?v) [nat offset..<nat offset + length buffer])"
      using inside by (intro exfat_pread_full) (simp_all add: dev_readable_def device_view_def)
    moreover have "device_view contents dev' = ?v" using r(2) device_view_same [of dev dev' contents] by (simp add: stage_def device_view_def)
    ultimately show ?thesis
      using r assms(4) kept [OF r(2)] unfolding inside(2) by (auto simp: amiga_pread_def stage_def transferred_def device_view_def shifted_window split: if_splits)
  qed
  show "\<exists>n b dev'. amiga_pwrite drv dev addr buffer offset = Some (n, b, dev') \<and> (n, device_view contents dev') = exfat_pwrite ?v buffer (length buffer) offset \<and>
      unit_ok drv contents limit dev' \<and> coherent contents dev' \<and> takes_all dev'" if "ad_mode dev \<noteq> EXFAT_MODE_RO"
  proof -
    obtain n b dev' where r: "partition_io drv dev True addr buffer offset = Some (n, b, dev')"
      "stage drv contents True dev buffer ?p (if n < 0 then - 1 else 0) b dev'" "n = int (length buffer) \<or> n = - 1" using io by blast
    have "exfat_pwrite ?v buffer (length buffer) (int (nat offset)) = (int (length buffer), ?v\<lparr>dev_data := store (dev_data ?v) (nat offset) buffer\<rparr>)"
      using inside that lt by (auto simp: exfat_pwrite_def sys_pwrite_def Let_def device_view_def)
    moreover have "device_view contents dev' = ?v\<lparr>dev_data := store (dev_data ?v) (nat offset) buffer\<rparr>"
      using r assms(4) device_view_same [of dev dev' contents]
      by (auto simp: stage_def transferred_def shifted_store device_view_def split: if_splits)
    ultimately show ?thesis using r assms(4) kept [OF r(2)] unfolding inside(2) by (auto simp: amiga_pwrite_def stage_def split: if_splits)
  qed
qed

section \<open>A block that is not what it is said to be\<close>

text \<open>
  A read that lies inside the block that is noted is answered from memory, and the driver is not asked: a card that has been
  exchanged since then makes no difference.  A read of whole blocks always asks the driver.
\<close>

lemma held_block_answers:
  assumes "k < 32" "BS dev = 2 ^ k" "ad_blockmask dev = mask k" "0 \<le> offset" "buffer \<noteq> []" "offset + int (length buffer) \<le> ad_size dev"
  defines "p \<equiv> unat (ad_firstbyte dev) + nat offset"
  assumes "p < 2 ^ 64" "p mod 2 ^ k + length buffer \<le> 2 ^ k" "p mod 2 ^ k \<noteq> 0 \<or> length buffer < 2 ^ k" "unat (ad_bounce_lba dev) = p - p mod 2 ^ k"
  shows "amiga_pread drv dev addr buffer offset =
    Some (int (length buffer), take (length buffer) (drop (p mod 2 ^ k) (ad_bounce dev)), dev)"
proof -
  define abs where "abs = ad_firstbyte dev + word_of_int offset"
  have abs: "unat abs = p"
    using assms(4,8) unat_add_nat_u64 [of "ad_firstbyte dev" "nat offset"] by (simp add: abs_def p_def)
  have head: "unat (ucast abs AND ad_blockmask dev :: u32) = p mod 2 ^ k" using block_rest [OF assms(1), of abs] by (simp add: assms(3) abs)
  have le: "p mod 2 ^ k \<le> p" by simp
  then have "p mod 2 ^ k < 2 ^ 64" using assms(8) by linarith
  then have "unat (of_nat (p mod 2 ^ k) :: u64) = p mod 2 ^ k" by (simp add: unat_of_nat)
  then have "unat (abs - of_nat (p mod 2 ^ k)) = p - p mod 2 ^ k" using le by (simp add: unat_sub word_le_nat_alt abs)
  then have lba: "ad_bounce_lba dev = abs - of_nat (p mod 2 ^ k)" using assms(11) by (simp add: word_unat_eq_iff)
  have c: "(offset < 0 \<or> buffer = [] \<or> ad_size dev \<le> offset) = False" "(ad_size dev < offset + int (length buffer)) = False"
    using assms(4-6) by (cases buffer; simp)+
  show ?thesis
  proof (cases "p mod 2 ^ k = 0")
    case True
    then show ?thesis
      unfolding amiga_pread_def partition_io_def Let_def abs_def [symmetric] head c if_False
      using assms(2,5,10) lba by (simp add: part_io_def fetch_block_def)
  next
    case False
    then have "min (BS dev - p mod 2 ^ k) (length buffer) = length buffer" using assms(2,9) by simp
    then show ?thesis
      unfolding amiga_pread_def partition_io_def Let_def abs_def [symmetric] head c if_False
      using assms(2,5) lba False by (simp add: part_io_def fetch_block_def)
  qed
qed

lemma whole_blocks_ask_the_driver:
  assumes "unit_ok drv contents limit dev" "faultless drv" "0 \<le> offset" "buffer \<noteq> []" "offset + int (length buffer) \<le> ad_size dev"
    "length buffer < 2 ^ 32" "BS dev dvd length buffer" "BS dev dvd unat (ad_firstbyte dev) + nat offset"
  shows "\<exists>dev'. amiga_pread drv dev addr buffer offset =
    Some (int (length buffer), map (contents (ad_medium dev))
      [unat (ad_firstbyte dev) + nat offset..<unat (ad_firstbyte dev) + nat offset + length buffer], dev')"
proof -
  let ?p = "unat (ad_firstbyte dev) + nat offset"
  obtain k where k: "k < 32" "BS dev = 2 ^ k" "ad_blockmask dev = mask k" using unit_block [OF assms(1)] .
  define abs where "abs = ad_firstbyte dev + word_of_int offset"
  have "nat offset + length buffer \<le> nat (ad_size dev)" using assms(3,5) by linarith
  then have range: "?p + length buffer \<le> limit" "?p + length buffer < 2 ^ 64" using assms(1) by (simp_all add: unit_ok_def)
  have abs: "unat abs = ?p" using range(2) assms(3) unat_add_nat_u64 [of "ad_firstbyte dev" "nat offset"] by (simp add: abs_def)
  have head: "unat (ucast abs AND ad_blockmask dev :: u32) = 0"
    using block_rest [OF k(1), of abs] assms(8) k(2) by (simp add: k(3) abs dvd_eq_mod_eq_0)
  have bs: "BS dev \<le> length buffer" using assms(4,7) by (intro dvd_imp_le) simp_all
  have whole: "unat (of_nat (length buffer) AND NOT (ad_blockmask dev) :: u32) = length buffer"
    using assms(6,7) k(2) by (simp add: k(3) round_down unat_of_nat dvd_eq_mod_eq_0)
  have c: "(offset < 0 \<or> buffer = [] \<or> ad_size dev \<le> offset) = False" "(ad_size dev < offset + int (length buffer)) = False"
    using assms(3-5) by (cases buffer; simp)+
  obtain rc b d where r: "aligned_io drv dev False addr buffer abs = Some (rc, b, d)" "stage drv contents False dev buffer ?p rc b d"
    using aligned_io_stage [OF assms(1,7), of abs False addr] abs assms(8) range by auto
  have "rc = 0" "b = map (contents (ad_medium dev)) [?p..<?p + length buffer]" using r(2) assms(2) by (auto simp: stage_def transferred_def)
  then show ?thesis
    unfolding amiga_pread_def partition_io_def Let_def abs_def [symmetric] head c if_False
    using bs whole r(1) \<open>rc = 0\<close> assms(4) by simp
qed

text \<open>
  A driver whose medium is its state, that transfers whatever it is asked for; and a card whose blocks of 512 bytes each
  hold one value: block 0 the value 0, block 1 the value 1, and so on.
\<close>

definition ram_driver :: "(nat \<Rightarrow> u8) driver" where
  "ram_driver = \<lparr>
     drv_io = (\<lambda>m cmd data len lo hi.
       if cmd = CMD_WRITE \<or> cmd = TD_WRITE64 \<or> cmd = NSCMD_TD_WRITE64 then (0, len, data, store m (position lo hi) data)
       else (0, len, map m [position lo hi..<position lo hi + length data], m)),
     drv_query = (\<lambda>m. None),
     drv_control = (\<lambda>m cmd. (0, 0, m))\<rparr>"

lemma ram_driver_laws: "driver_laws ram_driver id bs CMD_READ CMD_WRITE limit"
  by (auto simp: driver_laws_def ram_driver_def CMD_READ_def CMD_WRITE_def TD_WRITE64_def NSCMD_TD_WRITE64_def)

lemma ram_driver_faultless: "faultless ram_driver"
  by (auto simp: faultless_def ram_driver_def)

definition sd_card :: "u32 \<Rightarrow> (nat \<Rightarrow> u8) amiga_dev" where
  "sd_card dma = \<lparr>ad_medium = (\<lambda>i. of_nat (i div 512)), ad_mode = EXFAT_MODE_RW, ad_firstbyte = 0, ad_size = 4096, ad_pos = 0,
     ad_blocksize = 512, ad_blockmask = 511, ad_maxtransfer = 0, ad_mask = dma, ad_cmd_read = CMD_READ, ad_cmd_write = CMD_WRITE,
     ad_bounce = replicate 512 0, ad_bounce_lba = NO_BLOCK\<rparr>"

lemma ram_raw_read:
  "raw_io ram_driver dev False buf off = (0, map (ad_medium dev) [unat off..<unat off + length buf], dev)" if "ad_cmd_read dev = CMD_READ"
  using that split_position [of off]
  by (simp add: raw_io_def ram_driver_def CMD_READ_def CMD_WRITE_def TD_WRITE64_def NSCMD_TD_WRITE64_def)

definition block_of :: "nat \<Rightarrow> u8 list" where
  "block_of p = map (\<lambda>i. of_nat (i div 512)) [p..<p + 512]"

lemma length_block_of [simp]: "length (block_of p) = 512"
  by (simp add: block_of_def)

text \<open>Reading part of block 1: the block is fetched and kept, or taken from memory when it is said to be there.\<close>

lemma one_of: "i < length xs \<Longrightarrow> take (Suc 0) (drop i xs) = [xs ! i]"
  by (simp add: take_Suc hd_drop_conv_nth)

lemma card_part_read:
  fixes dma :: u32
  defines "dev \<equiv> (\<lambda>b l. (sd_card dma)\<lparr>ad_bounce := b, ad_bounce_lba := l\<rparr>)"
  assumes "length b = 512"
  shows "amiga_pread ram_driver (dev b l) addr [0] 516 =
    (if l = 512 then Some (1, [b ! 4], dev b l) else Some (1, [1], dev (block_of 512) 512))"
proof -
  have "take (Suc 0) (drop 4 (block_of 512)) = [1]" by (simp add: one_of) (simp add: block_of_def del: upt_rec_numeral)
  then show ?thesis
    using assms(2)
    by (simp add: amiga_pread_def partition_io_def part_io_def fetch_block_def ram_raw_read dev_def sd_card_def Let_def block_of_def one_of
        del: upt_rec_numeral drop_map)
qed

text \<open>Reading the whole of block 2 into memory that the driver cannot reach goes through the block buffer.\<close>

lemma card_bounced_read:
  assumes "length b = 512"
  shows "amiga_pread ram_driver ((sd_card 0x00ffffff)\<lparr>ad_bounce := b, ad_bounce_lba := l\<rparr>) 0x08000000 (replicate 512 0) 1024 =
    Some (512, block_of 1024, (sd_card 0x00ffffff)\<lparr>ad_bounce := block_of 1024, ad_bounce_lba := l\<rparr>)"
proof -
  let ?d = "(sd_card 0x00ffffff)\<lparr>ad_bounce := b, ad_bounce_lba := l\<rparr>"
  have "aligned_io ram_driver ?d False 0x08000000 (replicate 512 0) 1024 =
      Some (0, block_of 1024, (sd_card 0x00ffffff)\<lparr>ad_bounce := block_of 1024, ad_bounce_lba := l\<rparr>)"
    using assms
    by (simp add: aligned_io_def aligned_loop.simps [of _ _ _ _ "replicate _ _"] aligned_loop.simps [of _ _ _ _ "[]"]
       chunk_io_def ram_raw_read sd_card_def block_of_def Let_def del: upt_rec_numeral)
  then show ?thesis
    by (simp add: amiga_pread_def partition_io_def Let_def sd_card_def del: upt_rec_numeral)
qed

lemma card_same: "(sd_card dma)\<lparr>ad_bounce := ad_bounce (sd_card dma), ad_bounce_lba := ad_bounce_lba (sd_card dma)\<rparr> = sd_card dma"
  by simp

text \<open>
  C39: with a driver that cannot reach every address the block in memory goes stale.  A byte of block 1 is read, then the whole
  of block 2 into a buffer outside the 24-bit range of the driver, then the same byte again: the second answer is the byte
  of block 2.  \<^verbatim>\<open>aligned_io\<close> uses the block buffer for the transfer and leaves the note of what it holds unchanged.
\<close>

theorem stale_block:
  "ad_medium (sd_card 0x00ffffff) 516 = 1 \<and>
   map_option (\<lambda>(n, b, dev). b) (amiga_pread ram_driver (sd_card 0x00ffffff) 0x10000 [0] 516) = Some [1] \<and>
   map_option (\<lambda>(n, b, dev). b)
     (do { (n, b, dev) \<leftarrow> amiga_pread ram_driver (sd_card 0x00ffffff) 0x10000 [0] 516;
           (n, b, dev) \<leftarrow> amiga_pread ram_driver dev 0x08000000 (replicate 512 0) 1024;
           amiga_pread ram_driver dev 0x10000 [0] 516 }) = Some [2]"
proof -
  have b: "length (ad_bounce (sd_card 0x00ffffff)) = 512" "ad_bounce_lba (sd_card 0x00ffffff) \<noteq> 512"
    by (simp_all add: sd_card_def NO_BLOCK_def)
  have "amiga_pread ram_driver (sd_card 0x00ffffff) 0x10000 [0] 516 =
      Some (1, [1], (sd_card 0x00ffffff)\<lparr>ad_bounce := block_of 512, ad_bounce_lba := 512\<rparr>)"
    using card_part_read [OF b(1), where dma = "0x00ffffff" and l = "ad_bounce_lba (sd_card 0x00ffffff)" and addr = "0x10000"] b(2)
    by (simp add: card_same)
  moreover have "amiga_pread ram_driver ((sd_card 0x00ffffff)\<lparr>ad_bounce := block_of 1024, ad_bounce_lba := 512\<rparr>) 0x10000 [0] 516 =
      Some (1, [2], (sd_card 0x00ffffff)\<lparr>ad_bounce := block_of 1024, ad_bounce_lba := 512\<rparr>)"
    using card_part_read [of "block_of 1024", where dma = "0x00ffffff" and l = 512 and addr = "0x10000"] by (simp add: block_of_def del: upt_rec_numeral)
  moreover have "ad_medium (sd_card 0x00ffffff) 516 = 1" by (simp add: sd_card_def)
  ultimately show ?thesis by (simp add: card_bounced_read)
qed

section \<open>An instance\<close>

lemma sd_card_ok: "unit_ok ram_driver id 4294967296 (sd_card dma)" "coherent id (sd_card dma)"
proof -
  have "\<exists>k < 32. BS (sd_card dma) = 2 ^ k" by (rule exI [of _ 9]) (simp add: sd_card_def)
  then show "unit_ok ram_driver id 4294967296 (sd_card dma)" using ram_driver_laws by (simp add: unit_ok_def) (simp add: sd_card_def)
  show "coherent id (sd_card dma)" by (simp add: coherent_def sd_card_def)
qed

text \<open>Two whole blocks and parts of two others, read into memory that the driver cannot reach.\<close>

theorem partition_io_witness:
  "\<exists>b dev'. partition_io ram_driver (sd_card 0x00ffffff) False 0x08000000 (replicate 1026 0) 511 = Some (1026, b, dev') \<and>
    b = map (ad_medium (sd_card 0x00ffffff)) [511..<1537]"
proof -
  have f: "ad_size (sd_card 0x00ffffff) = 4096" "unat (ad_firstbyte (sd_card 0x00ffffff)) = 0" "unat (ad_bounce_lba (sd_card 0x00ffffff)) \<noteq> 1536"
    "BS (sd_card 0x00ffffff) = 512"
    by (simp_all add: sd_card_def NO_BLOCK_def unsigned_minus_1_eq_mask mask_eq_exp_minus_1)
  show ?thesis
    using partition_io_correct [OF sd_card_ok, of 511 "replicate 1026 0" "0x00ffffff" False "0x08000000"] ram_driver_faultless f by auto
qed

end
