(* ===== verification/PartTable.thy ===== *)
theory PartTable
  imports AmigaDevFacts
begin

text \<open>
  Finding the exFAT partitions of a card: \<^verbatim>\<open>amiga/parttable.c\<close>.  The device is used for reading only; it is the function
  \<open>rd\<close> from a buffer and an offset to the return value and the buffer afterwards, as \<^verbatim>\<open>exfat_pread\<close> has it.  Reading outside
  a buffer has no result.
\<close>

section \<open>Model\<close>

record ExfatPartition =
  pt_first_lba :: u64
  pt_sectors :: u64

definition MBR_TABLE :: nat where "MBR_TABLE = 446"
definition MBR_ENTRY_SIZE :: nat where "MBR_ENTRY_SIZE = 16"
definition MBR_ENTRIES :: nat where "MBR_ENTRIES = 4"
definition MBR_SIG :: nat where "MBR_SIG = 510"
definition MBR_TYPE_GPT :: u8 where "MBR_TYPE_GPT = 0xee"
definition EBR_MAX_LINKS :: nat where "EBR_MAX_LINKS = 16"

definition byte_at :: "u8 list \<Rightarrow> nat \<Rightarrow> u8 option" where
  "byte_at p i = (if i < length p then Some (p ! i) else None)"

definition le32at :: "u8 list \<Rightarrow> nat \<Rightarrow> u32 option" where
  "le32at p i = (if i + 4 \<le> length p then Some (le_word (seg p i 4)) else None)"

definition le16at :: "u8 list \<Rightarrow> nat \<Rightarrow> u16 option" where
  "le16at p i = (if i + 2 \<le> length p then Some (le_word (seg p i 2)) else None)"

definition le64at :: "u8 list \<Rightarrow> nat \<Rightarrow> u64 option" where
  "le64at p i = do { lo \<leftarrow> le32at p i; hi \<leftarrow> le32at p (i + 4); Some (ucast lo OR push_bit 32 (ucast hi)) }"

definition EXFAT_NAME :: "u8 list" where
  "EXFAT_NAME = [0x45, 0x58, 0x46, 0x41, 0x54, 0x20, 0x20, 0x20]"

definition EFI_PART :: "u8 list" where
  "EFI_PART = [0x45, 0x46, 0x49, 0x20, 0x50, 0x41, 0x52, 0x54]"

definition same_bytes :: "u8 list \<Rightarrow> nat \<Rightarrow> u8 list \<Rightarrow> bool option" where
  "same_bytes p i bs = (if i + length bs \<le> length p then Some (seg p i (length bs) = bs) else None)"

type_synonym reader = "u8 list \<Rightarrow> off_t \<Rightarrow> int \<times> u8 list"

text \<open>The result of the probe and the buffer afterwards.\<close>

definition is_exfat_at :: "reader \<Rightarrow> u64 \<Rightarrow> u32 \<Rightarrow> u8 list \<Rightarrow> (bool \<times> u8 list) option" where
  "is_exfat_at rd lba blocksize buf =
     (let (n, buf) = rd buf (sint (lba * ucast blocksize))
      in if n < 0 then Some (False, buf) else do { same \<leftarrow> same_bytes buf 3 EXFAT_NAME; Some (same, buf) })"

definition add_partition :: "ExfatPartition list \<Rightarrow> nat \<Rightarrow> u64 \<Rightarrow> u64 \<Rightarrow> ExfatPartition list" where
  "add_partition out mx first count =
     (if mx \<le> length out then out else out @ [\<lparr>pt_first_lba = first, pt_sectors = count\<rparr>])"

text \<open>The condition and the call that follow one another at three places: the list and the buffer afterwards.\<close>

definition add_if_exfat ::
    "reader \<Rightarrow> u32 \<Rightarrow> u64 \<Rightarrow> u64 \<Rightarrow> u8 list \<Rightarrow> ExfatPartition list \<Rightarrow> nat \<Rightarrow> (ExfatPartition list \<times> u8 list) option" where
  "add_if_exfat rd blocksize first count buf out mx =
     do { (yes, buf) \<leftarrow> is_exfat_at rd first blocksize buf;
          Some (if yes then add_partition out mx first count else out, buf) }"

definition is_extended_type :: "u8 \<Rightarrow> bool" where
  "is_extended_type t \<longleftrightarrow> t = 0x05 \<or> t = 0x0f \<or> t = 0x85"

text \<open>\<open>links\<close> rounds of the loop are left; \<open>ebr\<close> and \<open>buf\<close> are the two buffers.  The result is the list and \<open>buf\<close>.\<close>

primrec extended_loop ::
    "nat \<Rightarrow> reader \<Rightarrow> u32 \<Rightarrow> u64 \<Rightarrow> u64 \<Rightarrow> u8 list \<Rightarrow> u8 list \<Rightarrow> ExfatPartition list \<Rightarrow> nat \<Rightarrow> (ExfatPartition list \<times> u8 list) option" where
  "extended_loop 0 rd blocksize ext_start here ebr buf out mx = Some (out, buf)"
| "extended_loop (Suc links) rd blocksize ext_start here ebr buf out mx =
     (if mx \<le> length out then Some (out, buf)
      else
        let (n, ebr) = rd ebr (sint (here * ucast blocksize))
        in if n < 0 then Some (out, buf)
           else do {
             sig \<leftarrow> le16at ebr MBR_SIG;
             if sig \<noteq> 0xaa55 then Some (out, buf)
             else do {
               rel \<leftarrow> le32at ebr (MBR_TABLE + 8);
               count \<leftarrow> le32at ebr (MBR_TABLE + 12);
               typ \<leftarrow> byte_at ebr (MBR_TABLE + 4);
               let first = here + ucast rel;
               (out, buf) \<leftarrow>
                 (if typ \<noteq> 0 \<and> count \<noteq> 0 then add_if_exfat rd blocksize first (ucast count) buf out mx
                  else Some (out, buf));
               nextrel \<leftarrow> le32at ebr (MBR_TABLE + MBR_ENTRY_SIZE + 8);
               nexttyp \<leftarrow> byte_at ebr (MBR_TABLE + MBR_ENTRY_SIZE + 4);
               if nexttyp = 0 \<or> nextrel = 0 then Some (out, buf)
               else extended_loop links rd blocksize ext_start (ext_start + ucast nextrel) ebr buf out mx
             }
           })"

definition scan_extended ::
    "bool \<Rightarrow> reader \<Rightarrow> u32 \<Rightarrow> u64 \<Rightarrow> u8 list \<Rightarrow> nat \<Rightarrow> (ExfatPartition list \<times> u8 list) option" where
  "scan_extended alloc_ok rd blocksize ext_start buf mx =
     (if \<not> alloc_ok then Some ([], buf)
      else extended_loop EBR_MAX_LINKS rd blocksize ext_start ext_start (replicate (unat blocksize) 0) buf [] mx)"

text \<open>The entries from number \<open>i\<close> on; the products are 32-bit.\<close>

primrec gpt_loop ::
    "nat \<Rightarrow> u32 \<Rightarrow> reader \<Rightarrow> u32 \<Rightarrow> u64 \<Rightarrow> u32 \<Rightarrow> u8 list \<Rightarrow> u8 list \<Rightarrow> ExfatPartition list \<Rightarrow> nat \<Rightarrow> (ExfatPartition list \<times> u8 list) option" where
  "gpt_loop 0 i rd blocksize ent_lba ent_size hdr buf out mx = Some (out, buf)"
| "gpt_loop (Suc left) i rd blocksize ent_lba ent_size hdr buf out mx =
     (if mx \<le> length out then Some (out, buf)
      else
        let lba = ent_lba + ucast (i * ent_size) div ucast blocksize;
            off = unat ((i * ent_size) mod blocksize);
            (n, hdr) = rd hdr (sint (lba * ucast blocksize))
        in if n < 0 then Some (out, buf)
           else do {
             g0 \<leftarrow> le32at hdr off; g1 \<leftarrow> le32at hdr (off + 4); g2 \<leftarrow> le32at hdr (off + 8); g3 \<leftarrow> le32at hdr (off + 12);
             if g0 = 0 \<and> g1 = 0 \<and> g2 = 0 \<and> g3 = 0 then gpt_loop left (i + 1) rd blocksize ent_lba ent_size hdr buf out mx
             else do {
               first \<leftarrow> le64at hdr (off + 32);
               last' \<leftarrow> le64at hdr (off + 40);
               if last' < first then gpt_loop left (i + 1) rd blocksize ent_lba ent_size hdr buf out mx
               else do {
                 (out, buf) \<leftarrow> add_if_exfat rd blocksize first (last' - first + 1) buf out mx;
                 gpt_loop left (i + 1) rd blocksize ent_lba ent_size hdr buf out mx
               }
             }
           })"

definition scan_gpt :: "bool \<Rightarrow> reader \<Rightarrow> u32 \<Rightarrow> u8 list \<Rightarrow> nat \<Rightarrow> (ExfatPartition list \<times> u8 list) option" where
  "scan_gpt alloc_ok rd blocksize buf mx =
     (if \<not> alloc_ok then Some ([], buf)
      else
        let (n, hdr) = rd (replicate (unat blocksize) 0) (uint blocksize)
        in if n < 0 then Some ([], buf)
           else do {
             efi \<leftarrow> same_bytes hdr 0 EFI_PART;
             if \<not> efi then Some ([], buf)
             else do {
               ent_lba \<leftarrow> le64at hdr 72;
               ent_count \<leftarrow> le32at hdr 80;
               ent_size \<leftarrow> le32at hdr 84;
               let ent_count = (if ent_size = 0 \<or> blocksize < ent_size \<or> 128 < ent_count
                                then (if 128 < ent_count then 128 else ent_count) else ent_count);
               gpt_loop (unat ent_count) 0 rd blocksize ent_lba ent_size hdr buf [] mx
             }
           })"

text \<open>One used entry of the table: the list and the buffer afterwards.\<close>

definition scan_entry ::
    "bool \<Rightarrow> reader \<Rightarrow> u32 \<Rightarrow> u8 \<Rightarrow> u64 \<Rightarrow> u64 \<Rightarrow> u8 list \<Rightarrow> ExfatPartition list \<Rightarrow> nat \<Rightarrow> (ExfatPartition list \<times> u8 list) option" where
  "scan_entry alloc_ok rd blocksize typ first count buf out mx =
     (if typ = MBR_TYPE_GPT then
        do { (ps, buf) \<leftarrow> scan_gpt alloc_ok rd blocksize buf (mx - length out); Some (out @ ps, buf) }
      else if is_extended_type typ then
        do { (ps, buf) \<leftarrow> scan_extended alloc_ok rd blocksize first buf (mx - length out); Some (out @ ps, buf) }
      else add_if_exfat rd blocksize first count buf out mx)"

text \<open>The entries of the table that are left, from number \<open>i\<close> on.\<close>

primrec mbr_loop :: "nat \<Rightarrow> nat \<Rightarrow> bool \<Rightarrow> reader \<Rightarrow> u32 \<Rightarrow> u8 list \<Rightarrow> ExfatPartition list \<Rightarrow> nat \<Rightarrow> ExfatPartition list option" where
  "mbr_loop 0 i alloc_ok rd blocksize buf out mx = Some out"
| "mbr_loop (Suc left) i alloc_ok rd blocksize buf out mx =
     (if mx \<le> length out then Some out
      else do {
        let e = MBR_TABLE + i * MBR_ENTRY_SIZE;
        typ \<leftarrow> byte_at buf (e + 4);
        first \<leftarrow> le32at buf (e + 8);
        count \<leftarrow> le32at buf (e + 12);
        if typ = 0 \<or> count = 0 then mbr_loop left (i + 1) alloc_ok rd blocksize buf out mx
        else do {
          (out, buf) \<leftarrow> scan_entry alloc_ok rd blocksize typ (ucast first) (ucast count) buf out mx;
          if i + 1 < MBR_ENTRIES then
            (let (n, buf) = rd buf 0
             in if n < 0 then Some out else mbr_loop left (i + 1) alloc_ok rd blocksize buf out mx)
          else mbr_loop left (i + 1) alloc_ok rd blocksize buf out mx
        }
      })"

definition exfat_amiga_scan_partitions :: "bool \<Rightarrow> reader \<Rightarrow> u32 \<Rightarrow> u64 \<Rightarrow> nat \<Rightarrow> ExfatPartition list option" where
  "exfat_amiga_scan_partitions alloc_ok rd blocksize total_sectors mx =
     (if \<not> alloc_ok then Some []
      else
        let (n, buf) = rd (replicate (unat blocksize) 0) 0
        in if n < 0 then Some []
           else do {
             floppy \<leftarrow> same_bytes buf 3 EXFAT_NAME;
             if floppy then Some (add_partition [] mx 0 total_sectors)
             else do {
               sig \<leftarrow> le16at buf MBR_SIG;
               if sig \<noteq> 0xaa55 then Some [] else mbr_loop MBR_ENTRIES 0 alloc_ok rd blocksize buf [] mx
             }
           })"

section \<open>Facts\<close>

lemma length_names [simp]: "length EXFAT_NAME = 8" "length EFI_PART = 8"
  by (simp_all add: EXFAT_NAME_def EFI_PART_def)

text \<open>
  What the device of the handler answers.  \<open>faults off n\<close> are the bytes that a request for \<open>n\<close> bytes at \<open>off\<close> leaves in the buffer before it fails,
  \<open>None\<close> if it does not fail; behind the end of the partition 0 is reported and the buffer kept.
\<close>

definition partition_read :: "(nat \<Rightarrow> nat \<Rightarrow> u8 list option) \<Rightarrow> (nat \<Rightarrow> u8) \<Rightarrow> off_t \<Rightarrow> reader" where
  "partition_read faults bytes sz buf off =
     (if off < 0 \<or> buf = [] \<or> sz \<le> off then (0, buf)
      else if sz < off + int (length buf) then (- 1, buf)
      else case faults (nat off) (length buf) of
        Some junk \<Rightarrow> (- 1, take (length buf) (junk @ drop (length junk) buf))
      | None \<Rightarrow> (int (length buf), map bytes [nat off..<nat off + length buf]))"

lemma amiga_pread_reads:
  assumes "unit_ok drv contents limit dev" "coherent contents dev" "takes_all dev" "faultless drv" "length buf < 2 ^ 32"
  shows "map_option (\<lambda>(n, b, dev'). (n, b)) (amiga_pread drv dev addr buf off) =
    Some (partition_read (\<lambda>_ _. None) (\<lambda>i. contents (ad_medium dev) (unat (ad_firstbyte dev) + i)) (ad_size dev) buf off)"
proof (cases "off < 0 \<or> buf = [] \<or> ad_size dev < off + int (length buf)")
  case True
  then show ?thesis by (auto simp: amiga_pread_def partition_io_def partition_read_def)
next
  case False
  let ?p = "unat (ad_firstbyte dev) + nat off"
  obtain n b dev' where io: "partition_io drv dev False addr buf off = Some (n, b, dev')"
    "stage drv contents False dev buf ?p (if n < 0 then - 1 else 0) b dev'" "n = int (length buf) \<or> n = - 1"
    using partition_io_ok [OF assms(1,2), of off buf False addr] False assms(3,5) by auto
  then have "partition_io drv dev False addr buf off = Some (int (length buf), b, dev')"
    "b = map (contents (ad_medium dev)) [?p..<?p + length buf]"
    using assms(4) by (auto simp: stage_def transferred_def split: if_splits)
  moreover have "\<not> ad_size dev \<le> off" using False by (cases buf) auto
  ultimately show ?thesis using False by (simp add: amiga_pread_def partition_read_def shifted_window)
qed

text \<open>The blocks of the medium as buffers.\<close>

definition block_at :: "(nat \<Rightarrow> u8) \<Rightarrow> nat \<Rightarrow> nat \<Rightarrow> u8 list" where
  "block_at bytes p n = map bytes [p..<p + n]"

lemma length_block_at [simp]: "length (block_at bytes p n) = n"
  by (simp add: block_at_def)

lemma seg_block_at: "i + k \<le> n \<Longrightarrow> seg (block_at bytes p n) i k = block_at bytes (p + i) k"
  by (rule nth_equalityI) (auto simp: block_at_def seg_def add.assoc)

text \<open>The partition's first block lies on the medium, and has the name of the file system.\<close>

definition on_medium :: "off_t \<Rightarrow> u32 \<Rightarrow> ExfatPartition \<Rightarrow> bool" where
  "on_medium sz blocksize p \<longleftrightarrow>
     (let off = sint (pt_first_lba p * ucast blocksize) in 0 \<le> off \<and> off + uint blocksize \<le> sz)"

definition named_exfat :: "(nat \<Rightarrow> u8) \<Rightarrow> u32 \<Rightarrow> ExfatPartition \<Rightarrow> bool" where
  "named_exfat bytes blocksize p \<longleftrightarrow> block_at bytes (nat (sint (pt_first_lba p * ucast blocksize)) + 3) 8 = EXFAT_NAME"

definition genuine :: "(nat \<Rightarrow> u8) \<Rightarrow> off_t \<Rightarrow> u32 \<Rightarrow> ExfatPartition \<Rightarrow> bool" where
  "genuine bytes sz blocksize p \<longleftrightarrow> (on_medium sz blocksize p \<longrightarrow> named_exfat bytes blocksize p)"

lemma add_partition_list_all:
  "list_all P out \<Longrightarrow> P \<lparr>pt_first_lba = first, pt_sectors = count\<rparr> \<Longrightarrow> list_all P (add_partition out mx first count)"
  by (simp add: add_partition_def)

lemma add_partition_length: "length out \<le> mx \<Longrightarrow> length (add_partition out mx first count) \<le> mx"
  by (simp add: add_partition_def)

text \<open>A list that was found so far, and the probe buffer beside it.\<close>

definition found :: "(nat \<Rightarrow> u8) \<Rightarrow> off_t \<Rightarrow> u32 \<Rightarrow> nat \<Rightarrow> ExfatPartition list \<Rightarrow> u8 list \<Rightarrow> bool" where
  "found bytes sz blocksize mx ps buf \<longleftrightarrow>
     length ps \<le> mx \<and> list_all (genuine bytes sz blocksize) ps \<and> length buf = unat blocksize \<and> 0 < unat blocksize"

lemma bind_SomeE: "Option.bind x f = Some y \<Longrightarrow> (\<And>z. x = Some z \<Longrightarrow> f z = Some y \<Longrightarrow> P) \<Longrightarrow> P"
  by (cases x) auto

lemma found_empty: "length buf = unat blocksize \<Longrightarrow> 0 < unat blocksize \<Longrightarrow> found bytes sz blocksize mx [] buf"
  by (simp add: found_def)

lemma found_append:
  "found bytes sz blocksize mx out buf \<Longrightarrow> found bytes sz blocksize (mx - length out) ps b \<Longrightarrow> found bytes sz blocksize mx (out @ ps) b"
  by (auto simp: found_def)

definition all_genuine :: "(nat \<Rightarrow> u8) \<Rightarrow> off_t \<Rightarrow> u32 \<Rightarrow> nat \<Rightarrow> ExfatPartition list \<Rightarrow> bool" where
  "all_genuine bytes sz blocksize mx ps \<longleftrightarrow> length ps \<le> mx \<and> list_all (genuine bytes sz blocksize) ps"

lemma found_all_genuine: "found bytes sz blocksize mx ps buf \<Longrightarrow> all_genuine bytes sz blocksize mx ps"
  by (simp add: found_def all_genuine_def)

lemma reads_in [simp]:
  "i < length p \<Longrightarrow> byte_at p i = Some (p ! i)"
  "i + 4 \<le> length p \<Longrightarrow> le32at p i = Some (le_word (seg p i 4))"
  "i + 2 \<le> length p \<Longrightarrow> le16at p i = Some (le_word (seg p i 2))"
  "i + length bs \<le> length p \<Longrightarrow> same_bytes p i bs = Some (seg p i (length bs) = bs)"
  by (simp_all add: byte_at_def le32at_def le16at_def same_bytes_def)

lemma le64at_in: "i + 8 \<le> length p \<Longrightarrow> \<exists>v. le64at p i = Some v"
  by (simp add: le64at_def)

text \<open>The entries of a GPT that divide a block lie within it.\<close>

lemma gpt_entry_in_block:
  fixes i ent_size blocksize :: u32
  assumes "unat i < 128" "48 \<le> unat ent_size" "unat ent_size dvd unat blocksize" "0 < unat blocksize" "unat blocksize < 2 ^ 25"
  shows "unat ((i * ent_size) mod blocksize) + 48 \<le> unat blocksize"
proof -
  have "unat ent_size \<le> unat blocksize" using assms by (auto intro: dvd_imp_le)
  then have "unat i * unat ent_size \<le> 127 * unat blocksize" using assms(1) by (intro mult_le_mono) auto
  then have p: "unat (i * ent_size) = unat i * unat ent_size" using assms(5) by (simp add: unat_word_ariths)
  obtain k where k: "unat blocksize = unat ent_size * k" using assms(3) by (auto simp: dvd_def)
  then have "unat ((i * ent_size) mod blocksize) = unat ent_size * (unat i mod k)"
    by (simp only: unat_mod_distrib p k mult_mod_right mult.commute [of "unat i"])
  moreover have "unat i mod k + 1 \<le> k" using k assms(4) by (cases "k = 0") (auto simp: Suc_le_eq)
  then have "unat ent_size * (unat i mod k + 1) \<le> unat ent_size * k" by (intro mult_le_mono2)
  ultimately show ?thesis using k assms(2) by simp
qed

text \<open>What a GPT has to say of its entries.\<close>

definition gpt_entry_size :: "(nat \<Rightarrow> u8) \<Rightarrow> u32 \<Rightarrow> u32" where
  "gpt_entry_size bytes blocksize = le_word (block_at bytes (unat blocksize + 84) 4)"

definition gpt_entries_ok :: "(nat \<Rightarrow> u8) \<Rightarrow> u32 \<Rightarrow> bool" where
  "gpt_entries_ok bytes blocksize \<longleftrightarrow>
     48 \<le> unat (gpt_entry_size bytes blocksize) \<and> unat (gpt_entry_size bytes blocksize) dvd unat blocksize"

definition gpt_header :: "(nat \<Rightarrow> u8) \<Rightarrow> u32 \<Rightarrow> bool" where
  "gpt_header bytes blocksize \<longleftrightarrow> block_at bytes (unat blocksize) 8 = EFI_PART"

text \<open>
  The cards that the scan can go through: blocks of a size that is in use and, where the second block is the header of a GPT, entries that hold the
  fields that are read and divide a block.
\<close>

definition card_ok :: "(nat \<Rightarrow> u8) \<Rightarrow> u32 \<Rightarrow> bool" where
  "card_ok bytes blocksize \<longleftrightarrow>
     512 \<le> unat blocksize \<and> unat blocksize < 2 ^ 25 \<and> (gpt_header bytes blocksize \<longrightarrow> gpt_entries_ok bytes blocksize)"

section \<open>Readers\<close>

text \<open>
  What the search relies on: a read keeps the length of the buffer; inside the medium it fails or delivers the bytes, and outside it fails or leaves
  the buffer alone.
\<close>

locale sector_reader =
  fixes rd :: reader and bytes :: "nat \<Rightarrow> u8" and sz :: off_t
  assumes rd_length: "rd buf off = (n, b) \<Longrightarrow> length b = length buf"
    and rd_inside: "rd buf off = (n, b) \<Longrightarrow> buf \<noteq> [] \<Longrightarrow> 0 \<le> off \<Longrightarrow> off + int (length buf) \<le> sz \<Longrightarrow> n < 0 \<or> b = block_at bytes (nat off) (length buf)"
    and rd_outside: "rd buf off = (n, b) \<Longrightarrow> \<not> (0 \<le> off \<and> off + int (length buf) \<le> sz) \<Longrightarrow> n < 0 \<or> b = buf"
begin

lemma probe_sound:
  assumes "is_exfat_at rd lba blocksize buf = Some (yes, b)" "length buf = unat blocksize" "0 < unat blocksize"
  shows "length b = unat blocksize" "yes \<Longrightarrow> genuine bytes sz blocksize \<lparr>pt_first_lba = lba, pt_sectors = c\<rparr>"
proof -
  let ?o = "sint (lba * ucast blocksize)"
  obtain n b' where r: "rd buf ?o = (n, b')" by fastforce
  then have b: "b = b'" using assms(1) by (auto simp: is_exfat_at_def bind_eq_Some_conv split: if_splits)
  show len: "length b = unat blocksize" using rd_length [OF r] b assms(2) by simp
  show "genuine bytes sz blocksize \<lparr>pt_first_lba = lba, pt_sectors = c\<rparr>" if yes
    unfolding genuine_def
  proof
    assume "on_medium sz blocksize \<lparr>pt_first_lba = lba, pt_sectors = c\<rparr>"
    then have o: "0 \<le> ?o" "?o + uint blocksize \<le> sz" by (simp_all add: on_medium_def Let_def)
    have "uint blocksize = int (length buf)" "buf \<noteq> []" using assms(2,3) by auto
    moreover have n: "\<not> n < 0" "same_bytes b' 3 EXFAT_NAME = Some True"
      using assms(1) r that by (auto simp: is_exfat_at_def bind_eq_Some_conv split: if_splits)
    ultimately have "b' = block_at bytes (nat ?o) (unat blocksize)" using rd_inside [OF r] o assms(2) by auto
    then show "named_exfat bytes blocksize \<lparr>pt_first_lba = lba, pt_sectors = c\<rparr>"
      using seg_block_at [of 3 8 "unat blocksize" bytes "nat ?o"] n(2)
      by (auto simp: same_bytes_def named_exfat_def split: if_splits)
  qed
qed

lemma add_if_exfat_found:
  assumes "add_if_exfat rd blocksize first count buf out mx = Some (out', b)" "found bytes sz blocksize mx out buf"
  shows "found bytes sz blocksize mx out' b"
proof -
  obtain yes where y: "is_exfat_at rd first blocksize buf = Some (yes, b)"
    "out' = (if yes then add_partition out mx first count else out)"
    using assms(1) by (auto simp: add_if_exfat_def bind_eq_Some_conv)
  show ?thesis
    using probe_sound(1) [OF y(1)] probe_sound(2) [OF y(1), of count] assms(2) y(2)
    by (auto simp: found_def add_partition_length intro: add_partition_list_all)
qed

lemma extended_loop_found:
  "extended_loop links rd blocksize ext_start here ebr buf out mx = Some (ps, b) \<Longrightarrow>
    found bytes sz blocksize mx out buf \<Longrightarrow> found bytes sz blocksize mx ps b"
proof (induction links arbitrary: here ebr buf out)
  case (Suc links)
  from Suc.prems show ?case
    by (simp only: extended_loop.simps Let_def split: if_splits prod.splits)
      (auto elim!: bind_SomeE split: if_splits dest!: add_if_exfat_found, (erule (1) Suc.IH)+)
qed auto

lemma gpt_loop_found:
  "gpt_loop left i rd blocksize ent_lba ent_size hdr buf out mx = Some (ps, b) \<Longrightarrow>
    found bytes sz blocksize mx out buf \<Longrightarrow> found bytes sz blocksize mx ps b"
proof (induction left arbitrary: i hdr buf out)
  case (Suc left)
  from Suc.prems show ?case
    by (simp only: gpt_loop.simps Let_def split: if_splits prod.splits)
      (auto elim!: bind_SomeE split: if_splits dest!: add_if_exfat_found, (erule (1) Suc.IH)+)
qed auto

lemma scan_gpt_found:
  assumes "scan_gpt alloc_ok rd blocksize buf mx = Some (ps, b)" "length buf = unat blocksize" "0 < unat blocksize"
  shows "found bytes sz blocksize mx ps b"
  using assms(1) found_empty [OF assms(2,3)]
  by (auto simp: scan_gpt_def Let_def elim!: bind_SomeE split: if_splits prod.splits intro: gpt_loop_found [OF _ found_empty [OF assms(2,3)]])

lemma scan_extended_found:
  assumes "scan_extended alloc_ok rd blocksize ext_start buf mx = Some (ps, b)" "length buf = unat blocksize" "0 < unat blocksize"
  shows "found bytes sz blocksize mx ps b"
  using assms(1) found_empty [OF assms(2,3)]
  by (auto simp: scan_extended_def split: if_splits intro: extended_loop_found [OF _ found_empty [OF assms(2,3)]])

lemma found_reread: "rd buf off = (n, b) \<Longrightarrow> found bytes sz blocksize mx ps buf \<Longrightarrow> found bytes sz blocksize mx ps b"
  by (auto simp: found_def dest: rd_length)

lemma scan_entry_found:
  assumes "scan_entry alloc_ok rd blocksize typ first count buf out mx = Some (out', b)"
    "found bytes sz blocksize mx out buf"
  shows "found bytes sz blocksize mx out' b"
proof -
  have len: "length buf = unat blocksize" "0 < unat blocksize" using assms(2) by (simp_all add: found_def)
  show ?thesis
    using assms(1) unfolding scan_entry_def by (auto elim!: bind_SomeE split: if_splits intro: found_append [OF assms(2)] scan_gpt_found [OF _ len]
      scan_extended_found [OF _ len] add_if_exfat_found [OF _ assms(2)])
qed

lemma mbr_loop_found:
  "mbr_loop left i alloc_ok rd blocksize buf out mx = Some ps \<Longrightarrow>
    found bytes sz blocksize mx out buf \<Longrightarrow> all_genuine bytes sz blocksize mx ps"
proof (induction left arbitrary: i buf out)
  case (Suc left)
  from Suc.prems show ?case
    by (simp only: mbr_loop.simps Let_def split: if_splits)
      (auto elim!: bind_SomeE split: if_splits prod.splits dest!: scan_entry_found intro: found_all_genuine,
        (erule found_all_genuine | erule Suc.IH, assumption | erule Suc.IH, erule (1) found_reread)+)
qed (auto intro: found_all_genuine)

lemma add_if_exfat_total:
  assumes "length buf = unat blocksize" "512 \<le> unat blocksize"
  shows "\<exists>out' b. add_if_exfat rd blocksize first count buf out mx = Some (out', b) \<and> length b = unat blocksize"
proof -
  obtain n b where r: "rd buf (sint (first * ucast blocksize)) = (n, b)" by fastforce
  then show ?thesis using rd_length [OF r] assms by (simp add: is_exfat_at_def add_if_exfat_def)
qed

lemma extended_loop_total:
  "length ebr = unat blocksize \<Longrightarrow> length buf = unat blocksize \<Longrightarrow> 512 \<le> unat blocksize \<Longrightarrow>
    \<exists>ps b. extended_loop links rd blocksize ext_start here ebr buf out mx = Some (ps, b) \<and> length b = unat blocksize"
proof (induction links arbitrary: here ebr buf out)
  case (Suc links)
  obtain n b where r: "rd ebr (sint (here * ucast blocksize)) = (n, b)" by fastforce
  have b: "length b = unat blocksize" using rd_length [OF r] Suc.prems by simp
  have rd: "MBR_SIG + 2 \<le> length b" "MBR_TABLE + 8 + 4 \<le> length b" "MBR_TABLE + 12 + 4 \<le> length b" "MBR_TABLE + 4 < length b"
    "MBR_TABLE + MBR_ENTRY_SIZE + 8 + 4 \<le> length b" "MBR_TABLE + MBR_ENTRY_SIZE + 4 < length b"
    using b Suc.prems(3) by (simp_all add: MBR_SIG_def MBR_TABLE_def MBR_ENTRY_SIZE_def)
  obtain out' b' where o: "(if b ! (MBR_TABLE + 4) \<noteq> 0 \<and> le_word (seg b (MBR_TABLE + 12) 4) \<noteq> (0 :: u32) then
      add_if_exfat rd blocksize (here + ucast (le_word (seg b (MBR_TABLE + 8) 4) :: u32))
        (ucast (le_word (seg b (MBR_TABLE + 12) 4) :: u32)) buf out mx
      else Some (out, buf)) = Some (out', b')" "length b' = unat blocksize"
    using add_if_exfat_total [OF Suc.prems(2,3)] Suc.prems(2) by metis
  let ?next = "le_word (seg b (MBR_TABLE + MBR_ENTRY_SIZE + 8) 4) :: u32"
  have step: "extended_loop (Suc links) rd blocksize ext_start here ebr buf out mx =
      (if mx \<le> length out \<or> n < 0 \<or> le_word (seg b MBR_SIG 2) \<noteq> (0xaa55 :: u16) then Some (out, buf)
       else if b ! (MBR_TABLE + MBR_ENTRY_SIZE + 4) = 0 \<or> ?next = 0 then Some (out', b')
       else extended_loop links rd blocksize ext_start (ext_start + ucast ?next) b b' out' mx)"
    by (simp only: extended_loop.simps r Let_def rd reads_in o(1) bind.simps prod.case) auto
  show ?case
    unfolding step using Suc.IH [OF b o(2) Suc.prems(3)] o(2) Suc.prems(2) by simp
qed simp

lemma gpt_loop_total:
  "length hdr = unat blocksize \<Longrightarrow> length buf = unat blocksize \<Longrightarrow> 512 \<le> unat blocksize \<Longrightarrow> unat blocksize < 2 ^ 25 \<Longrightarrow>
    48 \<le> unat ent_size \<Longrightarrow> unat ent_size dvd unat blocksize \<Longrightarrow> unat i + left \<le> 128 \<Longrightarrow>
    \<exists>ps b. gpt_loop left i rd blocksize ent_lba ent_size hdr buf out mx = Some (ps, b) \<and> length b = unat blocksize"
proof (induction left arbitrary: i hdr buf out)
  case (Suc left)
  let ?o = "unat ((i * ent_size) mod blocksize)" and ?lba = "ent_lba + ucast (i * ent_size) div ucast blocksize"
  obtain n b where r: "rd hdr (sint (?lba * ucast blocksize)) = (n, b)" by fastforce
  have b: "length b = unat blocksize" using rd_length [OF r] Suc.prems by simp
  have o: "?o + 48 \<le> length b" unfolding b using Suc.prems by (intro gpt_entry_in_block) auto
  obtain first last' where fl: "le64at b (?o + 32) = Some first" "le64at b (?o + 40) = Some last'"
    using le64at_in [of "?o + 32" b] le64at_in [of "?o + 40" b] o by auto
  obtain out' b' where p: "add_if_exfat rd blocksize first (last' - first + 1) buf out mx = Some (out', b')"
    "length b' = unat blocksize"
    using add_if_exfat_total [OF Suc.prems(2,3)] by blast
  have i: "unat (i + 1) + left \<le> 128" using Suc.prems(7) by (simp add: unat_word_ariths)
  show ?case
    using Suc.IH [OF b _ Suc.prems(3-6) i] Suc.prems(2) p o fl
    by (simp only: gpt_loop.simps r Let_def fl bind.simps prod.case split: if_split) (simp add: p(1))
qed simp

lemma scan_gpt_total:
  assumes "length buf = unat blocksize" "card_ok bytes blocksize"
  shows "\<exists>ps b. scan_gpt alloc_ok rd blocksize buf mx = Some (ps, b) \<and> length b = unat blocksize"
proof -
  let ?z = "replicate (unat blocksize) 0 :: u8 list" and ?h = "block_at bytes (unat blocksize) (unat blocksize)"
  have c: "512 \<le> unat blocksize" "unat blocksize < 2 ^ 25" using assms(2) by (simp_all add: card_ok_def)
  obtain n hdr where r: "rd ?z (uint blocksize) = (n, hdr)" by fastforce
  have l: "length hdr = unat blocksize" using rd_length [OF r] by simp
  show ?thesis
  proof (cases "n < 0 \<or> seg hdr 0 8 \<noteq> EFI_PART")
    case True
    then show ?thesis using assms(1) l c(1) by (auto simp: scan_gpt_def r)
  next
    case False
    have "seg ?z 0 8 \<noteq> EFI_PART" using c(1) by (auto simp: seg_def EFI_PART_def dest: arg_cong [where f = hd])
    then have "hdr = ?h" using rd_inside [OF r] rd_outside [OF r] False c(1) by (auto simp: nat_uint_eq)
    then have s: "seg hdr 84 4 = block_at bytes (unat blocksize + 84) 4" "seg hdr 0 8 = block_at bytes (unat blocksize) 8"
      using c(1) seg_block_at [of 84 4 "unat blocksize" bytes "unat blocksize"] seg_block_at [of 0 8 "unat blocksize" bytes "unat blocksize"] by simp_all
    then have g: "48 \<le> unat (gpt_entry_size bytes blocksize)" "unat (gpt_entry_size bytes blocksize) dvd unat blocksize"
      using assms(2) False by (simp_all add: card_ok_def gpt_header_def gpt_entries_ok_def)
    obtain ent_lba where e: "le64at hdr 72 = Some ent_lba" using le64at_in [of 72 hdr] l c(1) by auto
    define cnt :: u32 where "cnt = le_word (seg hdr 80 4)"
    define cnt' where "cnt' = (if 128 < cnt then 128 else cnt)"
    have k: "unat (0 :: u32) + unat cnt' \<le> 128" by (auto simp: cnt'_def word_less_nat_alt)
    have i: "(if ent_size = 0 \<or> blocksize < ent_size \<or> 128 < cnt then (if 128 < cnt then 128 else cnt) else cnt) = cnt'" for ent_size :: u32
      by (simp add: cnt'_def)
    show ?thesis
      using gpt_loop_total [OF l assms(1) c g k, of ent_lba "[]" mx] False l c(1) assms(1)
      by (simp add: scan_gpt_def r e s(1) gpt_entry_size_def i Let_def flip: cnt_def)
  qed
qed

lemma scan_extended_total:
  assumes "length buf = unat blocksize" "512 \<le> unat blocksize"
  shows "\<exists>ps b. scan_extended alloc_ok rd blocksize ext_start buf mx = Some (ps, b) \<and> length b = unat blocksize"
  using extended_loop_total [OF _ assms] assms(1) by (simp add: scan_extended_def)

lemma scan_entry_total:
  assumes "length buf = unat blocksize" "card_ok bytes blocksize"
  shows "\<exists>out' b. scan_entry alloc_ok rd blocksize typ first count buf out mx = Some (out', b) \<and> length b = unat blocksize"
proof -
  have c: "512 \<le> unat blocksize" using assms(2) by (simp add: card_ok_def)
  consider "typ = MBR_TYPE_GPT" | "typ \<noteq> MBR_TYPE_GPT" "is_extended_type typ" | "typ \<noteq> MBR_TYPE_GPT" "\<not> is_extended_type typ" by blast
  then show ?thesis
  proof cases
    case 1
    then show ?thesis using scan_gpt_total [OF assms, of alloc_ok "mx - length out"] by (auto simp: scan_entry_def)
  next
    case 2
    then show ?thesis
      using scan_extended_total [OF assms(1) c, of alloc_ok first "mx - length out"] by (auto simp: scan_entry_def)
  next
    case 3
    then show ?thesis using add_if_exfat_total [OF assms(1) c] by (simp add: scan_entry_def)
  qed
qed

lemma mbr_loop_total:
  "length buf = unat blocksize \<Longrightarrow> card_ok bytes blocksize \<Longrightarrow> i + left \<le> MBR_ENTRIES \<Longrightarrow>
    \<exists>ps. mbr_loop left i alloc_ok rd blocksize buf out mx = Some ps"
proof (induction left arbitrary: i buf out)
  case (Suc left)
  let ?e = "MBR_TABLE + i * MBR_ENTRY_SIZE"
  have "i < 4" "512 \<le> unat blocksize" using Suc.prems by (simp_all add: MBR_ENTRIES_def card_ok_def)
  then have rd: "?e + 4 < length buf" "?e + 8 + 4 \<le> length buf" "?e + 12 + 4 \<le> length buf"
    using Suc.prems(1) by (simp_all add: MBR_TABLE_def MBR_ENTRY_SIZE_def)
  obtain out' b where e: "scan_entry alloc_ok rd blocksize (buf ! (?e + 4)) (ucast (le_word (seg buf (?e + 8) 4) :: u32))
      (ucast (le_word (seg buf (?e + 12) 4) :: u32)) buf out mx = Some (out', b)" "length b = unat blocksize"
    using scan_entry_total [OF Suc.prems(1,2)] by blast
  obtain n b' where r: "rd b 0 = (n, b')" by fastforce
  have b': "length b' = unat blocksize" using rd_length [OF r] e(2) by simp
  have i: "i + 1 + left \<le> MBR_ENTRIES" using Suc.prems(3) by simp
  note ih = Suc.IH [OF _ Suc.prems(2) i]
  show ?case
    using ih [OF b'] ih [OF e(2)] ih [OF Suc.prems(1)]
    by (simp only: mbr_loop.simps Let_def rd reads_in e(1) r bind.simps prod.case split: if_split) simp
qed simp

lemma scan_sound:
  assumes "card_ok bytes blocksize"
  shows "\<exists>ps. exfat_amiga_scan_partitions alloc_ok rd blocksize total_sectors mx = Some ps \<and> length ps \<le> mx \<and> list_all (genuine bytes sz blocksize) ps"
proof -
  let ?z = "replicate (unat blocksize) 0 :: u8 list"
  have c: "512 \<le> unat blocksize" using assms by (simp add: card_ok_def)
  obtain n b where r: "rd ?z 0 = (n, b)" by fastforce
  have l: "length b = unat blocksize" using rd_length [OF r] by simp
  obtain ps where ps: "mbr_loop MBR_ENTRIES 0 alloc_ok rd blocksize b [] mx = Some ps"
    using mbr_loop_total [OF l assms, of 0 MBR_ENTRIES alloc_ok "[]" mx] by auto
  then have "all_genuine bytes sz blocksize mx ps" by (rule mbr_loop_found) (use c l in \<open>simp add: found_empty\<close>)
  moreover have "genuine bytes sz blocksize \<lparr>pt_first_lba = 0, pt_sectors = total_sectors\<rparr>" if "seg b 3 8 = EXFAT_NAME" "\<not> n < 0"
    using probe_sound(2) [of 0 blocksize ?z True b total_sectors] r that c l by (simp add: is_exfat_at_def)
  ultimately show ?thesis
    using c l ps by (auto simp: exfat_amiga_scan_partitions_def r MBR_SIG_def all_genuine_def add_partition_def)
qed

end

interpretation blocks: sector_reader "partition_read faults bytes sz" bytes sz for faults bytes sz
proof unfold_locales
  fix buf off n b assume r: "partition_read faults bytes sz buf off = (n, b)"
  then show "length b = length buf" by (auto simp: partition_read_def split: if_splits option.splits)
  show "n < 0 \<or> b = block_at bytes (nat off) (length buf)" if "buf \<noteq> []" "0 \<le> off" "off + int (length buf) \<le> sz"
  proof -
    have "off < sz" using that by (cases buf) auto
    then show ?thesis using r that by (auto simp: partition_read_def block_at_def split: if_splits option.splits)
  qed
  show "n < 0 \<or> b = buf" if "\<not> (0 \<le> off \<and> off + int (length buf) \<le> sz)"
    using r that by (auto simp: partition_read_def split: if_splits option.splits)
qed

section \<open>Properties\<close>

text \<open>
  C38: \<^verbatim>\<open>exfat_amiga_scan_partitions\<close> returns for every card of a usable block size, of any length, with any pattern of read errors and any
  contents: plain volumes without a table, tables with loops of extended partitions, entries that lead outside of the medium.  Only where the second
  block has the signature of a GPT, its entries have to be of a size of at least 48 that divides a block (\<open>gpt_entry_size_unchecked\<close> shows that the
  search leaves its buffer otherwise).  It finds no more partitions than asked for, and each one that starts on the medium starts with the boot
  sector of an exFAT volume.
\<close>

theorem scan_partitions_sound:
  assumes "card_ok bytes blocksize"
  shows "\<exists>ps. exfat_amiga_scan_partitions alloc_ok (partition_read faults bytes sz) blocksize total_sectors mx = Some ps \<and> length ps \<le> mx \<and>
    list_all (\<lambda>p. on_medium sz blocksize p \<longrightarrow> named_exfat bytes blocksize p) ps"
  using blocks.scan_sound [OF assms, of alloc_ok faults sz total_sectors mx] unfolding genuine_def .

section \<open>Cards that the scan does not expect\<close>

text \<open>
  A card of four blocks: a table with a protective entry, the header of a GPT whose two entries start at block 2, that block, whose
  entries lead to block 3 and to block 200, and block 3 with the name of an exFAT volume.
\<close>

definition at_byte :: "nat \<Rightarrow> u8 list \<Rightarrow> (nat \<Rightarrow> u8) \<Rightarrow> nat \<Rightarrow> u8" where
  "at_byte p bs bytes i = (if p \<le> i \<and> i < p + length bs then bs ! (i - p) else bytes i)"

definition gpt_card :: "u8 list \<Rightarrow> nat \<Rightarrow> u8" where
  "gpt_card ent_size =
     at_byte 450 [0xee, 0, 0, 0, 1, 0, 0, 0, 2] (at_byte 510 [0x55, 0xaa] (at_byte 512 EFI_PART
       (at_byte (512 + 72) [2] (at_byte (512 + 80) [2] (at_byte (512 + 84) ent_size
         (at_byte 1024 [1] (at_byte (1024 + 32) [3, 0, 0, 0, 0, 0, 0, 0, 3]
           (at_byte (1024 + 128) [1] (at_byte (1024 + 160) [200, 0, 0, 0, 0, 0, 0, 0, 200] (at_byte 1539 EXFAT_NAME (\<lambda>_. 0)))))))))))"

lemma read_block:
  "length buf = 512 \<Longrightarrow> 0 \<le> off \<Longrightarrow> off + 512 \<le> sz \<Longrightarrow> partition_read (\<lambda>_ _. None) bytes sz buf off = (512, block_at bytes (nat off) 512)"
  by (auto simp: partition_read_def block_at_def)

lemma read_past: "sz \<le> off \<Longrightarrow> partition_read (\<lambda>_ _. None) bytes sz buf off = (0, buf)"
  by (simp add: partition_read_def)

lemma block_fields:
  "byte_at (block_at bytes p n) i = (if i < n then Some (bytes (p + i)) else None)"
  "le32at (block_at bytes p n) i = (if i + 4 \<le> n then Some (le_word (block_at bytes (p + i) 4)) else None)"
  "le16at (block_at bytes p n) i = (if i + 2 \<le> n then Some (le_word (block_at bytes (p + i) 2)) else None)"
  "same_bytes (block_at bytes p n) i bs = (if i + length bs \<le> n then Some (block_at bytes (p + i) (length bs) = bs) else None)"
  by (simp_all add: byte_at_def le32at_def le16at_def same_bytes_def seg_block_at) (simp add: block_at_def)

lemma block_bytes:
  "block_at bytes p 2 = [bytes p, bytes (p + 1)]"
  "block_at bytes p 4 = [bytes p, bytes (p + 1), bytes (p + 2), bytes (p + 3)]"
  "block_at bytes p 8 = [bytes p, bytes (p + 1), bytes (p + 2), bytes (p + 3), bytes (p + 4), bytes (p + 5), bytes (p + 6), bytes (p + 7)]"
  by (simp_all add: block_at_def upt_conv_Cons eval_nat_numeral)

lemma block_Suc: "block_at bytes p 0 = []" "block_at bytes p (Suc n) = bytes p # block_at bytes (p + 1) n"
  by (simp_all add: block_at_def upt_conv_Cons del: upt_Suc)

lemma loop_counts: "MBR_ENTRIES = Suc (Suc (Suc (Suc 0)))" "gpt_loop 2 = gpt_loop (Suc (Suc 0))"
  by (simp_all add: MBR_ENTRIES_def numeral_2_eq_2)

lemmas card_eval = exfat_amiga_scan_partitions_def Let_def MBR_SIG_def MBR_TABLE_def MBR_ENTRY_SIZE_def MBR_TYPE_GPT_def
  scan_entry_def scan_gpt_def add_if_exfat_def is_exfat_at_def add_partition_def le64at_def block_fields block_bytes block_Suc read_block read_past
  gpt_card_def at_byte_def EXFAT_NAME_def EFI_PART_def le_word_def

text \<open>
  The check of the entry size has no effect: entries of 500 bytes are read all the same, the second one past the end of the buffer.
\<close>

theorem gpt_entry_size_unchecked:
  "exfat_amiga_scan_partitions True (partition_read (\<lambda>_ _. None) (gpt_card [0xf4, 1]) 2048) 512 4 8 = None"
  by (simp add: card_eval loop_counts)

text \<open>
  With entries of 128 bytes, the second partition found lies outside of the medium: the read there returns 0 and leaves the boot
  sector of the first one in the buffer.
\<close>

theorem phantom_partition:
  "exfat_amiga_scan_partitions True (partition_read (\<lambda>_ _. None) (gpt_card [128]) 2048) 512 4 8 =
     Some [\<lparr>pt_first_lba = 3, pt_sectors = 1\<rparr>, \<lparr>pt_first_lba = 200, pt_sectors = 1\<rparr>]"
  by (simp add: card_eval loop_counts)

text \<open>A card with a plain table whose only entry leads to block 1, and of which block 3 cannot be read.\<close>

definition mbr_card :: "nat \<Rightarrow> u8" where
  "mbr_card = at_byte 450 [7, 0, 0, 0, 1, 0, 0, 0, 2] (at_byte 510 [0x55, 0xaa] (at_byte 515 EXFAT_NAME (\<lambda>_. 0)))"

theorem scan_partitions_witness:
  "card_ok mbr_card 512 \<and> card_ok (gpt_card [128]) 512 \<and>
    (\<exists>ps. exfat_amiga_scan_partitions True (partition_read (\<lambda>off n. if off = 1536 then Some [] else None) mbr_card 2048) 512 4 8 = Some ps \<and>
      length ps \<le> 8 \<and> list_all (\<lambda>p. on_medium 2048 512 p \<longrightarrow> named_exfat mbr_card 512 p) ps)"
proof -
  have "card_ok mbr_card 512" by (simp add: card_ok_def gpt_header_def block_bytes mbr_card_def at_byte_def EXFAT_NAME_def EFI_PART_def)
  moreover have "card_ok (gpt_card [128]) 512"
    by (simp add: card_ok_def gpt_entries_ok_def gpt_entry_size_def block_bytes gpt_card_def at_byte_def le_word_def EXFAT_NAME_def EFI_PART_def)
  ultimately show ?thesis
    using scan_partitions_sound [of mbr_card 512 True "\<lambda>off n. if off = 1536 then Some [] else None" 2048 4 8] by blast
qed

end
