(* ===== verification/AmigaLock.thy ===== *)
theory AmigaLock
  imports Namespace AmigaText PartTable
begin

text \<open>
  The AmigaOS handler, \<^verbatim>\<open>amiga/handler.c\<close>, first part: its state, locks, paths and the description of objects.  Locks and
  open files are allocated from a heap of their own each, and a BPTR or pointer to one is its address, \<open>None\<close> for ZERO.  A BSTR is the list
  of its bytes, the length first.  A function that follows a pointer to nothing has no result, as in the library.
\<close>

section \<open>State\<close>

datatype lock_access = SHARED_LOCK | EXCLUSIVE_LOCK

text \<open>A \<^verbatim>\<open>FileLock\<close> and what the handler keeps behind it; \<open>lk_link\<close> is \<^verbatim>\<open>fl_Link\<close>, \<open>lk_volume\<close> whether \<^verbatim>\<open>fl_Volume\<close> is set.\<close>

record ExfatLock =
  lk_link :: "addr option"
  lk_key :: u32
  lk_access :: lock_access
  lk_volume :: bool
  lk_node :: addr
  lk_scan_next :: "addr option"
  lk_scan_index :: int

record ExfatFile =
  fi_node :: addr
  fi_pos :: off_t
  fi_writable :: bool

text \<open>The volume node: whether \<^verbatim>\<open>dl_Task\<close> is set, the list of locks, the name.\<close>

record DeviceList =
  dl_task :: bool
  dl_lock_list :: "addr option"
  dl_name :: "u8 list"

record DosEnvec =
  de_SizeBlock :: u32
  de_Surfaces :: u32
  de_BlocksPerTrack :: u32
  de_LowCyl :: u32
  de_HighCyl :: u32
  de_MaxTransfer :: u32
  de_Mask :: u32

text \<open>
  What is in the slot: the bytes of the whole device, which requests fail, whether the device can be opened and whether it is
  protected.
\<close>

record card =
  cd_data :: "nat \<Rightarrow> u8"
  cd_bad_read :: "nat \<Rightarrow> nat \<Rightarrow> bool"
  cd_bad_write :: "nat \<Rightarrow> nat \<Rightarrow> bool"
  cd_sync_ok :: bool
  cd_present :: bool
  cd_protected :: bool

text \<open>
  The volume is meaningful while \<open>hd_mounted\<close>; its device then holds the bytes of the extent, and \<open>hd_card\<close> the rest of the card.
  \<open>hd_held\<close> is the block that the device still has in memory from a card that is no longer in the slot, with its place on the card
  (\<^verbatim>\<open>bounce\<close> and \<^verbatim>\<open>bounce_lba\<close>, \<^verbatim>\<open>amiga/dev_io.c\<close>); it is \<open>None\<close> while the block in memory, if there is one, is that of the card in the slot.
\<close>

record ExfatHandler =
  hd_volume :: "DeviceList option"
  hd_volname :: "u8 list option"
  hd_volname_orig :: "u8 list option"
  hd_spec :: ExfatDevSpec
  hd_lowcyl :: u32
  hd_envec :: DosEnvec
  hd_ef :: exfat
  hd_mounted :: bool
  hd_inhibited :: bool
  hd_quit :: bool
  hd_nlocks :: u32
  hd_nfiles :: u32
  hd_locks :: "addr \<Rightarrow> ExfatLock option"
  hd_files :: "addr \<Rightarrow> ExfatFile option"
  hd_fresh :: addr
  hd_card :: card
  hd_held :: "(u64 \<times> u8 list) option"

definition set_lock :: "ExfatHandler \<Rightarrow> addr \<Rightarrow> ExfatLock \<Rightarrow> ExfatHandler" where
  "set_lock h l lk = h\<lparr>hd_locks := (hd_locks h)(l \<mapsto> lk)\<rparr>"

definition set_file :: "ExfatHandler \<Rightarrow> addr \<Rightarrow> ExfatFile \<Rightarrow> ExfatHandler" where
  "set_file h f fi = h\<lparr>hd_files := (hd_files h)(f \<mapsto> fi)\<rparr>"

section \<open>Locks\<close>

text \<open>\<open>None\<close> is the NULL of an allocation that fails, inside the result; otherwise the address of the lock.\<close>

definition exfat_amiga_makelock :: "bool \<Rightarrow> ExfatHandler \<Rightarrow> addr \<Rightarrow> lock_access \<Rightarrow> (addr option \<times> ExfatHandler) option" where
  "exfat_amiga_makelock alloc_ok h node access =
     (if \<not> alloc_ok then Some (None, h)
      else do {
        n \<leftarrow> ef_nodes (hd_ef h) node;
        let l = hd_fresh h;
        let lock = \<lparr>lk_link = None, lk_key = n_start_cluster n, lk_access = access, lk_volume = (hd_volume h \<noteq> None), lk_node = node,
                    lk_scan_next = None, lk_scan_index = - 1\<rparr>;
        let (lock, volume) =
          (case hd_volume h of
             Some v \<Rightarrow> (lock\<lparr>lk_link := dl_lock_list v\<rparr>, Some (v\<lparr>dl_lock_list := Some l\<rparr>))
           | None \<Rightarrow> (lock, None));
        Some (Some l, (set_lock h l lock)\<lparr>hd_volume := volume, hd_nlocks := hd_nlocks h + 1, hd_fresh := l + 1\<rparr>)
      })"

text \<open>
  The loop that takes a lock out of the list: \<open>prev\<close> is the lock whose \<^verbatim>\<open>fl_Link\<close> the pointer of the loop points to, \<open>None\<close> for the head
  of the list.
\<close>

partial_function (option) unlink_loop ::
    "(addr \<Rightarrow> ExfatLock option) \<Rightarrow> addr option \<Rightarrow> addr option \<Rightarrow> addr \<Rightarrow> ((addr \<Rightarrow> ExfatLock option) \<times> addr option) option" where
  "unlink_loop locks head prev lock =
     do {
       cur \<leftarrow> (case prev of None \<Rightarrow> Some head | Some p \<Rightarrow> do { lk \<leftarrow> locks p; Some (lk_link lk) });
       (case cur of
          None \<Rightarrow> Some (locks, head)
        | Some c \<Rightarrow> do {
            lk \<leftarrow> locks c;
            if c = lock
            then (case prev of
                    None \<Rightarrow> Some (locks, lk_link lk)
                  | Some p \<Rightarrow> do { pl \<leftarrow> locks p; Some (locks(p \<mapsto> pl\<lparr>lk_link := lk_link lk\<rparr>), head) })
            else unlink_loop locks head (Some c) lock
          })
     }"

definition exfat_amiga_freelock :: "ExfatHandler \<Rightarrow> addr option \<Rightarrow> ExfatHandler option" where
  "exfat_amiga_freelock h lock =
     (case lock of
        None \<Rightarrow> Some h
      | Some l \<Rightarrow> do {
          h \<leftarrow> (case hd_volume h of
                  None \<Rightarrow> Some h
                | Some v \<Rightarrow> do {
                    (locks, head) \<leftarrow> unlink_loop (hd_locks h) (dl_lock_list v) None l;
                    Some (h\<lparr>hd_locks := locks, hd_volume := Some (v\<lparr>dl_lock_list := head\<rparr>)\<rparr>)
                  });
          lk \<leftarrow> hd_locks h l;
          ef \<leftarrow> exfat_put_node (hd_ef h) (lk_node lk);
          Some (h\<lparr>hd_ef := ef, hd_locks := (hd_locks h)(l := None), hd_nlocks := hd_nlocks h - 1\<rparr>)
        })"

section \<open>Names\<close>

definition lead_surrogate :: "u16 \<Rightarrow> bool" where
  "lead_surrogate u \<longleftrightarrow> u AND 0xfc00 = 0xd800"

definition trail_surrogate :: "u16 \<Rightarrow> bool" where
  "trail_surrogate u \<longleftrightarrow> u AND 0xfc00 = 0xdc00"

text \<open>The loop over the first \<^verbatim>\<open>EXFAT_NAME_MAX\<close> units.\<close>

fun sane_units :: "u16 list \<Rightarrow> bool" where
  "sane_units [] = True"
| "sane_units (u # us) =
     (if u = 0 then True
      else if lead_surrogate u then (case us of [] \<Rightarrow> False | lo # us' \<Rightarrow> if trail_surrogate lo then sane_units us' else False)
      else if trail_surrogate u then False
      else sane_units us)"

definition name_is_sane :: "exfat_node \<Rightarrow> bool" where
  "name_is_sane node = sane_units (take EXFAT_NAME_MAX (n_name node))"

definition BAD_NAME :: "u8 list" where
  "BAD_NAME = [0x3c, 0x62, 0x61, 0x64, 0x20, 0x6e, 0x61, 0x6d, 0x65, 0x3e]"

text \<open>The C string in the buffer afterwards.\<close>

definition safe_get_name :: "exfat_node \<Rightarrow> u8 list option" where
  "safe_get_name node =
     (if name_is_sane node then do { buffer \<leftarrow> exfat_get_name node; Some (takeWhile (\<lambda>b. b \<noteq> 0) buffer) } else Some BAD_NAME)"

section \<open>Paths\<close>

definition MAX_PATH_UTF8 :: nat where "MAX_PATH_UTF8 = 1024"

text \<open>The nodes from below the root down to \<open>node\<close>; \<open>left\<close> more fit in the array.\<close>

primrec chain_loop :: "nat \<Rightarrow> exfat \<Rightarrow> addr option \<Rightarrow> addr list \<Rightarrow> addr list option" where
  "chain_loop 0 ef node chain = Some chain"
| "chain_loop (Suc left) ef node chain =
     (case node of
        None \<Rightarrow> Some chain
      | Some a \<Rightarrow> if a = ef_root ef then Some chain
                  else do { n \<leftarrow> ef_nodes ef a; chain_loop left ef (n_parent n) (a # chain) })"

text \<open>The inner \<open>None\<close> is FALSE: the path does not fit.\<close>

fun abs_loop :: "exfat \<Rightarrow> nat \<Rightarrow> addr list \<Rightarrow> u8 list \<Rightarrow> u8 list option option" where
  "abs_loop ef sz [] buf = Some (Some buf)"
| "abs_loop ef sz (a # chain) buf =
     do {
       n \<leftarrow> ef_nodes ef a;
       name \<leftarrow> safe_get_name n;
       if sz < length buf + length name + 2 then Some None
       else abs_loop ef sz chain (buf @ name @ (if chain = [] then [] else [0x2f]))
     }"

definition node_abs_path :: "exfat \<Rightarrow> addr \<Rightarrow> nat \<Rightarrow> u8 list option option" where
  "node_abs_path ef node sz =
     do {
       chain \<leftarrow> chain_loop 64 ef (Some node) [];
       if 64 \<le> length chain then Some None else abs_loop ef sz chain [0x2f]
     }"

text \<open>One level up, in the buffer: everything from the last slash on is dropped.\<close>

definition climb :: "u8 list \<Rightarrow> u8 list" where
  "climb buf = rev (drop 1 (dropWhile (\<lambda>c. c \<noteq> 0x2f) (rev buf)))"

function resolve_loop :: "u8 list \<Rightarrow> u8 list \<Rightarrow> u8 list option" where
  "resolve_loop buf p =
     (case p of
        [] \<Rightarrow> Some buf
      | c # rest \<Rightarrow>
          if c = 0x2f then resolve_loop (climb buf) rest
          else
            let comp = takeWhile (\<lambda>c. c \<noteq> 0x2f) p
            in if MAX_PATH_UTF8 < length buf + length comp + 2 then None
               else resolve_loop (buf @ 0x2f # comp) (drop (length comp + 1) p))"
  by pat_completeness auto
termination by (relation "measure (\<lambda>(buf, p). length p)") auto

declare resolve_loop.simps [simp del]

text \<open>The path for the library, or FALSE.  \<open>base\<close> is the lock that the path is relative to.\<close>

definition resolve_path :: "ExfatHandler \<Rightarrow> addr option \<Rightarrow> u8 list \<Rightarrow> nat \<Rightarrow> u8 list option option" where
  "resolve_path h base bpath outsize =
     do {
       rel \<leftarrow> exfat_amiga_bstr_to_utf8 bpath (int MAX_PATH_UTF8);
       let prefix = takeWhile (\<lambda>c. c \<noteq> 0x3a) rel;
       let colon = (length prefix < length rel);
       let base = (if colon \<and> prefix = [] then None else base);
       let p = (if colon then drop (length prefix + 1) rel else rel);
       ab \<leftarrow> (case base of
                None \<Rightarrow> Some (Some [0x2f])
              | Some l \<Rightarrow> do { lk \<leftarrow> hd_locks h l; node_abs_path (hd_ef h) (lk_node lk) MAX_PATH_UTF8 });
       (case ab of
          None \<Rightarrow> Some None
        | Some buf \<Rightarrow>
            let buf = (if 1 < length buf \<and> last buf = 0x2f then butlast buf else buf);
                buf = (if length buf = 1 then [] else buf)
            in case resolve_loop buf p of
                 None \<Rightarrow> Some None
               | Some buf \<Rightarrow>
                   let buf = (if buf = [] then [0x2f] else buf)
                   in if outsize < length buf + 1 then Some None else Some (Some buf))
     }"

section \<open>Describing an object\<close>

datatype entry_kind = ST_ROOT | ST_USERDIR | ST_FILE

definition FIBF_DELETE :: u32 where "FIBF_DELETE = 1"
definition FIBF_WRITE :: u32 where "FIBF_WRITE = 4"
definition FIBF_ARCHIVE :: u32 where "FIBF_ARCHIVE = 16"

text \<open>The fields of the structure that the handler fills with more than zeros; \<^verbatim>\<open>fib_EntryType\<close> is the same as \<^verbatim>\<open>fib_DirEntryType\<close>.\<close>

record FileInfoBlock =
  fib_DiskKey :: int
  fib_DirEntryType :: entry_kind
  fib_FileName :: "u8 list"
  fib_Protection :: u32
  fib_Size :: int
  fib_NumBlocks :: int
  fib_Date :: DateStamp

definition fill_fib :: "exfat \<Rightarrow> exfat_node \<Rightarrow> int \<Rightarrow> bool \<Rightarrow> FileInfoBlock option" where
  "fill_fib ef node diskkey is_root =
     do {
       let cs = (of_nat (CLUSTER_SIZE (ef_sb ef)) :: u64);
       let dir = is_dir node;
       name \<leftarrow> (if is_root then exfat_amiga_name_to_bstr (exfat_get_label ef) 30
                else do { nm \<leftarrow> safe_get_name node; exfat_amiga_name_to_bstr nm 106 });
       Some
         \<lparr>fib_DiskKey = diskkey,
          fib_DirEntryType = (if is_root then ST_ROOT else if dir then ST_USERDIR else ST_FILE),
          fib_FileName = name,
          fib_Protection =
            (if ef_ro ef \<noteq> 0 \<or> n_attrib node AND EXFAT_ATTRIB_RO \<noteq> 0 then FIBF_WRITE OR FIBF_DELETE else 0) OR
            (if n_attrib node AND EXFAT_ATTRIB_ARCH \<noteq> 0 then FIBF_ARCHIVE else 0),
          fib_Size = (if dir then 0 else if 0x7fffffff < n_size node then 0x7fffffff else uint (n_size node)),
          fib_NumBlocks = (if dir then 0 else c_int (uint ((n_size node + cs - 1) div cs))),
          fib_Date = exfat_amiga_time_to_datestamp (n_mtime node)\<rparr>
     }"

end
