(* ===== verification/Packets.thy ===== *)
theory Packets
  imports AmigaLock
begin

text \<open>
  The AmigaOS handler, \<^verbatim>\<open>amiga/handler.c\<close>, second part: the packets for locks, files and directories.  Each function takes the state and the arguments of a packet and
  returns the reply and the state afterwards.  What the system decides is the argument \<open>env\<close>: whether memory can be
  allocated, the DOS list locked, an entry added to it, and so on.  Below the library is the store of bytes of \<open>Device\<close>.  The device
  layer of AmigaOS is one only under conditions (\<open>device_view_refined\<close> in \<open>AmigaDevFacts\<close>): the driver takes every address, and the block in
  memory is from the card in the slot.  With a mask a transfer can spoil that block (\<open>stale_block\<close>), and after an exchange of the card nothing
  discards it; the one read that decides about an exchanged card takes account of this (\<open>read_boot_sector\<close> in \<open>Handler\<close>).
\<close>

section \<open>Replies\<close>

datatype dos_error =
  NO_ERROR | ERROR_NO_FREE_STORE | ERROR_BAD_NUMBER | ERROR_OBJECT_IN_USE | ERROR_OBJECT_EXISTS | ERROR_OBJECT_NOT_FOUND |
  ERROR_ACTION_NOT_KNOWN | ERROR_INVALID_COMPONENT_NAME | ERROR_INVALID_LOCK | ERROR_OBJECT_WRONG_TYPE | ERROR_DISK_WRITE_PROTECTED |
  ERROR_DIRECTORY_NOT_EMPTY | ERROR_SEEK_ERROR | ERROR_DISK_FULL | ERROR_WRITE_PROTECTED | ERROR_NOT_A_DOS_DISK | ERROR_NO_MORE_ENTRIES

text \<open>
  \<^verbatim>\<open>dp_Res1\<close> is a number, the address of a lock or of the volume node; \<^verbatim>\<open>dp_Res2\<close> the error.  A reply also stands for what the caller finds in the
  memory it passed: the file of an open file handle, a description of an object or of the volume, the bytes that were read.
\<close>

record InfoData =
  id_DiskState_protected :: bool
  id_NumBlocks :: int
  id_NumBlocksUsed :: int
  id_BytesPerBlock :: int
  id_busy :: bool
  id_volume :: bool
  id_InUse :: bool

datatype reply =
    Reply int dos_error
  | ReplyLock addr
  | ReplyFile addr
  | ReplyFib FileInfoBlock
  | ReplyRead int "u8 list"
  | ReplyInfo InfoData
  | ReplyVolume bool

abbreviation (input) DOSTRUE :: int where "DOSTRUE \<equiv> - 1"
abbreviation (input) DOSFALSE :: int where "DOSFALSE \<equiv> 0"

definition reply_err :: "dos_error \<Rightarrow> reply" where
  "reply_err err = Reply (if err \<noteq> NO_ERROR then DOSFALSE else DOSTRUE) err"

definition map_errno :: "int \<Rightarrow> dos_error" where
  "map_errno rc =
     (let e = \<bar>rc\<bar>
      in if e = 0 then NO_ERROR
         else if e = ENOENT then ERROR_OBJECT_NOT_FOUND
         else if e = EEXIST then ERROR_OBJECT_EXISTS
         else if e = ENOSPC then ERROR_DISK_FULL
         else if e = EROFS then ERROR_DISK_WRITE_PROTECTED
         else if e = EISDIR \<or> e = ENOTDIR then ERROR_OBJECT_WRONG_TYPE
         else if e = ENOTEMPTY then ERROR_DIRECTORY_NOT_EMPTY
         else if e = EACCES \<or> e = EPERM then ERROR_WRITE_PROTECTED
         else if e = ENAMETOOLONG then ERROR_INVALID_COMPONENT_NAME
         else if e = ENOMEM then ERROR_NO_FREE_STORE
         else if e = EIO then ERROR_SEEK_ERROR
         else ERROR_OBJECT_NOT_FOUND)"

text \<open>
  What the system decides during a packet: allocations, the creation and the addition of a DOS list entry, locking the DOS list without waiting,
  the date for a serial number, and the case table of the formatter.
\<close>

record environ =
  en_alloc :: bool
  en_make_entry :: bool
  en_attempt_lock :: bool
  en_stamp :: "(u32 \<times> u32 \<times> u32) option"
  en_upcase :: "u8 list"

type_synonym outcome = "(reply \<times> ExfatHandler) option"

section \<open>Locks and scans\<close>

text \<open>A reference to \<open>node\<close> is held; it goes over to a new lock, or is given back when there is no memory for one.\<close>

definition lock_reply :: "environ \<Rightarrow> ExfatHandler \<Rightarrow> addr \<Rightarrow> lock_access \<Rightarrow> outcome" where
  "lock_reply env h node access =
     do {
       (lock, h) \<leftarrow> exfat_amiga_makelock (en_alloc env) h node access;
       (case lock of
          None \<Rightarrow> do { ef \<leftarrow> exfat_put_node (hd_ef h) node; Some (Reply DOSFALSE ERROR_NO_FREE_STORE, h\<lparr>hd_ef := ef\<rparr>) }
        | Some l \<Rightarrow> Some (ReplyLock l, h))
     }"

definition do_locate_object :: "environ \<Rightarrow> ExfatHandler \<Rightarrow> addr option \<Rightarrow> u8 list \<Rightarrow> outcome" where
  "do_locate_object env h base bpath =
     do {
       path \<leftarrow> resolve_path h base bpath MAX_PATH_UTF8;
       (case path of
          None \<Rightarrow> Some (Reply DOSFALSE ERROR_OBJECT_NOT_FOUND, h)
        | Some path \<Rightarrow> do {
            (rc, node, ef) \<leftarrow> exfat_lookup (hd_ef h) path;
            let h = h\<lparr>hd_ef := ef\<rparr>;
            if rc \<noteq> 0 then Some (Reply DOSFALSE ERROR_OBJECT_NOT_FOUND, h)
            else do { a \<leftarrow> node; lock_reply env h a SHARED_LOCK }
          })
     }"

text \<open>The node of a lock, the root for none.\<close>

definition lock_node :: "ExfatHandler \<Rightarrow> addr option \<Rightarrow> addr option" where
  "lock_node h lock = (case lock of None \<Rightarrow> Some (ef_root (hd_ef h)) | Some l \<Rightarrow> do { lk \<leftarrow> hd_locks h l; Some (lk_node lk) })"

definition do_copy_dir :: "environ \<Rightarrow> ExfatHandler \<Rightarrow> addr option \<Rightarrow> outcome" where
  "do_copy_dir env h src =
     do {
       node \<leftarrow> lock_node h src;
       ef \<leftarrow> exfat_get_node (hd_ef h) node;
       lock_reply env (h\<lparr>hd_ef := ef\<rparr>) node SHARED_LOCK
     }"

definition do_lock_from_fh :: "environ \<Rightarrow> ExfatHandler \<Rightarrow> addr option \<Rightarrow> bool \<Rightarrow> outcome" where
  "do_lock_from_fh env h file want_parent =
     (case file of
        None \<Rightarrow> Some (Reply 0 ERROR_INVALID_LOCK, h)
      | Some f \<Rightarrow> do {
          fi \<leftarrow> hd_files h f;
          n \<leftarrow> ef_nodes (hd_ef h) (fi_node fi);
          let node = (if want_parent then case n_parent n of None \<Rightarrow> ef_root (hd_ef h) | Some p \<Rightarrow> p else fi_node fi);
          ef \<leftarrow> exfat_get_node (hd_ef h) node;
          lock_reply env (h\<lparr>hd_ef := ef\<rparr>) node SHARED_LOCK
        })"

definition do_parent :: "environ \<Rightarrow> ExfatHandler \<Rightarrow> addr option \<Rightarrow> outcome" where
  "do_parent env h src =
     (case src of
        None \<Rightarrow> Some (Reply 0 NO_ERROR, h)
      | Some l \<Rightarrow> do {
          lk \<leftarrow> hd_locks h l;
          if lk_node lk = ef_root (hd_ef h) then Some (Reply 0 NO_ERROR, h)
          else do {
            n \<leftarrow> ef_nodes (hd_ef h) (lk_node lk);
            (case n_parent n of
               None \<Rightarrow> Some (Reply 0 NO_ERROR, h)
             | Some parent \<Rightarrow> do {
                 ef \<leftarrow> exfat_get_node (hd_ef h) parent;
                 lock_reply env (h\<lparr>hd_ef := ef\<rparr>) parent SHARED_LOCK
               })
          }
        })"

definition do_same_lock :: "ExfatHandler \<Rightarrow> addr option \<Rightarrow> addr option \<Rightarrow> outcome" where
  "do_same_lock h a b =
     do {
       na \<leftarrow> lock_node h a;
       nb \<leftarrow> lock_node h b;
       Some (Reply (if na = nb then DOSTRUE else DOSFALSE) NO_ERROR, h)
     }"

definition do_examine_object :: "ExfatHandler \<Rightarrow> addr option \<Rightarrow> outcome" where
  "do_examine_object h lock =
     do {
       node \<leftarrow> lock_node h lock;
       n \<leftarrow> ef_nodes (hd_ef h) node;
       fib \<leftarrow> fill_fib (hd_ef h) n 0 (node = ef_root (hd_ef h));
       h \<leftarrow> (case lock of
               None \<Rightarrow> Some h
             | Some l \<Rightarrow> do { lk \<leftarrow> hd_locks h l; Some (set_lock h l (lk\<lparr>lk_scan_index := - 1, lk_scan_next := None\<rparr>)) });
       Some (ReplyFib fib, h)
     }"

text \<open>\<open>note_scan\<close> stores where a scan goes on, if it has a lock.\<close>

definition note_scan :: "ExfatHandler \<Rightarrow> addr option \<Rightarrow> addr option \<Rightarrow> int \<Rightarrow> ExfatHandler option" where
  "note_scan h lock nxt index =
     (case lock of
        None \<Rightarrow> Some h
      | Some l \<Rightarrow> do { lk \<leftarrow> hd_locks h l; Some (set_lock h l (lk\<lparr>lk_scan_next := nxt, lk_scan_index := index\<rparr>)) })"

partial_function (option) examine_loop :: "ExfatHandler \<Rightarrow> addr option \<Rightarrow> exfat_iterator \<Rightarrow> int \<Rightarrow> int \<Rightarrow> outcome" where
  "examine_loop h lock it index want =
     do {
       (node, it, ef) \<leftarrow> exfat_readdir (hd_ef h) it;
       let h = h\<lparr>hd_ef := ef\<rparr>;
       (case node of
          None \<Rightarrow> do {
            ef \<leftarrow> exfat_closedir (hd_ef h) it;
            h \<leftarrow> note_scan (h\<lparr>hd_ef := ef\<rparr>) lock None (- 1);
            Some (Reply DOSFALSE ERROR_NO_MORE_ENTRIES, h)
          }
        | Some a \<Rightarrow>
            if index = want then do {
              n \<leftarrow> ef_nodes (hd_ef h) a;
              fib \<leftarrow> fill_fib (hd_ef h) n (c_int (want + 1)) False;
              h \<leftarrow> note_scan h lock (n_next n) (c_int (want + 1));
              ef \<leftarrow> exfat_put_node (hd_ef h) a;
              ef \<leftarrow> exfat_closedir ef it;
              Some (ReplyFib fib, h\<lparr>hd_ef := ef\<rparr>)
            }
            else do {
              ef \<leftarrow> exfat_put_node (hd_ef h) a;
              examine_loop (h\<lparr>hd_ef := ef\<rparr>) lock it (c_int (index + 1)) want
            })
     }"

text \<open>The case that is answered from the position in the lock: the entry to go on with.\<close>

definition scan_hit :: "ExfatHandler \<Rightarrow> addr option \<Rightarrow> exfat_node \<Rightarrow> int \<Rightarrow> addr option" where
  "scan_hit h lock dir want =
     do {
       l \<leftarrow> lock;
       lk \<leftarrow> hd_locks h l;
       if lk_scan_index lk = want \<and> n_is_cached dir then lk_scan_next lk else None
     }"

text \<open>\<open>want\<close> is the \<^verbatim>\<open>fib_DiskKey\<close> of the caller's structure.\<close>

definition do_examine_next :: "ExfatHandler \<Rightarrow> addr option \<Rightarrow> int \<Rightarrow> outcome" where
  "do_examine_next h lock want =
     do {
       dir \<leftarrow> lock_node h lock;
       d \<leftarrow> ef_nodes (hd_ef h) dir;
       if \<not> is_dir d then Some (Reply DOSFALSE ERROR_OBJECT_WRONG_TYPE, h)
       else case scan_hit h lock d want of
         Some a \<Rightarrow> do {
           n \<leftarrow> ef_nodes (hd_ef h) a;
           fib \<leftarrow> fill_fib (hd_ef h) n (c_int (want + 1)) False;
           h \<leftarrow> note_scan h lock (n_next n) (c_int (want + 1));
           Some (ReplyFib fib, h)
         }
       | None \<Rightarrow> do {
           (rc, it, ef) \<leftarrow> exfat_opendir (hd_ef h) dir;
           let h = h\<lparr>hd_ef := ef\<rparr>;
           if rc \<noteq> 0 then Some (Reply DOSFALSE ERROR_NO_MORE_ENTRIES, h)
           else examine_loop h lock it 0 want
         }
     }"

text \<open>The loop over the list of locks that \<^verbatim>\<open>scan_skip_node\<close> and \<^verbatim>\<open>scan_invalidate_all\<close> share.\<close>

partial_function (option) each_lock ::
    "(ExfatLock \<Rightarrow> ExfatLock) \<Rightarrow> (addr \<Rightarrow> ExfatLock option) \<Rightarrow> addr option \<Rightarrow> (addr \<Rightarrow> ExfatLock option) option" where
  "each_lock f locks b =
     (case b of
        None \<Rightarrow> Some locks
      | Some l \<Rightarrow> do { lk \<leftarrow> locks l; each_lock f (locks(l \<mapsto> f lk)) (lk_link lk) })"

definition update_scans :: "(ExfatLock \<Rightarrow> ExfatLock) \<Rightarrow> ExfatHandler \<Rightarrow> ExfatHandler option" where
  "update_scans f h =
     (case hd_volume h of
        None \<Rightarrow> Some h
      | Some v \<Rightarrow> do { locks \<leftarrow> each_lock f (hd_locks h) (dl_lock_list v); Some (h\<lparr>hd_locks := locks\<rparr>) })"

definition scan_skip_node :: "ExfatHandler \<Rightarrow> addr \<Rightarrow> ExfatHandler option" where
  "scan_skip_node h node =
     do {
       n \<leftarrow> ef_nodes (hd_ef h) node;
       update_scans (\<lambda>lk. if lk_scan_next lk = Some node then lk\<lparr>lk_scan_next := n_next n\<rparr> else lk) h
     }"

definition scan_invalidate_all :: "ExfatHandler \<Rightarrow> ExfatHandler option" where
  "scan_invalidate_all h = update_scans (\<lambda>lk. lk\<lparr>lk_scan_next := None\<rparr>) h"

section \<open>Files\<close>

datatype offset_mode = OFFSET_BEGINNING | OFFSET_CURRENT | OFFSET_END | OFFSET_OTHER

text \<open>A \<^verbatim>\<open>LONG\<close> as the 32-bit number without sign that the cast makes of it.\<close>

definition ulong :: "int \<Rightarrow> int" where
  "ulong x = uint (word_of_int x :: u32)"

definition resolve_offset :: "int \<Rightarrow> offset_mode \<Rightarrow> off_t \<Rightarrow> off_t \<Rightarrow> off_t option" where
  "resolve_offset arg mode current fin =
     (case mode of
        OFFSET_BEGINNING \<Rightarrow> Some (ulong arg)
      | OFFSET_CURRENT \<Rightarrow> Some (current + arg)
      | OFFSET_END \<Rightarrow> Some (fin - ulong (- arg))
      | OFFSET_OTHER \<Rightarrow> None)"

datatype open_mode = OPEN_OLD | OPEN_NEW | OPEN_UPDATE

definition allocate_file :: "ExfatHandler \<Rightarrow> addr \<Rightarrow> bool \<Rightarrow> addr \<times> ExfatHandler" where
  "allocate_file h node wr_ok =
     (hd_fresh h, (set_file h (hd_fresh h) \<lparr>fi_node = node, fi_pos = 0, fi_writable = wr_ok\<rparr>)
       \<lparr>hd_fresh := hd_fresh h + 1, hd_nfiles := hd_nfiles h + 1\<rparr>)"

text \<open>The end of \<^verbatim>\<open>do_open\<close>: a reference to \<open>node\<close> is held, and kept by the new file.\<close>

definition open_reply :: "environ \<Rightarrow> ExfatHandler \<Rightarrow> addr \<Rightarrow> bool \<Rightarrow> outcome" where
  "open_reply env h node wr_ok =
     (if \<not> en_alloc env
      then do { ef \<leftarrow> exfat_put_node (hd_ef h) node; Some (Reply DOSFALSE ERROR_NO_FREE_STORE, h\<lparr>hd_ef := ef\<rparr>) }
      else let (f, h) = allocate_file h node wr_ok in Some (ReplyFile f, h))"

text \<open>The branch for a path that leads to nothing: the file is created if the mode is one for writing.\<close>

definition open_create :: "environ \<Rightarrow> ExfatHandler \<Rightarrow> u8 list \<Rightarrow> outcome" where
  "open_create env h path =
     do {
       (rc, ef) \<leftarrow> exfat_mknod (hd_ef h) path;
       (rc, node, ef) \<leftarrow> (if rc = 0 then exfat_lookup ef path else Some (rc, None, ef));
       let h = h\<lparr>hd_ef := ef\<rparr>;
       if rc \<noteq> 0 then Some (Reply DOSFALSE (map_errno rc), h)
       else do { a \<leftarrow> node; open_reply env h a True }
     }"

text \<open>The branches for a path that leads to \<open>node\<close>.\<close>

definition open_existing :: "environ \<Rightarrow> ExfatHandler \<Rightarrow> addr \<Rightarrow> open_mode \<Rightarrow> outcome" where
  "open_existing env h node mode =
     do {
       n \<leftarrow> ef_nodes (hd_ef h) node;
       if is_dir n then do { ef \<leftarrow> exfat_put_node (hd_ef h) node; Some (Reply DOSFALSE ERROR_OBJECT_WRONG_TYPE, h\<lparr>hd_ef := ef\<rparr>) }
       else if mode = OPEN_NEW then do {
         (rc, ef) \<leftarrow> truncate_at (hd_ef h) node 0 True;
         if rc \<noteq> 0 then do {
           (_, ef) \<leftarrow> exfat_flush_node ef node;
           ef \<leftarrow> exfat_put_node ef node;
           Some (Reply DOSFALSE (map_errno rc), h\<lparr>hd_ef := ef\<rparr>)
         }
         else open_reply env (h\<lparr>hd_ef := ef\<rparr>) node True
       }
       else open_reply env h node (mode \<noteq> OPEN_OLD)
     }"

definition do_open :: "environ \<Rightarrow> ExfatHandler \<Rightarrow> bool \<Rightarrow> addr option \<Rightarrow> u8 list \<Rightarrow> open_mode \<Rightarrow> outcome" where
  "do_open env h fh base bpath mode =
     (if \<not> fh then Some (Reply DOSFALSE ERROR_OBJECT_NOT_FOUND, h)
      else do {
        path \<leftarrow> resolve_path h base bpath MAX_PATH_UTF8;
        (case path of
           None \<Rightarrow> Some (Reply DOSFALSE ERROR_OBJECT_NOT_FOUND, h)
         | Some path \<Rightarrow>
             if mode \<noteq> OPEN_OLD \<and> (hd_inhibited h \<or> ef_ro (hd_ef h) \<noteq> 0) then Some (Reply DOSFALSE ERROR_DISK_WRITE_PROTECTED, h)
             else do {
               (rc, node, ef) \<leftarrow> exfat_lookup (hd_ef h) path;
               let h = h\<lparr>hd_ef := ef\<rparr>;
               if rc \<noteq> 0 then
                 if mode = OPEN_OLD then Some (Reply DOSFALSE ERROR_OBJECT_NOT_FOUND, h) else open_create env h path
               else do { a \<leftarrow> node; open_existing env h a mode }
             })
      })"

definition do_examine_fh :: "ExfatHandler \<Rightarrow> addr option \<Rightarrow> bool \<Rightarrow> outcome" where
  "do_examine_fh h file fib =
     (case file of
        None \<Rightarrow> Some (Reply DOSFALSE ERROR_INVALID_LOCK, h)
      | Some f \<Rightarrow>
          do {
            fi \<leftarrow> hd_files h f;
            if \<not> fib then Some (Reply DOSFALSE ERROR_INVALID_LOCK, h)
            else do {
              n \<leftarrow> ef_nodes (hd_ef h) (fi_node fi);
              fib \<leftarrow> fill_fib (hd_ef h) n 0 False;
              Some (ReplyFib fib, h)
            }
          })"

definition do_fh_from_lock :: "environ \<Rightarrow> ExfatHandler \<Rightarrow> bool \<Rightarrow> addr option \<Rightarrow> outcome" where
  "do_fh_from_lock env h fh lock =
     (if \<not> fh then Some (Reply DOSFALSE ERROR_INVALID_LOCK, h)
      else case lock of
        None \<Rightarrow> Some (Reply DOSFALSE ERROR_INVALID_LOCK, h)
      | Some l \<Rightarrow> do {
          lk \<leftarrow> hd_locks h l;
          n \<leftarrow> ef_nodes (hd_ef h) (lk_node lk);
          if is_dir n then Some (Reply DOSFALSE ERROR_OBJECT_WRONG_TYPE, h)
          else if \<not> en_alloc env then Some (Reply DOSFALSE ERROR_NO_FREE_STORE, h)
          else do {
            ef \<leftarrow> exfat_get_node (hd_ef h) (lk_node lk);
            let (f, h) = allocate_file (h\<lparr>hd_ef := ef\<rparr>) (lk_node lk) (lk_access lk = EXCLUSIVE_LOCK);
            h \<leftarrow> exfat_amiga_freelock h (Some l);
            Some (ReplyFile f, h)
          }
        })"

text \<open>The file and the buffer of a read or write; \<open>length\<close> may be negative, and then nothing is read of the buffer.\<close>

definition do_write :: "ExfatHandler \<Rightarrow> addr option \<Rightarrow> u8 list \<Rightarrow> int \<Rightarrow> outcome" where
  "do_write h file buffer len =
     (case file of
        None \<Rightarrow> Some (Reply (- 1) ERROR_INVALID_LOCK, h)
      | Some f \<Rightarrow>
          if len < 0 then Some (Reply (- 1) ERROR_INVALID_LOCK, h)
          else do {
            fi \<leftarrow> hd_files h f;
            if hd_inhibited h \<or> ef_ro (hd_ef h) \<noteq> 0 \<or> \<not> fi_writable fi then Some (Reply (- 1) ERROR_DISK_WRITE_PROTECTED, h)
            else if len = 0 then Some (Reply 0 NO_ERROR, h)
            else do {
              node \<leftarrow> ef_nodes (hd_ef h) (fi_node fi);
              (n, ef, node) \<leftarrow> exfat_generic_pwrite (hd_ef h) node buffer (nat len) (fi_pos fi);
              let h = h\<lparr>hd_ef := set_node ef (fi_node fi) node\<rparr>;
              if n < 0 then Some (Reply (- 1) (map_errno n), h)
              else Some (Reply n NO_ERROR, set_file h f (fi\<lparr>fi_pos := fi_pos fi + n\<rparr>))
            }
          })"

definition do_set_file_size :: "ExfatHandler \<Rightarrow> addr option \<Rightarrow> int \<Rightarrow> offset_mode \<Rightarrow> outcome" where
  "do_set_file_size h file arg mode =
     (case file of
        None \<Rightarrow> Some (Reply (- 1) ERROR_INVALID_LOCK, h)
      | Some f \<Rightarrow> do {
          fi \<leftarrow> hd_files h f;
          if hd_inhibited h \<or> ef_ro (hd_ef h) \<noteq> 0 \<or> \<not> fi_writable fi then Some (Reply (- 1) ERROR_DISK_WRITE_PROTECTED, h)
          else do {
            n \<leftarrow> ef_nodes (hd_ef h) (fi_node fi);
            (case resolve_offset arg mode (fi_pos fi) (sint (n_size n)) of
               None \<Rightarrow> Some (Reply (- 1) ERROR_SEEK_ERROR, h)
             | Some newsize \<Rightarrow>
                 if newsize < 0 then Some (Reply (- 1) ERROR_SEEK_ERROR, h)
                 else do {
                   (rc, ef) \<leftarrow> truncate_at (hd_ef h) (fi_node fi) (word_of_int newsize) True;
                   let h = h\<lparr>hd_ef := ef\<rparr>;
                   if rc \<noteq> 0 then Some (Reply (- 1) (map_errno rc), h)
                   else Some (Reply (c_int newsize) NO_ERROR, set_file h f (fi\<lparr>fi_pos := min (fi_pos fi) newsize\<rparr>))
                 })
          }
        })"

definition do_end :: "ExfatHandler \<Rightarrow> addr option \<Rightarrow> outcome" where
  "do_end h file =
     (case file of
        None \<Rightarrow> Some (Reply DOSTRUE NO_ERROR, h)
      | Some f \<Rightarrow> do {
          fi \<leftarrow> hd_files h f;
          (err, ef) \<leftarrow>
            (if ef_ro (hd_ef h) = 0 \<and> \<not> hd_inhibited h
             then do { (rc, ef) \<leftarrow> exfat_flush_node (hd_ef h) (fi_node fi); Some (if rc \<noteq> 0 then ERROR_DISK_FULL else NO_ERROR, ef) }
             else Some (NO_ERROR, hd_ef h));
          ef \<leftarrow> exfat_put_node ef (fi_node fi);
          Some (reply_err err, h\<lparr>hd_ef := ef, hd_files := (hd_files h)(f := None), hd_nfiles := hd_nfiles h - 1\<rparr>)
        })"

definition do_read :: "ExfatHandler \<Rightarrow> addr option \<Rightarrow> u8 list \<Rightarrow> int \<Rightarrow> outcome" where
  "do_read h file buffer len =
     (case file of
        None \<Rightarrow> Some (Reply (- 1) ERROR_INVALID_LOCK, h)
      | Some f \<Rightarrow>
          if len < 0 then Some (Reply (- 1) ERROR_INVALID_LOCK, h)
          else if len = 0 then Some (Reply 0 NO_ERROR, h)
          else do {
            fi \<leftarrow> hd_files h f;
            node \<leftarrow> ef_nodes (hd_ef h) (fi_node fi);
            (n, buffer, node) \<leftarrow> exfat_generic_pread (hd_ef h) node buffer (nat len) (fi_pos fi);
            let h = h\<lparr>hd_ef := set_node (hd_ef h) (fi_node fi) node\<rparr>;
            if n < 0 then Some (Reply (- 1) ERROR_SEEK_ERROR, h)
            else Some (ReplyRead n buffer, set_file h f (fi\<lparr>fi_pos := fi_pos fi + n\<rparr>))
          })"

definition do_seek :: "ExfatHandler \<Rightarrow> addr option \<Rightarrow> int \<Rightarrow> offset_mode \<Rightarrow> outcome" where
  "do_seek h file offset mode =
     (case file of
        None \<Rightarrow> Some (Reply (- 1) ERROR_INVALID_LOCK, h)
      | Some f \<Rightarrow> do {
          fi \<leftarrow> hd_files h f;
          n \<leftarrow> ef_nodes (hd_ef h) (fi_node fi);
          (case (case mode of
                   OFFSET_BEGINNING \<Rightarrow> Some (ulong offset)
                 | OFFSET_CURRENT \<Rightarrow> Some (fi_pos fi + offset)
                 | OFFSET_END \<Rightarrow> Some (sint (n_size n) - ulong (- offset))
                 | OFFSET_OTHER \<Rightarrow> None) of
             None \<Rightarrow> Some (Reply (- 1) ERROR_SEEK_ERROR, h)
           | Some newpos \<Rightarrow>
               if newpos < 0 \<or> uint (n_size n) < newpos then Some (Reply (- 1) ERROR_SEEK_ERROR, h)
               else Some (Reply (c_int (fi_pos fi)) NO_ERROR, set_file h f (fi\<lparr>fi_pos := newpos\<rparr>)))
        })"

section \<open>Objects\<close>

text \<open>The node, or the error.\<close>

definition lookup_arg23 :: "ExfatHandler \<Rightarrow> addr option \<Rightarrow> u8 list \<Rightarrow> ((dos_error + addr) \<times> ExfatHandler) option" where
  "lookup_arg23 h base bpath =
     do {
       path \<leftarrow> resolve_path h base bpath MAX_PATH_UTF8;
       (case path of
          None \<Rightarrow> Some (Inl ERROR_OBJECT_NOT_FOUND, h)
        | Some path \<Rightarrow> do {
            (rc, node, ef) \<leftarrow> exfat_lookup (hd_ef h) path;
            let h = h\<lparr>hd_ef := ef\<rparr>;
            if rc \<noteq> 0 then Some (Inl (map_errno rc), h) else do { a \<leftarrow> node; Some (Inr a, h) }
          })
     }"

definition protect_attrib :: "u32 \<Rightarrow> u16 \<Rightarrow> u16" where
  "protect_attrib bits attrib =
     (let attrib = (if bits AND (FIBF_WRITE OR FIBF_DELETE) \<noteq> 0 then attrib OR EXFAT_ATTRIB_RO else attrib AND NOT EXFAT_ATTRIB_RO)
      in if bits AND FIBF_ARCHIVE \<noteq> 0 then attrib OR EXFAT_ATTRIB_ARCH else attrib AND NOT EXFAT_ATTRIB_ARCH)"

text \<open>What \<^verbatim>\<open>do_set_protect\<close> and \<^verbatim>\<open>do_set_date\<close> end with: the changed node is written and given back.\<close>

definition flush_reply :: "ExfatHandler \<Rightarrow> addr \<Rightarrow> (exfat_node \<Rightarrow> exfat_node) \<Rightarrow> outcome" where
  "flush_reply h node f =
     do {
       ef \<leftarrow> upd_node (hd_ef h) node f;
       (rc, ef) \<leftarrow> exfat_flush_node ef node;
       ef \<leftarrow> exfat_put_node ef node;
       Some (reply_err (if rc \<noteq> 0 then ERROR_DISK_FULL else NO_ERROR), h\<lparr>hd_ef := ef\<rparr>)
     }"

definition do_set_protect :: "ExfatHandler \<Rightarrow> addr option \<Rightarrow> u8 list \<Rightarrow> u32 \<Rightarrow> outcome" where
  "do_set_protect h base bpath bits =
     (if hd_inhibited h \<or> ef_ro (hd_ef h) \<noteq> 0 then Some (Reply DOSFALSE ERROR_DISK_WRITE_PROTECTED, h)
      else do {
        (res, h) \<leftarrow> lookup_arg23 h base bpath;
        (case res of
           Inl err \<Rightarrow> Some (Reply DOSFALSE err, h)
         | Inr node \<Rightarrow> do {
             n \<leftarrow> ef_nodes (hd_ef h) node;
             let attrib = protect_attrib bits (n_attrib n);
             if attrib \<noteq> n_attrib n then flush_reply h node (\<lambda>n. n\<lparr>n_attrib := attrib, n_is_dirty := True\<rparr>)
             else do { ef \<leftarrow> exfat_put_node (hd_ef h) node; Some (Reply DOSTRUE NO_ERROR, h\<lparr>hd_ef := ef\<rparr>) }
           })
      })"

definition do_set_date :: "ExfatHandler \<Rightarrow> addr option \<Rightarrow> u8 list \<Rightarrow> DateStamp option \<Rightarrow> outcome" where
  "do_set_date h base bpath ds =
     (if ef_ro (hd_ef h) \<noteq> 0 then Some (Reply DOSFALSE ERROR_DISK_WRITE_PROTECTED, h)
      else case ds of
        None \<Rightarrow> Some (Reply DOSFALSE ERROR_BAD_NUMBER, h)
      | Some ds \<Rightarrow> do {
          (res, h) \<leftarrow> lookup_arg23 h base bpath;
          (case res of
             Inl err \<Rightarrow> Some (Reply DOSFALSE err, h)
           | Inr node \<Rightarrow> flush_reply h node (\<lambda>n. n\<lparr>n_mtime := exfat_amiga_datestamp_to_time ds, n_is_dirty := True\<rparr>))
        })"

definition do_set_comment :: "ExfatHandler \<Rightarrow> addr option \<Rightarrow> u8 list \<Rightarrow> u8 list option \<Rightarrow> outcome" where
  "do_set_comment h base bpath comment =
     (if hd_inhibited h \<or> ef_ro (hd_ef h) \<noteq> 0 then Some (Reply DOSFALSE ERROR_DISK_WRITE_PROTECTED, h)
      else do {
        refused \<leftarrow> (case comment of None \<Rightarrow> Some False | Some [] \<Rightarrow> None | Some (len # _) \<Rightarrow> Some (len \<noteq> 0));
        if refused then Some (Reply DOSFALSE ERROR_ACTION_NOT_KNOWN, h)
        else do {
          (res, h) \<leftarrow> lookup_arg23 h base bpath;
          (case res of
             Inl err \<Rightarrow> Some (Reply DOSFALSE err, h)
           | Inr node \<Rightarrow> do { ef \<leftarrow> exfat_put_node (hd_ef h) node; Some (Reply DOSTRUE NO_ERROR, h\<lparr>hd_ef := ef\<rparr>) })
        }
      })"

text \<open>The removal itself, after the checks of \<^verbatim>\<open>do_delete_object\<close>.\<close>

definition delete_node :: "ExfatHandler \<Rightarrow> addr \<Rightarrow> outcome" where
  "delete_node h node =
     do {
       h \<leftarrow> scan_skip_node h node;
       n \<leftarrow> ef_nodes (hd_ef h) node;
       (rc, ef) \<leftarrow> (if is_dir n then exfat_rmdir (hd_ef h) node else exfat_unlink (hd_ef h) node);
       ef \<leftarrow> exfat_put_node ef node;
       if rc \<noteq> 0 then Some (Reply DOSFALSE (map_errno rc), h\<lparr>hd_ef := ef\<rparr>)
       else do {
         (rc, ef) \<leftarrow> exfat_cleanup_node ef node;
         Some (reply_err (map_errno rc), h\<lparr>hd_ef := ef\<rparr>)
       }
     }"

definition do_delete_object :: "ExfatHandler \<Rightarrow> addr option \<Rightarrow> u8 list \<Rightarrow> outcome" where
  "do_delete_object h base bpath =
     (if hd_inhibited h \<or> ef_ro (hd_ef h) \<noteq> 0 then Some (Reply DOSFALSE ERROR_DISK_WRITE_PROTECTED, h)
      else do {
        path \<leftarrow> resolve_path h base bpath MAX_PATH_UTF8;
        (case path of
           None \<Rightarrow> Some (Reply DOSFALSE ERROR_OBJECT_NOT_FOUND, h)
         | Some path \<Rightarrow> do {
             (rc, node, ef) \<leftarrow> exfat_lookup (hd_ef h) path;
             let h = h\<lparr>hd_ef := ef\<rparr>;
             if rc \<noteq> 0 then Some (Reply DOSFALSE (map_errno rc), h)
             else do {
               a \<leftarrow> node;
               n \<leftarrow> ef_nodes (hd_ef h) a;
               if a = ef_root (hd_ef h)
               then do { ef \<leftarrow> exfat_put_node (hd_ef h) a; Some (Reply DOSFALSE ERROR_OBJECT_WRONG_TYPE, h\<lparr>hd_ef := ef\<rparr>) }
               else if 1 < n_references n
               then do { ef \<leftarrow> exfat_put_node (hd_ef h) a; Some (Reply DOSFALSE ERROR_OBJECT_IN_USE, h\<lparr>hd_ef := ef\<rparr>) }
               else delete_node h a
             }
           })
      })"

definition do_create_dir :: "environ \<Rightarrow> ExfatHandler \<Rightarrow> addr option \<Rightarrow> u8 list \<Rightarrow> outcome" where
  "do_create_dir env h base bpath =
     (if hd_inhibited h \<or> ef_ro (hd_ef h) \<noteq> 0 then Some (Reply 0 ERROR_DISK_WRITE_PROTECTED, h)
      else do {
        path \<leftarrow> resolve_path h base bpath MAX_PATH_UTF8;
        (case path of
           None \<Rightarrow> Some (Reply 0 ERROR_OBJECT_NOT_FOUND, h)
         | Some path \<Rightarrow> do {
             (rc, ef) \<leftarrow> exfat_mkdir (hd_ef h) path;
             (rc, node, ef) \<leftarrow> (if rc = 0 then exfat_lookup ef path else Some (rc, None, ef));
             let h = h\<lparr>hd_ef := ef\<rparr>;
             if rc \<noteq> 0 then Some (Reply 0 (map_errno rc), h) else do { a \<leftarrow> node; lock_reply env h a EXCLUSIVE_LOCK }
           })
      })"

definition do_rename_object :: "ExfatHandler \<Rightarrow> addr option \<Rightarrow> u8 list \<Rightarrow> addr option \<Rightarrow> u8 list \<Rightarrow> outcome" where
  "do_rename_object h srcbase bsrc dstbase bdst =
     (if hd_inhibited h \<or> ef_ro (hd_ef h) \<noteq> 0 then Some (Reply DOSFALSE ERROR_DISK_WRITE_PROTECTED, h)
      else do {
        src \<leftarrow> resolve_path h srcbase bsrc MAX_PATH_UTF8;
        (case src of
           None \<Rightarrow> Some (Reply DOSFALSE ERROR_OBJECT_NOT_FOUND, h)
         | Some src \<Rightarrow> do {
             dst \<leftarrow> resolve_path h dstbase bdst MAX_PATH_UTF8;
             (case dst of
                None \<Rightarrow> Some (Reply DOSFALSE ERROR_OBJECT_NOT_FOUND, h)
              | Some dst \<Rightarrow> do {
                  (rc, ef) \<leftarrow> exfat_rename (hd_ef h) src dst;
                  let h = h\<lparr>hd_ef := ef\<rparr>;
                  if rc \<noteq> 0 then Some (Reply DOSFALSE (map_errno rc), h)
                  else do { h \<leftarrow> scan_invalidate_all h; Some (Reply DOSTRUE NO_ERROR, h) }
                })
           })
      })"

text \<open>The new name of the volume node is a copy of the BSTR, when there is memory for it.\<close>

definition do_rename_disk :: "environ \<Rightarrow> ExfatHandler \<Rightarrow> u8 list option \<Rightarrow> outcome" where
  "do_rename_disk env h bname =
     (if hd_inhibited h \<or> ef_ro (hd_ef h) \<noteq> 0 then Some (Reply DOSFALSE ERROR_DISK_WRITE_PROTECTED, h)
      else case bname of
        None \<Rightarrow> Some (Reply DOSFALSE ERROR_INVALID_COMPONENT_NAME, h)
      | Some [] \<Rightarrow> None
      | Some (len # bs) \<Rightarrow>
          if len = 0 then Some (Reply DOSFALSE ERROR_INVALID_COMPONENT_NAME, h)
          else do {
            label \<leftarrow> exfat_amiga_bstr_to_utf8 (len # bs) (int EXFAT_UTF8_ENAME_BUFFER_MAX);
            (rc, ef) \<leftarrow> exfat_set_label (hd_ef h) label;
            let h = h\<lparr>hd_ef := ef\<rparr>;
            if rc \<noteq> 0 then Some (Reply DOSFALSE (map_errno rc), h)
            else case hd_volume h of
              None \<Rightarrow> Some (Reply DOSTRUE NO_ERROR, h)
            | Some v \<Rightarrow>
                if \<not> en_alloc env then Some (Reply DOSTRUE NO_ERROR, h)
                else
                  let newname = len # take (unat len) bs;
                      orig = (case hd_volname_orig h of None \<Rightarrow> Some (dl_name v) | o' \<Rightarrow> o')
                  in Some (Reply DOSTRUE NO_ERROR,
                       h\<lparr>hd_volname_orig := orig, hd_volname := Some newname, hd_volume := Some (v\<lparr>dl_name := newname\<rparr>)\<rparr>)
          })"

end
