(* ===== verification/Handler.thy ===== *)
theory Handler
  imports Packets Mkfs
begin

text \<open>
  The AmigaOS handler, \<^verbatim>\<open>amiga/handler.c\<close>, third part: the card, mounting, inhibiting and formatting, and the packet loop.
  As in \<open>Packets\<close> the library runs on a store of bytes, but \<open>same_volume\<close> on the device with the block that it may still have in memory.
\<close>

section \<open>The card and the extent\<close>

text \<open>
  What opening the device for an extent of the card finds.  Without a device, or with a block size that is not a power of two, it fails;
  a protected card can be opened for reading only.
\<close>

definition extent_node :: "card \<Rightarrow> ExfatDevSpec \<Rightarrow> devnode" where
  "extent_node cd spec =
     (let ok = (cd_present cd \<and> sp_blocksize spec \<noteq> 0 \<and> sp_blocksize spec AND (sp_blocksize spec - 1) = 0)
      in \<lparr>dn_stdio_ok = True, dn_malloc_ok = True, dn_open_ro = ok, dn_open_rw = ok, dn_blkroget = cd_protected cd, dn_fstat_ok = True,
          dn_kind_ok = True, dn_seek_end = sint (sp_length spec), dn_seek_set_ok = True,
          dn_data = (\<lambda>i. cd_data cd (unat (sp_firstbyte spec) + i)), dn_bad_read = cd_bad_read cd, dn_bad_write = cd_bad_write cd,
          dn_sync_ok = cd_sync_ok cd\<rparr>)"

text \<open>The card after the device was used: the bytes of the extent are those of the device.\<close>

definition written_back :: "card \<Rightarrow> ExfatDevSpec \<Rightarrow> exfat_dev \<Rightarrow> card" where
  "written_back cd spec dev =
     cd\<lparr>cd_data := (\<lambda>i. let first = unat (sp_firstbyte spec)
                         in if first \<le> i \<and> i < first + nat (dev_size dev) then dev_data dev (i - first) else cd_data cd i)\<rparr>"

text \<open>
  Another card in the slot, or none (then every request fails): a mounted volume goes on with the device it opened, and this with the block it
  has in memory, \<open>held\<close>, if it has one.  Nothing invalidates that block.
\<close>

definition change_card :: "(u64 \<times> u8 list) option \<Rightarrow> card \<Rightarrow> ExfatHandler \<Rightarrow> ExfatHandler" where
  "change_card held cd h =
     (let node = extent_node cd (hd_spec h);
          ef = hd_ef h;
          dev = (ef_dev ef)\<lparr>dev_data := dn_data node, dev_bad_read := dn_bad_read node, dev_bad_write := dn_bad_write node,
                            dev_sync_ok := dn_sync_ok node\<rparr>
      in h\<lparr>hd_card := cd, hd_ef := (if hd_mounted h then ef\<lparr>ef_dev := dev\<rparr> else ef), hd_held := (if hd_mounted h then held else None)\<rparr>)"

text \<open>The bytes in the slot.\<close>

definition slot_bytes :: "ExfatHandler \<Rightarrow> nat \<Rightarrow> u8" where
  "slot_bytes h = cd_data (if hd_mounted h then written_back (hd_card h) (hd_spec h) (ef_dev (hd_ef h)) else hd_card h)"

definition extent_reader :: "card \<Rightarrow> ExfatDevSpec \<Rightarrow> reader" where
  "extent_reader cd spec buf off =
     partition_read (\<lambda>pos n. if cd_bad_read cd pos n then Some [] else None) (\<lambda>i. cd_data cd (unat (sp_firstbyte spec) + i))
       (sint (sp_length spec)) buf off"

definition EXFAT_MAX_PARTITIONS :: nat where "EXFAT_MAX_PARTITIONS = 8"

definition spec_from_envec :: "ExfatHandler \<Rightarrow> ExfatHandler" where
  "spec_from_envec h =
     (let de = hd_envec h;
          blocksize = de_SizeBlock de * 4;
          blocks_per_cyl = ucast (de_Surfaces de) * ucast (de_BlocksPerTrack de) :: u64;
          first_block = ucast (de_LowCyl de) * blocks_per_cyl;
          block_count = (ucast (de_HighCyl de) - ucast (de_LowCyl de) + 1) * blocks_per_cyl
      in h\<lparr>hd_lowcyl := de_LowCyl de,
           hd_spec := \<lparr>sp_blocksize = blocksize, sp_maxtransfer = de_MaxTransfer de, sp_mask = de_Mask de,
                       sp_firstbyte = first_block * ucast blocksize, sp_length = block_count * ucast blocksize\<rparr>\<rparr>)"

text \<open>The volume is not mounted.  The partitions behind the first one are published for other processes, which is outside of the model.\<close>

definition resolve_extent :: "environ \<Rightarrow> ExfatHandler \<Rightarrow> (bool \<times> ExfatHandler) option" where
  "resolve_extent env h =
     (let spec = hd_spec h
      in if hd_lowcyl h \<noteq> 0 then Some (True, h)
         else if \<not> dn_open_ro (extent_node (hd_card h) spec) then Some (False, h)
         else do {
           parts \<leftarrow> exfat_amiga_scan_partitions (en_alloc env) (extent_reader (hd_card h) spec) (sp_blocksize spec)
                     (sp_length spec div ucast (sp_blocksize spec)) EXFAT_MAX_PARTITIONS;
           (case parts of
              [] \<Rightarrow> Some (False, h)
            | p # ps \<Rightarrow>
                if ps = [] \<and> pt_first_lba p = 0 then Some (True, h)
                else Some (True, h\<lparr>hd_spec := spec\<lparr>sp_firstbyte := sp_firstbyte spec + pt_first_lba p * ucast (sp_blocksize spec),
                                                     sp_length := pt_sectors p * ucast (sp_blocksize spec)\<rparr>\<rparr>))
         })"

section \<open>Mounting and unmounting\<close>

definition MOUNT_OPTIONS :: string where "MOUNT_OPTIONS = ''ro_fallback,noatime''"

definition mount_fs :: "ExfatHandler \<Rightarrow> (bool \<times> ExfatHandler) option" where
  "mount_fs h =
     do {
       (rc, dev, ef) \<leftarrow> exfat_mount (ef_host (hd_ef h)) (extent_node (hd_card h) (hd_spec h)) MOUNT_OPTIONS;
       let h = (case dev of None \<Rightarrow> h | Some dev \<Rightarrow> h\<lparr>hd_card := written_back (hd_card h) (hd_spec h) dev\<rparr>);
       if rc \<noteq> 0 then Some (False, h)
       else do {
         ef \<leftarrow> ef;
         let ef = (if ef_ro ef = 0 then snd (exfat_soil_super_block ef) else ef);
         Some (True, h\<lparr>hd_mounted := True, hd_ef := ef, hd_held := None\<rparr>)
       }
     }"

definition unmount_fs :: "ExfatHandler \<Rightarrow> ExfatHandler option" where
  "unmount_fs h =
     (if \<not> hd_mounted h then Some h
      else do {
        dev \<leftarrow> exfat_unmount (hd_ef h);
        Some (h\<lparr>hd_mounted := False, hd_card := written_back (hd_card h) (hd_spec h) dev\<rparr>)
      })"

definition UNTITLED :: "u8 list" where
  "UNTITLED = [0x55, 0x6e, 0x74, 0x69, 0x74, 0x6c, 0x65, 0x64]"

definition add_volume :: "environ \<Rightarrow> ExfatHandler \<Rightarrow> ExfatHandler" where
  "add_volume env h =
     (let label = exfat_get_label (hd_ef h);
          name = take 63 (if label = [] then UNTITLED else label)
      in if \<not> en_make_entry env then h
         else h\<lparr>hd_volume := Some \<lparr>dl_task = True, dl_lock_list = None, dl_name = of_nat (length name) # name\<rparr>\<rparr>)"

text \<open>Whether the entry is still in the DOS list, and whether the list can be locked, makes no difference for the state of the handler.\<close>

definition remove_volume :: "ExfatHandler \<Rightarrow> ExfatHandler" where
  "remove_volume h = (if hd_volume h = None then h else h\<lparr>hd_volume := None, hd_volname := None, hd_volname_orig := None\<rparr>)"

definition set_volume_dirty :: "exfat \<Rightarrow> bool \<Rightarrow> dos_error \<times> exfat" where
  "set_volume_dirty ef dirty =
     (if ef_ro ef \<noteq> 0 then (NO_ERROR, ef)
      else
        let state = sb_volume_state (ef_sb ef);
            ef = ef\<lparr>ef_sb := (ef_sb ef)\<lparr>sb_volume_state := (if dirty then state OR EXFAT_STATE_MOUNTED else state AND NOT EXFAT_STATE_MOUNTED)\<rparr>\<rparr>;
            (n, dev) = exfat_pwrite (ef_dev ef) (bytes_of_sb (ef_sb ef)) 512 0;
            ef = ef\<lparr>ef_dev := dev\<rparr>
        in if n < 0 then (ERROR_DISK_FULL, ef)
           else if exfat_fsync dev \<noteq> 0 then (ERROR_DISK_FULL, ef) else (NO_ERROR, ef))"

text \<open>
  The boot sector consists of whole blocks of the device and is read from the card.  Otherwise the block with its first byte is
  brought into memory by \<^verbatim>\<open>fetch_block\<close>, which is content with the block it has there if that is from the same place; only
  this block of the request can come from another card, since fetching one block replaces the other
  (\<open>held_block_answers\<close> and \<open>whole_blocks_ask_the_driver\<close> in \<open>AmigaDevFacts\<close>).
\<close>

definition boot_direct :: "ExfatDevSpec \<Rightarrow> bool" where
  "boot_direct spec \<longleftrightarrow> unat (sp_blocksize spec) dvd 512 \<and> unat (sp_blocksize spec) dvd unat (sp_firstbyte spec)"

definition read_boot_sector :: "ExfatHandler \<Rightarrow> int \<times> u8 list" where
  "read_boot_sector h =
     (let dev = ef_dev (hd_ef h);
          bs = unat (sp_blocksize (hd_spec h));
          first = unat (sp_firstbyte (hd_spec h));
          head = first mod bs;
          n = min (bs - head) 512;
          direct = exfat_pread dev (garbage (hd_ef h) 512) 512 0
      in case hd_held h of
           None \<Rightarrow> direct
         | Some (lba, block) \<Rightarrow>
             if boot_direct (hd_spec h) \<or> unat lba \<noteq> first - head then direct
             else let (rc, bytes) = (if n = 512 then (0, []) else exfat_pread dev (garbage (hd_ef h) (512 - n)) (512 - n) (int n))
                  in if rc = int (512 - n) then (512, take n (drop head block) @ bytes) else (- 1, garbage (hd_ef h) 512))"

text \<open>What identifies a volume.\<close>

definition volume_matches :: "exfat_super_block \<Rightarrow> u8 list \<Rightarrow> bool" where
  "volume_matches old bytes =
     (let sb = sb_of_bytes bytes
      in sb_oem_name sb = EXFAT_NAME \<and> sb_volume_serial sb = sb_volume_serial old \<and>
         sb_sector_bits sb = sb_sector_bits old \<and> sb_spc_bits sb = sb_spc_bits old \<and>
         sb_cluster_count sb = sb_cluster_count old \<and> sb_rootdir_cluster sb = sb_rootdir_cluster old)"

definition same_volume :: "ExfatHandler \<Rightarrow> bool" where
  "same_volume h =
     (hd_mounted h \<and>
      (let (n, bytes) = read_boot_sector h
       in n = 512 \<and> volume_matches (ef_sb (hd_ef h)) bytes))"

text \<open>\<open>discard_walk ef p\<close> goes on with the child \<open>p\<close> and those that follow it.\<close>

partial_function (option) discard_walk :: "exfat \<Rightarrow> addr option \<Rightarrow> exfat option" where
  "discard_walk ef p =
     (case p of
        None \<Rightarrow> Some ef
      | Some c \<Rightarrow> do {
          ef \<leftarrow> upd_node ef c (\<lambda>n. n\<lparr>n_is_dirty := False\<rparr>);
          node \<leftarrow> ef_nodes ef c;
          ef \<leftarrow> discard_walk ef (n_child node);
          node \<leftarrow> ef_nodes ef c;
          discard_walk ef (n_next node)
        })"

definition discard_dirty_nodes :: "exfat \<Rightarrow> addr \<Rightarrow> exfat option" where
  "discard_dirty_nodes ef a =
     do {
       ef \<leftarrow> upd_node ef a (\<lambda>n. n\<lparr>n_is_dirty := False\<rparr>);
       node \<leftarrow> ef_nodes ef a;
       discard_walk ef (n_child node)
     }"

definition discard_dirty_state :: "ExfatHandler \<Rightarrow> ExfatHandler option" where
  "discard_dirty_state h =
     (if \<not> hd_mounted h then Some h
      else do {
        ef \<leftarrow> discard_dirty_nodes (hd_ef h) (ef_root (hd_ef h));
        Some (h\<lparr>hd_ef := ef\<lparr>ef_cmap := (ef_cmap ef)\<lparr>cm_dirty := False\<rparr>\<rparr>\<rparr>)
      })"

definition release_mount :: "ExfatHandler \<Rightarrow> ExfatHandler option" where
  "release_mount h =
     (if \<not> hd_mounted h then Some h
      else if same_volume h then unmount_fs h
      else do {
        h \<leftarrow> discard_dirty_state h;
        unmount_fs (h\<lparr>hd_ef := (hd_ef h)\<lparr>ef_ro := 1\<rparr>\<rparr>)
      })"

definition release_if_idle :: "ExfatHandler \<Rightarrow> ExfatHandler option" where
  "release_if_idle h =
     (if hd_inhibited h \<and> hd_mounted h \<and> hd_nlocks h = 0 \<and> hd_nfiles h = 0 then release_mount (remove_volume h) else Some h)"

section \<open>Inhibiting, formatting, flushing\<close>

text \<open>Inhibiting while locks or files are open: everything is written as far as the medium allows, the rest is forgotten.\<close>

definition park :: "ExfatHandler \<Rightarrow> ExfatHandler option" where
  "park h =
     do {
       h \<leftarrow> (if ef_ro (hd_ef h) = 0 then do {
               (rc, ef) \<leftarrow> exfat_flush_nodes (hd_ef h);
               (rc, ef) \<leftarrow> (if rc \<noteq> 0 then Some (rc, ef) else exfat_flush ef);
               let (flushed, ef) = (if rc \<noteq> 0 then (False, ef)
                                    else let (err, ef) = set_volume_dirty ef False in (err = NO_ERROR, ef));
               let h = h\<lparr>hd_ef := ef\<rparr>;
               if flushed then Some h else discard_dirty_state h
             }
             else Some h);
       Some (h\<lparr>hd_volume := map_option (\<lambda>v. v\<lparr>dl_task := False\<rparr>) (hd_volume h)\<rparr>)
     }"

definition inhibit_on :: "ExfatHandler \<Rightarrow> ExfatHandler option" where
  "inhibit_on h =
     do {
       h \<leftarrow> (if hd_nlocks h = 0 \<and> hd_nfiles h = 0 then release_mount (remove_volume h) else park h);
       Some (h\<lparr>hd_inhibited := True\<rparr>)
     }"

definition inhibit_off :: "environ \<Rightarrow> ExfatHandler \<Rightarrow> outcome" where
  "inhibit_off env h =
     (if \<not> hd_mounted h then do {
        (ok, h) \<leftarrow> resolve_extent env (spec_from_envec h);
        (ok, h) \<leftarrow> (if ok then mount_fs h else Some (False, h));
        if \<not> ok then Some (Reply DOSFALSE ERROR_NOT_A_DOS_DISK, h)
        else Some (Reply DOSTRUE NO_ERROR, (add_volume env h)\<lparr>hd_inhibited := False\<rparr>)
      }
      else if \<not> same_volume h then Some (Reply DOSFALSE ERROR_OBJECT_IN_USE, h)
      else
        let (err, ef) = (if ef_ro (hd_ef h) = 0 then set_volume_dirty (hd_ef h) True else (NO_ERROR, hd_ef h));
            h = h\<lparr>hd_ef := ef\<rparr>
        in Some (reply_err err,
             if err \<noteq> NO_ERROR then h
             else h\<lparr>hd_volume := map_option (\<lambda>v. v\<lparr>dl_task := True\<rparr>) (hd_volume h), hd_inhibited := False\<rparr>))"

definition do_inhibit :: "environ \<Rightarrow> ExfatHandler \<Rightarrow> bool \<Rightarrow> outcome" where
  "do_inhibit env h on =
     (if on \<and> \<not> hd_inhibited h then do { h \<leftarrow> inhibit_on h; Some (Reply DOSTRUE NO_ERROR, h) }
      else if \<not> on \<and> hd_inhibited h then inhibit_off env h
      else Some (Reply DOSTRUE NO_ERROR, h))"

text \<open>The device as \<^verbatim>\<open>exfat_amiga_format\<close> opens it, for writing.\<close>

definition extent_device :: "card \<Rightarrow> ExfatDevSpec \<Rightarrow> exfat_dev option" where
  "extent_device cd spec =
     (let node = extent_node cd spec
      in if \<not> dn_open_ro node then None
         else Some \<lparr>dev_mode = (if cd_protected cd then EXFAT_MODE_RO else EXFAT_MODE_RW), dev_size = dn_seek_end node, dev_pos = 0,
                    dev_data = dn_data node, dev_bad_read = dn_bad_read node, dev_bad_write = dn_bad_write node,
                    dev_sync_ok = dn_sync_ok node\<rparr>)"

definition do_format :: "environ \<Rightarrow> ExfatHandler \<Rightarrow> u8 list option \<Rightarrow> outcome" where
  "do_format env h blabel =
     (if ef_ro (hd_ef h) \<noteq> 0 \<and> hd_mounted h then Some (Reply DOSFALSE ERROR_DISK_WRITE_PROTECTED, h)
      else if \<not> hd_inhibited h \<or> hd_mounted h then Some (Reply DOSFALSE ERROR_OBJECT_IN_USE, h)
      else do {
        label \<leftarrow> (case blabel of
                    None \<Rightarrow> Some []
                  | Some bs \<Rightarrow> if bs = [] then None else if hd bs = 0 then Some []
                               else exfat_amiga_bstr_to_utf8 bs (int EXFAT_UTF8_ENAME_BUFFER_MAX));
        let spec = hd_spec h;
        let (rc, dev) = exfat_amiga_format (ef_host (hd_ef h)) (en_upcase env) (en_stamp env) (unat (sp_blocksize spec)) (sp_firstbyte spec)
                          (extent_device (hd_card h) spec) (Some label);
        let h = (case dev of None \<Rightarrow> h | Some dev \<Rightarrow> h\<lparr>hd_card := written_back (hd_card h) spec dev\<rparr>);
        Some (reply_err (if rc \<noteq> 0 then ERROR_NOT_A_DOS_DISK else NO_ERROR), h)
      })"

definition do_flush :: "ExfatHandler \<Rightarrow> outcome" where
  "do_flush h =
     (if ef_ro (hd_ef h) = 0 \<and> hd_mounted h \<and> \<not> hd_inhibited h then do {
        (rc, ef) \<leftarrow> exfat_flush_nodes (hd_ef h);
        (rc, ef) \<leftarrow> (if rc \<noteq> 0 then Some (rc, ef) else exfat_flush ef);
        let err = (if rc \<noteq> 0 then ERROR_DISK_FULL else if exfat_fsync (ef_dev ef) \<noteq> 0 then ERROR_DISK_FULL else NO_ERROR);
        Some (reply_err err, h\<lparr>hd_ef := ef\<rparr>)
      }
      else Some (Reply DOSTRUE NO_ERROR, h))"

definition fill_infodata :: "ExfatHandler \<Rightarrow> InfoData" where
  "fill_infodata h =
     (if \<not> hd_mounted h
      then \<lparr>id_DiskState_protected = False, id_NumBlocks = 0, id_NumBlocksUsed = 0, id_BytesPerBlock = 0, id_busy = True, id_volume = False,
            id_InUse = False\<rparr>
      else
        let total = sb_cluster_count (ef_sb (hd_ef h));
            freec = exfat_count_free_clusters (hd_ef h)
        in \<lparr>id_DiskState_protected = (ef_ro (hd_ef h) \<noteq> 0), id_NumBlocks = sint total, id_NumBlocksUsed = sint (total - freec),
            id_BytesPerBlock = c_int (int (CLUSTER_SIZE (ef_sb (hd_ef h)))), id_busy = hd_inhibited h, id_volume = (hd_volume h \<noteq> None),
            id_InUse = (hd_nlocks h \<noteq> 0 \<or> hd_nfiles h \<noteq> 0)\<rparr>)"

section \<open>The packet loop\<close>

text \<open>A packet with its arguments; \<open>ACTION_OTHER\<close> is any type the handler does not know.\<close>

datatype packet =
    ACTION_LOCATE_OBJECT "addr option" "u8 list"
  | ACTION_FREE_LOCK "addr option"
  | ACTION_COPY_DIR "addr option"
  | ACTION_COPY_DIR_FH "addr option"
  | ACTION_PARENT_FH "addr option"
  | ACTION_PARENT "addr option"
  | ACTION_SAME_LOCK "addr option" "addr option"
  | ACTION_EXAMINE_OBJECT "addr option"
  | ACTION_EXAMINE_NEXT "addr option" int
  | ACTION_FINDINPUT bool "addr option" "u8 list"
  | ACTION_FINDOUTPUT bool "addr option" "u8 list"
  | ACTION_FINDUPDATE bool "addr option" "u8 list"
  | ACTION_WRITE "addr option" "u8 list" int
  | ACTION_SET_FILE_SIZE "addr option" int offset_mode
  | ACTION_SET_PROTECT "addr option" "u8 list" u32
  | ACTION_SET_DATE "addr option" "u8 list" "DateStamp option"
  | ACTION_SET_COMMENT "addr option" "u8 list" "u8 list option"
  | ACTION_DELETE_OBJECT "addr option" "u8 list"
  | ACTION_CREATE_DIR "addr option" "u8 list"
  | ACTION_RENAME_OBJECT "addr option" "u8 list" "addr option" "u8 list"
  | ACTION_FORMAT "u8 list option"
  | ACTION_RENAME_DISK "u8 list option"
  | ACTION_EXAMINE_FH "addr option" bool
  | ACTION_FH_FROM_LOCK bool "addr option"
  | ACTION_END "addr option"
  | ACTION_READ "addr option" "u8 list" int
  | ACTION_SEEK "addr option" int offset_mode
  | ACTION_INFO
  | ACTION_DISK_INFO
  | ACTION_CURRENT_VOLUME
  | ACTION_IS_FILESYSTEM
  | ACTION_FLUSH
  | ACTION_INHIBIT bool
  | ACTION_DIE
  | ACTION_OTHER

fun needs_medium :: "packet \<Rightarrow> bool" where
  "needs_medium (ACTION_FREE_LOCK _) = False"
| "needs_medium (ACTION_SAME_LOCK _ _) = False"
| "needs_medium (ACTION_FORMAT _) = False"
| "needs_medium (ACTION_END _) = False"
| "needs_medium ACTION_INFO = False"
| "needs_medium ACTION_DISK_INFO = False"
| "needs_medium ACTION_CURRENT_VOLUME = False"
| "needs_medium ACTION_IS_FILESYSTEM = False"
| "needs_medium ACTION_FLUSH = False"
| "needs_medium (ACTION_INHIBIT _) = False"
| "needs_medium ACTION_DIE = False"
| "needs_medium ACTION_OTHER = False"
| "needs_medium _ = True"

fun reads_writes_seeks :: "packet \<Rightarrow> bool" where
  "reads_writes_seeks (ACTION_READ _ _ _) = True"
| "reads_writes_seeks (ACTION_WRITE _ _ _) = True"
| "reads_writes_seeks (ACTION_SEEK _ _ _) = True"
| "reads_writes_seeks _ = False"

definition do_die :: "ExfatHandler \<Rightarrow> reply \<times> ExfatHandler" where
  "do_die h =
     (if hd_nlocks h \<noteq> 0 \<or> hd_nfiles h \<noteq> 0 then (Reply DOSFALSE ERROR_OBJECT_IN_USE, h)
      else (Reply DOSTRUE NO_ERROR, h\<lparr>hd_quit := True\<rparr>))"

fun dispatch :: "environ \<Rightarrow> ExfatHandler \<Rightarrow> packet \<Rightarrow> outcome" where
  "dispatch env h (ACTION_LOCATE_OBJECT base path) = do_locate_object env h base path"
| "dispatch env h (ACTION_FREE_LOCK lock) =
     do { h \<leftarrow> exfat_amiga_freelock h lock; h \<leftarrow> release_if_idle h; Some (Reply DOSTRUE NO_ERROR, h) }"
| "dispatch env h (ACTION_COPY_DIR lock) = do_copy_dir env h lock"
| "dispatch env h (ACTION_COPY_DIR_FH file) = do_lock_from_fh env h file False"
| "dispatch env h (ACTION_PARENT_FH file) = do_lock_from_fh env h file True"
| "dispatch env h (ACTION_PARENT lock) = do_parent env h lock"
| "dispatch env h (ACTION_SAME_LOCK a b) = do_same_lock h a b"
| "dispatch env h (ACTION_EXAMINE_OBJECT lock) = do_examine_object h lock"
| "dispatch env h (ACTION_EXAMINE_NEXT lock key) = do_examine_next h lock key"
| "dispatch env h (ACTION_FINDINPUT fh base path) = do_open env h fh base path OPEN_OLD"
| "dispatch env h (ACTION_FINDOUTPUT fh base path) = do_open env h fh base path OPEN_NEW"
| "dispatch env h (ACTION_FINDUPDATE fh base path) = do_open env h fh base path OPEN_UPDATE"
| "dispatch env h (ACTION_WRITE file buffer len) = do_write h file buffer len"
| "dispatch env h (ACTION_SET_FILE_SIZE file arg mode) = do_set_file_size h file arg mode"
| "dispatch env h (ACTION_SET_PROTECT base path bits) = do_set_protect h base path bits"
| "dispatch env h (ACTION_SET_DATE base path ds) = do_set_date h base path ds"
| "dispatch env h (ACTION_SET_COMMENT base path comment) = do_set_comment h base path comment"
| "dispatch env h (ACTION_DELETE_OBJECT base path) = do_delete_object h base path"
| "dispatch env h (ACTION_CREATE_DIR base path) = do_create_dir env h base path"
| "dispatch env h (ACTION_RENAME_OBJECT sbase spath dbase dpath) = do_rename_object h sbase spath dbase dpath"
| "dispatch env h (ACTION_FORMAT label) = do_format env h label"
| "dispatch env h (ACTION_RENAME_DISK name) = do_rename_disk env h name"
| "dispatch env h (ACTION_EXAMINE_FH file fib) = do_examine_fh h file fib"
| "dispatch env h (ACTION_FH_FROM_LOCK fh lock) = do_fh_from_lock env h fh lock"
| "dispatch env h (ACTION_END file) = do { (r, h) \<leftarrow> do_end h file; h \<leftarrow> release_if_idle h; Some (r, h) }"
| "dispatch env h (ACTION_READ file buffer len) = do_read h file buffer len"
| "dispatch env h (ACTION_SEEK file offset mode) = do_seek h file offset mode"
| "dispatch env h ACTION_INFO = Some (ReplyInfo (fill_infodata h), h)"
| "dispatch env h ACTION_DISK_INFO = Some (ReplyInfo (fill_infodata h), h)"
| "dispatch env h ACTION_CURRENT_VOLUME = Some (ReplyVolume (hd_volume h \<noteq> None), h)"
| "dispatch env h ACTION_IS_FILESYSTEM = Some (Reply DOSTRUE NO_ERROR, h)"
| "dispatch env h ACTION_FLUSH = do_flush h"
| "dispatch env h (ACTION_INHIBIT on) = do_inhibit env h on"
| "dispatch env h ACTION_DIE = Some (do_die h)"
| "dispatch env h ACTION_OTHER = Some (Reply DOSFALSE ERROR_ACTION_NOT_KNOWN, h)"

text \<open>One round of the loop.\<close>

definition serve :: "environ \<Rightarrow> ExfatHandler \<Rightarrow> packet \<Rightarrow> outcome" where
  "serve env h pkt =
     (if hd_inhibited h \<and> needs_medium pkt
      then Some (Reply (if reads_writes_seeks pkt then - 1 else DOSFALSE) ERROR_NOT_A_DOS_DISK, h)
      else dispatch env h pkt)"

text \<open>The packets of the port, one after the other; what the system decides may be different for each.\<close>

primrec serve_all :: "ExfatHandler \<Rightarrow> (environ \<times> packet) list \<Rightarrow> ExfatHandler option" where
  "serve_all h [] = Some h"
| "serve_all h (e # es) = do { (r, h) \<leftarrow> serve (fst e) h (snd e); serve_all h es }"

text \<open>Starting up: the reply to the startup packet is success if the volume could be mounted.\<close>

definition startup :: "environ \<Rightarrow> ExfatHandler \<Rightarrow> (bool \<times> ExfatHandler) option" where
  "startup env h =
     do {
       (ok, h) \<leftarrow> resolve_extent env (spec_from_envec h);
       if \<not> ok then Some (False, h)
       else mount_fs h
     }"

definition shut_down :: "ExfatHandler \<Rightarrow> ExfatHandler option" where
  "shut_down h = unmount_fs (remove_volume h)"

text \<open>
  The whole of \<^verbatim>\<open>exfat_handler_main\<close>: each list holds the packets that are at the port when the process is woken up; all of them are served before
  the loop looks whether it is to end.  The result tells whether the process has ended.
\<close>

primrec packet_loop :: "ExfatHandler \<Rightarrow> (environ \<times> packet) list list \<Rightarrow> (bool \<times> ExfatHandler) option" where
  "packet_loop h [] = (if hd_quit h then do { h \<leftarrow> shut_down h; Some (True, h) } else Some (False, h))"
| "packet_loop h (es # ess) =
     (if hd_quit h then do { h \<leftarrow> shut_down h; Some (True, h) } else do { h \<leftarrow> serve_all h es; packet_loop h ess })"

definition exfat_handler_main :: "environ \<Rightarrow> ExfatHandler \<Rightarrow> (environ \<times> packet) list list \<Rightarrow> (bool \<times> ExfatHandler) option" where
  "exfat_handler_main env h ess =
     do {
       (ok, h) \<leftarrow> startup env h;
       if \<not> ok then Some (True, h) else packet_loop (add_volume env h) ess
     }"

end
