(* ===== verification/Eject.thy ===== *)
theory Eject
  imports Handler
begin

text \<open>
  A card that is taken out while the handler is inhibited: nothing of the old volume is written to the card that comes instead.
\<close>

section \<open>Forgetting changes\<close>

text \<open>The same nodes with fewer changes pending.\<close>

definition calm_node :: "exfat_node \<Rightarrow> exfat_node \<Rightarrow> bool" where
  "calm_node n n' \<longleftrightarrow> n' = n \<or> n' = n\<lparr>n_is_dirty := False\<rparr>"

definition calmer :: "exfat \<Rightarrow> exfat \<Rightarrow> bool" where
  "calmer ef ef' \<longleftrightarrow> (\<forall>a. rel_option calm_node (ef_nodes ef a) (ef_nodes ef' a))"

lemma calm_node_refl [simp]: "calm_node n n"
  by (simp add: calm_node_def)

lemma calm_node_trans: "calm_node n n' \<Longrightarrow> calm_node n' n'' \<Longrightarrow> calm_node n n''"
  by (auto simp: calm_node_def)

lemma calmer_refl [simp]: "calmer ef ef"
  by (simp add: calmer_def option.rel_refl)

lemma calmer_node: "calmer ef ef' \<Longrightarrow> ef_nodes ef a = Some n \<Longrightarrow> \<exists>n'. ef_nodes ef' a = Some n' \<and> calm_node n n'"
  unfolding calmer_def by (metis option_rel_Some1)

lemma calmer_trans: "calmer x y \<Longrightarrow> calmer y z \<Longrightarrow> calmer x z"
proof (unfold calmer_def, intro allI)
  fix a
  assume "\<forall>a. rel_option calm_node (ef_nodes x a) (ef_nodes y a)" "\<forall>a. rel_option calm_node (ef_nodes y a) (ef_nodes z a)"
  then have "rel_option calm_node (ef_nodes x a) (ef_nodes y a)" "rel_option calm_node (ef_nodes y a) (ef_nodes z a)" by blast+
  then show "rel_option calm_node (ef_nodes x a) (ef_nodes z a)"
    by (cases "ef_nodes x a"; cases "ef_nodes y a"; cases "ef_nodes z a") (auto intro: calm_node_trans)
qed

lemma calmer_upd: "upd_node ef a (\<lambda>n. n\<lparr>n_is_dirty := False\<rparr>) = Some ef' \<Longrightarrow> calmer ef ef'"
  unfolding calmer_def by (auto simp: upd_node_def set_node_def bind_eq_Some_conv calm_node_def option.rel_refl)

text \<open>After the walk, writing the children back has nothing to do, on this volume or a calmer one.\<close>

lemma discard_walk_calms:
  "discard_walk ef p = Some ef' \<Longrightarrow>
     calmer ef ef' \<and> (\<forall>ef2 a. calmer ef' ef2 \<longrightarrow> flush_walk ef2 a p = exfat_flush_node ef2 a)"
proof (induction rule: discard_walk.raw_induct [rotated, consumes 1, case_names step])
  case (step walk ef p ef')
  show ?case
  proof (cases p)
    case None
    then show ?thesis using step(2) by (simp add: flush_walk.simps)
  next
    case (Some c)
    obtain ea na eb nb where
      ea: "upd_node ef c (\<lambda>n. n\<lparr>n_is_dirty := False\<rparr>) = Some ea" "ef_nodes ea c = Some na"
      and eb: "walk ea (n_child na) = Some eb" "ef_nodes eb c = Some nb" and e: "walk eb (n_next nb) = Some ef'"
      using step(2) Some by (auto simp: bind_eq_Some_conv)
    note A = step(1) [OF eb(1)] and B = step(1) [OF e]
    have na: "\<not> n_is_dirty na" using ea by (auto simp: upd_node_def set_node_def bind_eq_Some_conv)
    have clean: "\<exists>n. ef_nodes ef2 c = Some n \<and> \<not> n_is_dirty n \<and> n_child n = n_child na \<and> n_next n = n_next nb" if "calmer ef' ef2" for ef2
    proof -
      have "calmer eb ef2" using B that calmer_trans by blast
      then obtain n where n: "ef_nodes ef2 c = Some n" "calm_node nb n" using calmer_node [OF _ eb(2)] by blast
      have "calm_node na nb" using A calmer_node [OF _ ea(2)] eb(2) by fastforce
      then show ?thesis using n na by (auto simp: calm_node_def)
    qed
    have "flush_walk ef2 a (Some c) = exfat_flush_node ef2 a" if k: "calmer ef' ef2" for ef2 a
    proof -
      obtain n where n: "ef_nodes ef2 c = Some n" "\<not> n_is_dirty n" "n_child n = n_child na" "n_next n = n_next nb" using clean [OF k] by blast
      have "flush_walk ef2 c (n_child na) = exfat_flush_node ef2 c" using A calmer_trans [OF _ k] B by blast
      also have "\<dots> = Some (0, ef2)" using n(1,2) by (simp add: exfat_flush_node_def)
      finally have "flush_walk ef2 c (n_child n) = Some (0, ef2)" using n(3) by simp
      moreover have "flush_walk ef2 a (n_next n) = exfat_flush_node ef2 a" using B k n(4) by simp
      ultimately show ?thesis using n(1) by (subst flush_walk.simps) simp
    qed
    moreover have "calmer ef ef'" using calmer_upd [OF ea(1)] A B calmer_trans by blast
    ultimately show ?thesis using Some by simp
  qed
qed

section \<open>Operations on nodes only\<close>

text \<open>Everything but the nodes is as before.\<close>

definition same_frame :: "exfat \<Rightarrow> exfat \<Rightarrow> bool" where
  "same_frame ef ef' \<longleftrightarrow> (\<exists>nodes. ef' = ef\<lparr>ef_nodes := nodes\<rparr>)"

lemma same_frame_refl [simp]: "same_frame ef ef"
  by (auto simp: same_frame_def intro: exI [of _ "ef_nodes ef"])

lemma same_frame_trans: "same_frame a b \<Longrightarrow> same_frame b c \<Longrightarrow> same_frame a c"
  by (auto simp: same_frame_def)

lemma same_frame_fields:
  "same_frame ef ef' \<Longrightarrow> ef_dev ef' = ef_dev ef \<and> ef_sb ef' = ef_sb ef \<and> ef_ro ef' = ef_ro ef \<and> ef_root ef' = ef_root ef \<and>
    ef_cmap ef' = ef_cmap ef \<and> ef_host ef' = ef_host ef"
  by (auto simp: same_frame_def)

lemma same_frame_set_node [simp]: "same_frame ef (set_node ef a n)"
  by (auto simp: same_frame_def set_node_def)

lemma same_frame_free_node [simp]: "same_frame ef (free_node ef a)"
  by (auto simp: same_frame_def free_node_def)

lemma upd_node_frame: "upd_node ef a f = Some ef' \<Longrightarrow> same_frame ef ef'"
  by (auto simp: upd_node_def bind_eq_Some_conv)

lemma put_node_frame: "exfat_put_node ef a = Some ef' \<Longrightarrow> same_frame ef ef'"
  by (auto simp: exfat_put_node_def bind_eq_Some_conv Let_def split: if_splits)

lemma get_node_frame: "exfat_get_node ef a = Some ef' \<Longrightarrow> same_frame ef ef'"
  by (auto simp: exfat_get_node_def intro: upd_node_frame)

lemma put_times_frame: "put_times k ef a = Some ef' \<Longrightarrow> same_frame ef ef'"
  by (induction k arbitrary: ef) (auto simp: bind_eq_Some_conv intro: same_frame_trans put_node_frame)

lemma reset_node_frame: "reset_node ef a = Some ef' \<Longrightarrow> same_frame ef ef'"
  by (auto simp: reset_node_def bind_eq_Some_conv split: if_splits dest!: upd_node_frame put_times_frame intro: same_frame_trans)

lemma tree_detach_frame: "tree_detach ef a = Some ef' \<Longrightarrow> same_frame ef ef'"
  by (auto simp: tree_detach_def bind_eq_Some_conv split: option.split_asm dest!: upd_node_frame; meson same_frame_trans)

lemma reset_cache_frame: "reset_cache ef a = Some ef' \<Longrightarrow> same_frame ef ef'"
proof (induction rule: reset_cache.raw_induct [rotated, consumes 1, case_names step])
  case (step reset ef a ef')
  from step(2) show ?case
    by (auto simp: bind_eq_Some_conv split: option.split_asm dest!: step(1) tree_detach_frame intro: reset_node_frame)
      (meson same_frame_trans same_frame_free_node)
qed

lemma discard_walk_frame: "discard_walk ef p = Some ef' \<Longrightarrow> same_frame ef ef'"
proof (induction rule: discard_walk.raw_induct [rotated, consumes 1, case_names step])
  case (step walk ef p ef')
  from step(2) show ?case
    by (auto simp: bind_eq_Some_conv split: option.split_asm dest!: step(1) upd_node_frame) (meson same_frame_trans)
qed

section \<open>Letting go of a volume whose medium is gone\<close>

lemma unmount_read_only:
  assumes "exfat_unmount ef = Some dev" "exfat_flush_nodes ef = Some (0, ef)" "\<not> cm_dirty (ef_cmap ef)" "ef_ro ef \<noteq> 0"
  shows "dev = ef_dev ef"
proof -
  obtain e1 e2 where e: "exfat_put_node ef (ef_root ef) = Some e1" "exfat_reset_cache e1 = Some e2" "dev = ef_dev (finalize_super_block e2)"
    using assms(1-3) by (auto simp: exfat_unmount_def exfat_flush_def bind_eq_Some_conv)
  then have "same_frame ef e2" unfolding exfat_reset_cache_def using put_node_frame reset_cache_frame same_frame_trans by blast
  then show ?thesis using same_frame_fields [of ef e2] assms(4) e(3) by (simp add: finalize_super_block_def)
qed

lemma discard_calms:
  assumes "discard_dirty_nodes ef (ef_root ef) = Some ef'"
  shows "same_frame ef ef'" "calmer ef' ef2 \<Longrightarrow> ef_root ef2 = ef_root ef \<Longrightarrow> exfat_flush_nodes ef2 = Some (0, ef2)"
proof -
  obtain ea na where a: "upd_node ef (ef_root ef) (\<lambda>n. n\<lparr>n_is_dirty := False\<rparr>) = Some ea" "ef_nodes ea (ef_root ef) = Some na"
    "discard_walk ea (n_child na) = Some ef'"
    using assms by (auto simp: discard_dirty_nodes_def bind_eq_Some_conv)
  note w = discard_walk_calms [OF a(3)]
  show "same_frame ef ef'" using upd_node_frame [OF a(1)] discard_walk_frame [OF a(3)] same_frame_trans by blast
  assume c: "calmer ef' ef2"
  have "calmer ea ef2" using w c calmer_trans by blast
  then obtain n where n: "ef_nodes ef2 (ef_root ef) = Some n" "calm_node na n" using calmer_node [OF _ a(2)] by blast
  have "\<not> n_is_dirty na" using a(1,2) by (auto simp: upd_node_def set_node_def bind_eq_Some_conv)
  then have d: "\<not> n_is_dirty n" "n_child n = n_child na" using n(2) by (auto simp: calm_node_def)
  assume "ef_root ef2 = ef_root ef"
  then show "exfat_flush_nodes ef2 = Some (0, ef2)"
    using n(1) d w c by (simp add: exfat_flush_nodes_def flush_nodes_def exfat_flush_node_def)
qed

lemma slot_bytes_mounted: "hd_mounted h \<Longrightarrow> slot_bytes h = cd_data (written_back (hd_card h) (hd_spec h) (ef_dev (hd_ef h)))"
  by (simp add: slot_bytes_def)

lemma release_foreign:
  assumes "release_mount h = Some h'" "\<not> same_volume h"
  shows "slot_bytes h' = slot_bytes h" "\<not> hd_mounted h'"
proof -
  have "slot_bytes h' = slot_bytes h \<and> \<not> hd_mounted h'"
  proof (cases "hd_mounted h")
    case False
    then show ?thesis using assms(1) by (simp add: release_mount_def)
  next
    case m: True
    let ?ef = "hd_ef h"
    obtain e dev where d: "discard_dirty_nodes ?ef (ef_root ?ef) = Some e"
      "exfat_unmount (e\<lparr>ef_cmap := (ef_cmap e)\<lparr>cm_dirty := False\<rparr>, ef_ro := 1\<rparr>) = Some dev"
      "h' = h\<lparr>hd_ef := e\<lparr>ef_cmap := (ef_cmap e)\<lparr>cm_dirty := False\<rparr>, ef_ro := 1\<rparr>, hd_mounted := False,
              hd_card := written_back (hd_card h) (hd_spec h) dev\<rparr>"
      using assms m by (auto simp: release_mount_def discard_dirty_state_def unmount_fs_def bind_eq_Some_conv)
    let ?e = "e\<lparr>ef_cmap := (ef_cmap e)\<lparr>cm_dirty := False\<rparr>, ef_ro := 1\<rparr>"
    have f: "same_frame ?ef e" by (rule discard_calms(1) [OF d(1)])
    have "exfat_flush_nodes ?e = Some (0, ?e)"
      by (rule discard_calms(2) [OF d(1)]) (use same_frame_fields [OF f] in \<open>simp_all add: calmer_def option.rel_refl\<close>)
    then have "dev = ef_dev ?e" by (rule unmount_read_only [OF d(2)]) simp_all
    then have "dev = ef_dev ?ef" using same_frame_fields [OF f] by simp
    then show ?thesis using d(3) m by (simp add: slot_bytes_def)
  qed
  then show "slot_bytes h' = slot_bytes h" "\<not> hd_mounted h'" by simp_all
qed

section \<open>Packets while inhibited\<close>

text \<open>What may come while the handler is inhibited: everything but formatting and the end of the inhibition.\<close>

fun stays_inhibited :: "packet \<Rightarrow> bool" where
  "stays_inhibited (ACTION_FORMAT _) = False"
| "stays_inhibited (ACTION_INHIBIT on) = on"
| "stays_inhibited _ = True"

text \<open>Inhibited, and mounted only as long as something is open.\<close>

definition parked :: "ExfatHandler \<Rightarrow> bool" where
  "parked h \<longleftrightarrow> hd_inhibited h \<and> (hd_mounted h \<longrightarrow> \<not> hd_quit h \<and> (hd_nlocks h \<noteq> 0 \<or> hd_nfiles h \<noteq> 0))"

text \<open>Nothing that concerns the card is different.\<close>

definition same_slot :: "ExfatHandler \<Rightarrow> ExfatHandler \<Rightarrow> bool" where
  "same_slot h h' \<longleftrightarrow> hd_mounted h' = hd_mounted h \<and> hd_inhibited h' = hd_inhibited h \<and> hd_quit h' = hd_quit h \<and> hd_card h' = hd_card h \<and>
     hd_spec h' = hd_spec h \<and> hd_held h' = hd_held h \<and> same_frame (hd_ef h) (hd_ef h')"

lemma same_slot_bytes: "same_slot h h' \<Longrightarrow> slot_bytes h' = slot_bytes h"
  using same_frame_fields [of "hd_ef h" "hd_ef h'"] by (simp add: same_slot_def slot_bytes_def)

lemma same_slot_volume:
  assumes "same_slot h h'"
  shows "same_volume h' = same_volume h"
proof -
  have 1: "garbage (hd_ef h') = garbage (hd_ef h)"
    using assms same_frame_fields [of "hd_ef h" "hd_ef h'"] by (simp add: same_slot_def garbage_def fun_eq_iff)
  have 2: "ef_dev (hd_ef h') = ef_dev (hd_ef h)" "ef_sb (hd_ef h') = ef_sb (hd_ef h)"
    using assms same_frame_fields [of "hd_ef h" "hd_ef h'"] by (simp_all add: same_slot_def)
  have 3: "hd_spec h' = hd_spec h" "hd_held h' = hd_held h" "hd_mounted h' = hd_mounted h" using assms by (simp_all add: same_slot_def)
  show ?thesis unfolding same_volume_def read_boot_sector_def 1 2 3 ..
qed

lemma same_volume_quit [simp]: "same_volume (h\<lparr>hd_quit := b\<rparr>) = same_volume h"
proof -
  have f: "hd_ef (h\<lparr>hd_quit := b\<rparr>) = hd_ef h" "hd_spec (h\<lparr>hd_quit := b\<rparr>) = hd_spec h" "hd_held (h\<lparr>hd_quit := b\<rparr>) = hd_held h"
    "hd_mounted (h\<lparr>hd_quit := b\<rparr>) = hd_mounted h" by simp_all
  show ?thesis unfolding same_volume_def read_boot_sector_def f ..
qed

lemma freelock_slot: "exfat_amiga_freelock h lock = Some h' \<Longrightarrow> same_slot h h'"
  by (auto simp: exfat_amiga_freelock_def same_slot_def bind_eq_Some_conv split: option.splits dest: put_node_frame)

lemma end_slot: "do_end h file = Some (r, h') \<Longrightarrow> hd_inhibited h \<Longrightarrow> same_slot h h'"
  by (auto simp: do_end_def same_slot_def bind_eq_Some_conv split: option.splits dest: put_node_frame)

lemma remove_volume_slot: "same_slot h (remove_volume h)"
  by (simp add: remove_volume_def same_slot_def)

lemma release_mount_state: "release_mount h = Some h' \<Longrightarrow> hd_inhibited h' = hd_inhibited h \<and> \<not> hd_mounted h'"
  by (auto simp: release_mount_def discard_dirty_state_def unmount_fs_def bind_eq_Some_conv split: if_splits)

lemma release_if_idle_foreign:
  assumes "release_if_idle h = Some h'" "\<not> same_volume h" "hd_inhibited h" "\<not> hd_quit h"
  shows "slot_bytes h' = slot_bytes h \<and> \<not> same_volume h' \<and> parked h'"
proof (cases "hd_mounted h \<and> hd_nlocks h = 0 \<and> hd_nfiles h = 0")
  case True
  then have r: "release_mount (remove_volume h) = Some h'" using assms(1,3) by (simp add: release_if_idle_def)
  have "\<not> same_volume (remove_volume h)" using same_slot_volume [OF remove_volume_slot] assms(2) by blast
  then have "slot_bytes h' = slot_bytes h" using release_foreign [OF r] same_slot_bytes [OF remove_volume_slot] by simp
  moreover have "hd_inhibited h'" "\<not> hd_mounted h'" using release_mount_state [OF r] assms(3) by (auto simp: remove_volume_def)
  ultimately show ?thesis by (simp add: same_volume_def parked_def)
next
  case False
  then show ?thesis using assms by (auto simp: release_if_idle_def parked_def)
qed

lemma serve_foreign:
  assumes "serve env h pkt = Some (r, h')" "stays_inhibited pkt" "parked h" "\<not> same_volume h"
  shows "slot_bytes h' = slot_bytes h \<and> \<not> same_volume h' \<and> parked h'"
proof (cases "needs_medium pkt")
  case True
  then show ?thesis using assms by (simp add: serve_def parked_def)
next
  case False
  have i: "hd_inhibited h" using assms(3) by (simp add: parked_def)
  have d: "dispatch env h pkt = Some (r, h')" using assms(1) False by (simp add: serve_def)
  have idle: "slot_bytes h' = slot_bytes h \<and> \<not> same_volume h' \<and> parked h'"
    if "same_slot h h1" "release_if_idle h1 = Some h'" "hd_mounted h" for h1
  proof -
    have "hd_inhibited h1" "\<not> hd_quit h1" using that(1,3) assms(3) by (auto simp: same_slot_def parked_def)
    then show ?thesis using release_if_idle_foreign [OF that(2)] same_slot_bytes [OF that(1)] same_slot_volume [OF that(1)] assms(4) by simp
  qed
  have unm: "slot_bytes h' = slot_bytes h \<and> \<not> same_volume h' \<and> parked h'"
    if "same_slot h h1" "release_if_idle h1 = Some h'" "\<not> hd_mounted h" for h1
  proof -
    have "h' = h1" "\<not> hd_mounted h1" "hd_inhibited h1" using that i by (auto simp: same_slot_def release_if_idle_def)
    then show ?thesis using same_slot_bytes [OF that(1)] by (simp add: same_volume_def parked_def)
  qed
  show ?thesis
    using d False assms(2,3,4) i idle unm
    by (cases pkt) (auto simp: bind_eq_Some_conv do_same_lock_def do_flush_def do_inhibit_def do_die_def parked_def slot_bytes_def
      split: if_splits dest!: freelock_slot end_slot)
qed

lemma serve_all_foreign:
  "serve_all h es = Some h' \<Longrightarrow> list_all (\<lambda>e. stays_inhibited (snd e)) es \<Longrightarrow> parked h \<Longrightarrow> \<not> same_volume h \<Longrightarrow>
     slot_bytes h' = slot_bytes h \<and> \<not> same_volume h' \<and> parked h'"
proof (induction es arbitrary: h)
  case (Cons e es)
  then obtain r h1 where s: "serve (fst e) h (snd e) = Some (r, h1)" "serve_all h1 es = Some h'" by (auto simp: bind_eq_Some_conv)
  then show ?case using serve_foreign [OF s(1)] Cons by auto
qed simp

lemma change_card_bytes: "slot_bytes (change_card held cd h) = cd_data cd"
  by (auto simp: change_card_def slot_bytes_def written_back_def extent_node_def Let_def)

lemma inhibit_parks:
  assumes "inhibit_on h = Some h'" "\<not> hd_quit h" "hd_mounted h"
  shows "parked h'"
proof (cases "hd_nlocks h = 0 \<and> hd_nfiles h = 0")
  case True
  then show ?thesis using assms(1) release_mount_state by (auto simp: inhibit_on_def parked_def bind_eq_Some_conv)
next
  case False
  then show ?thesis
    using assms by (auto simp: inhibit_on_def park_def parked_def discard_dirty_state_def bind_eq_Some_conv Let_def split: if_splits prod.splits)
qed

section \<open>Another card\<close>

text \<open>The card has, where the volume begins, a boot sector that can be read and is the one of the volume.\<close>

definition is_volume :: "exfat_super_block \<Rightarrow> ExfatDevSpec \<Rightarrow> card \<Rightarrow> bool" where
  "is_volume old spec cd \<longleftrightarrow> \<not> cd_bad_read cd 0 512 \<and>
     volume_matches old (map (cd_data cd) [unat (sp_firstbyte spec)..<unat (sp_firstbyte spec) + 512])"

lemma pread_answers:
  assumes "exfat_pread dev buf n off = (int n, bytes)" "length buf = n" "0 < n"
  shows "\<not> dev_bad_read dev (nat off) n \<and> bytes = map (dev_data dev) [nat off..<nat off + n]"
proof -
  let ?e = "min (nat off + n) (nat (dev_size dev))"
  have r: "\<not> dev_bad_read dev (nat off) n" "?e - nat off = n" "bytes = fill buf (map (dev_data dev) [nat off..<?e])"
    using assms(1,3) by (auto simp: exfat_pread_def sys_pread_def split: if_splits)
  then have "?e = nat off + n" using assms(3) by linarith
  then show ?thesis using r(1,3) assms(2) by (simp add: fill_def)
qed

lemma read_boot_sector_direct:
  "boot_direct (hd_spec h) \<Longrightarrow> read_boot_sector h = exfat_pread (ef_dev (hd_ef h)) (garbage (hd_ef h) 512) 512 0"
  by (cases "hd_held h") (auto simp: read_boot_sector_def Let_def)

lemma foreign_not_same:
  assumes "boot_direct (hd_spec h)" "\<not> is_volume (ef_sb (hd_ef h)) (hd_spec h) cd"
  shows "\<not> same_volume (change_card held cd h)"
proof
  let ?h = "change_card held cd h"
  assume s: "same_volume ?h"
  have f: "hd_spec ?h = hd_spec h" "ef_sb (hd_ef ?h) = ef_sb (hd_ef h)" "hd_mounted ?h = hd_mounted h" by (simp_all add: change_card_def Let_def)
  have m: "hd_mounted h" using s f by (simp add: same_volume_def)
  have d: "dev_data (ef_dev (hd_ef ?h)) = (\<lambda>i. cd_data cd (unat (sp_firstbyte (hd_spec h)) + i))" "dev_bad_read (ef_dev (hd_ef ?h)) = cd_bad_read cd"
    using m by (simp_all add: change_card_def extent_node_def Let_def)
  have "read_boot_sector ?h = exfat_pread (ef_dev (hd_ef ?h)) (garbage (hd_ef ?h) 512) 512 0"
    by (rule read_boot_sector_direct) (use assms(1) f in simp)
  then obtain bytes where "exfat_pread (ef_dev (hd_ef ?h)) (garbage (hd_ef ?h) 512) 512 0 = (int 512, bytes)" "volume_matches (ef_sb (hd_ef h)) bytes"
    using s f(2) by (auto simp: same_volume_def split: prod.splits)
  with pread_answers [OF this(1)] show False using assms(2) d shifted_window [of "cd_data cd" "unat (sp_firstbyte (hd_spec h))" 0 512]
    by (simp add: is_volume_def garbage_def del: upt_rec_numeral)
qed

text \<open>
  A device with larger blocks, or with blocks that the partition does not begin with, takes the boot sector from memory if it still has it there.  It
  does have it after \<open>park\<close>, whose last request writes the boot sector: then every card passes for the volume, and so does the empty slot.
\<close>

lemma held_boot_block_accepted:
  fixes h defines "bs \<equiv> unat (sp_blocksize (hd_spec h))" and "first \<equiv> unat (sp_firstbyte (hd_spec h))"
  assumes "hd_mounted h" "\<not> boot_direct (hd_spec h)" "first mod bs + 512 \<le> bs" "unat lba = first - first mod bs"
    "volume_matches (ef_sb (hd_ef h)) (take 512 (drop (first mod bs) block))"
  shows "same_volume (change_card (Some (lba, block)) cd h)"
proof -
  have "min (bs - first mod bs) 512 = 512" using assms(5) by linarith
  then show ?thesis
    using assms(3,4,6,7) by (simp add: same_volume_def read_boot_sector_def change_card_def Let_def bs_def first_def)
qed

text \<open>
  C7: a card that is changed while the handler is inhibited is safe, as long as the blocks of the device are not larger than the boot sector, and
  the partition begins with a block.  The handler is inhibited with its volume mounted, the card is exchanged for one
  that does not hold the volume (or for none), whatever block of the old card the device still has in memory, and then packets come in any number
  and order, until the card is formatted or the inhibition ends:
  locks are freed, files closed, the volume released when the last of them is gone.  The bytes of the new card stay as they were, also
  when the handler ends and shuts down in this state.
\<close>

theorem foreign_card_untouched:
  assumes "inhibit_on h = Some parked_h" "hd_mounted h" "\<not> hd_quit h"
    "boot_direct (hd_spec parked_h)" "\<not> is_volume (ef_sb (hd_ef parked_h)) (hd_spec parked_h) cd"
    "serve_all (change_card held cd parked_h) es = Some h'" "list_all (\<lambda>e. stays_inhibited (snd e)) es"
  shows "slot_bytes h' = cd_data cd \<and> (hd_quit h' \<longrightarrow> (\<exists>h''. shut_down h' = Some h'' \<and> slot_bytes h'' = cd_data cd))"
proof -
  have p: "parked (change_card held cd parked_h)" using inhibit_parks [OF assms(1,3,2)] by (simp add: parked_def change_card_def Let_def)
  have r: "slot_bytes h' = cd_data cd" "parked h'"
    using serve_all_foreign [OF assms(6,7) p foreign_not_same [OF assms(4,5)]] change_card_bytes by simp_all
  moreover have "\<exists>h''. shut_down h' = Some h'' \<and> slot_bytes h'' = cd_data cd" if "hd_quit h'"
  proof -
    have "\<not> hd_mounted h'" using r(2) that by (simp add: parked_def)
    then have "\<not> hd_mounted (remove_volume h')" by (simp add: remove_volume_def)
    then show ?thesis using r(1) same_slot_bytes [OF remove_volume_slot, of h'] by (simp add: shut_down_def unmount_fs_def)
  qed
  ultimately show ?thesis by blast
qed

end
