(* ===== verification/Paths.thy ===== *)
theory Paths
  imports Packets Resolve
begin

text \<open>
  The paths of AmigaDOS.  A path is a sequence of steps, up to the parent or down to a name; the string that the handler builds for the library
  is the list of components that these steps lead to, and locating an object is the walk along them.
\<close>

section \<open>Steps and components\<close>

datatype path_step = Up | Down "u8 list"

function amiga_steps :: "u8 list \<Rightarrow> path_step list" where
  "amiga_steps [] = []"
| "amiga_steps (c # p) =
     (if c = 0x2f then Up # amiga_steps p
      else Down (takeWhile (\<lambda>c. c \<noteq> 0x2f) (c # p)) # amiga_steps (drop 1 (dropWhile (\<lambda>c. c \<noteq> 0x2f) p)))"
  by pat_completeness auto
termination
proof (relation "measure length", goal_cases)
  case (3 c p)
  show ?case using length_dropWhile_le [of "\<lambda>c. c \<noteq> 0x2f" p] by simp
qed simp_all

fun follow :: "u8 list list \<Rightarrow> path_step list \<Rightarrow> u8 list list" where
  "follow cs [] = cs"
| "follow cs (Up # ss) = follow (butlast cs) ss"
| "follow cs (Down c # ss) = follow (cs @ [c]) ss"

text \<open>The components as the buffer has them, and as a path of the library.\<close>

definition joined :: "u8 list list \<Rightarrow> u8 list" where
  "joined cs = concat (map (\<lambda>c. 0x2f # c) cs)"

definition abs_path :: "u8 list list \<Rightarrow> u8 list" where
  "abs_path cs = (if cs = [] then [0x2f] else joined cs)"

definition component :: "u8 list \<Rightarrow> bool" where
  "component c \<longleftrightarrow> c \<noteq> [] \<and> 0x2f \<notin> set c"

lemma joined_simps [simp]: "joined [] = []" "joined (cs @ [c]) = joined cs @ 0x2f # c" "joined cs = [] \<longleftrightarrow> cs = []"
  by (auto simp: joined_def)

lemma climb_joined: "list_all component cs \<Longrightarrow> climb (joined cs) = joined (butlast cs)"
proof (cases cs rule: rev_cases)
  case (snoc cs' c)
  assume "list_all component cs"
  then have "0x2f \<notin> set (rev c)" using snoc by (simp add: component_def)
  then have "dropWhile (\<lambda>c. c \<noteq> 0x2f) (rev c @ 0x2f # rev (joined cs')) = 0x2f # rev (joined cs')"
    by (subst dropWhile_append2) auto
  then show ?thesis using snoc by (simp add: climb_def)
qed (simp add: climb_def)

lemma list_all_butlast: "list_all P xs \<Longrightarrow> list_all P (butlast xs)"
  by (auto simp: list_all_iff dest: in_set_butlastD)

lemma steps_components: "list_all (\<lambda>s. case s of Up \<Rightarrow> True | Down c \<Rightarrow> component c) (amiga_steps p)"
  by (induction p rule: amiga_steps.induct) (auto simp: component_def dest: set_takeWhileD)

lemma follow_components:
  "list_all component cs \<Longrightarrow> list_all (\<lambda>s. case s of Up \<Rightarrow> True | Down c \<Rightarrow> component c) ss \<Longrightarrow> list_all component (follow cs ss)"
  by (induction cs ss rule: follow.induct) (simp_all add: list_all_butlast)

section \<open>The buffer\<close>

lemma drop_takeWhile: "drop (length (takeWhile P xs) + 1) xs = drop 1 (dropWhile P xs)"
  by (simp add: dropWhile_eq_drop add.commute)

lemma joined_length_butlast: "length (joined (butlast cs)) \<le> length (joined cs)"
  by (cases cs rule: rev_cases) auto

text \<open>The loop follows the steps, as long as there is room.\<close>

lemma resolve_loop_follows:
  "list_all component cs \<Longrightarrow> length (joined cs) + length p + 2 \<le> MAX_PATH_UTF8 \<Longrightarrow>
     resolve_loop (joined cs) p = Some (joined (follow cs (amiga_steps p)))"
proof (induction p arbitrary: cs rule: amiga_steps.induct)
  case 1
  then show ?case by (simp add: resolve_loop.simps)
next
  case (2 c p)
  show ?case
  proof (cases "c = 0x2f")
    case True
    have "length (joined (butlast cs)) + length p + 2 \<le> MAX_PATH_UTF8" using 2(4) joined_length_butlast [of cs] by simp
    then have "resolve_loop (joined (butlast cs)) p = Some (joined (follow (butlast cs) (amiga_steps p)))"
      using 2(1) [OF True list_all_butlast [OF 2(3)]] by simp
    then show ?thesis using True climb_joined [OF 2(3)] by (subst resolve_loop.simps) simp
  next
    case False
    let ?c = "takeWhile (\<lambda>c. c \<noteq> 0x2f) (c # p)" and ?r = "drop 1 (dropWhile (\<lambda>c. c \<noteq> 0x2f) p)"
    have comp: "component ?c" using False by (auto simp: component_def dest: set_takeWhileD)
    have len: "length ?c + length (dropWhile (\<lambda>c. c \<noteq> 0x2f) p) = length (c # p)"
      using False by (simp add: length_append [symmetric] del: length_append)
    have fit: "\<not> MAX_PATH_UTF8 < length (joined cs) + length ?c + 2" using 2(4) len by linarith
    have r: "drop (length ?c + 1) (c # p) = ?r" using False drop_takeWhile [of "\<lambda>c. c \<noteq> 0x2f" p] by simp
    have "resolve_loop (joined (cs @ [?c])) ?r = Some (joined (follow (cs @ [?c]) (amiga_steps ?r)))"
    proof (cases "dropWhile (\<lambda>c. c \<noteq> 0x2f) p")
      case Nil
      have "?r = []" unfolding Nil by simp
      then show ?thesis unfolding \<open>?r = []\<close> by (simp add: resolve_loop.simps)
    next
      case (Cons x xs)
      then have "length (joined (cs @ [?c])) + length ?r + 2 \<le> MAX_PATH_UTF8" using 2(4) len by simp
      then show ?thesis using 2(2) [OF False, of "cs @ [?c]"] 2(3) comp by simp
    qed
    moreover have "resolve_loop (joined cs) (c # p) = resolve_loop (joined cs @ 0x2f # ?c) (drop (length ?c + 1) (c # p))"
      using False fit by (subst resolve_loop.simps) (simp add: Let_def)
    ultimately show ?thesis using False unfolding r by simp
  qed
qed

section \<open>The directory of a lock\<close>

text \<open>The names from below the root down to a node, if there are less than 64.\<close>

definition node_comps :: "exfat \<Rightarrow> addr \<Rightarrow> u8 list list option" where
  "node_comps ef a =
     do {
       chain \<leftarrow> chain_loop 64 ef (Some a) [];
       if 64 \<le> length chain then None else those (map (\<lambda>a. Option.bind (ef_nodes ef a) safe_get_name) chain)
     }"

lemma drop_joined: "joined (c # cs) = 0x2f # c @ joined cs" "cs \<noteq> [] \<Longrightarrow> joined cs = 0x2f # drop 1 (joined cs)"
  by (simp add: joined_def) (cases cs, simp_all add: joined_def)

lemma abs_loop_names:
  "those (map (\<lambda>a. Option.bind (ef_nodes ef a) safe_get_name) chain) = Some cs \<Longrightarrow> length buf + length (drop 1 (joined cs)) + 2 \<le> sz \<Longrightarrow>
     abs_loop ef sz chain buf = Some (Some (buf @ drop 1 (joined cs)))"
proof (induction chain arbitrary: cs buf)
  case (Cons a chain)
  then obtain n c ds where n: "ef_nodes ef a = Some n" "safe_get_name n = Some c" "cs = c # ds"
    "those (map (\<lambda>a. Option.bind (ef_nodes ef a) safe_get_name) chain) = Some ds"
    by (auto split: option.splits simp: bind_eq_Some_conv)
  have fit: "length buf + length c + length (joined ds) + 2 \<le> sz" using Cons.prems(2) n(3) by (simp add: drop_joined(1))
  show ?case
  proof (cases "ds = []")
    case True
    then have "chain = []" using n(4) by (cases chain) (auto split: option.splits)
    then show ?thesis using n True fit by (simp add: drop_joined(1))
  next
    case False
    then have ne: "chain \<noteq> []" using n(4) by auto
    have l: "length (joined ds) = 1 + length (drop 1 (joined ds))" using drop_joined(2) [OF False] by (metis length_Cons plus_1_eq_Suc)
    then have "length (buf @ c @ [0x2f]) + length (drop 1 (joined ds)) + 2 \<le> sz" using fit by simp
    then have "abs_loop ef sz chain (buf @ c @ [0x2f]) = Some (Some ((buf @ c @ [0x2f]) @ drop 1 (joined ds)))" using Cons.IH [OF n(4)] by blast
    then show ?thesis using n ne fit drop_joined(2) [OF False] by (simp add: drop_joined(1))
  qed
qed simp

lemma node_abs_path_comps:
  assumes "node_comps ef a = Some cs" "length (joined cs) + 2 \<le> sz"
  shows "node_abs_path ef a sz = Some (Some (abs_path cs))"
proof -
  obtain chain where c: "chain_loop 64 ef (Some a) [] = Some chain" "length chain < 64"
    "those (map (\<lambda>a. Option.bind (ef_nodes ef a) safe_get_name) chain) = Some cs"
    using assms(1) by (auto simp: node_comps_def bind_eq_Some_conv split: if_splits)
  show ?thesis
  proof (cases "cs = []")
    case True
    then have "chain = []" using c(3) by (cases chain) (auto split: option.splits)
    then show ?thesis using c True by (simp add: node_abs_path_def abs_path_def)
  next
    case False
    have l: "length (joined cs) = 1 + length (drop 1 (joined cs))" using drop_joined(2) [OF False] by (metis length_Cons plus_1_eq_Suc)
    then have "abs_loop ef sz chain [0x2f] = Some (Some ([0x2f] @ drop 1 (joined cs)))" using assms(2) by (intro abs_loop_names [OF c(3)]) simp
    then show ?thesis using c False drop_joined(2) [OF False] by (simp add: node_abs_path_def abs_path_def)
  qed
qed

section \<open>Resolving\<close>

text \<open>The part of a path behind the name of the volume, and where it starts: at the root for a path with nothing in front of the colon.\<close>

definition after_colon :: "u8 list \<Rightarrow> u8 list" where
  "after_colon rel = (if 0x3a \<in> set rel then drop 1 (dropWhile (\<lambda>c. c \<noteq> 0x3a) rel) else rel)"

definition start_comps :: "ExfatHandler \<Rightarrow> addr option \<Rightarrow> u8 list \<Rightarrow> u8 list list option" where
  "start_comps h base rel =
     (case base of
        None \<Rightarrow> Some []
      | Some l \<Rightarrow> if take 1 rel = [0x3a] then Some [] else do { lk \<leftarrow> hd_locks h l; node_comps (hd_ef h) (lk_node lk) })"

lemma colon_cases:
  "length (takeWhile (\<lambda>c. c \<noteq> 0x3a) rel) < length rel \<longleftrightarrow> 0x3a \<in> set rel"
  "drop (length (takeWhile (\<lambda>c. c \<noteq> 0x3a) rel) + 1) rel = drop 1 (dropWhile (\<lambda>c. c \<noteq> 0x3a) rel)"
  "0x3a \<in> set rel \<and> takeWhile (\<lambda>c. c \<noteq> 0x3a) rel = [] \<longleftrightarrow> take 1 rel = [0x3a]"
proof -
  have "length (takeWhile (\<lambda>c. c \<noteq> 0x3a) rel) = length rel \<longleftrightarrow> 0x3a \<notin> set rel"
    by (metis (mono_tags, lifting) takeWhile_eq_all_conv takeWhile_eq_take take_all_iff order_refl)
  then show "length (takeWhile (\<lambda>c. c \<noteq> 0x3a) rel) < length rel \<longleftrightarrow> 0x3a \<in> set rel"
    using length_takeWhile_le [of "\<lambda>c. c \<noteq> 0x3a" rel] by linarith
  show "drop (length (takeWhile (\<lambda>c. c \<noteq> 0x3a) rel) + 1) rel = drop 1 (dropWhile (\<lambda>c. c \<noteq> 0x3a) rel)" by (rule drop_takeWhile)
  show "0x3a \<in> set rel \<and> takeWhile (\<lambda>c. c \<noteq> 0x3a) rel = [] \<longleftrightarrow> take 1 rel = [0x3a]" by (cases rel) auto
qed

lemma after_colon_length: "length (after_colon rel) \<le> length rel"
  using length_dropWhile_le [of "\<lambda>c. c \<noteq> 0x3a" rel] by (auto simp: after_colon_def)

lemma follow_length: "length (joined (follow cs (amiga_steps p))) \<le> length (joined cs) + length p + 1"
proof (induction p arbitrary: cs rule: amiga_steps.induct)
  case (2 c p)
  show ?case
  proof (cases "c = 0x2f")
    case True
    then show ?thesis using 2(1) [OF True, of "butlast cs"] joined_length_butlast [of cs] by simp
  next
    case False
    let ?c = "takeWhile (\<lambda>c. c \<noteq> 0x2f) (c # p)" and ?d = "dropWhile (\<lambda>c. c \<noteq> 0x2f) p"
    have len: "length ?c + length ?d = length (c # p)" using False by (simp add: length_append [symmetric] del: length_append)
    have "length (joined (follow (cs @ [?c]) (amiga_steps (drop 1 ?d)))) \<le> length (joined cs) + length (c # p) + 1"
    proof (cases ?d)
      case Nil
      then have "length ?c = length (c # p)" using len unfolding Nil by simp
      then show ?thesis unfolding Nil by simp
    next
      case (Cons x xs)
      then show ?thesis using 2(2) [OF False, of "cs @ [?c]"] len by simp
    qed
    then show ?thesis using False by simp
  qed
qed simp

lemma strip_abs_path:
  assumes "list_all component cs"
  shows "(let buf = (if 1 < length (abs_path cs) \<and> last (abs_path cs) = 0x2f then butlast (abs_path cs) else abs_path cs)
          in if length buf = 1 then [] else buf) = joined cs"
proof (cases cs rule: rev_cases)
  case (snoc ds c)
  then have c: "c \<noteq> []" "0x2f \<notin> set c" using assms by (simp_all add: component_def)
  then have "last c \<noteq> 0x2f" by (metis last_in_set)
  then show ?thesis using snoc c(1) by (auto simp: abs_path_def Let_def)
qed (simp add: abs_path_def)

lemma resolve_path_follows:
  assumes "exfat_amiga_bstr_to_utf8 bpath (int MAX_PATH_UTF8) = Some rel" "start_comps h base rel = Some cs" "list_all component cs"
    "length (joined cs) + length rel + 2 \<le> MAX_PATH_UTF8"
  shows "resolve_path h base bpath MAX_PATH_UTF8 = Some (Some (abs_path (follow cs (amiga_steps (after_colon rel)))))"
proof -
  let ?w = "follow cs (amiga_steps (after_colon rel))"
  have p: "(if length (takeWhile (\<lambda>c. c \<noteq> 0x3a) rel) < length rel then drop (length (takeWhile (\<lambda>c. c \<noteq> 0x3a) rel) + 1) rel else rel) = after_colon rel"
    unfolding colon_cases by (simp add: after_colon_def)
  have ab: "(case if length (takeWhile (\<lambda>c. c \<noteq> 0x3a) rel) < length rel \<and> takeWhile (\<lambda>c. c \<noteq> 0x3a) rel = [] then None else base of
       None \<Rightarrow> Some (Some [0x2f])
     | Some l \<Rightarrow> do { lk \<leftarrow> hd_locks h l; node_abs_path (hd_ef h) (lk_node lk) MAX_PATH_UTF8 }) = Some (Some (abs_path cs))"
    unfolding colon_cases using assms(2,4)
    by (auto simp: start_comps_def abs_path_def bind_eq_Some_conv split: option.splits if_splits dest!: node_abs_path_comps [where sz = MAX_PATH_UTF8])
  have "length (joined cs) + length (after_colon rel) + 2 \<le> MAX_PATH_UTF8" using assms(4) after_colon_length [of rel] by linarith
  note r = resolve_loop_follows [OF assms(3) this]
  have out: "length (abs_path ?w) + 1 \<le> MAX_PATH_UTF8"
    using follow_length [of cs "after_colon rel"] assms(4) after_colon_length [of rel] by (auto simp: abs_path_def)
  show ?thesis
    using out
    by (simp only: resolve_path_def assms(1) bind.simps Let_def p ab option.case strip_abs_path [OF assms(3), unfolded Let_def] r)
      (auto simp: abs_path_def)
qed

section \<open>Locating\<close>

lemma splits_joined: "list_all component cs \<Longrightarrow> splits (joined cs) = [] # cs"
proof (induction cs)
  case (Cons c cs)
  have "\<forall>x \<in> set c. x \<noteq> 0x2f" using Cons.prems by (auto simp: component_def)
  then show ?case using Cons splits_append [of c "joined cs"] by (simp add: drop_joined(1))
qed simp

lemma path_comps_abs: "list_all component cs \<Longrightarrow> path_comps (abs_path cs) = filter (\<lambda>c. c \<noteq> [0x2e]) cs"
proof -
  assume c: "list_all component cs"
  then have "filter (\<lambda>c. c \<noteq> [] \<and> c \<noteq> [0x2e]) cs = filter (\<lambda>c. c \<noteq> [0x2e]) cs"
    by (intro filter_cong) (auto simp: list_all_iff component_def)
  then show ?thesis using splits_joined [OF c] by (simp add: path_comps_def abs_path_def)
qed

text \<open>The reply to a request for a lock on what a walk found, and the state afterwards.\<close>

definition new_lock :: "ExfatHandler \<Rightarrow> addr \<Rightarrow> lock_access \<Rightarrow> ExfatHandler" where
  "new_lock h a access =
     (let n = the (ef_nodes (hd_ef h) a)
      in h\<lparr>hd_ef := pin (hd_ef h) a, hd_nlocks := hd_nlocks h + 1, hd_fresh := hd_fresh h + 1,
           hd_volume := map_option (\<lambda>v. v\<lparr>dl_lock_list := Some (hd_fresh h)\<rparr>) (hd_volume h),
           hd_locks := (hd_locks h)(hd_fresh h \<mapsto>
             \<lparr>lk_link = Option.bind (hd_volume h) dl_lock_list, lk_key = n_start_cluster n, lk_access = access,
              lk_volume = (hd_volume h \<noteq> None), lk_node = a, lk_scan_next = None, lk_scan_index = - 1\<rparr>)\<rparr>)"

lemma lock_reply_pinned:
  assumes "ef_nodes (hd_ef h) a = Some n" "quiet n"
  shows "lock_reply env (h\<lparr>hd_ef := pin (hd_ef h) a\<rparr>) a access =
    Some (if en_alloc env then (ReplyLock (hd_fresh h), new_lock h a access) else (Reply DOSFALSE ERROR_NO_FREE_STORE, h))"
  using assms put_node_pin [OF assms]
  by (cases "hd_volume h") (auto simp: lock_reply_def exfat_amiga_makelock_def new_lock_def set_lock_def pin_node Let_def)

text \<open>
  C9: locating an object is following a path.  The path, in the notation of AmigaDOS (a name in front of a colon is the business of the system, a
  leading slash leads to the parent), starts at the directory of the lock, or at the root; what it leads to is looked up
  component by component on the tree of directories.  A lock on the node that is found is the answer, with one reference to the node, and
  the new lock in front of the list of the volume; if there is no such object, or no memory, nothing has changed.
\<close>

theorem locate_object_correct:
  assumes "cached_tree (hd_ef h) kids" "ef_root (hd_ef h) \<in> dom (ef_nodes (hd_ef h))"
    "exfat_amiga_bstr_to_utf8 bpath (int MAX_PATH_UTF8) = Some rel" "start_comps h base rel = Some cs" "list_all component cs"
    "length (joined cs) + length rel + 2 \<le> MAX_PATH_UTF8"
  shows "do_locate_object env h base bpath =
    (case walk (hd_ef h) kids (ef_root (hd_ef h)) (filter (\<lambda>c. c \<noteq> [0x2e]) (follow cs (amiga_steps (after_colon rel)))) of
       None \<Rightarrow> None
     | Some (Inl _) \<Rightarrow> Some (Reply DOSFALSE ERROR_OBJECT_NOT_FOUND, h)
     | Some (Inr a) \<Rightarrow>
         Some (if en_alloc env then (ReplyLock (hd_fresh h), new_lock h a SHARED_LOCK) else (Reply DOSFALSE ERROR_NO_FREE_STORE, h)))"
proof -
  let ?w = "follow cs (amiga_steps (after_colon rel))" and ?ef = "hd_ef h"
  have w: "list_all component ?w" by (rule follow_components [OF assms(5) steps_components])
  have path: "resolve_path h base bpath MAX_PATH_UTF8 = Some (Some (abs_path ?w))" by (rule resolve_path_follows [OF assms(3-6)])
  have "exfat_lookup ?ef (abs_path ?w) = lookup_result ?ef (walk ?ef kids (ef_root ?ef) (path_comps (abs_path ?w)))"
    by (rule lookup_walks [OF assms(1,2)])
  then have look: "exfat_lookup ?ef (abs_path ?w) = lookup_result ?ef (walk ?ef kids (ef_root ?ef) (filter (\<lambda>c. c \<noteq> [0x2e]) ?w))"
    by (simp only: path_comps_abs [OF w])
  consider "walk ?ef kids (ef_root ?ef) (filter (\<lambda>c. c \<noteq> [0x2e]) ?w) = None"
    | rc where "walk ?ef kids (ef_root ?ef) (filter (\<lambda>c. c \<noteq> [0x2e]) ?w) = Some (Inl rc)"
    | a where "walk ?ef kids (ef_root ?ef) (filter (\<lambda>c. c \<noteq> [0x2e]) ?w) = Some (Inr a)"
    by (metis option.exhaust sum.exhaust)
  then show ?thesis
  proof cases
    case (3 a)
    then obtain n where n: "ef_nodes ?ef a = Some n" using walk_node [OF assms(1) _ assms(2)] by blast
    have "quiet n" using tree_node [OF assms(1) n] by blast
    then show ?thesis using 3 path look lock_reply_pinned [OF n] by (simp add: do_locate_object_def lookup_result_def)
  qed (use path look walk_error in \<open>auto simp: do_locate_object_def lookup_result_def\<close>)
qed

section \<open>Names\<close>

lemma sane_paired: "sane_units us \<Longrightarrow> paired (takeWhile (\<lambda>u. u \<noteq> 0) us)"
proof (induction us rule: sane_units.induct)
  case (2 u us)
  show ?case
  proof (cases "u \<noteq> 0 \<and> lead_surrogate u")
    case True
    then obtain lo us' where l: "us = lo # us'" "trail_surrogate lo" "sane_units us'" using 2(3) by (auto split: list.splits if_splits)
    then have "lo \<noteq> 0" by (auto simp: trail_surrogate_def)
    then show ?thesis using True 2(1) l by (auto simp: lead_surrogate_def trail_surrogate_def)
  next
    case False
    then show ?thesis using 2(2,3)
      by (cases us) (auto simp: lead_surrogate_def trail_surrogate_def split: if_splits)
  qed
qed simp

text \<open>
  No name can stop the handler.  \<^verbatim>\<open>safe_get_name\<close> returns a string that fits its buffer for every node, whatever the entry on the
  medium holds, where \<^verbatim>\<open>exfat_get_name\<close> would end the process.
\<close>

theorem safe_get_name_total:
  "\<exists>name. safe_get_name node = Some name \<and> length name \<le> EXFAT_UTF8_NAME_BUFFER_MAX \<and> 0 \<notin> set name"
proof (cases "name_is_sane node")
  case True
  let ?us = "take EXFAT_NAME_MAX (n_name node)"
  have "fst (utf16_to_utf8_loop ?us EXFAT_UTF8_NAME_BUFFER_MAX) = 0"
    using utf16_to_utf8_loop_adequate [of ?us EXFAT_UTF8_NAME_BUFFER_MAX] sane_paired True by (simp add: name_is_sane_def name_consts)
  then obtain out where o: "utf16_to_utf8_loop ?us EXFAT_UTF8_NAME_BUFFER_MAX = (0, out)" by (metis prod.collapse)
  have "length out \<le> EXFAT_UTF8_NAME_BUFFER_MAX" by (rule utf16_to_utf8_loop_length [OF o])
  then have "length (takeWhile (\<lambda>b. b \<noteq> 0) out) \<le> EXFAT_UTF8_NAME_BUFFER_MAX" using length_takeWhile_le order_trans by blast
  moreover have "0 \<notin> set (takeWhile (\<lambda>b. b \<noteq> 0) out)" by (auto dest: set_takeWhileD)
  ultimately show ?thesis using True o by (simp add: safe_get_name_def exfat_get_name_def exfat_utf16_to_utf8_def)
next
  case False
  then show ?thesis by (simp add: safe_get_name_def BAD_NAME_def name_consts)
qed

end
