(* ===== verification/Accounts.thy ===== *)
theory Accounts
  imports Handler
begin

text \<open>
  The bookkeeping of the handler: the numbers of locks and files are the numbers of those that are allocated, the list of locks of the volume is
  well-formed and has every lock in it, and nothing is open while the volume is not mounted.
\<close>

section \<open>The list of locks\<close>

fun chained :: "(addr \<Rightarrow> ExfatLock option) \<Rightarrow> addr option \<Rightarrow> addr list \<Rightarrow> bool" where
  "chained locks head [] \<longleftrightarrow> head = None"
| "chained locks head (l # ls) \<longleftrightarrow> head = Some l \<and> (\<exists>lk. locks l = Some lk \<and> chained locks (lk_link lk) ls)"

lemma chained_cong:
  "(\<And>l. l \<in> set ls \<Longrightarrow> map_option lk_link (locks' l) = map_option lk_link (locks l)) \<Longrightarrow> chained locks head ls \<Longrightarrow> chained locks' head ls"
proof (induction ls arbitrary: head)
  case (Cons l ls)
  then obtain lk where lk: "head = Some l" "locks l = Some lk" "chained locks (lk_link lk) ls" by auto
  then obtain lk' where "locks' l = Some lk'" "lk_link lk' = lk_link lk" using Cons.prems(1) [of l] by (cases "locks' l") auto
  then show ?case using Cons lk by auto
qed simp

lemma chained_upd: "l \<notin> set ls \<Longrightarrow> chained locks head ls \<Longrightarrow> chained (locks(l := x)) head ls"
  by (rule chained_cong) auto

text \<open>Taking a lock out of the rest of the list behind \<open>p\<close>.\<close>

lemma unlink_behind:
  "locks p = Some pl \<Longrightarrow> chained locks (lk_link pl) ls \<Longrightarrow> distinct (p # ls) \<Longrightarrow> l \<in> set ls \<Longrightarrow>
     \<exists>locks' pl'. unlink_loop locks head (Some p) l = Some (locks', head) \<and> locks' p = Some pl' \<and>
       chained locks' (lk_link pl') (remove1 l ls) \<and> (\<forall>x. x \<notin> set (p # ls) \<longrightarrow> locks' x = locks x) \<and> dom locks' = dom locks"
proof (induction ls arbitrary: p pl)
  case (Cons c cs)
  then obtain lc where c: "lk_link pl = Some c" "locks c = Some lc" "chained locks (lk_link lc) cs" by auto
  show ?case
  proof (cases "c = l")
    case True
    then have "chained (locks(p \<mapsto> pl\<lparr>lk_link := lk_link lc\<rparr>)) (lk_link lc) cs" using c(3) Cons.prems(3) by (intro chained_upd) auto
    then show ?thesis using True c Cons.prems(1) by (subst unlink_loop.simps) auto
  next
    case False
    have "distinct (c # cs)" "l \<in> set cs" using Cons.prems(3,4) False by auto
    then obtain locks' lc' where u: "unlink_loop locks head (Some c) l = Some (locks', head)" "locks' c = Some lc'"
      "chained locks' (lk_link lc') (remove1 l cs)" "\<forall>x. x \<notin> set (c # cs) \<longrightarrow> locks' x = locks x" "dom locks' = dom locks"
      using Cons.IH [OF c(2,3)] by blast
    have "locks' p = Some pl" using u(4) Cons.prems(1,3) by auto
    moreover have "unlink_loop locks head (Some p) l = Some (locks', head)"
      using u(1) c(1,2) Cons.prems(1) False by (subst unlink_loop.simps) simp
    ultimately show ?thesis using u c(1) False by auto
  qed
qed simp

lemma unlink_dom: "unlink_loop locks head prev l = Some (locks', head') \<Longrightarrow> dom locks' = dom locks"
proof -
  assume "unlink_loop locks head prev l = Some (locks', head')"
  then have "\<forall>x. fst (locks', head') x = None \<longleftrightarrow> locks x = None"
  proof (induction rule: unlink_loop.raw_induct [rotated, consumes 1, case_names step])
    case (step loop locks head prev l r)
    from step(2) show ?case
      by (simp add: bind_eq_Some_conv split: option.split_asm if_split_asm) (auto simp: bind_eq_Some_conv split: if_splits dest!: step(1))
  qed
  then show ?thesis by (auto simp: dom_def)
qed

lemma unlink_chain:
  assumes "chained locks head ls" "distinct ls" "l \<in> set ls"
  shows "\<exists>locks' head'. unlink_loop locks head None l = Some (locks', head') \<and> chained (locks'(l := None)) head' (remove1 l ls) \<and>
    dom locks' = dom locks"
proof (cases ls)
  case (Cons c cs)
  then obtain lc where c: "head = Some c" "locks c = Some lc" "chained locks (lk_link lc) cs" using assms(1) by auto
  show ?thesis
  proof (cases "c = l")
    case True
    then have "chained (locks(l := None)) (lk_link lc) cs" using c(3) assms(2) Cons by (intro chained_upd) auto
    then show ?thesis using True c Cons by (subst unlink_loop.simps) auto
  next
    case False
    then obtain locks' lc' where u: "unlink_loop locks head (Some c) l = Some (locks', head)" "locks' c = Some lc'"
      "chained locks' (lk_link lc') (remove1 l cs)" "dom locks' = dom locks"
      using unlink_behind [OF c(2,3), of l head] assms(2,3) Cons by auto
    have "chained (locks'(l := None)) (lk_link lc') (remove1 l cs)" using u(3) assms(2) Cons by (intro chained_upd) auto
    then show ?thesis using u c(1,2) False Cons by (subst unlink_loop.simps) auto
  qed
qed (use assms in simp)

lemma each_lock_chain:
  assumes "\<And>lk. lk_link (f lk) = lk_link lk"
  shows "chained locks head ls \<Longrightarrow> distinct ls \<Longrightarrow>
    each_lock f locks head = Some (\<lambda>x. if x \<in> set ls then map_option f (locks x) else locks x)"
proof (induction ls arbitrary: locks head)
  case (Cons c cs)
  then obtain lc where c: "head = Some c" "locks c = Some lc" "chained locks (lk_link lc) cs" by auto
  have "chained (locks(c \<mapsto> f lc)) (lk_link lc) cs" using c(3) Cons.prems(2) by (intro chained_upd) auto
  then have "each_lock f (locks(c \<mapsto> f lc)) (lk_link lc) =
      Some (\<lambda>x. if x \<in> set cs then map_option f ((locks(c \<mapsto> f lc)) x) else (locks(c \<mapsto> f lc)) x)"
    using Cons by auto
  moreover have "(\<lambda>x. if x \<in> set cs then map_option f ((locks(c \<mapsto> f lc)) x) else (locks(c \<mapsto> f lc)) x) =
      (\<lambda>x. if x \<in> set (c # cs) then map_option f (locks x) else locks x)"
    using Cons.prems(2) c(2) by auto
  ultimately show ?case using c(1,2) by (subst each_lock.simps) simp
qed (simp add: each_lock.simps)

section \<open>What every result has\<close>

definition post :: "('a \<Rightarrow> bool) \<Rightarrow> 'a option \<Rightarrow> bool" where
  "post P m \<longleftrightarrow> (\<forall>x. m = Some x \<longrightarrow> P x)"

lemma postI: "(\<And>x. m = Some x \<Longrightarrow> P x) \<Longrightarrow> post P m" and postD: "post P m \<Longrightarrow> m = Some x \<Longrightarrow> P x"
  by (auto simp: post_def)

lemma post_rules:
  "post P None"
  "P x \<Longrightarrow> post P (Some x)"
  "(\<And>x. m = Some x \<Longrightarrow> post P (f x)) \<Longrightarrow> post P (Option.bind m f)"
  "(c \<Longrightarrow> post P a) \<Longrightarrow> (\<not> c \<Longrightarrow> post P b) \<Longrightarrow> post P (if c then a else b)"
  "(\<And>u v. p = (u, v) \<Longrightarrow> post P (g u v)) \<Longrightarrow> post P (case p of (u, v) \<Rightarrow> g u v)"
  "(y = None \<Longrightarrow> post P a) \<Longrightarrow> (\<And>z. y = Some z \<Longrightarrow> post P (b' z)) \<Longrightarrow> post P (case y of None \<Rightarrow> a | Some z \<Rightarrow> b' z)"
  "(\<And>e. s = Inl e \<Longrightarrow> post P (l e)) \<Longrightarrow> (\<And>e. s = Inr e \<Longrightarrow> post P (r e)) \<Longrightarrow> post P (case s of Inl e \<Rightarrow> l e | Inr e \<Rightarrow> r e)"
  "(xs = [] \<Longrightarrow> post P a) \<Longrightarrow> (\<And>z zs. xs = z # zs \<Longrightarrow> post P (k z zs)) \<Longrightarrow> post P (case xs of [] \<Rightarrow> a | z # zs \<Rightarrow> k z zs)"
  "(\<And>z. z = t \<Longrightarrow> post P (q z)) \<Longrightarrow> post P (Let t q)"
  unfolding post_def by (auto simp: bind_eq_Some_conv split: prod.splits option.splits sum.splits list.splits)

section \<open>The books\<close>

definition books :: "nat \<Rightarrow> ExfatHandler \<Rightarrow> bool" where
  "books k h \<longleftrightarrow>
     dom (hd_locks h) \<union> dom (hd_files h) \<subseteq> {..<hd_fresh h} \<and>
     hd_nlocks h = of_nat (card (dom (hd_locks h))) \<and> hd_nfiles h = of_nat (card (dom (hd_files h))) \<and>
     card (dom (hd_locks h)) + card (dom (hd_files h)) \<le> k \<and>
     (\<forall>v. hd_volume h = Some v \<longrightarrow> (\<exists>ls. distinct ls \<and> set ls = dom (hd_locks h) \<and> chained (hd_locks h) (dl_lock_list v) ls)) \<and>
     (\<not> hd_mounted h \<longrightarrow> hd_volume h = None \<and> dom (hd_locks h) = {} \<and> dom (hd_files h) = {})"

lemma books_mono: "books k h \<Longrightarrow> k \<le> k' \<Longrightarrow> books k' h"
  by (auto simp: books_def)

lemma books_ef [simp]:
  "books k (h\<lparr>hd_ef := ef\<rparr>) = books k h" "books k (h\<lparr>hd_card := cd\<rparr>) = books k h" "books k (h\<lparr>hd_held := held\<rparr>) = books k h" "books k (h\<lparr>hd_inhibited := b\<rparr>) = books k h"
  "books k (h\<lparr>hd_quit := b\<rparr>) = books k h" "books k (h\<lparr>hd_spec := s\<rparr>) = books k h" "books k (h\<lparr>hd_lowcyl := c\<rparr>) = books k h"
  "books k (h\<lparr>hd_volname := n\<rparr>) = books k h" "books k (h\<lparr>hd_volname_orig := n\<rparr>) = books k h"
  by (simp_all add: books_def)

lemma books_finite: "books k h \<Longrightarrow> finite (dom (hd_locks h)) \<and> finite (dom (hd_files h))"
  by (auto simp: books_def intro: finite_subset [of _ "{..<hd_fresh h}"])

lemma books_fresh: "books k h \<Longrightarrow> hd_locks h (hd_fresh h) = None \<and> hd_files h (hd_fresh h) = None"
  by (fastforce simp: books_def)

lemma makelock_books:
  assumes "exfat_amiga_makelock alloc_ok h node access = Some (l, h')" "books k h" "hd_mounted h"
  shows "books (Suc k) h'"
proof (cases alloc_ok)
  case False
  then show ?thesis using assms(1,2) by (auto simp: exfat_amiga_makelock_def intro: books_mono)
next
  case True
  let ?l = "hd_fresh h"
  obtain lk where h': "hd_locks h' = (hd_locks h)(?l \<mapsto> lk)" "hd_files h' = hd_files h" "hd_fresh h' = Suc ?l" "hd_nlocks h' = hd_nlocks h + 1"
    "hd_nfiles h' = hd_nfiles h" "hd_mounted h' = hd_mounted h" "hd_volume h' = map_option (\<lambda>v. v\<lparr>dl_lock_list := Some ?l\<rparr>) (hd_volume h)"
    "lk_link lk = Option.bind (hd_volume h) dl_lock_list"
    using assms(1) True by (cases "hd_volume h") (auto simp: exfat_amiga_makelock_def set_lock_def Let_def bind_eq_Some_conv)
  have f: "hd_locks h ?l = None" using books_fresh [OF assms(2)] by blast
  have chain: "\<exists>ls. distinct ls \<and> set ls = dom (hd_locks h') \<and> chained (hd_locks h') (dl_lock_list v') ls" if v': "hd_volume h' = Some v'" for v'
  proof -
    obtain v where v: "hd_volume h = Some v" "v' = v\<lparr>dl_lock_list := Some ?l\<rparr>" using v' h'(7) by (cases "hd_volume h") auto
    then obtain ls where ls: "distinct ls" "set ls = dom (hd_locks h)" "chained (hd_locks h) (dl_lock_list v) ls"
      using assms(2) by (auto simp: books_def)
    have "?l \<notin> set ls" using f ls(2) by auto
    then have "distinct (?l # ls)" "set (?l # ls) = dom (hd_locks h')" "chained (hd_locks h') (dl_lock_list v') (?l # ls)"
      using ls v h'(1,8) by (auto intro: chained_upd)
    then show ?thesis by blast
  qed
  have "card (dom (hd_locks h')) = Suc (card (dom (hd_locks h)))"
    using f books_finite [OF assms(2)] by (simp add: h'(1) card_insert_if domIff)
  moreover have "dom (hd_locks h') \<union> dom (hd_files h') \<subseteq> {..<hd_fresh h'}"
    using assms(2) unfolding h' books_def by (auto simp: less_Suc_eq)
  ultimately show ?thesis using assms(2,3) chain unfolding books_def h'(2,4,5,6) by simp
qed

lemma freelock_books:
  assumes "exfat_amiga_freelock h lock = Some h'" "books k h"
  shows "books k h'"
proof (cases lock)
  case None
  then show ?thesis using assms by (simp add: exfat_amiga_freelock_def)
next
  case (Some l)
  obtain locks' v' where h': "hd_locks h' = locks'(l := None)" "dom locks' = dom (hd_locks h)" "l \<in> dom (hd_locks h)"
    "hd_files h' = hd_files h" "hd_fresh h' = hd_fresh h" "hd_nlocks h' = hd_nlocks h - 1" "hd_nfiles h' = hd_nfiles h"
    "hd_mounted h' = hd_mounted h" "hd_volume h' = v'" "v' = None \<longleftrightarrow> hd_volume h = None"
    "\<And>v. v' = Some v \<Longrightarrow> \<exists>ls. distinct ls \<and> set ls = dom (hd_locks h) - {l} \<and> chained (locks'(l := None)) (dl_lock_list v) ls"
  proof (cases "hd_volume h")
    case None
    then show ?thesis using assms(1) Some by (intro that [of "hd_locks h" None]) (auto simp: exfat_amiga_freelock_def bind_eq_Some_conv)
  next
    case v: (Some v)
    obtain ls where ls: "distinct ls" "set ls = dom (hd_locks h)" "chained (hd_locks h) (dl_lock_list v) ls"
      using assms(2) v by (auto simp: books_def)
    obtain locks head lk ef where u: "unlink_loop (hd_locks h) (dl_lock_list v) None l = Some (locks, head)" "locks l = Some lk"
      "h' = h\<lparr>hd_volume := Some (v\<lparr>dl_lock_list := head\<rparr>), hd_ef := ef, hd_locks := locks(l := None), hd_nlocks := hd_nlocks h - 1\<rparr>"
      using assms(1) Some v by (auto simp: exfat_amiga_freelock_def bind_eq_Some_conv)
    have l: "l \<in> set ls" using unlink_dom [OF u(1)] u(2) ls(2) by auto
    obtain locks2 head2 where w: "unlink_loop (hd_locks h) (dl_lock_list v) None l = Some (locks2, head2)"
      "chained (locks2(l := None)) head2 (remove1 l ls)" "dom locks2 = dom (hd_locks h)"
      using unlink_chain [OF ls(3,1) l] by blast
    then have "distinct (remove1 l ls)" "set (remove1 l ls) = dom (hd_locks h) - {l}" "chained (locks(l := None)) head (remove1 l ls)"
      using u(1) ls by (auto simp: distinct_remove1)
    then show ?thesis using u w(1,3) l ls(2) v by (intro that [of locks "Some (v\<lparr>dl_lock_list := head\<rparr>)"]) auto
  qed
  have d: "dom (hd_locks h') = dom (hd_locks h) - {l}" using h'(1,2) by auto
  have c: "Suc (card (dom (hd_locks h'))) = card (dom (hd_locks h))"
    using card_Suc_Diff1 [of "dom (hd_locks h)" l] books_finite [OF assms(2)] h'(3) unfolding d by blast
  have n: "hd_nlocks h' = of_nat (card (dom (hd_locks h')))" using assms(2) c [symmetric] by (simp add: h'(6) books_def)
  have v: "\<exists>ls. distinct ls \<and> set ls = dom (hd_locks h') \<and> chained (hd_locks h') (dl_lock_list v) ls" if "hd_volume h' = Some v" for v
    using h'(11) [of v] that h'(9) unfolding d unfolding h'(1) by blast
  have b: "dom (hd_locks h) \<union> dom (hd_files h) \<subseteq> {..<hd_fresh h}" "hd_nfiles h = of_nat (card (dom (hd_files h)))"
    "card (dom (hd_locks h)) + card (dom (hd_files h)) \<le> k"
    "\<not> hd_mounted h \<longrightarrow> hd_volume h = None \<and> dom (hd_locks h) = {} \<and> dom (hd_files h) = {}"
    using assms(2) unfolding books_def by blast+
  have "dom (hd_locks h') \<union> dom (hd_files h') \<subseteq> {..<hd_fresh h'}" using b(1) d h'(4,5) by auto
  moreover have "card (dom (hd_locks h')) + card (dom (hd_files h')) \<le> k" using b(3) c h'(4) by simp
  moreover have "\<not> hd_mounted h' \<longrightarrow> hd_volume h' = None \<and> dom (hd_locks h') = {} \<and> dom (hd_files h') = {}"
    using b(4) d h'(4,8,9,10) by auto
  ultimately show ?thesis using n v b(2) h'(4,7) unfolding books_def by simp
qed

section \<open>Every operation keeps the books\<close>

lemma set_file_books: "books k h \<Longrightarrow> f \<in> dom (hd_files h) \<Longrightarrow> books k (set_file h f fi)"
  by (auto simp: books_def set_file_def insert_absorb)

lemma set_lock_books:
  assumes "books k h" "hd_locks h l = Some lk" "lk_link lk' = lk_link lk"
  shows "books k (set_lock h l lk')"
proof -
  have d: "dom (hd_locks (set_lock h l lk')) = dom (hd_locks h)" using assms(2) by (auto simp: set_lock_def)
  have "chained (hd_locks (set_lock h l lk')) head ls" if "chained (hd_locks h) head ls" for head ls
    by (rule chained_cong [OF _ that]) (use assms(2,3) in \<open>auto simp: set_lock_def\<close>)
  then have "\<exists>ls. distinct ls \<and> set ls = dom (hd_locks h) \<and> chained (hd_locks (set_lock h l lk')) (dl_lock_list v) ls" if "hd_volume h = Some v" for v
    using assms(1) that unfolding books_def by blast
  then show ?thesis using assms(1) unfolding books_def d by (simp add: set_lock_def)
qed

lemma note_scan_books: "note_scan h lock nxt index = Some h' \<Longrightarrow> books k h \<Longrightarrow> books k h'"
  by (auto simp: note_scan_def bind_eq_Some_conv split: option.splits intro: set_lock_books)

lemma allocate_file_books:
  assumes "books k h" "hd_mounted h"
  shows "books (Suc k) (snd (allocate_file h node wr))"
proof -
  let ?h = "snd (allocate_file h node wr)" and ?f = "hd_fresh h"
  have f: "hd_files h ?f = None" using books_fresh [OF assms(1)] by blast
  obtain fi where e: "hd_files ?h = (hd_files h)(?f \<mapsto> fi)" "hd_locks ?h = hd_locks h" "hd_fresh ?h = Suc ?f" "hd_nfiles ?h = hd_nfiles h + 1"
    "hd_nlocks ?h = hd_nlocks h" "hd_mounted ?h = hd_mounted h" "hd_volume ?h = hd_volume h"
    by (simp add: allocate_file_def set_file_def)
  have "card (dom (hd_files ?h)) = Suc (card (dom (hd_files h)))" using f books_finite [OF assms(1)] by (simp add: e(1) card_insert_if domIff)
  moreover have "dom (hd_locks ?h) \<union> dom (hd_files ?h) \<subseteq> {..<hd_fresh ?h}" using assms(1) unfolding e books_def by (auto simp: less_Suc_eq)
  ultimately show ?thesis using assms unfolding books_def e(2,4-7) by simp
qed

lemma lock_reply_books: "lock_reply env h node access = Some (r, h') \<Longrightarrow> books k h \<Longrightarrow> hd_mounted h \<Longrightarrow> books (Suc k) h'"
  by (auto simp: lock_reply_def bind_eq_Some_conv split: option.splits dest: makelock_books)

lemma open_reply_books: "open_reply env h node wr = Some (r, h') \<Longrightarrow> books k h \<Longrightarrow> hd_mounted h \<Longrightarrow> books (Suc k) h'"
  using allocate_file_books [of k h node wr]
  by (auto simp: open_reply_def bind_eq_Some_conv split: if_splits prod.splits intro: books_mono)

lemma update_scans_books:
  assumes "update_scans f h = Some h'" "books k h" "\<And>lk. lk_link (f lk) = lk_link lk"
  shows "books k h'"
proof (cases "hd_volume h")
  case None
  then show ?thesis using assms by (simp add: update_scans_def)
next
  case (Some v)
  then obtain ls where ls: "distinct ls" "set ls = dom (hd_locks h)" "chained (hd_locks h) (dl_lock_list v) ls" using assms(2) by (auto simp: books_def)
  let ?locks = "\<lambda>x. if x \<in> set ls then map_option f (hd_locks h x) else hd_locks h x"
  have h': "h' = h\<lparr>hd_locks := ?locks\<rparr>" using assms(1) each_lock_chain [of f, OF assms(3) ls(3,1)] Some by (simp add: update_scans_def)
  have d: "dom ?locks = dom (hd_locks h)" by (auto split: if_splits)
  have "chained ?locks (dl_lock_list v) ls" by (rule chained_cong [OF _ ls(3)]) (simp add: option.map_comp o_def assms(3))
  then show ?thesis using assms(2) Some ls(1,2) d unfolding h' books_def by auto
qed

lemma scan_books:
  "scan_skip_node h node = Some h' \<Longrightarrow> books k h \<Longrightarrow> books k h'" "scan_invalidate_all h = Some h' \<Longrightarrow> books k h \<Longrightarrow> books k h'"
  by (auto simp: scan_skip_node_def scan_invalidate_all_def bind_eq_Some_conv elim!: update_scans_books split: if_splits)

lemma examine_loop_books: "examine_loop h lock it index want = Some (r, h') \<Longrightarrow> books k h \<Longrightarrow> books k h'"
proof -
  assume "examine_loop h lock it index want = Some (r, h')"
  then have "\<forall>k. books k h \<longrightarrow> books k (snd (r, h'))"
  proof (induction rule: examine_loop.raw_induct [rotated, consumes 1, case_names step])
    case (step loop h lock it index want y)
    show ?case
      by (rule postD [OF _ step(2)], intro post_rules) (auto dest: note_scan_books intro!: postI dest!: step(1))
  qed
  then show "books k h \<Longrightarrow> books k h'" by simp
qed

text \<open>The packets that need the medium.\<close>

definition keeps :: "nat \<Rightarrow> outcome \<Rightarrow> bool" where
  "keeps k m \<longleftrightarrow> post (\<lambda>(r, h). books k h) m"

lemma keepsD: "keeps k m \<Longrightarrow> m = Some (r, h') \<Longrightarrow> books k h'"
  by (auto simp: keeps_def dest: postD)

lemma lock_packets_books:
  assumes "books k h" "hd_mounted h"
  shows "keeps (Suc k) (do_locate_object env h base path)" "keeps (Suc k) (do_copy_dir env h lock)"
    "keeps (Suc k) (do_lock_from_fh env h file want_parent)" "keeps (Suc k) (do_parent env h lock)"
    "keeps (Suc k) (do_create_dir env h base path)"
  unfolding keeps_def do_locate_object_def do_copy_dir_def do_lock_from_fh_def do_parent_def do_create_dir_def
  by (intro post_rules; use assms in \<open>auto intro!: postI dest: lock_reply_books [where k = k] intro: books_mono\<close>)+

lemma examine_packets_books:
  assumes "books k h"
  shows "keeps k (do_same_lock h lock lock2)" "keeps k (do_examine_object h lock)" "keeps k (do_examine_next h lock key)" "keeps k (do_examine_fh h file fib)"
  unfolding keeps_def do_same_lock_def do_examine_object_def do_examine_next_def do_examine_fh_def
  by (intro post_rules; use assms in \<open>auto intro!: postI intro: set_lock_books dest: note_scan_books examine_loop_books
      simp: bind_eq_Some_conv split: option.splits\<close>)+

lemma open_packets_books:
  assumes "books k h" "hd_mounted h"
  shows "keeps (Suc k) (do_open env h fh base path mode)"
  unfolding keeps_def do_open_def open_create_def open_existing_def
  by (intro post_rules) (use assms in \<open>auto intro!: postI dest: open_reply_books [where k = k] intro: books_mono\<close>)

lemma fh_from_lock_books:
  assumes "books k h" "hd_mounted h"
  shows "keeps (Suc k) (do_fh_from_lock env h fh lock)"
proof -
  have "books (Suc k) h'" if "(f, h') = allocate_file (h\<lparr>hd_ef := ef\<rparr>) node wr" for ef node wr f h'
    using allocate_file_books [of k "h\<lparr>hd_ef := ef\<rparr>" node wr] assms by (simp flip: that)
  then show ?thesis
    unfolding keeps_def do_fh_from_lock_def
    by (intro post_rules) (use assms in \<open>auto elim!: freelock_books intro: books_mono\<close>)
qed

lemma file_packets_books:
  assumes "books k h"
  shows "keeps k (do_write h file buffer len)" "keeps k (do_set_file_size h file arg mode)" "keeps k (do_read h file buffer len)"
    "keeps k (do_seek h file arg mode)"
  unfolding keeps_def do_write_def do_set_file_size_def do_read_def do_seek_def
  by (intro post_rules; use assms in \<open>auto intro!: set_file_books\<close>)+

lemma lookup_arg23_books: "lookup_arg23 h base path = Some (r, h') \<Longrightarrow> books k h \<Longrightarrow> books k h'"
  by (auto simp: lookup_arg23_def bind_eq_Some_conv Let_def split: option.split_asm if_split_asm)

lemma flush_reply_books: "flush_reply h node f = Some (r, h') \<Longrightarrow> books k h \<Longrightarrow> books k h'"
  by (auto simp: flush_reply_def bind_eq_Some_conv)

lemma rename_volume_books:
  "books k h \<Longrightarrow> hd_volume h = Some v \<Longrightarrow> books k (h\<lparr>hd_volume := Some (v\<lparr>dl_name := n\<rparr>)\<rparr>)"
  "books k h \<Longrightarrow> books k (h\<lparr>hd_volume := map_option (\<lambda>v. v\<lparr>dl_task := b\<rparr>) (hd_volume h)\<rparr>)"
  by (auto simp: books_def)

lemma object_packets_books:
  assumes "books k h"
  shows "keeps k (do_set_protect h base path bits)" "keeps k (do_set_date h base path ds)" "keeps k (do_set_comment h base path comment)"
    "keeps k (do_delete_object h base path)" "keeps k (do_rename_object h base path base2 path2)" "keeps k (do_rename_disk env h name)"
  unfolding keeps_def do_set_protect_def do_set_date_def do_set_comment_def do_delete_object_def delete_node_def do_rename_object_def do_rename_disk_def
  by (intro post_rules; use assms in \<open>auto intro!: postI rename_volume_books(1) dest: lookup_arg23_books flush_reply_books scan_books\<close>)+

section \<open>The life of a handler\<close>

lemma unmount_books:
  "unmount_fs h = Some h' \<Longrightarrow> books k h \<Longrightarrow> hd_volume h = None \<Longrightarrow> dom (hd_locks h) = {} \<Longrightarrow> dom (hd_files h) = {} \<Longrightarrow>
     books k h' \<and> \<not> hd_mounted h'"
  by (auto simp: unmount_fs_def books_def bind_eq_Some_conv split: if_splits)

text \<open>Nothing is open, as far as the numbers tell; with less than \<open>2 ^ 32\<close> of either they tell the truth.\<close>

lemma books_idle:
  assumes "books k h" "k < 2 ^ 32" "hd_nlocks h = 0" "hd_nfiles h = 0"
  shows "dom (hd_locks h) = {} \<and> dom (hd_files h) = {}"
proof -
  have c: "card (dom (hd_locks h)) < 2 ^ 32" "card (dom (hd_files h)) < 2 ^ 32" using assms(1,2) by (auto simp: books_def)
  have "unat (hd_nlocks h) = card (dom (hd_locks h))" "unat (hd_nfiles h) = card (dom (hd_files h))"
    using assms(1) c by (simp_all add: books_def unat_of_nat)
  then show ?thesis using assms(3,4) books_finite [OF assms(1)] by simp
qed

lemma discard_state: "discard_dirty_state h = Some h' \<Longrightarrow> \<exists>ef. h' = h\<lparr>hd_ef := ef\<rparr>"
  by (auto simp: discard_dirty_state_def bind_eq_Some_conv intro: exI [of _ "hd_ef h"] split: if_split_asm)

lemma release_mount_books:
  assumes "release_mount (remove_volume h) = Some h'" "books k h" "k < 2 ^ 32" "hd_nlocks h = 0" "hd_nfiles h = 0"
  shows "books k h' \<and> \<not> hd_mounted h'"
proof -
  let ?h = "remove_volume h"
  have d: "dom (hd_locks h) = {} \<and> dom (hd_files h) = {}" by (rule books_idle [OF assms(2-5)])
  then have b: "books k ?h" "hd_volume ?h = None" "dom (hd_locks ?h) = {}" "dom (hd_files ?h) = {}"
    using assms(2) by (auto simp: remove_volume_def books_def)
  consider "h' = ?h" "\<not> hd_mounted ?h" | "unmount_fs ?h = Some h'" | ef where "unmount_fs (?h\<lparr>hd_ef := ef\<rparr>) = Some h'"
  proof (cases "hd_mounted ?h \<and> \<not> same_volume ?h")
    case True
    then obtain g where "discard_dirty_state ?h = Some g" "unmount_fs (g\<lparr>hd_ef := (hd_ef g)\<lparr>ef_ro := 1\<rparr>\<rparr>) = Some h'"
      using assms(1) by (auto simp: release_mount_def bind_eq_Some_conv)
    then show ?thesis using discard_state [of ?h g] by (auto intro: that(3))
  next
    case False
    then show ?thesis using assms(1) that(1,2) by (cases "hd_mounted ?h") (simp_all add: release_mount_def)
  qed
  then show ?thesis
  proof cases
    case 1
    then show ?thesis using b(1) by simp
  next
    case 2
    show ?thesis by (rule unmount_books [OF 2 b])
  next
    case (3 ef)
    show ?thesis by (rule unmount_books [OF 3]) (use b in simp_all)
  qed
qed

text \<open>
  The phases: a handler that is not inhibited has its volume mounted, and one that is inhibited and has it mounted has something open.
\<close>

definition phase :: "ExfatHandler \<Rightarrow> bool" where
  "phase h \<longleftrightarrow> (hd_mounted h \<or> hd_inhibited h) \<and> (hd_mounted h \<and> hd_inhibited h \<longrightarrow> hd_nlocks h \<noteq> 0 \<or> hd_nfiles h \<noteq> 0)"

definition sound :: "nat \<Rightarrow> ExfatHandler \<Rightarrow> bool" where
  "sound k h \<longleftrightarrow> books k h \<and> phase h"

lemma release_if_idle_sound:
  assumes "release_if_idle h = Some h'" "books k h" "k < 2 ^ 32" "hd_mounted h \<or> hd_inhibited h"
  shows "sound k h'"
proof (cases "hd_inhibited h \<and> hd_mounted h \<and> hd_nlocks h = 0 \<and> hd_nfiles h = 0")
  case True
  then have "release_mount (remove_volume h) = Some h'" using assms(1) by (simp add: release_if_idle_def)
  moreover from this have "hd_inhibited h' = hd_inhibited h"
    by (auto simp: release_mount_def discard_dirty_state_def unmount_fs_def remove_volume_def bind_eq_Some_conv split: if_splits)
  ultimately show ?thesis using release_mount_books [OF _ assms(2,3)] True by (simp add: sound_def phase_def)
next
  case False
  then show ?thesis using assms by (auto simp: release_if_idle_def sound_def phase_def)
qed

lemma unlisted_books: "books k h \<Longrightarrow> books k (h\<lparr>hd_ef := ef, hd_volume := map_option (\<lambda>v. v\<lparr>dl_task := b\<rparr>) (hd_volume h)\<rparr>)"
  using rename_volume_books(2) [of k "h\<lparr>hd_ef := ef\<rparr>" b] by simp

lemma park_state: "park h = Some h' \<Longrightarrow> \<exists>ef. h' = h\<lparr>hd_ef := ef, hd_volume := map_option (\<lambda>v. v\<lparr>dl_task := False\<rparr>) (hd_volume h)\<rparr>"
proof -
  assume p: "park h = Some h'"
  have d: "post (\<lambda>g. \<exists>ef. g = h\<lparr>hd_ef := ef\<rparr>) (discard_dirty_state (h\<lparr>hd_ef := ef\<rparr>))" for ef
    by (rule postI) (auto dest!: discard_state)
  obtain g where g: "h' = g\<lparr>hd_volume := map_option (\<lambda>v. v\<lparr>dl_task := False\<rparr>) (hd_volume g)\<rparr>" "\<exists>ef. g = h\<lparr>hd_ef := ef\<rparr>"
  proof -
    obtain g where g: "h' = g\<lparr>hd_volume := map_option (\<lambda>v. v\<lparr>dl_task := False\<rparr>) (hd_volume g)\<rparr>"
      and m: "(if ef_ro (hd_ef h) = 0 then do {
               (rc, ef) \<leftarrow> exfat_flush_nodes (hd_ef h);
               (rc, ef) \<leftarrow> (if rc \<noteq> 0 then Some (rc, ef) else exfat_flush ef);
               let (flushed, ef) = (if rc \<noteq> 0 then (False, ef)
                                    else let (err, ef) = set_volume_dirty ef False in (err = NO_ERROR, ef));
               let h = h\<lparr>hd_ef := ef\<rparr>;
               if flushed then Some h else discard_dirty_state h
             }
             else Some h) = Some g"
      using p by (auto simp only: park_def bind_eq_Some_conv option.inject)
    show thesis
      by (rule that [OF g], rule postD [OF _ m], intro post_rules) (auto intro: d exI [of _ "hd_ef h"])
  qed
  then show ?thesis by auto
qed

lemma park_books: "park h = Some h' \<Longrightarrow> books k h \<Longrightarrow> books k h' \<and> hd_mounted h' = hd_mounted h \<and> hd_nlocks h' = hd_nlocks h \<and> hd_nfiles h' = hd_nfiles h"
  by (drule park_state) (auto intro: unlisted_books)

lemma inhibit_on_sound:
  assumes "inhibit_on h = Some h'" "sound k h" "k < 2 ^ 32" "\<not> hd_inhibited h"
  shows "sound k h'"
proof -
  have m: "hd_mounted h" "books k h" using assms(2,4) by (auto simp: sound_def phase_def)
  show ?thesis
  proof (cases "hd_nlocks h = 0 \<and> hd_nfiles h = 0")
    case True
    then obtain g where g: "release_mount (remove_volume h) = Some g" "h' = g\<lparr>hd_inhibited := True\<rparr>"
      using assms(1) by (auto simp: inhibit_on_def bind_eq_Some_conv)
    show ?thesis using release_mount_books [OF g(1) m(2) assms(3)] True g(2) by (simp add: sound_def phase_def)
  next
    case False
    then obtain g where g: "park h = Some g" "h' = g\<lparr>hd_inhibited := True\<rparr>"
      using assms(1) by (auto simp: inhibit_on_def bind_eq_Some_conv)
    show ?thesis using park_books [OF g(1) m(2)] m False g(2) by (auto simp: sound_def phase_def)
  qed
qed

lemma mount_fs_state:
  "mount_fs h = Some (ok, h') \<Longrightarrow> hd_locks h' = hd_locks h \<and> hd_files h' = hd_files h \<and> hd_fresh h' = hd_fresh h \<and> hd_nlocks h' = hd_nlocks h \<and>
     hd_nfiles h' = hd_nfiles h \<and> hd_volume h' = hd_volume h \<and> hd_inhibited h' = hd_inhibited h \<and> (ok \<longrightarrow> hd_mounted h') \<and>
     (\<not> ok \<longrightarrow> hd_mounted h' = hd_mounted h)"
  by (auto simp: mount_fs_def bind_eq_Some_conv Let_def split: if_splits option.splits)

lemma resolve_extent_books: "resolve_extent env h = Some (ok, h') \<Longrightarrow> \<exists>spec. h' = h\<lparr>hd_spec := spec\<rparr>"
proof -
  assume p: "resolve_extent env h = Some (ok, h')"
  have "case (ok, h') of (ok, h') \<Rightarrow> \<exists>spec. h' = h\<lparr>hd_spec := spec\<rparr>"
    by (rule postD [OF _ p], unfold resolve_extent_def, intro post_rules) (auto intro: exI [of _ "hd_spec h"])
  then show ?thesis by simp
qed

text \<open>Mounting a handler with nothing open.\<close>

lemma mounted_books:
  assumes "books k h" "\<not> hd_mounted h" "mount_fs h = Some (True, h')"
  shows "books k (add_volume env h')" "hd_mounted (add_volume env h')"
proof -
  have d: "dom (hd_locks h) = {}" "dom (hd_files h) = {}" "hd_volume h = None" using assms(1,2) by (simp_all add: books_def)
  then show "books k (add_volume env h')"
    using assms(1) mount_fs_state [OF assms(3)] by (auto simp: books_def add_volume_def Let_def intro!: exI [of _ "[]"])
  show "hd_mounted (add_volume env h')" using mount_fs_state [OF assms(3)] by (simp add: add_volume_def Let_def)
qed

lemma inhibit_off_sound:
  assumes "inhibit_off env h = Some (r, h')" "sound k h" "hd_inhibited h"
  shows "sound k h'"
proof (cases "hd_mounted h")
  case True
  then show ?thesis
    using assms by (auto simp: inhibit_off_def Let_def sound_def phase_def intro!: unlisted_books rename_volume_books(2) split: if_splits prod.splits)
next
  case False
  obtain ok g where g: "resolve_extent env (spec_from_envec h) = Some (ok, g)"
    using assms(1) False by (auto simp: inhibit_off_def bind_eq_Some_conv)
  have b: "books k g" "\<not> hd_mounted g" "hd_inhibited g"
    using resolve_extent_books [OF g] assms(2,3) False by (auto simp: sound_def spec_from_envec_def Let_def)
  show ?thesis
  proof (cases ok)
    case f: False
    then show ?thesis using assms(1) False g b by (auto simp: inhibit_off_def sound_def phase_def)
  next
    case True
    then obtain ok' g' where m: "mount_fs g = Some (ok', g')" using assms(1) False g by (auto simp: inhibit_off_def bind_eq_Some_conv)
    show ?thesis
    proof (cases ok')
      case t: True
      have "h' = (add_volume env g')\<lparr>hd_inhibited := False\<rparr>" using assms(1) False g m True t by (simp add: inhibit_off_def)
      then show ?thesis using mounted_books [OF b(1,2), of g' env] m t by (simp add: sound_def phase_def)
    next
      case f: False
      then have "h' = g'" using assms(1) False g m True by (simp add: inhibit_off_def)
      then show ?thesis using mount_fs_state [OF m] b f by (auto simp: sound_def phase_def books_def)
    qed
  qed
qed

section \<open>One packet\<close>

text \<open>Whether the volume is mounted and the handler inhibited is changed by few packets.\<close>

definition status :: "ExfatHandler \<Rightarrow> bool \<times> bool" where
  "status h = (hd_mounted h, hd_inhibited h)"

lemma status_simps [simp]:
  "status (h\<lparr>hd_ef := ef\<rparr>) = status h" "status (h\<lparr>hd_volume := v\<rparr>) = status h" "status (set_lock h l lk) = status h" "status (set_file h f fi) = status h"
  "status (h\<lparr>hd_locks := ls\<rparr>) = status h" "status (h\<lparr>hd_files := fs\<rparr>) = status h" "status (h\<lparr>hd_nlocks := n\<rparr>) = status h"
  "status (h\<lparr>hd_nfiles := n\<rparr>) = status h" "status (h\<lparr>hd_fresh := a\<rparr>) = status h" "status (h\<lparr>hd_volname := s\<rparr>) = status h"
  "status (h\<lparr>hd_volname_orig := s\<rparr>) = status h"
  by (simp_all add: status_def set_lock_def set_file_def)

lemma helper_status:
  "exfat_amiga_makelock ok h node access = Some (l, h') \<Longrightarrow> status h' = status h"
  "exfat_amiga_freelock h lock = Some h' \<Longrightarrow> status h' = status h"
  "note_scan h lock nxt index = Some h' \<Longrightarrow> status h' = status h"
  "update_scans f h = Some h' \<Longrightarrow> status h' = status h"
  "lookup_arg23 h base path = Some (e, h') \<Longrightarrow> status h' = status h"
  "flush_reply h node g = Some (r, h') \<Longrightarrow> status h' = status h"
  by (auto simp: status_def exfat_amiga_makelock_def exfat_amiga_freelock_def note_scan_def update_scans_def lookup_arg23_def flush_reply_def set_lock_def
      bind_eq_Some_conv Let_def split: option.split_asm if_split_asm)

lemma allocate_file_status: "allocate_file h node wr = (f, h') \<Longrightarrow> status h' = status h"
  by (auto simp: allocate_file_def)

lemma reply_status:
  "lock_reply env h node access = Some (r, h') \<Longrightarrow> status h' = status h"
  "open_reply env h node wr = Some (r, h') \<Longrightarrow> status h' = status h"
  "scan_skip_node h node = Some h' \<Longrightarrow> status h' = status h"
  "scan_invalidate_all h = Some h' \<Longrightarrow> status h' = status h"
  by (auto simp: lock_reply_def open_reply_def scan_skip_node_def scan_invalidate_all_def bind_eq_Some_conv split: option.split_asm if_split_asm prod.split_asm
      dest!: helper_status allocate_file_status)

lemma examine_loop_status: "examine_loop h lock it index want = Some (r, h') \<Longrightarrow> status h' = status h"
proof -
  assume "examine_loop h lock it index want = Some (r, h')"
  then have "status (snd (r, h')) = status h"
  proof (induction rule: examine_loop.raw_induct [rotated, consumes 1, case_names step])
    case (step loop h lock it index want y)
    show ?case
      by (rule postD [OF _ step(2)], intro post_rules) (auto dest: helper_status intro!: postI dest!: step(1))
  qed
  then show ?thesis by simp
qed

definition stays :: "ExfatHandler \<Rightarrow> outcome \<Rightarrow> bool" where
  "stays h m \<longleftrightarrow> post (\<lambda>(r, h'). status h' = status h) m"

lemma staysD: "stays h m \<Longrightarrow> m = Some (r, h') \<Longrightarrow> status h' = status h"
  by (auto simp: stays_def dest: postD)

lemma lock_packets_stay:
  "stays h (do_locate_object env h base path)" "stays h (do_copy_dir env h lock)" "stays h (do_lock_from_fh env h file want_parent)"
  "stays h (do_parent env h lock)" "stays h (do_create_dir env h base path)"
  unfolding stays_def do_locate_object_def do_copy_dir_def do_lock_from_fh_def do_parent_def do_create_dir_def
  by (intro post_rules; auto intro!: postI dest!: reply_status)+

lemma examine_packets_stay:
  "stays h (do_same_lock h lock lock2)" "stays h (do_examine_object h lock)" "stays h (do_examine_next h lock key)" "stays h (do_examine_fh h file fib)"
  unfolding stays_def do_same_lock_def do_examine_object_def do_examine_next_def do_examine_fh_def
  by (intro post_rules; auto intro!: postI dest!: helper_status examine_loop_status simp: bind_eq_Some_conv split: option.split_asm)+

lemma open_packets_stay: "stays h (do_open env h fh base path mode)" "stays h (do_fh_from_lock env h fh lock)"
  unfolding stays_def do_open_def open_create_def open_existing_def do_fh_from_lock_def
  by (intro post_rules; auto intro!: postI dest!: reply_status helper_status allocate_file_status [OF sym])+

lemma file_packets_stay:
  "stays h (do_write h file buffer len)" "stays h (do_set_file_size h file arg mode)" "stays h (do_read h file buffer len)" "stays h (do_seek h file arg mode)"
  unfolding stays_def do_write_def do_set_file_size_def do_read_def do_seek_def
  by (intro post_rules; auto)+

lemma object_packets_stay:
  "stays h (do_set_protect h base path bits)" "stays h (do_set_date h base path ds)" "stays h (do_set_comment h base path comment)"
  "stays h (do_delete_object h base path)" "stays h (do_rename_object h base path base2 path2)" "stays h (do_rename_disk env h name)"
  unfolding stays_def do_set_protect_def do_set_date_def do_set_comment_def do_delete_object_def delete_node_def do_rename_object_def do_rename_disk_def
  by (intro post_rules; auto intro!: postI dest!: helper_status reply_status)+

lemma end_books:
  assumes "do_end h file = Some (r, h')" "books k h"
  shows "books k h' \<and> status h' = status h"
proof (cases "file")
  case None
  then show ?thesis using assms by (simp add: do_end_def)
next
  case (Some f)
  obtain fi ef where h': "hd_files h f = Some fi" "h' = h\<lparr>hd_ef := ef, hd_files := (hd_files h)(f := None), hd_nfiles := hd_nfiles h - 1\<rparr>"
    using assms(1) Some by (auto simp: do_end_def bind_eq_Some_conv)
  have c: "Suc (card (dom (hd_files h) - {f})) = card (dom (hd_files h))"
    using card_Suc_Diff1 [of "dom (hd_files h)" f] books_finite [OF assms(2)] h'(1) by blast
  have "hd_nfiles h - 1 = of_nat (card (dom (hd_files h) - {f}))" using assms(2) c [symmetric] by (simp add: books_def)
  moreover have "dom (hd_locks h) \<union> (dom (hd_files h) - {f}) \<subseteq> {..<hd_fresh h}" using assms(2) by (auto simp: books_def)
  ultimately show ?thesis using assms(2) c unfolding h'(2) by (auto simp: books_def status_def)
qed

lemma format_books: "do_format env h label = Some (r, h') \<Longrightarrow> \<exists>cd. h' = h\<lparr>hd_card := cd\<rparr>"
proof -
  assume p: "do_format env h label = Some (r, h')"
  define P where "P = (\<lambda>(r :: reply, h'). \<exists>cd. h' = h\<lparr>hd_card := cd\<rparr>)"
  have same: "P (r, h)" for r by (auto simp: P_def intro: exI [of _ "hd_card h"])
  have card: "P (r, case d of None \<Rightarrow> h | Some d \<Rightarrow> h\<lparr>hd_card := f d\<rparr>)" for r f and d :: "exfat_dev option"
    by (cases d) (auto simp: P_def intro: exI [of _ "hd_card h"])
  have "P (r, h')" by (rule postD [OF _ p], unfold do_format_def, intro post_rules same) (simp_all only: card)
  then show ?thesis by (simp add: P_def)
qed

lemma flush_books: "do_flush h = Some (r, h') \<Longrightarrow> \<exists>ef. h' = h\<lparr>hd_ef := ef\<rparr>"
proof -
  assume p: "do_flush h = Some (r, h')"
  have "case (r, h') of (r, h') \<Rightarrow> \<exists>ef. h' = h\<lparr>hd_ef := ef\<rparr>"
    by (rule postD [OF _ p], unfold do_flush_def, intro post_rules) (auto intro: exI [of _ "hd_ef h"])
  then show ?thesis by simp
qed

lemmas packet_books =
  lock_packets_books examine_packets_books open_packets_books fh_from_lock_books file_packets_books object_packets_books

lemmas packets_stay =
  lock_packets_stay examine_packets_stay open_packets_stay file_packets_stay object_packets_stay

lemma keeps_mono: "keeps k m \<Longrightarrow> keeps (Suc k) m"
  by (auto simp: keeps_def post_def intro: books_mono)

text \<open>A packet for the medium: the handler is not inhibited.\<close>

lemma medium_packet:
  assumes "dispatch env h pkt = Some (r, h')" "needs_medium pkt" "books k h" "hd_mounted h"
  shows "books (Suc k) h' \<and> status h' = status h"
proof -
  have "keeps (Suc k) (dispatch env h pkt)" using assms(2-4) by (cases pkt) (simp_all add: packet_books keeps_mono)
  moreover have "stays h (dispatch env h pkt)" using assms(2) by (cases pkt) (simp_all add: packets_stay)
  ultimately show ?thesis using keepsD staysD assms(1) by blast
qed

lemma sound_mono: "sound k h \<Longrightarrow> sound (Suc k) h"
  by (auto simp: sound_def intro: books_mono)

lemma release_sound:
  assumes "books k h1" "status h1 = status h" "release_if_idle h1 = Some h'" "sound k h" "k < 2 ^ 32"
  shows "sound (Suc k) h'"
proof -
  have "hd_mounted h1 \<or> hd_inhibited h1" using assms(2,4) by (auto simp: status_def sound_def phase_def)
  then show ?thesis using release_if_idle_sound [OF assms(3,1,5)] sound_mono by blast
qed

lemma inhibit_sound:
  assumes "do_inhibit env h on = Some (r, h')" "sound k h" "k < 2 ^ 32"
  shows "sound k h'"
proof -
  consider "h' = h" | "inhibit_on h = Some h'" "\<not> hd_inhibited h" | "inhibit_off env h = Some (r, h')" "hd_inhibited h"
    using assms(1) by (auto simp: do_inhibit_def bind_eq_Some_conv split: if_split_asm)
  then show ?thesis using inhibit_on_sound inhibit_off_sound assms(2,3) by cases blast+
qed

lemma serve_sound:
  assumes "serve env h pkt = Some (r, h')" "sound k h" "k < 2 ^ 32"
  shows "sound (Suc k) h'"
proof (cases "needs_medium pkt")
  case True
  show ?thesis
  proof (cases "hd_inhibited h")
    case i: True
    then show ?thesis using assms(1,2) True sound_mono by (auto simp: serve_def)
  next
    case False
    then have "dispatch env h pkt = Some (r, h')" "hd_mounted h" "books k h" using assms(1,2) by (auto simp: serve_def sound_def phase_def)
    then have "books (Suc k) h' \<and> status h' = status h" using medium_packet True by blast
    then show ?thesis using False \<open>hd_mounted h\<close> by (simp add: sound_def phase_def status_def)
  qed
next
  case False
  have d: "dispatch env h pkt = Some (r, h')" using assms(1) False by (simp add: serve_def)
  have b: "books k h" using assms(2) by (simp add: sound_def)
  have same: "sound (Suc k) h'" if "h' = h" using that assms(2) sound_mono by blast
  have ef: "sound (Suc k) h'" if "h' = h\<lparr>hd_ef := ef\<rparr> \<or> h' = h\<lparr>hd_card := cd\<rparr>" for ef cd
    using that sound_mono [OF assms(2)] by (auto simp: sound_def phase_def)
  show ?thesis
  proof (cases pkt)
    case (ACTION_FREE_LOCK lock)
    then obtain h1 where h1: "exfat_amiga_freelock h lock = Some h1" "release_if_idle h1 = Some h'" using d by (auto simp: bind_eq_Some_conv)
    show ?thesis by (rule release_sound [OF freelock_books [OF h1(1) b] helper_status(2) [OF h1(1)] h1(2) assms(2,3)])
  next
    case (ACTION_END f)
    then obtain h1 where h1: "do_end h f = Some (r, h1)" "release_if_idle h1 = Some h'" using d by (auto simp: bind_eq_Some_conv)
    then show ?thesis using release_sound [OF _ _ h1(2) assms(2,3)] end_books [OF h1(1) b] by blast
  next
    case (ACTION_FORMAT label)
    then show ?thesis using d format_books ef by fastforce
  next
    case ACTION_FLUSH
    then show ?thesis using d flush_books ef by fastforce
  next
    case (ACTION_INHIBIT on)
    then show ?thesis using d inhibit_sound [OF _ assms(2,3)] sound_mono by auto
  next
    case (ACTION_SAME_LOCK a b)
    then have "h' = h" using d by (auto simp: do_same_lock_def bind_eq_Some_conv split: if_split_asm)
    then show ?thesis by (rule same)
  next
    case ACTION_DIE
    then show ?thesis using d same sound_mono [OF assms(2)] by (auto simp: do_die_def sound_def phase_def split: if_split_asm)
  qed (use d False same in auto)
qed

section \<open>Every handler that is served\<close>

text \<open>A handler before it starts, with nothing open, and after a start that succeeded.\<close>

definition unstarted :: "ExfatHandler \<Rightarrow> bool" where
  "unstarted h \<longleftrightarrow> hd_volume h = None \<and> \<not> hd_mounted h \<and> \<not> hd_inhibited h \<and> hd_nlocks h = 0 \<and> hd_nfiles h = 0 \<and>
     hd_locks h = Map.empty \<and> hd_files h = Map.empty"

definition ready :: "ExfatHandler \<Rightarrow> bool" where
  "ready h \<longleftrightarrow> Option.bind (hd_volume h) dl_lock_list = None \<and> hd_mounted h \<and> \<not> hd_inhibited h \<and> hd_nlocks h = 0 \<and> hd_nfiles h = 0 \<and>
     hd_locks h = Map.empty \<and> hd_files h = Map.empty"

lemma startup_ready:
  assumes "unstarted h" "startup env h = Some (True, h')"
  shows "ready (add_volume env h')"
proof -
  obtain g where g: "resolve_extent env (spec_from_envec h) = Some (True, g)" "mount_fs g = Some (True, h')"
    using assms(2) by (auto simp: startup_def bind_eq_Some_conv split: if_split_asm)
  have "unstarted g" using resolve_extent_books [OF g(1)] assms(1) by (auto simp: unstarted_def spec_from_envec_def Let_def)
  then show ?thesis using mount_fs_state [OF g(2)] by (auto simp: unstarted_def ready_def add_volume_def Let_def)
qed

text \<open>The handlers that can be there after \<open>k\<close> packets: it has started, packets are served, and cards are exchanged at any time.\<close>

inductive served :: "nat \<Rightarrow> ExfatHandler \<Rightarrow> bool" where
  started: "ready h \<Longrightarrow> served 0 h"
| packet: "served k h \<Longrightarrow> serve env h pkt = Some (r, h') \<Longrightarrow> served (Suc k) h'"
| exchanged: "served k h \<Longrightarrow> served k (change_card held cd h)"

lemma change_card_sound: "sound k (change_card held cd h) = sound k h"
  by (simp add: change_card_def sound_def phase_def Let_def)

lemma ready_sound: "ready h \<Longrightarrow> sound 0 h"
  by (auto simp: ready_def sound_def phase_def books_def intro!: exI [of _ "[]"])

lemma served_sound: "served k h \<Longrightarrow> k \<le> 2 ^ 32 \<Longrightarrow> sound k h"
proof (induction rule: served.induct)
  case (packet k h env pkt r h')
  then show ?case using serve_sound [OF packet(2)] by auto
qed (simp_all add: ready_sound change_card_sound)

text \<open>
  C6: the handler knows what is open.  However it came about, by up to \<open>2 ^ 32\<close> packets of any kinds and in any order with any arguments and by any
  exchanges of the card, the number of locks and the number of files are those that are allocated; the list of locks at the volume is
  not cyclic and has exactly the allocated locks in it; a volume that is not mounted has no lock and no file left and no entry in
  the DOS list; and the volume is unmounted only while the handler is inhibited, and then not before the last lock and the last file are gone.
\<close>

theorem handler_accounts:
  assumes "served k h" "k < 2 ^ 32"
  shows "unat (hd_nlocks h) = card (dom (hd_locks h)) \<and> unat (hd_nfiles h) = card (dom (hd_files h)) \<and>
    (case hd_volume h of
       None \<Rightarrow> True
     | Some v \<Rightarrow> \<exists>ls. distinct ls \<and> set ls = dom (hd_locks h) \<and> chained (hd_locks h) (dl_lock_list v) ls) \<and>
    (if hd_mounted h then hd_inhibited h \<longrightarrow> dom (hd_locks h) \<union> dom (hd_files h) \<noteq> {}
     else hd_inhibited h \<and> hd_volume h = None \<and> dom (hd_locks h) = {} \<and> dom (hd_files h) = {})"
proof -
  have s: "books k h" "phase h" using served_sound [OF assms(1)] assms(2) by (simp_all add: sound_def)
  then have "card (dom (hd_locks h)) + card (dom (hd_files h)) < 2 ^ 32" using assms(2) by (simp add: books_def)
  then have "unat (hd_nlocks h) = card (dom (hd_locks h)) \<and> unat (hd_nfiles h) = card (dom (hd_files h))"
    using s(1) by (simp add: books_def unat_of_nat)
  moreover have "hd_mounted h \<and> hd_inhibited h \<Longrightarrow> dom (hd_locks h) \<union> dom (hd_files h) \<noteq> {}"
    using s by (auto simp: books_def phase_def)
  ultimately show ?thesis using s by (auto simp: books_def phase_def split: option.split)
qed

end
