(* ===== verification/SampleHandler.thy ===== *)
theory SampleHandler
  imports SampleTree Eject Paths Accounts
begin

text \<open>Instances of the properties of the handler.\<close>

section \<open>A handler\<close>

definition sample_env :: environ where
  "sample_env = \<lparr>en_alloc = True, en_make_entry = True, en_attempt_lock = True, en_stamp = None, en_upcase = [0]\<rparr>"

definition sample_card :: card where
  "sample_card = \<lparr>cd_data = (\<lambda>_. 9), cd_bad_read = (\<lambda>_ _. False), cd_bad_write = (\<lambda>_ _. False), cd_sync_ok = True, cd_present = True,
     cd_protected = False\<rparr>"

text \<open>The tree of cached directories is mounted, and nothing is open.\<close>

definition sample_handler :: ExfatHandler where
  "sample_handler = \<lparr>hd_volume = Some \<lparr>dl_task = True, dl_lock_list = None, dl_name = [1, 0x58]\<rparr>, hd_volname = None, hd_volname_orig = None,
     hd_spec = \<lparr>sp_blocksize = 512, sp_maxtransfer = 0x1fe00, sp_mask = 0xffffffff, sp_firstbyte = 0, sp_length = 5120\<rparr>, hd_lowcyl = 0,
     hd_envec = \<lparr>de_SizeBlock = 128, de_Surfaces = 1, de_BlocksPerTrack = 1, de_LowCyl = 0, de_HighCyl = 9, de_MaxTransfer = 0x1fe00,
                 de_Mask = 0xffffffff\<rparr>,
     hd_ef = tree_ef, hd_mounted = True, hd_inhibited = False, hd_quit = False, hd_nlocks = 0, hd_nfiles = 0, hd_locks = Map.empty,
     hd_files = Map.empty, hd_fresh = 0, hd_card = sample_card, hd_held = None\<rparr>"

lemma sample_handler_fields [simp]:
  "hd_ef sample_handler = tree_ef" "hd_mounted sample_handler" "\<not> hd_inhibited sample_handler" "hd_fresh sample_handler = 0"
  "hd_nlocks sample_handler = 0" "hd_nfiles sample_handler = 0" "hd_locks sample_handler = Map.empty" "hd_files sample_handler = Map.empty"
  "hd_volume sample_handler = Some \<lparr>dl_task = True, dl_lock_list = None, dl_name = [1, 0x58]\<rparr>" "\<not> hd_quit sample_handler"
  by (simp_all add: sample_handler_def)

section \<open>Locating \<^verbatim>\<open>X:A/C\<close>\<close>

definition sample_path :: "u8 list" where
  "sample_path = [5, 0x58, 0x3a, 0x41, 0x2f, 0x43]"

lemma sample_path_text: "exfat_amiga_bstr_to_utf8 sample_path (int MAX_PATH_UTF8) = Some [0x58, 0x3a, 0x41, 0x2f, 0x43]"
  by code_simp

lemma sample_path_steps: "follow [] (amiga_steps (after_colon [0x58, 0x3a, 0x41, 0x2f, 0x43])) = [[0x41], [0x43]]"
  by (simp add: after_colon_def)

lemma sample_locate_ok:
  "cached_tree (hd_ef sample_handler) tree_kids" "ef_root (hd_ef sample_handler) \<in> dom (ef_nodes (hd_ef sample_handler))"
  "start_comps sample_handler None [0x58, 0x3a, 0x41, 0x2f, 0x43] = Some []" "list_all component []"
  "length (joined []) + length [0x58 :: u8, 0x3a, 0x41, 0x2f, 0x43] + 2 \<le> MAX_PATH_UTF8"
  by (simp_all add: tree_cached start_comps_def MAX_PATH_UTF8_def name_consts)

theorem locate_object_witness:
  "do_locate_object sample_env sample_handler None sample_path = Some (ReplyLock 0, new_lock sample_handler 3 SHARED_LOCK)"
  using tree_names tree_find
  by (simp add: locate_object_correct [OF sample_locate_ok(1,2) sample_path_text sample_locate_ok(3-5)] sample_path_steps name_consts tree_kids_def
      sample_env_def)

section \<open>Two locks on the root\<close>

lemma copy_root:
  assumes "ef_nodes (hd_ef h) (ef_root (hd_ef h)) = Some n" "\<not> hd_inhibited h"
  shows "\<exists>r h'. serve sample_env h (ACTION_COPY_DIR None) = Some (r, h') \<and> hd_nlocks h' = hd_nlocks h + 1 \<and> \<not> hd_inhibited h' \<and> hd_mounted h' = hd_mounted h \<and>
    hd_quit h' = hd_quit h \<and> ef_nodes (hd_ef h') (ef_root (hd_ef h')) \<noteq> None"
  using assms
  by (cases "hd_volume h") (auto simp: serve_def do_copy_dir_def lock_node_def lock_reply_def exfat_amiga_makelock_def exfat_get_node_def upd_node_def
      sample_env_def set_lock_def set_node_def Let_def)

theorem handler_accounts_witness:
  "\<exists>h. served 2 h \<and> hd_mounted h \<and> hd_nlocks h = 2 \<and> card (dom (hd_locks h)) = 2"
proof -
  have "served 0 sample_handler" by (rule served.started) (simp add: ready_def)
  moreover obtain r h where h: "serve sample_env sample_handler (ACTION_COPY_DIR None) = Some (r, h)" "hd_nlocks h = 1" "\<not> hd_inhibited h" "hd_mounted h"
    "ef_nodes (hd_ef h) (ef_root (hd_ef h)) \<noteq> None"
    using copy_root [of sample_handler tree_root] by auto
  moreover obtain r' h' where h': "serve sample_env h (ACTION_COPY_DIR None) = Some (r', h')" "hd_nlocks h' = 1 + 1" "hd_mounted h'"
    using copy_root [of h] h(2-5) by auto
  ultimately have s: "served 2 h'" using served.packet numeral_2_eq_2 by metis
  then show ?thesis using handler_accounts [OF s] h'(2,3) by auto
qed

text \<open>A packet that has arrived together with the one that ends the handler is still served: here a lock is given out that nobody will serve.\<close>

lemma die_then_lock:
  "\<exists>h'. serve_all sample_handler [(sample_env, ACTION_DIE), (sample_env, ACTION_COPY_DIR None)] = Some h' \<and> hd_quit h' \<and> hd_nlocks h' = 1"
proof -
  let ?h = "sample_handler\<lparr>hd_quit := True\<rparr>"
  have "serve sample_env sample_handler ACTION_DIE = Some (Reply DOSTRUE NO_ERROR, ?h)" by (simp add: serve_def do_die_def)
  moreover obtain r h where "serve sample_env ?h (ACTION_COPY_DIR None) = Some (r, h)" "hd_nlocks h = 1" "hd_quit h"
    using copy_root [of ?h tree_root] by auto
  ultimately show ?thesis by simp
qed

section \<open>Another card\<close>

text \<open>The file \<^verbatim>\<open>b\<close> is the only child of the root, and it is open.\<close>

definition open_nodes :: "int \<Rightarrow> int \<Rightarrow> addr \<Rightarrow> exfat_node option" where
  "open_nodes r b = [0 \<mapsto> tree_root\<lparr>n_child := Some 2, n_is_dirty := False, n_references := r\<rparr>,
     2 \<mapsto> tree_b\<lparr>n_prev := None, n_is_dirty := False, n_references := b\<rparr>]"

definition open_ef :: exfat where
  "open_ef = sample_ef\<lparr>ef_nodes := open_nodes 1 1, ef_ro := 1\<rparr>"

definition open_handler :: ExfatHandler where
  "open_handler = sample_handler\<lparr>hd_ef := open_ef, hd_files := [0 \<mapsto> \<lparr>fi_node = 2, fi_pos = 0, fi_writable = False\<rparr>], hd_nfiles := 1, hd_fresh := 1\<rparr>"

definition parked_handler :: ExfatHandler where
  "parked_handler = open_handler\<lparr>hd_volume := Some \<lparr>dl_task = False, dl_lock_list = None, dl_name = [1, 0x58]\<rparr>, hd_inhibited := True\<rparr>"

lemma open_inhibit: "inhibit_on open_handler = Some parked_handler" "hd_mounted open_handler" "\<not> hd_quit open_handler"
  by (simp_all add: inhibit_on_def park_def open_handler_def parked_handler_def open_ef_def sample_handler_def)

text \<open>The device still has the boot sector of the old card in memory.\<close>

definition sample_held :: "(u64 \<times> u8 list) option" where
  "sample_held = Some (0, bytes_of_sb sample_sb)"

lemma no_exfat_name: "\<not> volume_matches sb (replicate 512 9)"
proof -
  have "sb_oem_name (sb_of_bytes (replicate 512 9)) \<noteq> EXFAT_NAME" by (simp add: sb_of_bytes_def EXFAT_NAME_def seg_def) code_simp
  then show ?thesis by (simp add: volume_matches_def Let_def)
qed

lemma sample_direct: "boot_direct (hd_spec sample_handler)"
  by (simp add: boot_direct_def sample_handler_def)

lemma foreign_read:
  assumes e: "ef_dev ef = sample_dev\<lparr>dev_data := (\<lambda>_. 9)\<rparr>" "hd_ef h = ef" "hd_spec h = hd_spec sample_handler"
  shows "\<not> same_volume h"
proof -
  have "exfat_pread (ef_dev ef) (garbage ef 512) 512 (int 0) = (int 512, map (dev_data (ef_dev ef)) [0..<0 + 512])"
    by (rule exfat_pread_full) (simp_all add: garbage_def dev_readable_def e(1) sample_dev_def)
  then have r: "exfat_pread (ef_dev ef) (garbage ef 512) 512 0 = (512, replicate 512 9)" by (simp add: e(1) map_replicate_const)
  have "boot_direct (hd_spec h)" using e(3) sample_direct by simp
  then show ?thesis using e(2) r no_exfat_name by (simp add: same_volume_def read_boot_sector_direct)
qed

lemma b_leaf: "n_child tree_b = None" "n_next tree_b = None" "n_parent tree_b = Some 0"
  by (simp_all add: tree_b_def zero_node_def)

lemma clean_upd: "ef_nodes ef a = Some n \<Longrightarrow> \<not> n_is_dirty n \<Longrightarrow> upd_node ef a (\<lambda>n. n\<lparr>n_is_dirty := False\<rparr>) = Some ef"
proof -
  assume n: "ef_nodes ef a = Some n" "\<not> n_is_dirty n"
  have "n\<lparr>n_is_dirty := False\<rparr> = n" using n(2) by simp
  then show ?thesis using n(1) by (simp add: upd_node_def set_node_def map_upd_triv)
qed

lemma open_discard:
  assumes "ef_nodes ef = open_nodes 1 0" "ef_root ef = 0"
  shows "discard_dirty_nodes ef (ef_root ef) = Some ef"
proof -
  have w: "discard_walk ef None = Some ef" for ef by (subst discard_walk.simps) simp
  have u: "upd_node ef a (\<lambda>n. n\<lparr>n_is_dirty := False\<rparr>) = Some ef" if "a = 0 \<or> a = 2" for a
    by (rule clean_upd [where n = "the (open_nodes 1 0 a)"]) (use that assms in \<open>auto simp: open_nodes_def\<close>)
  show ?thesis
    unfolding discard_dirty_nodes_def using assms(2) u [of 0] u [of 2] assms(1) b_leaf w
    by (simp add: open_nodes_def) (subst discard_walk.simps, simp)
qed

lemma open_reset:
  assumes "ef_nodes ef = open_nodes 0 0" "ef_root ef = 0"
  shows "\<exists>e. exfat_reset_cache ef = Some e"
  using assms unfolding exfat_reset_cache_def
  apply (subst reset_cache.simps, simp add: open_nodes_def)
  apply (subst reset_cache.simps, simp add: b_leaf reset_node_def upd_node_def set_node_def tree_detach_def)
  apply (subst reset_cache.simps, simp add: reset_node_def upd_node_def set_node_def tree_detach_def free_node_def)
  done

lemma open_unmount:
  assumes "ef_nodes ef = open_nodes 1 0" "ef_root ef = 0" "ef_ro ef = 1" "\<not> cm_dirty (ef_cmap ef)"
  shows "\<exists>dev. exfat_unmount ef = Some dev"
proof -
  have f: "exfat_flush_nodes ef = Some (0, ef)"
    by (rule discard_calms(2) [OF open_discard [OF assms(1,2)]]) simp_all
  let ?e = "ef\<lparr>ef_nodes := open_nodes 0 0\<rparr>"
  have p: "exfat_put_node ef 0 = Some ?e"
    using assms(1,2) by (auto simp: exfat_put_node_def set_node_def open_nodes_def fun_upd_twist)
  obtain e where "exfat_reset_cache ?e = Some e" using open_reset [of ?e] assms(2) by auto
  then show ?thesis using f p assms(2,4) by (simp add: exfat_unmount_def exfat_flush_def)
qed

lemma open_release:
  assumes "hd_mounted h" "ef_nodes (hd_ef h) = open_nodes 1 0" "ef_root (hd_ef h) = 0" "ef_dev (hd_ef h) = sample_dev\<lparr>dev_data := (\<lambda>_. 9)\<rparr>"
    "hd_spec h = hd_spec sample_handler"
  shows "\<exists>ef cd. release_mount h = Some (h\<lparr>hd_ef := ef, hd_mounted := False, hd_card := cd\<rparr>)"
proof -
  have d: "discard_dirty_nodes (hd_ef h) (ef_root (hd_ef h)) = Some (hd_ef h)" by (rule open_discard [OF assms(2,3)])
  let ?ef = "hd_ef h\<lparr>ef_cmap := (ef_cmap (hd_ef h))\<lparr>cm_dirty := False\<rparr>, ef_ro := 1\<rparr>"
  obtain dev where "exfat_unmount ?ef = Some dev" using open_unmount [of ?ef] assms(2,3) by auto
  then have "release_mount h = Some (h\<lparr>hd_ef := ?ef, hd_mounted := False, hd_card := written_back (hd_card h) (hd_spec h) dev\<rparr>)"
    using assms(1) d foreign_read [OF assms(4) refl assms(5)] by (simp add: release_mount_def discard_dirty_state_def unmount_fs_def)
  then show ?thesis by blast
qed

lemma other_fields:
  fixes h defines "h \<equiv> change_card sample_held sample_card parked_handler"
  shows "ef_nodes (hd_ef h) = open_nodes 1 1" "ef_root (hd_ef h) = 0" "ef_ro (hd_ef h) = 1" "ef_dev (hd_ef h) = sample_dev\<lparr>dev_data := (\<lambda>_. 9)\<rparr>"
    "hd_mounted h" "hd_inhibited h" "hd_nlocks h = 0" "hd_nfiles h = 1" "hd_files h = [0 \<mapsto> \<lparr>fi_node = 2, fi_pos = 0, fi_writable = False\<rparr>]" "hd_spec h = hd_spec sample_handler"
  unfolding h_def
  by (simp_all add: change_card_def parked_handler_def open_handler_def open_ef_def extent_node_def Let_def sample_handler_def sample_card_def sample_ef_def sample_dev_def)

lemma remove_volume_fields:
  "hd_ef (remove_volume h) = hd_ef h" "hd_mounted (remove_volume h) = hd_mounted h" "hd_nlocks (remove_volume h) = hd_nlocks h"
  "hd_nfiles (remove_volume h) = hd_nfiles h" "hd_spec (remove_volume h) = hd_spec h" "hd_inhibited (remove_volume h) = hd_inhibited h"
  by (simp_all add: remove_volume_def)

text \<open>With the other card in the slot the file is closed, with which the volume is released, and then the handler is told to end.\<close>

lemma other_served:
  "\<exists>h'. serve_all (change_card sample_held sample_card parked_handler) [(sample_env, ACTION_END (Some 0)), (sample_env, ACTION_DIE)] = Some h' \<and> hd_quit h'"
proof -
  let ?h = "change_card sample_held sample_card parked_handler"
  let ?e = "hd_ef ?h\<lparr>ef_nodes := open_nodes 1 0\<rparr>"
  have p: "exfat_put_node (hd_ef ?h) 2 = Some ?e"
    by (simp add: exfat_put_node_def other_fields set_node_def open_nodes_def)
  let ?h1 = "?h\<lparr>hd_ef := ?e, hd_files := Map.empty, hd_nfiles := 0\<rparr>"
  have e: "do_end ?h (Some 0) = Some (reply_err NO_ERROR, ?h1)" using p by (simp add: do_end_def other_fields)
  obtain ef cd where r: "release_mount (remove_volume ?h1) = Some ((remove_volume ?h1)\<lparr>hd_ef := ef, hd_mounted := False, hd_card := cd\<rparr>)"
    using open_release [of "remove_volume ?h1"] by (auto simp: remove_volume_fields other_fields)
  show ?thesis using e r by (simp add: serve_def release_if_idle_def do_die_def remove_volume_fields other_fields)
qed

theorem foreign_card_witness:
  "\<exists>h' h''. serve_all (change_card sample_held sample_card parked_handler) [(sample_env, ACTION_END (Some 0)), (sample_env, ACTION_DIE)] = Some h' \<and>
     slot_bytes h' = cd_data sample_card \<and> shut_down h' = Some h'' \<and> slot_bytes h'' = cd_data sample_card"
proof -
  obtain h' where h': "serve_all (change_card sample_held sample_card parked_handler) [(sample_env, ACTION_END (Some 0)), (sample_env, ACTION_DIE)] = Some h'" "hd_quit h'"
    using other_served by blast
  have "hd_spec parked_handler = hd_spec sample_handler" by (simp add: parked_handler_def open_handler_def)
  then have "boot_direct (hd_spec parked_handler)" "\<not> is_volume (ef_sb (hd_ef parked_handler)) (hd_spec parked_handler) sample_card"
    using sample_direct no_exfat_name by (simp_all add: is_volume_def sample_card_def map_replicate_const)
  then show ?thesis using foreign_card_untouched [OF open_inhibit _ _ h'(1)] h' by auto
qed

end
