(* ===== verification/Scan.thy ===== *)
theory Scan
  imports Paths
begin

text \<open>
  Examining objects and scanning directories: the name that is shown for a node, and the answers to a sequence of requests for the next entry.
\<close>

section \<open>Names as they are shown\<close>

text \<open>The characters of a name.\<close>

function wchars :: "u16 list \<Rightarrow> u32 list" where
  "wchars [] = []"
| "wchars (u # us) =
     (case utf16_to_wchar (u # us) of None \<Rightarrow> [] | Some (wc, rest) \<Rightarrow> if wc = 0 then [] else wc # wchars rest)"
  by pat_completeness auto
termination
  by (relation "measure length") (auto dest: utf16_to_wchar_shorter)

definition shown :: "u32 \<Rightarrow> u8" where
  "shown c = (if c < 0x100 then ucast c else 0x3f)"

text \<open>The decoder of the handler agrees with the one of the library where that one succeeds, for sequences of up to four bytes.\<close>

lemma u8_tests:
  fixes b :: u8
  shows "(ucast b :: u32) < 0x80 \<longleftrightarrow> b AND 0x80 = 0" "(ucast b :: u32) AND 0xe0 = 0xc0 \<longleftrightarrow> b AND 0xe0 = 0xc0"
    "(ucast b :: u32) AND 0xf0 = 0xe0 \<longleftrightarrow> b AND 0xf0 = 0xe0" "(ucast b :: u32) AND 0xf8 = 0xf0 \<longleftrightarrow> b AND 0xf8 = 0xf0"
    "(ucast (b AND 0x3f) :: u32) = ucast b AND 0x3f"
proof -
  have e: "(ucast x :: u32) = ucast y \<longleftrightarrow> x = y" for x y :: u8
  proof -
    have "(ucast (ucast x :: u32) :: u8) = x" for x :: u8 by (rule bit_word_eqI) (auto simp: bit_simps)
    then show ?thesis by metis
  qed
  have a: "(ucast (b AND m) :: u32) = ucast b AND ucast m" for m by (simp add: unsigned_and_eq)
  show "(ucast b :: u32) AND 0xe0 = 0xc0 \<longleftrightarrow> b AND 0xe0 = 0xc0" "(ucast b :: u32) AND 0xf0 = 0xe0 \<longleftrightarrow> b AND 0xf0 = 0xe0"
    "(ucast b :: u32) AND 0xf8 = 0xf0 \<longleftrightarrow> b AND 0xf8 = 0xf0"
    using e [of "b AND 0xe0" "0xc0"] e [of "b AND 0xf0" "0xe0"] e [of "b AND 0xf8" "0xf0"] a by simp_all
  show "(ucast (b AND 0x3f) :: u32) = ucast b AND 0x3f" using a [of "0x3f"] by simp
  have "unat b < 2 ^ 8" using unsigned_less [of b] by simp
  then have "unat (ucast b :: u32) = unat b" by (simp add: unsigned_ucast_eq take_bit_nat_eq_self_iff)
  then have "(ucast b :: u32) < 0x80 \<longleftrightarrow> unat b < 2 ^ 7" by (simp add: word_less_nat_alt)
  also have "\<dots> \<longleftrightarrow> b AND 0x80 = 0"
  proof
    assume "unat b < 2 ^ 7"
    then have "\<not> bit b 7" using bits_below by blast
    then show "b AND 0x80 = 0" by (intro u8_eqI) (auto simp: bit_simps)
  next
    assume z: "b AND 0x80 = 0"
    have "\<not> bit b 7"
    proof
      assume "bit b 7"
      then have "bit (b AND 0x80) 7" by (simp add: bit_simps)
      then show False using z by simp
    qed
    then have "take_bit 7 b = b" by (intro bit_word_eqI) (auto simp: bit_simps less_Suc_eq numeral_eq_Suc)
    then show "unat b < 2 ^ 7" by (metis take_bit_nat_less_exp unsigned_take_bit_eq)
  qed
  finally show "(ucast b :: u32) < 0x80 \<longleftrightarrow> b AND 0x80 = 0" .
qed

lemma utf8_next_agrees:
  assumes "utf8_to_wchar (b # bs) = Some (wc, rest)" "b AND 0x80 = 0 \<or> b AND 0xe0 = 0xc0 \<or> b AND 0xf0 = 0xe0 \<or> b AND 0xf8 = 0xf0"
  shows "utf8_next (b # bs) = Some (wc, rest)"
proof (cases "b AND 0x80 = 0 \<or> b AND 0xe0 = 0xc0")
  case True
  then show ?thesis
    using assms(1) by (cases bs) (auto simp: utf8_to_wchar_def utf8_next_def utf8_multi_def next_byte_def u8_tests Let_def numeral_2_eq_2 split: if_splits)
next
  case False
  then show ?thesis
  proof (cases "b AND 0xf0 = 0xe0")
    case t: True
    then obtain x y r where bs: "bs = x # y # r" using assms(1) False
      by (cases bs; cases "tl bs") (auto simp: utf8_to_wchar_def utf8_multi_def Let_def)
    show ?thesis
      using assms(1) False t unfolding bs
      by (auto simp: utf8_to_wchar_def utf8_next_def utf8_multi_def next_byte_def u8_tests Let_def numeral_2_eq_2 numeral_3_eq_3 or.assoc split: if_splits)
  next
    case f: False
    then have t: "b AND 0xf8 = 0xf0" using assms(2) False by blast
    then obtain x y z r where bs: "bs = x # y # z # r" using assms(1) False f
      by (cases bs; cases "tl bs"; cases "tl (tl bs)") (auto simp: utf8_to_wchar_def utf8_multi_def Let_def)
    show ?thesis
      using assms(1) False t f unfolding bs
      by (auto simp: utf8_to_wchar_def utf8_next_def utf8_multi_def next_byte_def u8_tests Let_def numeral_2_eq_2 numeral_3_eq_3 or.assoc split: if_splits)
  qed
qed

lemma encoded_lead:
  assumes "wchar_to_utf8 wc n = Some bytes" "unat wc < 0x110000"
  shows "\<exists>b bs. bytes = b # bs \<and> (b AND 0x80 = 0 \<or> b AND 0xe0 = 0xc0 \<or> b AND 0xf0 = 0xe0 \<or> b AND 0xf8 = 0xf0)"
proof -
  consider "unat wc < 2 ^ 7" | "\<not> unat wc < 2 ^ 7" "unat wc < 2 ^ (6 + 5)"
    | "\<not> unat wc < 2 ^ (6 + 5)" "unat wc < 2 ^ (12 + 4)" | "\<not> unat wc < 2 ^ (12 + 4)" "unat wc < 2 ^ (18 + 3)"
    using assms(2) by fastforce
  then show ?thesis
  proof cases
    case 1
    then show ?thesis using assms(1) lead1 [OF 1] by (auto simp: wchar_to_utf8_def word_le_nat_alt split: if_splits)
  next
    case 2
    then show ?thesis using assms(1) lead2 [OF shift_bound [OF 2(2)]] by (auto simp: wchar_to_utf8_def word_le_nat_alt split: if_splits)
  next
    case 3
    then show ?thesis using assms(1) lead3 [OF shift_bound [OF 3(2)]] by (auto simp: wchar_to_utf8_def word_le_nat_alt split: if_splits)
  next
    case 4
    then show ?thesis using assms(1) lead4 [OF shift_bound [OF 4(2)]] by (auto simp: wchar_to_utf8_def word_le_nat_alt split: if_splits)
  qed
qed

lemma utf8_next_encoded:
  assumes "wchar_to_utf8 wc n = Some bytes" "unat wc < 0x110000"
  shows "utf8_next (bytes @ rest) = Some (wc, rest)"
proof -
  obtain b bs where b: "bytes = b # bs" "b AND 0x80 = 0 \<or> b AND 0xe0 = 0xc0 \<or> b AND 0xf0 = 0xe0 \<or> b AND 0xf8 = 0xf0"
    using encoded_lead [OF assms] by blast
  then show ?thesis using utf8_next_agrees [of b "bs @ rest" wc rest] utf8_wchar_roundtrip [OF assms(1), of rest] by simp
qed

text \<open>So a name comes out as its characters, cut to the length of the field.\<close>

lemma name_shown:
  "utf16_to_utf8_loop us left = (0, out) \<Longrightarrow>
     name_to_bstr_loop (takeWhile (\<lambda>b. b \<noteq> 0) out) m = Some (take m (map shown (wchars us)))"
proof (induction us left arbitrary: out m rule: utf16_to_utf8_loop.induct)
  case (1 left)
  then show ?case by (subst name_to_bstr_loop.simps) (auto split: if_splits)
next
  case (2 u us left)
  obtain wc rest where d: "utf16_to_wchar (u # us) = Some (wc, rest)" using 2(2) by (auto split: option.splits)
  obtain bytes where b: "wchar_to_utf8 wc left = Some bytes" using 2(2) d by (auto split: option.splits)
  have lt: "unat wc < 0x110000" using utf16_wchar_roundtrip [OF d] by metis
  show ?case
  proof (cases "wc = 0")
    case True
    then have "bytes = [0]" using b by (auto simp: wchar_to_utf8_def split: if_splits)
    then show ?thesis using 2(2) d b True by (subst name_to_bstr_loop.simps) auto
  next
    case False
    obtain out' where o: "out = bytes @ out'" "utf16_to_utf8_loop rest (left - length bytes) = (0, out')"
      using 2(2) d b False by (auto simp: Let_def split: prod.splits)
    have "takeWhile (\<lambda>b. b \<noteq> 0) out = bytes @ takeWhile (\<lambda>b. b \<noteq> 0) out'"
      using utf8_no_zero [OF b False] o(1) by (metis (mono_tags, lifting) takeWhile_append2)
    moreover have "bytes \<noteq> []" using length_wchar_to_utf8 [OF b] by auto
    moreover have "name_to_bstr_loop (takeWhile (\<lambda>b. b \<noteq> 0) out') (m - 1) = Some (take (m - 1) (map shown (wchars rest)))"
      by (rule 2(1) [OF d refl b False o(2)])
    ultimately show ?thesis
      using utf8_next_encoded [OF b lt, of "takeWhile (\<lambda>b. b \<noteq> 0) out'"] d False
      by (subst name_to_bstr_loop.simps) (cases m, auto simp: shown_def)
  qed
qed

definition shown_name :: "exfat_node \<Rightarrow> u8 list" where
  "shown_name n = (if name_is_sane n then take 106 (map shown (wchars (take EXFAT_NAME_MAX (n_name n)))) else BAD_NAME)"

text \<open>The description of a node that is not the root.\<close>

definition child_fib :: "exfat \<Rightarrow> exfat_node \<Rightarrow> int \<Rightarrow> FileInfoBlock" where
  "child_fib ef n key =
     \<lparr>fib_DiskKey = key, fib_DirEntryType = (if is_dir n then ST_USERDIR else ST_FILE),
      fib_FileName = of_nat (length (shown_name n)) # shown_name n,
      fib_Protection =
        (if ef_ro ef \<noteq> 0 \<or> n_attrib n AND EXFAT_ATTRIB_RO \<noteq> 0 then FIBF_WRITE OR FIBF_DELETE else 0) OR
        (if n_attrib n AND EXFAT_ATTRIB_ARCH \<noteq> 0 then FIBF_ARCHIVE else 0),
      fib_Size = (if is_dir n then 0 else min 0x7fffffff (uint (n_size n))),
      fib_NumBlocks = (if is_dir n then 0 else c_int (uint ((n_size n + of_nat (CLUSTER_SIZE (ef_sb ef)) - 1) div of_nat (CLUSTER_SIZE (ef_sb ef))))),
      fib_Date = exfat_amiga_time_to_datestamp (n_mtime n)\<rparr>"

lemma bad_name_shown: "exfat_amiga_name_to_bstr BAD_NAME 106 = Some (of_nat (length BAD_NAME) # BAD_NAME)"
  by code_simp

lemma safe_name_shown:
  "\<exists>nm. safe_get_name n = Some nm \<and> exfat_amiga_name_to_bstr nm 106 = Some (of_nat (length (shown_name n)) # shown_name n)"
proof (cases "name_is_sane n")
  case True
  let ?us = "take EXFAT_NAME_MAX (n_name n)"
  have "fst (utf16_to_utf8_loop ?us EXFAT_UTF8_NAME_BUFFER_MAX) = 0"
    using utf16_to_utf8_loop_adequate [of ?us EXFAT_UTF8_NAME_BUFFER_MAX] sane_paired True by (simp add: name_is_sane_def name_consts)
  then obtain out where o: "utf16_to_utf8_loop ?us EXFAT_UTF8_NAME_BUFFER_MAX = (0, out)" by (metis prod.collapse)
  then show ?thesis
    using True name_shown [OF o, of 106] by (simp add: safe_get_name_def exfat_get_name_def exfat_utf16_to_utf8_def exfat_amiga_name_to_bstr_def shown_name_def)
next
  case False
  then show ?thesis using bad_name_shown by (simp add: safe_get_name_def shown_name_def)
qed

lemma fill_fib_child: "fill_fib ef n key False = Some (child_fib ef n key)"
proof -
  obtain nm where "safe_get_name n = Some nm" "exfat_amiga_name_to_bstr nm 106 = Some (of_nat (length (shown_name n)) # shown_name n)"
    using safe_name_shown by blast
  moreover have "(if 0x7fffffff < n_size n then 0x7fffffff else uint (n_size n)) = min 0x7fffffff (uint (n_size n))"
    by (auto simp: word_less_def min_def)
  ultimately show ?thesis by (simp add: fill_fib_def child_fib_def Let_def)
qed

lemma child_fib_pin [simp]:
  "child_fib (pin ef a) n key = child_fib ef n key" "child_fib ef (n\<lparr>n_references := r\<rparr>) key = child_fib ef n key"
  by (simp_all add: child_fib_def shown_name_def name_is_sane_def is_dir_def pin_def)

section \<open>The loop over the entries\<close>

lemma child_next:
  assumes "children ef d xs" "i < length xs"
  obtains n where "ef_nodes ef (xs ! i) = Some n" "n_next n = next_at xs i"
  using assms by (auto simp: children_def linked_def)

definition scanned :: "ExfatHandler \<Rightarrow> addr \<Rightarrow> ExfatLock \<Rightarrow> addr list \<Rightarrow> int \<Rightarrow> reply \<times> ExfatHandler" where
  "scanned h l lk xs want =
     (if 0 \<le> want \<and> want < int (length xs)
      then (ReplyFib (child_fib (hd_ef h) (the (ef_nodes (hd_ef h) (xs ! nat want))) (want + 1)),
            set_lock h l (lk\<lparr>lk_scan_next := next_at xs (nat want), lk_scan_index := want + 1\<rparr>))
      else (Reply DOSFALSE ERROR_NO_MORE_ENTRIES, set_lock h l (lk\<lparr>lk_scan_next := None, lk_scan_index := - 1\<rparr>)))"

lemma examine_loop_correct:
  assumes tree: "cached_tree (hd_ef h) kids" and d: "kids d = Some xs" "ef_nodes (hd_ef h) d = Some dn" and lk: "hd_locks h l = Some lk"
    and "length xs < 2 ^ 31" "i \<le> length xs" "int i \<le> want \<or> want < 0"
  shows "examine_loop (h\<lparr>hd_ef := pin (hd_ef h) d\<rparr>) (Some l) \<lparr>it_parent = Some d, it_current = current_at xs i\<rparr> (int i) want =
    Some (scanned h l lk xs want)"
  using assms(6,7)
proof (induction "length xs - i" arbitrary: i)
  case 0
  let ?ef = "hd_ef h"
  have i: "i = length xs" using 0 by simp
  have ch: "children ?ef d xs" "quiet dn" using tree_dir [OF tree d(2,1)] tree_node [OF tree d(2)] by auto
  show ?case
    using readdir_end [of "pin ?ef d" d xs] ch(1) put_node_pin [OF d(2) ch(2)] lk 0(3)
    by (subst examine_loop.simps) (auto simp: i exfat_closedir_def note_scan_def scanned_def set_lock_def)
next
  case (Suc k)
  let ?ef = "hd_ef h"
  have i: "i < length xs" using Suc(2) by simp
  have ch: "children ?ef d xs" "quiet dn" using tree_dir [OF tree d(2,1)] tree_node [OF tree d(2)] by auto
  define a where "a = xs ! i"
  have ne: "a \<noteq> d" using ch(1) i by (auto simp: children_def a_def)
  obtain n where n: "ef_nodes ?ef a = Some n" "n_next n = next_at xs i" using child_next [OF ch(1) i] unfolding a_def .
  then have q: "quiet n" using tree_node [OF tree] by auto
  have rd: "exfat_readdir (pin ?ef d) \<lparr>it_parent = Some d, it_current = current_at xs i\<rparr> =
    Some (Some a, \<lparr>it_parent = Some d, it_current = current_at xs (Suc i)\<rparr>, pin (pin ?ef d) a)"
    using readdir_at [of "pin ?ef d" d xs i] ch(1) i by (simp add: a_def)
  have nd: "ef_nodes (pin (pin ?ef d) a) a = Some (n\<lparr>n_references := n_references n + 1\<rparr>)" using n(1) ne by (simp add: pin_node)
  have putd: "exfat_put_node (pin ?ef d) d = Some ?ef" by (rule put_node_pin [OF d(2) ch(2)])
  have puta: "exfat_put_node (pin (pin ?ef d) a) a = Some (pin ?ef d)"
    using put_node_pin [of "pin ?ef d" a n] ne n(1) q by (simp add: pin_node)
  show ?case
  proof (cases "int i = want")
    case True
    have c: "c_int (want + 1) = want + 1" using True i assms(5) by (intro c_int_id) auto
    show ?thesis
      using rd nd puta putd lk n(2) True i
      by (subst examine_loop.simps) (auto simp: fill_fib_child note_scan_def set_lock_def exfat_closedir_def scanned_def c n(1) simp flip: a_def)
  next
    case False
    have c: "c_int (int i + 1) = int (Suc i)" using i assms(5) by (subst c_int_id) auto
    have "k = length xs - Suc i" "Suc i \<le> length xs" "int (Suc i) \<le> want \<or> want < 0" using Suc(2,4) False i by auto
    note IH = Suc(1) [OF this]
    show ?thesis using False rd puta IH by (subst examine_loop.simps) (simp add: c)
  qed
qed

section \<open>The next entry\<close>

text \<open>The position in a lock is empty, or it is the place of an entry in the directory.\<close>

definition scan_place :: "ExfatLock \<Rightarrow> addr list \<Rightarrow> bool" where
  "scan_place lk xs \<longleftrightarrow>
     (case lk_scan_next lk of
        None \<Rightarrow> True
      | Some a \<Rightarrow> 0 \<le> lk_scan_index lk \<and> lk_scan_index lk < int (length xs) \<and> a = xs ! nat (lk_scan_index lk))"

lemma examine_next_scanned:
  assumes "cached_tree (hd_ef h) kids" "hd_locks h l = Some lk" "ef_nodes (hd_ef h) (lk_node lk) = Some dn" "is_dir dn"
    "kids (lk_node lk) = Some xs" "length xs < 2 ^ 31" "scan_place lk xs"
  shows "do_examine_next h (Some l) want = Some (scanned h l lk xs want)"
proof -
  let ?d = "lk_node lk" and ?ef = "hd_ef h"
  have ch: "children ?ef ?d xs" "n_is_cached dn" using tree_dir [OF assms(1,3,5)] by auto
  show ?thesis
  proof (cases "lk_scan_index lk = want \<and> lk_scan_next lk \<noteq> None")
    case True
    then obtain a where a: "lk_scan_next lk = Some a" "0 \<le> want" "want < int (length xs)" "a = xs ! nat want"
      using assms(7) by (auto simp: scan_place_def)
    then have "nat want < length xs" by linarith
    then obtain n where n: "ef_nodes ?ef a = Some n" "n_next n = next_at xs (nat want)" using child_next [OF ch(1), of "nat want"] a(4) by blast
    have c: "c_int (want + 1) = want + 1" using a(2,3) assms(6) by (intro c_int_id) auto
    show ?thesis
      using True a n assms(2-4) ch(2)
      by (simp add: do_examine_next_def lock_node_def scan_hit_def fill_fib_child note_scan_def c scanned_def)
  next
    case False
    then have hit: "scan_hit h (Some l) dn want = None" using assms(2) by (auto simp: scan_hit_def)
    have pd: "ef_nodes (pin ?ef ?d) ?d = Some (dn\<lparr>n_references := n_references dn + 1\<rparr>)" using assms(3) by (simp add: pin_node)
    have op: "exfat_opendir ?ef ?d = Some (0, \<lparr>it_parent = Some ?d, it_current = current_at xs 0\<rparr>, pin ?ef ?d)"
      using ch(2) pd by (simp add: exfat_opendir_def get_node_pin [OF assms(3)] exfat_cache_directory_def current_at_def Let_def)
    have "examine_loop (h\<lparr>hd_ef := pin ?ef ?d\<rparr>) (Some l) \<lparr>it_parent = Some ?d, it_current = current_at xs 0\<rparr> (int 0) want =
      Some (scanned h l lk xs want)"
      by (rule examine_loop_correct [OF assms(1,5,3,2,6)]) auto
    then show ?thesis using hit op assms(2-4) by (simp add: do_examine_next_def lock_node_def)
  qed
qed

text \<open>A scan: requests for the next entry, each with the key that came with the answer before, until there is no entry left.\<close>

primrec scan :: "nat \<Rightarrow> ExfatHandler \<Rightarrow> addr \<Rightarrow> int \<Rightarrow> (FileInfoBlock list \<times> ExfatHandler) option" where
  "scan 0 h l key = None"
| "scan (Suc k) h l key =
     do {
       (r, h) \<leftarrow> do_examine_next h (Some l) key;
       (case r of
          ReplyFib fib \<Rightarrow> do { (fibs, h) \<leftarrow> scan k h l (fib_DiskKey fib); Some (fib # fibs, h) }
        | _ \<Rightarrow> Some ([], h))
     }"

lemma scan_rest:
  assumes "cached_tree (hd_ef h) kids" "ef_nodes (hd_ef h) (lk_node lk) = Some dn" "is_dir dn" "kids (lk_node lk) = Some xs" "length xs < 2 ^ 31"
    "hd_locks h l = Some lk" "scan_place lk xs" "i \<le> length xs" "length xs - i < k"
  shows "scan k h l (int i) =
    Some (map (\<lambda>j. child_fib (hd_ef h) (the (ef_nodes (hd_ef h) (xs ! j))) (int j + 1)) [i..<length xs],
          set_lock h l (lk\<lparr>lk_scan_next := None, lk_scan_index := - 1\<rparr>))"
  using assms
proof (induction k arbitrary: h lk i)
  case (Suc k)
  note e = examine_next_scanned [OF Suc(2,7,3,4,5,6,8)]
  show ?case
  proof (cases "i = length xs")
    case True
    then show ?thesis using e [of "int i"] by (simp add: scanned_def)
  next
    case False
    then have i: "i < length xs" using Suc(9) by simp
    let ?lk = "lk\<lparr>lk_scan_next := next_at xs i, lk_scan_index := int i + 1\<rparr>"
    let ?h = "set_lock h l ?lk"
    have "scan k ?h l (int (Suc i)) =
      Some (map (\<lambda>j. child_fib (hd_ef ?h) (the (ef_nodes (hd_ef ?h) (xs ! j))) (int j + 1)) [Suc i..<length xs],
            set_lock ?h l (?lk\<lparr>lk_scan_next := None, lk_scan_index := - 1\<rparr>))"
      by (rule Suc.IH) (use Suc(2-6,10) i in \<open>auto simp: set_lock_def scan_place_def next_at_def nat_add_distrib\<close>)
    then show ?thesis using e [of "int i"] i upt_conv_Cons [OF i] by (simp add: scanned_def set_lock_def add.commute child_fib_def)
  qed
qed simp

section \<open>Properties\<close>

text \<open>
  C10: examining never fails on a name.  Whatever the entry on the medium holds, the description of a node is filled in; the name is the characters
  of the node's name, those outside of the 8-bit set replaced by a question mark and cut to the length of the field, or a fixed text if the name is
  not well-formed (where \<^verbatim>\<open>exfat_get_name\<close> would end the process); the size is the largest one that the field can hold
  for files of 2 GB and more.
\<close>

theorem examined_child: "fill_fib ef n key False = Some (child_fib ef n key)"
  by (rule fill_fib_child)

text \<open>
  C8: a scan lists the directory.  After the directory of a lock was examined, requests for the next entry, each with the key of the answer before, are
  answered with every child exactly once and in the order of the directory, and then with the end; the position that is kept in the
  lock is the only thing that has changed, and it is empty again.
\<close>

theorem scan_lists_directory:
  assumes "cached_tree (hd_ef h) kids" "hd_locks h l = Some lk" "ef_nodes (hd_ef h) (lk_node lk) = Some dn" "is_dir dn"
    "kids (lk_node lk) = Some xs" "length xs < 2 ^ 31" "do_examine_object h (Some l) = Some (r, h')" "length xs < k"
  shows "scan k h' l 0 =
    Some (map (\<lambda>j. child_fib (hd_ef h) (the (ef_nodes (hd_ef h) (xs ! j))) (int j + 1)) [0..<length xs],
          set_lock h l (lk\<lparr>lk_scan_next := None, lk_scan_index := - 1\<rparr>))"
proof -
  let ?lk = "lk\<lparr>lk_scan_index := - 1, lk_scan_next := None\<rparr>"
  have h': "h' = set_lock h l ?lk" using assms(2,3,7) by (auto simp: do_examine_object_def lock_node_def bind_eq_Some_conv)
  have "scan k h' l (int 0) =
    Some (map (\<lambda>j. child_fib (hd_ef h') (the (ef_nodes (hd_ef h') (xs ! j))) (int j + 1)) [0..<length xs],
          set_lock h' l (?lk\<lparr>lk_scan_next := None, lk_scan_index := - 1\<rparr>))"
    by (rule scan_rest [where kids = kids and dn = dn]) (use assms h' in \<open>auto simp: set_lock_def scan_place_def\<close>)
  then show ?thesis by (simp add: h' set_lock_def)
qed

text \<open>
  A new entry comes in front of the list.  A scan that had just returned the last entry of the directory goes on by counting, and
  returns that entry once more.
\<close>

lemma scan_repeats_entry:
  assumes "cached_tree (hd_ef h) kids" "hd_locks h l = Some lk" "ef_nodes (hd_ef h) (lk_node lk) = Some dn" "is_dir dn"
    "kids (lk_node lk) = Some (new # xs)" "length xs + 1 < 2 ^ 31" "lk_scan_next lk = None" "lk_scan_index lk = int (length xs)" "xs \<noteq> []"
  shows "\<exists>h'. do_examine_next h (Some l) (int (length xs)) =
    Some (ReplyFib (child_fib (hd_ef h) (the (ef_nodes (hd_ef h) (last xs))) (int (length xs) + 1)), h')"
  using examine_next_scanned [OF assms(1-5), of "int (length xs)"] assms(6,7,9)
  by (simp add: scan_place_def scanned_def last_conv_nth nth_Cons')

end
