(* ===== verification/Streams.thy ===== *)
theory Streams
  imports Handler FileTrace
begin

text \<open>
  An open file as a client of the handler sees it: a sequence of bytes and a position, under the packets that read, write, seek and set the size.
\<close>

section \<open>The specification\<close>

datatype stream_op = SRead nat | SWrite "u8 list" | SSeek int offset_mode | SResize int offset_mode

type_synonym stream = "u8 list \<times> nat"

text \<open>The place that an offset of 32 bits means.\<close>

fun place :: "int \<Rightarrow> offset_mode \<Rightarrow> stream \<Rightarrow> int option" where
  "place off OFFSET_BEGINNING (data, pos) = Some (off mod 2 ^ 32)"
| "place off OFFSET_CURRENT (data, pos) = Some (int pos + off)"
| "place off OFFSET_END (data, pos) = Some (int (length data) - (- off) mod 2 ^ 32)"
| "place off OFFSET_OTHER (data, pos) = None"

text \<open>What a successful request makes of the file, and its answer: the result and the bytes.\<close>

fun stream_step :: "stream \<Rightarrow> stream_op \<Rightarrow> (stream \<times> int \<times> u8 list) option" where
  "stream_step (data, pos) (SRead n) =
     (let out = take n (drop pos data) in Some ((data, pos + length out), int (length out), out))"
| "stream_step (data, pos) (SWrite bs) = Some ((put_bytes data pos bs, pos + length bs), int (length bs), [])"
| "stream_step (data, pos) (SSeek off mode) =
     (case place off mode (data, pos) of
        None \<Rightarrow> None
      | Some p \<Rightarrow> if p < 0 \<or> int (length data) < p then None else Some ((data, nat p), c_int (int pos), []))"
| "stream_step (data, pos) (SResize off mode) =
     (case place off mode (data, pos) of
        None \<Rightarrow> None
      | Some p \<Rightarrow> if p < 0 then None
                   else Some ((take (nat p) data @ replicate (nat p - length data) 0, min pos (nat p)), c_int p, []))"

section \<open>The packets\<close>

fun packet_of :: "addr \<Rightarrow> stream_op \<Rightarrow> packet" where
  "packet_of f (SRead n) = ACTION_READ (Some f) (replicate n 0) (int n)"
| "packet_of f (SWrite bs) = ACTION_WRITE (Some f) bs (int (length bs))"
| "packet_of f (SSeek off mode) = ACTION_SEEK (Some f) off mode"
| "packet_of f (SResize off mode) = ACTION_SET_FILE_SIZE (Some f) off mode"

fun succeeded :: "reply \<Rightarrow> bool" where
  "succeeded (Reply n e) \<longleftrightarrow> e = NO_ERROR"
| "succeeded (ReplyRead n buf) \<longleftrightarrow> True"
| "succeeded _ \<longleftrightarrow> False"

fun answer :: "reply \<Rightarrow> int \<times> u8 list" where
  "answer (ReplyRead n buf) = (n, take (nat n) buf)"
| "answer (Reply n e) = (n, [])"
| "answer _ = (0, [])"

section \<open>The abstraction\<close>

text \<open>
  The device below the library is modelled as the store of bytes that \<^verbatim>\<open>amiga/dev_io.c\<close> makes of it (\<open>device_view_refined\<close> in
  \<open>AmigaDevFacts\<close>).  It is one only for a driver that takes every address, so that no transfer goes through the block buffer, and while that buffer
  holds nothing from a card that was exchanged; this is part of the relation.  So is it that all bytes of the file are valid
  (\<open>open_file\<close>): a write into the gap behind the valid bytes of a file would uncover what lies there.
\<close>

definition device_transparent :: "ExfatHandler \<Rightarrow> bool" where
  "device_transparent h \<longleftrightarrow> (sp_mask (hd_spec h) = 0 \<or> sp_mask (hd_spec h) = 0xffffffff) \<and> hd_held h = None"

lemma device_transparent_simps [simp]:
  "device_transparent (h\<lparr>hd_ef := ef\<rparr>) = device_transparent h" "device_transparent (h\<lparr>hd_files := fs\<rparr>) = device_transparent h"
  by (simp_all add: device_transparent_def)

definition stream_of :: "ExfatHandler \<Rightarrow> addr \<Rightarrow> stream \<Rightarrow> bool" where
  "stream_of h f s \<longleftrightarrow> device_transparent h \<and> \<not> hd_inhibited h \<and> snd s \<le> length (fst s) \<and> length (fst s) < 2 ^ 63 \<and>
     (\<exists>fi node cs. hd_files h f = Some fi \<and> ef_nodes (hd_ef h) (fi_node fi) = Some node \<and> fi_pos fi = int (snd s) \<and>
        open_file (hd_ef h) node cs \<and> contents (hd_ef h) node cs = fst s)"

text \<open>The sizes that a request leads to can be expressed.\<close>

definition size_fits :: "ExfatHandler \<Rightarrow> nat \<Rightarrow> bool" where
  "size_fits h n \<longleftrightarrow> n < 2 ^ 63 \<and> DIV_ROUND_UP n (CLUSTER_SIZE (ef_sb (hd_ef h))) < 2 ^ 32"

lemma set_node_parts [simp]:
  "ef_sb (set_node ef a n) = ef_sb ef" "ef_dev (set_node ef a n) = ef_dev ef" "ef_cmap (set_node ef a n) = ef_cmap ef"
  "ef_zero_cluster (set_node ef a n) = ef_zero_cluster ef" "ef_nodes (set_node ef a n) = (ef_nodes ef)(a \<mapsto> n)"
  by (simp_all add: set_node_def)

lemma set_node_maps [simp]:
  "cluster_off (set_node ef a n) = cluster_off ef" "fat_offset (set_node ef a n) = fat_offset ef" "alloc (set_node ef a n) = alloc ef"
  "file_byte (set_node ef a n) cs i = file_byte ef cs i"
  by (simp_all add: fun_eq_iff cluster_off_def fat_offset_def s2o_def alloc_def file_byte_def)

lemma set_node_succ [simp]: "succ_of (set_node ef a n) = succ_of ef"
  by (simp add: fun_eq_iff succ_of_def fat_get_def)

lemma set_node_open [simp]:
  "open_file (set_node ef a n) node cs = open_file ef node cs" "contents (set_node ef a n) node cs = contents ef node cs"
  by (simp_all add: open_file_def contents_def mounted_def vol_ok_def heap_readable_def file_ok_def owns_def)

fun op_ok :: "ExfatHandler \<Rightarrow> stream \<Rightarrow> stream_op \<Rightarrow> bool" where
  "op_ok h s (SRead n) \<longleftrightarrow> n < 2 ^ 31"
| "op_ok h s (SWrite bs) \<longleftrightarrow> size_fits h (snd s + length bs)"
| "op_ok h s (SSeek off mode) \<longleftrightarrow> True"
| "op_ok h s (SResize off mode) \<longleftrightarrow> (case place off mode s of None \<Rightarrow> True | Some p \<Rightarrow> p < 0 \<or> size_fits h (nat p))"

section \<open>One packet\<close>

lemma map_errno_error: "rc \<noteq> 0 \<Longrightarrow> map_errno rc \<noteq> NO_ERROR"
  by (simp add: map_errno_def Let_def)

lemma ulong_mod: "ulong x = x mod 2 ^ 32"
  by (simp add: ulong_def unsigned_of_int take_bit_eq_mod)

text \<open>Reading, and seeking to a place in the file, cannot fail.\<close>

fun must_succeed :: "stream \<Rightarrow> stream_op \<Rightarrow> bool" where
  "must_succeed s (SRead n) \<longleftrightarrow> True"
| "must_succeed s (SSeek off mode) \<longleftrightarrow> stream_step s (SSeek off mode) \<noteq> None"
| "must_succeed s x \<longleftrightarrow> False"

definition served_as :: "ExfatHandler \<Rightarrow> addr \<Rightarrow> stream \<Rightarrow> stream_op \<Rightarrow> outcome \<Rightarrow> bool" where
  "served_as h f s x m \<longleftrightarrow> (\<exists>r h'. m = Some (r, h') \<and> ef_sb (hd_ef h') = ef_sb (hd_ef h) \<and>
     (must_succeed s x \<longrightarrow> succeeded r) \<and>
     (succeeded r \<longrightarrow> (\<exists>s'. stream_step s x = Some (s', answer r) \<and> stream_of h' f s')))"

lemma read_served:
  assumes "stream_of h f s" "n < 2 ^ 31"
  shows "served_as h f s (SRead n) (do_read h (Some f) (replicate n 0) (int n))"
proof (cases "n = 0")
  case True
  then show ?thesis using assms(1) by (cases s) (simp add: served_as_def do_read_def)
next
  case False
  obtain data pos where s: "s = (data, pos)" by fastforce
  obtain fi node cs where st: "device_transparent h \<and> \<not> hd_inhibited h" "pos \<le> length data" "length data < 2 ^ 63" "hd_files h f = Some fi"
    "ef_nodes (hd_ef h) (fi_node fi) = Some node" "fi_pos fi = int pos" "open_file (hd_ef h) node cs" "contents (hd_ef h) node cs = data"
    using assms(1) by (auto simp: stream_of_def s)
  let ?out = "take n (drop pos data)"
  have len: "min n (unat (n_size node) - pos) = length ?out" using st(8) length_contents [of "hd_ef h" node cs] by simp
  obtain buf node' where r: "exfat_generic_pread (hd_ef h) node (replicate n 0) n (int pos) = Some (int (length ?out), buf, node')"
    "take (length ?out) buf = ?out" "open_file (hd_ef h) node' cs" "contents (hd_ef h) node' cs = data"
    using step_read [OF st(7), of pos n "replicate n 0"] st(2,3,8) assms(2) unfolding len by auto
  let ?h = "set_file (h\<lparr>hd_ef := set_node (hd_ef h) (fi_node fi) node'\<rparr>) f (fi\<lparr>fi_pos := fi_pos fi + int (length ?out)\<rparr>)"
  have "do_read h (Some f) (replicate n 0) (int n) = Some (ReplyRead (int (length ?out)) buf, ?h)"
    using False st(4-6) r(1) by (simp add: do_read_def)
  moreover have "stream_of ?h f (data, pos + length ?out)"
    using st r(3,4) by (auto simp: stream_of_def set_file_def)
  ultimately show ?thesis using r(2) by (simp add: served_as_def s set_file_def)
qed

lemma write_served:
  assumes "stream_of h f s" "size_fits h (snd s + length bs)"
  shows "served_as h f s (SWrite bs) (do_write h (Some f) bs (int (length bs)))"
proof -
  obtain data pos where s: "s = (data, pos)" by fastforce
  obtain fi node cs where st: "device_transparent h \<and> \<not> hd_inhibited h" "pos \<le> length data" "length data < 2 ^ 63" "hd_files h f = Some fi"
    "ef_nodes (hd_ef h) (fi_node fi) = Some node" "fi_pos fi = int pos" "open_file (hd_ef h) node cs" "contents (hd_ef h) node cs = data"
    using assms(1) by (auto simp: stream_of_def s)
  note o = st(7) [unfolded open_file_def]
  have fit: "pos + length bs < 2 ^ 63" "DIV_ROUND_UP (pos + length bs) (CLUSTER_SIZE (ef_sb (hd_ef h))) < 2 ^ 32"
    using assms(2) by (simp_all add: size_fits_def s)
  consider "ef_ro (hd_ef h) \<noteq> 0 \<or> \<not> fi_writable fi" | "ef_ro (hd_ef h) = 0" "fi_writable fi" "bs = []"
    | "ef_ro (hd_ef h) = 0" "fi_writable fi" "bs \<noteq> []" by blast
  then show ?thesis
  proof cases
    case 1
    then show ?thesis using st(4) by (auto simp: served_as_def do_write_def)
  next
    case 2
    then show ?thesis using st(1,2,4) assms(1) by (simp add: served_as_def do_write_def s put_bytes_def)
  next
    case 3
    obtain rc ef' node' where w: "exfat_generic_pwrite (hd_ef h) node bs (length bs) (int pos) = Some (rc, ef', node')"
      "vol_rest ef' = vol_rest (hd_ef h)" "0 \<le> rc \<longrightarrow> rc = int (length bs)"
      using pwrite_refines [of "hd_ef h" node cs "int pos" "length bs" bs] o fit st(2,8) length_contents [of "hd_ef h" node cs] by auto
    have sb: "ef_sb ef' = ef_sb (hd_ef h)" using vol_rest_fields [OF w(2)] by simp
    show ?thesis
    proof (cases "rc < 0")
      case True
      then show ?thesis using 3 st w(1) sb map_errno_error [of rc] by (auto simp: served_as_def do_write_def)
    next
      case False
      then have rc: "rc = int (length bs)" using w(3) by simp
      obtain cs' where c: "open_file ef' node' cs'" "contents ef' node' cs' = put_bytes data pos bs"
        using step_write [OF st(7) _ fit(2) w(1)] fit(1) False st(8) by auto
      let ?h = "set_file (h\<lparr>hd_ef := set_node ef' (fi_node fi) node'\<rparr>) f (fi\<lparr>fi_pos := fi_pos fi + int (length bs)\<rparr>)"
      have "do_write h (Some f) bs (int (length bs)) = Some (Reply (int (length bs)) NO_ERROR, ?h)"
        using 3 st(1,4-6) w(1) rc by (simp add: do_write_def)
      moreover have "stream_of ?h f (put_bytes data pos bs, pos + length bs)"
        using st fit(1) c by (auto simp: stream_of_def set_file_def length_put_bytes)
      ultimately show ?thesis using sb by (simp add: served_as_def s set_file_def)
    qed
  qed
qed

lemma size_sint: "contents ef node cs = data \<Longrightarrow> length data < 2 ^ 63 \<Longrightarrow> sint (n_size node) = int (length data) \<and> uint (n_size node) = int (length data)"
proof -
  assume "contents ef node cs = data" and l: "length data < 2 ^ 63"
  then have "length data = unat (n_size node)" using length_contents [of ef node cs] by simp
  then have u: "uint (n_size node) = int (length data)" by (simp only: of_nat_unat)
  have "int (length data) < 2 ^ 63" using l by (simp add: of_nat_less_iff [symmetric])
  then have "sint (n_size node) = uint (n_size node)" by (simp add: sint_uint u signed_take_bit_int_eq_self)
  then show ?thesis using u by simp
qed

lemma seek_served:
  assumes "stream_of h f s"
  shows "served_as h f s (SSeek off mode) (do_seek h (Some f) off mode)"
proof -
  obtain data pos where s: "s = (data, pos)" by fastforce
  obtain fi node cs where st: "device_transparent h \<and> \<not> hd_inhibited h" "pos \<le> length data" "length data < 2 ^ 63" "hd_files h f = Some fi"
    "ef_nodes (hd_ef h) (fi_node fi) = Some node" "fi_pos fi = int pos" "open_file (hd_ef h) node cs" "contents (hd_ef h) node cs = data"
    using assms(1) by (auto simp: stream_of_def s)
  note z = size_sint [OF st(8,3)]
  have p: "(case mode of OFFSET_BEGINNING \<Rightarrow> Some (ulong off) | OFFSET_CURRENT \<Rightarrow> Some (fi_pos fi + off)
      | OFFSET_END \<Rightarrow> Some (sint (n_size node) - ulong (- off)) | OFFSET_OTHER \<Rightarrow> None) = place off mode s"
    using st(6) z by (cases mode) (simp_all add: s ulong_mod)
  show ?thesis
  proof (cases "place off mode s")
    case None
    then show ?thesis using st(4,5) p by (auto simp: served_as_def do_seek_def s)
  next
    case (Some q)
    show ?thesis
    proof (cases "q < 0 \<or> int (length data) < q")
      case True
      then show ?thesis using st(4,5) p Some z by (auto simp: served_as_def do_seek_def s)
    next
      case False
      let ?h = "set_file h f (fi\<lparr>fi_pos := q\<rparr>)"
      have "do_seek h (Some f) off mode = Some (Reply (c_int (int pos)) NO_ERROR, ?h)"
        using st(4-6) p Some False z by (simp add: do_seek_def)
      moreover have "stream_of ?h f (data, nat q)" 
      proof -
        have "nat q \<le> length data" "int (nat q) = q" using False by linarith+
        then show ?thesis using st unfolding stream_of_def by (auto simp: set_file_def)
      qed
      ultimately show ?thesis using Some False by (simp add: served_as_def s set_file_def)
    qed
  qed
qed

lemma resize_served:
  assumes "stream_of h f s" "op_ok h s (SResize off mode)"
  shows "served_as h f s (SResize off mode) (do_set_file_size h (Some f) off mode)"
proof -
  obtain data pos where s: "s = (data, pos)" by fastforce
  obtain fi node cs where st: "device_transparent h \<and> \<not> hd_inhibited h" "pos \<le> length data" "length data < 2 ^ 63" "hd_files h f = Some fi"
    "ef_nodes (hd_ef h) (fi_node fi) = Some node" "fi_pos fi = int pos" "open_file (hd_ef h) node cs" "contents (hd_ef h) node cs = data"
    using assms(1) by (auto simp: stream_of_def s)
  note z = size_sint [OF st(8,3)] and o = st(7) [unfolded open_file_def]
  have p: "resolve_offset off mode (fi_pos fi) (sint (n_size node)) = place off mode s"
    using st(6) z by (cases mode) (simp_all add: s ulong_mod resolve_offset_def)
  show ?thesis
  proof (cases "ef_ro (hd_ef h) = 0 \<and> fi_writable fi \<and> (\<exists>q. place off mode s = Some q \<and> 0 \<le> q)")
    case False
    then show ?thesis using st(4,5) p by (cases "place off mode s") (auto simp: served_as_def do_set_file_size_def)
  next
    case True
    then obtain n where n: "place off mode s = Some (int n)" by (metis nonneg_int_cases)
    have fit: "n < 2 ^ 63" "DIV_ROUND_UP n (CLUSTER_SIZE (ef_sb (hd_ef h))) < 2 ^ 32" using assms(2) n by (simp_all add: size_fits_def)
    have u: "unat (of_nat n :: u64) = n" using fit(1) by (simp add: unat_of_nat)
    obtain rc ef' node' where t: "exfat_truncate (hd_ef h) node (of_nat n) True = Some (rc, ef', node')" "ef_sb ef' = ef_sb (hd_ef h)"
    proof (cases "n_size node = of_nat n")
      case True
      then show ?thesis using o by (intro that [of 0 "hd_ef h" node]) (auto simp: exfat_truncate_def)
    next
      case False
      obtain rc ef' node' where t: "exfat_truncate (hd_ef h) node (of_nat n) True = Some (rc, ef', node')" "vol_rest ef' = vol_rest (hd_ef h)"
        using truncate_ok [OF _ _ _ _ False, of "hd_ef h" cs True] o fit(2) u by auto
      show ?thesis by (rule that [OF t(1) vol_rest_fields(1) [OF t(2)]])
    qed
    have run: "truncate_at (hd_ef h) (fi_node fi) (word_of_int (int n)) True = Some (rc, set_node ef' (fi_node fi) node')"
      using st(5) t(1) by (simp add: truncate_at_def)
    show ?thesis
    proof (cases "rc = 0")
      case f: False
      then show ?thesis using True st(1,4,5) p n run t(2) map_errno_error [OF f] by (simp add: served_as_def do_set_file_size_def)
    next
      case rc: True
      obtain cs' where c: "open_file ef' node' cs'" "contents ef' node' cs' = take n data @ replicate (n - length data) 0"
        using step_resize [OF st(7) _ fit(2)] fit(1) t(1) rc st(8) length_contents [of "hd_ef h" node cs] by auto
      let ?h = "set_file (h\<lparr>hd_ef := set_node ef' (fi_node fi) node'\<rparr>) f (fi\<lparr>fi_pos := min (fi_pos fi) (int n)\<rparr>)"
      have "do_set_file_size h (Some f) off mode = Some (Reply (c_int (int n)) NO_ERROR, ?h)"
        using True st(1,4,5) p n run rc by (simp add: do_set_file_size_def)
      moreover have "stream_of ?h f (take n data @ replicate (n - length data) 0, min pos n)"
        using st fit(1) c by (auto simp: stream_of_def set_file_def)
      ultimately show ?thesis using n t(2) by (simp add: served_as_def s set_file_def)
    qed
  qed
qed

lemma packet_served: "stream_of h f s \<Longrightarrow> op_ok h s x \<Longrightarrow> served_as h f s x (serve env h (packet_of f x))"
proof -
  assume a: "stream_of h f s" "op_ok h s x"
  then have "\<not> hd_inhibited h" by (simp add: stream_of_def)
  then show ?thesis using a by (cases x) (simp_all add: serve_def read_served write_served seek_served resize_served del: op_ok.simps(4))
qed

section \<open>Any sequence of packets\<close>

primrec answers :: "ExfatHandler \<Rightarrow> (environ \<times> packet) list \<Rightarrow> (reply list \<times> ExfatHandler) option" where
  "answers h [] = Some ([], h)"
| "answers h (e # es) = do { (r, h) \<leftarrow> serve (fst e) h (snd e); (rs, h) \<leftarrow> answers h es; Some (r # rs, h) }"

primrec stream_run :: "stream \<Rightarrow> stream_op list \<Rightarrow> (stream \<times> (int \<times> u8 list) list) option" where
  "stream_run s [] = Some (s, [])"
| "stream_run s (x # xs) = do { (s, a) \<leftarrow> stream_step s x; (s, as) \<leftarrow> stream_run s xs; Some (s, a # as) }"

primrec run_ok :: "ExfatHandler \<Rightarrow> stream \<Rightarrow> stream_op list \<Rightarrow> bool" where
  "run_ok h s [] \<longleftrightarrow> True"
| "run_ok h s (x # xs) \<longleftrightarrow> op_ok h s x \<and> (case stream_step s x of None \<Rightarrow> True | Some (s, _) \<Rightarrow> run_ok h s xs)"

lemma run_ok_cong:
  assumes "ef_sb (hd_ef h') = ef_sb (hd_ef h)"
  shows "run_ok h' s xs = run_ok h s xs"
proof -
  have f: "size_fits h' = size_fits h" using assms by (simp add: fun_eq_iff size_fits_def)
  have o: "op_ok h' s x = op_ok h s x" for s x by (cases x) (simp_all add: f split: option.split)
  show ?thesis by (induction xs arbitrary: s) (simp_all add: o split: option.split)
qed

lemma packets_served:
  "stream_of h f s \<Longrightarrow> run_ok h s xs \<Longrightarrow> answers h (map (\<lambda>x. (env, packet_of f x)) xs) = Some (rs, h') \<Longrightarrow> list_all succeeded rs \<Longrightarrow>
     \<exists>s'. stream_run s xs = Some (s', map answer rs) \<and> stream_of h' f s'"
proof (induction xs arbitrary: h s rs)
  case (Cons x xs)
  obtain r h1 rs1 where a: "serve env h (packet_of f x) = Some (r, h1)" "answers h1 (map (\<lambda>x. (env, packet_of f x)) xs) = Some (rs1, h')" "rs = r # rs1"
    using Cons.prems(3) by (auto simp: bind_eq_Some_conv)
  have "op_ok h s x" "succeeded r" "list_all succeeded rs1" using Cons.prems(2,4) a(3) by auto
  then obtain s1 where s1: "stream_step s x = Some (s1, answer r)" "stream_of h1 f s1" "ef_sb (hd_ef h1) = ef_sb (hd_ef h)"
    using packet_served [OF Cons.prems(1), of x env] a(1) by (auto simp: served_as_def)
  have "run_ok h1 s1 xs" using Cons.prems(2) s1 run_ok_cong [OF s1(3)] by simp
  from Cons.IH [OF s1(2) this a(2) \<open>list_all succeeded rs1\<close>] show ?case using s1(1) a(3) by auto
qed simp

text \<open>
  C5: an open file all of whose bytes are valid is a stream.  The handler runs on a device that passes for a store of bytes: its driver takes every
  address, no card was exchanged since the volume was mounted, and the clusters can be read (\<open>device_transparent\<close>, \<open>open_file\<close>).  Then, whatever READ, WRITE, SEEK
  and SET_FILE_SIZE packets are sent for the file, in any order, with arguments whose sizes can be expressed, if they are
  answered with success, the answers (the result and the bytes), the contents of the file and its position are those of the same
  operations on a sequence of bytes with a position, which never leaves the sequence, and all bytes of the file are valid again; the next
  packet is answered as well, and with success if it reads something or seeks to a place in the file.
\<close>

theorem packets_refine_stream:
  assumes "stream_of h f s" "run_ok h s xs" "answers h (map (\<lambda>x. (env, packet_of f x)) xs) = Some (rs, h')" "list_all succeeded rs"
  shows "\<exists>s'. stream_run s xs = Some (s', map answer rs) \<and> stream_of h' f s' \<and>
    (op_ok h' s' x \<longrightarrow> (\<exists>r h''. serve env h' (packet_of f x) = Some (r, h'') \<and> (must_succeed s' x \<longrightarrow> succeeded r)))"
proof -
  obtain s' where s': "stream_run s xs = Some (s', map answer rs)" "stream_of h' f s'" using packets_served [OF assms] by blast
  then show ?thesis using packet_served [OF s'(2), of x env] by (auto simp: served_as_def)
qed

end
