(* ===== verification/SampleStream.thy ===== *)
theory SampleStream
  imports SampleHandler Scan Streams
begin

text \<open>Instances of the properties of scans and open files.\<close>

section \<open>A scan of the root\<close>

definition root_lock :: ExfatLock where
  "root_lock = \<lparr>lk_link = None, lk_key = 0, lk_access = SHARED_LOCK, lk_volume = True, lk_node = 0, lk_scan_next = None, lk_scan_index = 7\<rparr>"

definition locked_handler :: ExfatHandler where
  "locked_handler = sample_handler\<lparr>hd_locks := [0 \<mapsto> root_lock], hd_nlocks := 1, hd_fresh := 1\<rparr>"

lemma locked_examine: "\<exists>r h'. do_examine_object locked_handler (Some 0) = Some (r, h')"
proof -
  have "name_to_bstr_loop [] 30 = Some []" by (subst name_to_bstr_loop.simps) simp
  then show ?thesis
    by (simp add: do_examine_object_def lock_node_def locked_handler_def root_lock_def fill_fib_def exfat_get_label_def exfat_amiga_name_to_bstr_def
        tree_ef_def sample_ef_def Let_def)
qed

theorem scan_lists_witness:
  "\<exists>r h' h''. do_examine_object locked_handler (Some 0) = Some (r, h') \<and>
     scan 5 h' 0 0 = Some ([child_fib tree_ef tree_A 1, child_fib tree_ef tree_b 2], h'')"
proof -
  obtain r h' where e: "do_examine_object locked_handler (Some 0) = Some (r, h')" using locked_examine by blast
  have "cached_tree (hd_ef locked_handler) tree_kids" using tree_cached by (simp add: locked_handler_def)
  moreover have "hd_locks locked_handler 0 = Some root_lock" "ef_nodes (hd_ef locked_handler) (lk_node root_lock) = Some tree_root"
    "is_dir tree_root" "tree_kids (lk_node root_lock) = Some [1, 2]"
    by (simp_all add: locked_handler_def root_lock_def tree_root_def is_dir_def EXFAT_ATTRIB_DIR_def zero_node_def tree_kids_def)
  ultimately have "\<exists>h''. scan 5 h' 0 0 = Some (map (\<lambda>j. child_fib tree_ef (the (ef_nodes tree_ef ([1, 2] ! j))) (int j + 1)) [0..<length [1, 2 :: nat]], h'')"
    using scan_lists_directory [of locked_handler tree_kids 0 root_lock tree_root "[1, 2]" r h' 5] e by (simp add: locked_handler_def)
  then show ?thesis using e by (simp add: upt_rec)
qed

section \<open>A file of 100 bytes\<close>

definition file_handler :: ExfatHandler where
  "file_handler = sample_handler\<lparr>hd_ef := set_node sample_ef 5 sample_other, hd_files := [0 \<mapsto> \<lparr>fi_node = 5, fi_pos = 0, fi_writable = True\<rparr>],
     hd_nfiles := 1, hd_fresh := 1\<rparr>"

lemma file_stream: "stream_of file_handler 0 (replicate 100 7, 0)"
  using sample_other_open sample_other_contents by (auto simp: stream_of_def file_handler_def device_transparent_def sample_handler_def)

lemma file_write: "\<exists>h. serve sample_env file_handler (packet_of 0 (SWrite [1, 2, 3])) = Some (Reply 3 NO_ERROR, h)"
proof -
  let ?ef = "set_node sample_ef 5 sample_other"
  have o: "mounted ?ef" "file_ok ?ef sample_other [4]" "n_references sample_other \<noteq> 0 \<or> n_parent sample_other = None"
    "n_valid_size sample_other = n_size sample_other" "heap_writable ?ef"
    using sample_other_open set_node_open(1) [of sample_ef 5 sample_other sample_other "[4]"] sample_heap(2)
    by (simp_all add: open_file_def heap_writable_def)
  obtain ef node where "exfat_generic_pwrite ?ef sample_other [1, 2, 3] 3 0 = Some (3, ef, node)"
    using pwrite_refines [OF o(1-3), of 0 3 "[1, 2, 3]"] o(4,5) by (auto simp: DIV_ROUND_UP_def sample_other_def)
  then show ?thesis
    by (simp add: serve_def do_write_def file_handler_def) (simp add: sample_ef_def set_node_def)
qed

text \<open>Three bytes are written, and what follows the first of them is read.\<close>

definition file_ops :: "stream_op list" where
  "file_ops = [SWrite [1, 2, 3], SSeek 1 OFFSET_BEGINNING, SRead 5]"

lemma file_ops_run:
  "stream_run (replicate 100 7, 0) file_ops = Some (([1, 2, 3] @ replicate 97 7, 6), [(3, []), (3, []), (5, [2, 3, 7, 7, 7])])"
  by (simp add: file_ops_def put_bytes_def c_int_def numeral_3_eq_3)

lemma file_ops_ok: "run_ok file_handler (replicate 100 7, 0) file_ops"
  by (simp add: file_ops_def size_fits_def DIV_ROUND_UP_def put_bytes_def file_handler_def)

lemma file_ops_answered: "\<exists>rs h. answers file_handler (map (\<lambda>x. (sample_env, packet_of 0 x)) file_ops) = Some (rs, h) \<and> list_all succeeded rs"
proof -
  have w: "op_ok file_handler (replicate 100 7, 0) (SWrite [1, 2, 3])"
    "stream_step (replicate 100 7, 0) (SWrite [1, 2, 3]) = Some (([1, 2, 3] @ replicate 97 7, 3), 3, [])"
    by (simp_all add: size_fits_def DIV_ROUND_UP_def put_bytes_def file_handler_def)
  obtain h1 where h1: "serve sample_env file_handler (packet_of 0 (SWrite [1, 2, 3])) = Some (Reply 3 NO_ERROR, h1)"
    "stream_of h1 0 ([1, 2, 3] @ replicate 97 7, 3)"
    using file_write packet_served [OF file_stream w(1), of sample_env] w(2) by (auto simp: served_as_def numeral_3_eq_3)
  obtain r2 h2 where h2: "serve sample_env h1 (packet_of 0 (SSeek 1 OFFSET_BEGINNING)) = Some (r2, h2)" "succeeded r2"
    "stream_of h2 0 ([1, 2, 3] @ replicate 97 7, 1)"
    using packet_served [OF h1(2), of "SSeek 1 OFFSET_BEGINNING" sample_env] by (auto simp: served_as_def)
  obtain r3 h3 where "serve sample_env h2 (packet_of 0 (SRead 5)) = Some (r3, h3)" "succeeded r3"
    using packet_served [OF h2(3), of "SRead 5" sample_env] by (auto simp: served_as_def)
  then show ?thesis using h1(1) h2(1,2) by (simp add: file_ops_def)
qed

theorem packets_refine_witness:
  "\<exists>rs h. answers file_handler (map (\<lambda>x. (sample_env, packet_of 0 x)) [SWrite [1, 2, 3], SSeek 1 OFFSET_BEGINNING, SRead 5]) = Some (rs, h) \<and>
     map answer rs = [(3, []), (3, []), (5, [2, 3, 7, 7, 7])] \<and> stream_of h 0 ([1, 2, 3] @ replicate 97 7, 6)"
proof -
  obtain rs h where a: "answers file_handler (map (\<lambda>x. (sample_env, packet_of 0 x)) file_ops) = Some (rs, h)" "list_all succeeded rs"
    using file_ops_answered by blast
  then show ?thesis
    using packets_refine_stream [OF file_stream file_ops_ok a, of "SRead 1"] file_ops_run by (auto simp: file_ops_def)
qed

end
