(* ===== verification/Fuse.thy ===== *)
theory Fuse
  imports Mount
begin

text \<open>
  The FUSE front end, \<^verbatim>\<open>fuse/main.c\<close>.  The volume is the only state; \<^verbatim>\<open>fi->fh\<close> is the address of the node.  A path is the bytes of a C
  string.  The results of the calls are C integers, so a \<^verbatim>\<open>ssize_t\<close> is converted.
\<close>

section \<open>Operations\<close>

definition fuse_exfat_getattr :: "exfat \<Rightarrow> u8 list \<Rightarrow> (int \<times> stat option \<times> exfat) option" where
  "fuse_exfat_getattr ef path =
     do {
       (rc, node, ef) \<leftarrow> exfat_lookup ef path;
       if rc \<noteq> 0 then Some (rc, None, ef)
       else do {
         a \<leftarrow> node;
         n \<leftarrow> ef_nodes ef a;
         let stbuf = exfat_stat ef n;
         ef \<leftarrow> exfat_put_node ef a;
         Some (0, Some stbuf, ef)
       }
     }"

definition fuse_exfat_truncate :: "exfat \<Rightarrow> u8 list \<Rightarrow> off_t \<Rightarrow> (int \<times> exfat) option" where
  "fuse_exfat_truncate ef path sz =
     do {
       (rc, node, ef) \<leftarrow> exfat_lookup ef path;
       if rc \<noteq> 0 then Some (rc, ef)
       else do {
         a \<leftarrow> node;
         (rc, ef) \<leftarrow> truncate_at ef a (word_of_int sz) True;
         if rc \<noteq> 0 then do {
           (_, ef) \<leftarrow> exfat_flush_node ef a;
           ef \<leftarrow> exfat_put_node ef a;
           Some (rc, ef)
         }
         else do {
           (rc, ef) \<leftarrow> exfat_flush_node ef a;
           ef \<leftarrow> exfat_put_node ef a;
           Some (rc, ef)
         }
       }
     }"

text \<open>An entry that is given to \<^verbatim>\<open>filler\<close>: the name and the attributes, if there are any.\<close>

type_synonym filled = "u8 list \<times> stat option"

partial_function (option) fuse_readdir_loop :: "exfat \<Rightarrow> exfat_iterator \<Rightarrow> (filled list \<times> exfat_iterator \<times> exfat) option" where
  "fuse_readdir_loop ef it =
     do {
       (node, it, ef) \<leftarrow> exfat_readdir ef it;
       (case node of
          None \<Rightarrow> Some ([], it, ef)
        | Some a \<Rightarrow> do {
            n \<leftarrow> ef_nodes ef a;
            name \<leftarrow> exfat_get_name n;
            let stbuf = exfat_stat ef n;
            ef \<leftarrow> exfat_put_node ef a;
            (fills, it, ef) \<leftarrow> fuse_readdir_loop ef it;
            Some ((takeWhile (\<lambda>b. b \<noteq> 0) name, Some stbuf) # fills, it, ef)
          })
     }"

definition fuse_exfat_readdir :: "exfat \<Rightarrow> u8 list \<Rightarrow> (int \<times> filled list \<times> exfat) option" where
  "fuse_exfat_readdir ef path =
     do {
       (rc, parent, ef) \<leftarrow> exfat_lookup ef path;
       if rc \<noteq> 0 then Some (rc, [], ef)
       else do {
         a \<leftarrow> parent;
         n \<leftarrow> ef_nodes ef a;
         if \<not> is_dir n then do { ef \<leftarrow> exfat_put_node ef a; Some (- ENOTDIR, [], ef) }
         else do {
           let dots = [([0x2e], None), ([0x2e, 0x2e], None)];
           (rc, it, ef) \<leftarrow> exfat_opendir ef a;
           if rc \<noteq> 0 then do { ef \<leftarrow> exfat_put_node ef a; Some (rc, dots, ef) }
           else do {
             (fills, it, ef) \<leftarrow> fuse_readdir_loop ef it;
             ef \<leftarrow> exfat_closedir ef it;
             ef \<leftarrow> exfat_put_node ef a;
             Some (0, dots @ fills, ef)
           }
         }
       }
     }"

text \<open>\<open>fuse3\<close>: built for version 3 of the library, which truncates in the call that opens.\<close>

definition fuse_exfat_open :: "bool \<Rightarrow> exfat \<Rightarrow> u8 list \<Rightarrow> bool \<Rightarrow> (int \<times> addr option \<times> exfat) option" where
  "fuse_exfat_open fuse3 ef path o_trunc =
     do {
       (rc, node, ef) \<leftarrow> exfat_lookup ef path;
       if rc \<noteq> 0 then Some (rc, None, ef)
       else do {
         a \<leftarrow> node;
         (rc, ef) \<leftarrow> (if fuse3 \<and> o_trunc then truncate_at ef a 0 True else Some (0, ef));
         if rc \<noteq> 0 then do { ef \<leftarrow> exfat_put_node ef a; Some (rc, None, ef) }
         else Some (0, Some a, ef)
       }
     }"

definition fuse_exfat_create :: "exfat \<Rightarrow> u8 list \<Rightarrow> (int \<times> addr option \<times> exfat) option" where
  "fuse_exfat_create ef path =
     do {
       (rc, ef) \<leftarrow> exfat_mknod ef path;
       if rc \<noteq> 0 then Some (rc, None, ef)
       else do {
         (rc, node, ef) \<leftarrow> exfat_lookup ef path;
         if rc \<noteq> 0 then Some (rc, None, ef) else do { a \<leftarrow> node; Some (0, Some a, ef) }
       }
     }"

definition fuse_exfat_release :: "exfat \<Rightarrow> addr \<Rightarrow> (int \<times> exfat) option" where
  "fuse_exfat_release ef fh =
     do {
       (_, ef) \<leftarrow> exfat_flush_node ef fh;
       ef \<leftarrow> exfat_put_node ef fh;
       Some (0, ef)
     }"

definition fuse_exfat_flush :: "exfat \<Rightarrow> addr \<Rightarrow> (int \<times> exfat) option" where
  "fuse_exfat_flush ef fh = exfat_flush_node ef fh"

definition fuse_exfat_fsync :: "exfat \<Rightarrow> (int \<times> exfat) option" where
  "fuse_exfat_fsync ef =
     do {
       (rc, ef) \<leftarrow> exfat_flush_nodes ef;
       if rc \<noteq> 0 then Some (rc, ef)
       else do {
         (rc, ef) \<leftarrow> exfat_flush ef;
         if rc \<noteq> 0 then Some (rc, ef) else Some (exfat_fsync (ef_dev ef), ef)
       }
     }"

definition fuse_exfat_read :: "exfat \<Rightarrow> addr \<Rightarrow> u8 list \<Rightarrow> nat \<Rightarrow> off_t \<Rightarrow> (int \<times> u8 list \<times> exfat) option" where
  "fuse_exfat_read ef fh buffer sz offset =
     do {
       node \<leftarrow> ef_nodes ef fh;
       (n, buffer, node) \<leftarrow> exfat_generic_pread ef node buffer sz offset;
       Some (c_int n, buffer, set_node ef fh node)
     }"

definition fuse_exfat_write :: "exfat \<Rightarrow> addr \<Rightarrow> u8 list \<Rightarrow> nat \<Rightarrow> off_t \<Rightarrow> (int \<times> exfat) option" where
  "fuse_exfat_write ef fh buffer sz offset =
     do {
       node \<leftarrow> ef_nodes ef fh;
       (n, ef, node) \<leftarrow> exfat_generic_pwrite ef node buffer sz offset;
       Some (c_int n, set_node ef fh node)
     }"

definition fuse_exfat_unlink :: "exfat \<Rightarrow> u8 list \<Rightarrow> (int \<times> exfat) option" where
  "fuse_exfat_unlink ef path =
     do {
       (rc, node, ef) \<leftarrow> exfat_lookup ef path;
       if rc \<noteq> 0 then Some (rc, ef)
       else do {
         a \<leftarrow> node;
         (rc, ef) \<leftarrow> exfat_unlink ef a;
         ef \<leftarrow> exfat_put_node ef a;
         if rc \<noteq> 0 then Some (rc, ef) else exfat_cleanup_node ef a
       }
     }"

definition fuse_exfat_rmdir :: "exfat \<Rightarrow> u8 list \<Rightarrow> (int \<times> exfat) option" where
  "fuse_exfat_rmdir ef path =
     do {
       (rc, node, ef) \<leftarrow> exfat_lookup ef path;
       if rc \<noteq> 0 then Some (rc, ef)
       else do {
         a \<leftarrow> node;
         (rc, ef) \<leftarrow> exfat_rmdir ef a;
         ef \<leftarrow> exfat_put_node ef a;
         if rc \<noteq> 0 then Some (rc, ef) else exfat_cleanup_node ef a
       }
     }"

definition fuse_exfat_mknod :: "exfat \<Rightarrow> u8 list \<Rightarrow> (int \<times> exfat) option" where
  "fuse_exfat_mknod ef path = exfat_mknod ef path"

definition fuse_exfat_mkdir :: "exfat \<Rightarrow> u8 list \<Rightarrow> (int \<times> exfat) option" where
  "fuse_exfat_mkdir ef path = exfat_mkdir ef path"

definition fuse_exfat_rename :: "exfat \<Rightarrow> u8 list \<Rightarrow> u8 list \<Rightarrow> (int \<times> exfat) option" where
  "fuse_exfat_rename ef old_path new_path = exfat_rename ef old_path new_path"

definition fuse_exfat_utimens :: "exfat \<Rightarrow> u8 list \<Rightarrow> time_t \<Rightarrow> time_t \<Rightarrow> (int \<times> exfat) option" where
  "fuse_exfat_utimens ef path atime mtime =
     do {
       (rc, node, ef) \<leftarrow> exfat_lookup ef path;
       if rc \<noteq> 0 then Some (rc, ef)
       else do {
         a \<leftarrow> node;
         ef \<leftarrow> upd_node ef a (\<lambda>n. exfat_utimes n atime mtime);
         (rc, ef) \<leftarrow> exfat_flush_node ef a;
         ef \<leftarrow> exfat_put_node ef a;
         Some (rc, ef)
       }
     }"

definition VALID_MODE_MASK :: int where "VALID_MODE_MASK = S_IFREG OR S_IFDIR OR 0x1ff"

definition fuse_exfat_chmod :: "int \<Rightarrow> int" where
  "fuse_exfat_chmod mode = (if mode AND NOT VALID_MODE_MASK \<noteq> 0 then - EPERM else 0)"

definition fuse_exfat_chown :: "exfat \<Rightarrow> int \<Rightarrow> int \<Rightarrow> int" where
  "fuse_exfat_chown ef uid gid = (if uid \<noteq> ef_uid ef \<or> gid \<noteq> ef_gid ef then - EPERM else 0)"

record statvfs =
  f_bsize :: nat
  f_frsize :: nat
  f_blocks :: u64
  f_bfree :: u64
  f_bavail :: u64
  f_files :: u64
  f_ffree :: u64
  f_favail :: u64
  f_namemax :: nat

definition fuse_exfat_statfs :: "exfat \<Rightarrow> statvfs" where
  "fuse_exfat_statfs ef =
     (let sb = ef_sb ef; bavail = ucast (exfat_count_free_clusters ef)
      in \<lparr>f_bsize = CLUSTER_SIZE sb, f_frsize = CLUSTER_SIZE sb, f_blocks = drop_bit (unat (sb_spc_bits sb)) (sb_sector_count sb),
          f_bfree = bavail, f_bavail = bavail, f_files = ucast (sb_cluster_count sb), f_ffree = bavail,
          f_favail = drop_bit (unat (sb_spc_bits sb)) bavail, f_namemax = EXFAT_NAME_MAX\<rparr>)"

definition fuse_exfat_init :: "exfat \<Rightarrow> exfat" where
  "fuse_exfat_init ef = snd (exfat_soil_super_block ef)"

definition fuse_exfat_destroy :: "exfat \<Rightarrow> exfat_dev option" where
  "fuse_exfat_destroy ef = exfat_unmount ef"

section \<open>Options\<close>

text \<open>\<open>malloc\<close> decides whether an allocation of a size succeeds; without memory the options are freed and there is no result.\<close>

definition add_option :: "(nat \<Rightarrow> bool) \<Rightarrow> string \<Rightarrow> string \<Rightarrow> string option \<Rightarrow> string option" where
  "add_option malloc options name val =
     (let sz = (case val of Some v \<Rightarrow> length options + length name + length v + 3 | None \<Rightarrow> length options + length name + 2)
      in if \<not> malloc sz then None
         else Some (options @ '','' @ name @ (case val of Some v \<Rightarrow> ''='' @ v | None \<Rightarrow> [])))"

fun escape :: "string \<Rightarrow> string" where
  "escape [] = []"
| "escape (c # orig) = (if c = CHR '','' \<or> c = CHR 0x5c then CHR 0x5c # c # escape orig else c # escape orig)"

definition add_fsname_option :: "(nat \<Rightarrow> bool) \<Rightarrow> string \<Rightarrow> string \<Rightarrow> string option" where
  "add_fsname_option malloc options spec =
     (if \<not> malloc (length spec * 2 + 1) then None else add_option malloc options ''fsname'' (Some (escape spec)))"

definition add_ro_option :: "(nat \<Rightarrow> bool) \<Rightarrow> string \<Rightarrow> bool \<Rightarrow> string option" where
  "add_ro_option malloc options ro = (if ro then add_option malloc options ''ro'' None else Some options)"

text \<open>\<open>user\<close> is the name of the user with that number, if there is one.\<close>

definition add_user_option :: "(nat \<Rightarrow> bool) \<Rightarrow> string \<Rightarrow> int \<Rightarrow> string option \<Rightarrow> string option" where
  "add_user_option malloc options uid user =
     (if uid = 0 then Some options else case user of None \<Rightarrow> None | Some name \<Rightarrow> add_option malloc options ''user'' (Some name))"

text \<open>A number as \<^verbatim>\<open>%ld\<close> shows it, for numbers that are not negative.\<close>

fun decimal :: "nat \<Rightarrow> string" where
  "decimal n = (if n < 10 then [char_of (48 + n)] else decimal (n div 10) @ [char_of (48 + n mod 10)])"

declare decimal.simps [simp del]

definition add_blksize_option :: "(nat \<Rightarrow> bool) \<Rightarrow> string \<Rightarrow> int \<Rightarrow> nat \<Rightarrow> string option" where
  "add_blksize_option malloc options pagesize cluster_size =
     (let page_size = (if pagesize < 1 then 0x1000 else nat pagesize)
      in add_option malloc options ''blksize'' (Some (decimal (min page_size cluster_size))))"

definition add_fuse_options ::
    "(nat \<Rightarrow> bool) \<Rightarrow> exfat \<Rightarrow> int \<Rightarrow> string option \<Rightarrow> int \<Rightarrow> string \<Rightarrow> string \<Rightarrow> bool \<Rightarrow> string option" where
  "add_fuse_options malloc ef uid user pagesize options spec ro =
     do {
       options \<leftarrow> add_fsname_option malloc options spec;
       options \<leftarrow> add_ro_option malloc options ro;
       options \<leftarrow> add_user_option malloc options uid user;
       add_blksize_option malloc options pagesize (CLUSTER_SIZE (ef_sb ef))
     }"

definition add_passthrough_fuse_options :: "(nat \<Rightarrow> bool) \<Rightarrow> string \<Rightarrow> string \<Rightarrow> string option" where
  "add_passthrough_fuse_options malloc fuse_options options =
     (if exfat_match_option options ''nonempty'' then add_option malloc fuse_options ''nonempty'' None else Some fuse_options)"

text \<open>
  The command line: the options that \<^verbatim>\<open>getopt\<close> returns, in order, and the arguments behind them.  The loop yields the option strings, or the exit
  status.  The string that it starts with is that of a Linux build.
\<close>

datatype fuse_opt = Opt_d | Opt_n | Opt_o string | Opt_V | Opt_v | Opt_other

definition FUSE_OPTIONS :: "bool \<Rightarrow> string" where
  "FUSE_OPTIONS fuse3 = (if fuse3 then ''allow_other,blkdev,default_permissions'' else ''allow_other,big_writes,blkdev,default_permissions'')"

fun opt_loop :: "(nat \<Rightarrow> bool) \<Rightarrow> string \<Rightarrow> string \<Rightarrow> fuse_opt list \<Rightarrow> int + string \<times> string" where
  "opt_loop malloc fuse_options exfat_options [] = Inr (fuse_options, exfat_options)"
| "opt_loop malloc fuse_options exfat_options (Opt_d # opts) =
     (case add_option malloc fuse_options ''debug'' None of
        None \<Rightarrow> Inl 1
      | Some fuse_options \<Rightarrow> opt_loop malloc fuse_options exfat_options opts)"
| "opt_loop malloc fuse_options exfat_options (Opt_n # opts) = opt_loop malloc fuse_options exfat_options opts"
| "opt_loop malloc fuse_options exfat_options (Opt_o optarg # opts) =
     (case add_option malloc exfat_options optarg None of
        None \<Rightarrow> Inl 1
      | Some exfat_options \<Rightarrow>
          (case add_passthrough_fuse_options malloc fuse_options optarg of
             None \<Rightarrow> Inl 1
           | Some fuse_options \<Rightarrow> opt_loop malloc fuse_options exfat_options opts))"
| "opt_loop malloc fuse_options exfat_options (Opt_V # opts) = Inl 0"
| "opt_loop malloc fuse_options exfat_options (Opt_v # opts) = opt_loop malloc fuse_options exfat_options opts"
| "opt_loop malloc fuse_options exfat_options (Opt_other # opts) = Inl 1"

text \<open>\<^verbatim>\<open>main\<close> up to the call of the FUSE library: the exit status, or the volume and the options for the library.\<close>

definition fuse_start ::
    "bool \<Rightarrow> host \<Rightarrow> (string \<Rightarrow> devnode) \<Rightarrow> int \<Rightarrow> string option \<Rightarrow> int \<Rightarrow> fuse_opt list \<Rightarrow> string list \<Rightarrow> (int + exfat \<times> string \<times> string) option" where
  "fuse_start fuse3 host dev_at uid user pagesize opts args =
     (let malloc = h_malloc host; fuse_options = FUSE_OPTIONS fuse3; exfat_options = ''ro_fallback''
      in if \<not> malloc (length fuse_options + 1) \<or> \<not> malloc (length exfat_options + 1) then Some (Inl 1)
         else case opt_loop malloc fuse_options exfat_options opts of
           Inl rc \<Rightarrow> Some (Inl rc)
         | Inr (fuse_options, exfat_options) \<Rightarrow>
             (case args of
                [spec, mount_point] \<Rightarrow> do {
                  (rc, dev, ef) \<leftarrow> exfat_mount host (dev_at spec) exfat_options;
                  if rc \<noteq> 0 then Some (Inl 1)
                  else do {
                    ef \<leftarrow> ef;
                    (case add_fuse_options malloc ef uid user pagesize fuse_options spec (ef_ro ef \<noteq> 0) of
                       None \<Rightarrow> do { dev \<leftarrow> exfat_unmount ef; Some (Inl 1) }
                     | Some fuse_options \<Rightarrow> Some (Inr (ef, fuse_options, mount_point)))
                  }
                }
              | _ \<Rightarrow> Some (Inl 1)))"

section \<open>Reading the options\<close>

text \<open>The value of an option up to the first comma that is not escaped, as the FUSE library documents it.\<close>

fun unescape :: "string \<Rightarrow> string" where
  "unescape [] = []"
| "unescape (c # cs) =
     (if c = CHR '','' then []
      else if c = CHR 0x5c then (case cs of [] \<Rightarrow> [] | d # ds \<Rightarrow> d # unescape ds)
      else c # unescape cs)"

theorem escape_roundtrip: "unescape (escape spec @ CHR '','' # rest) = spec"
  by (induction spec rule: escape.induct) auto

lemma escape_length: "length (escape spec) \<le> 2 * length spec"
  by (induction spec rule: escape.induct) auto

end
