(* ===== verification/FuseFacts.thy ===== *)
theory FuseFacts
  imports Fuse Resolve
begin

text \<open>
  What the FUSE front end answers about a tree of cached directories: the attributes of a path and the entries of a directory.
\<close>

section \<open>References do not matter\<close>

lemma stat_refs [simp]: "exfat_stat (pin ef a) n = exfat_stat ef n" "exfat_stat ef (n\<lparr>n_references := r\<rparr>) = exfat_stat ef n"
  by (simp_all add: exfat_stat_def is_dir_def pin_def)

section \<open>The entries\<close>

definition node_at :: "exfat \<Rightarrow> addr \<Rightarrow> exfat_node" where
  "node_at ef a = the (ef_nodes ef a)"

definition name_converts :: "exfat \<Rightarrow> addr \<Rightarrow> bool" where
  "name_converts ef a \<longleftrightarrow> exfat_get_name (node_at ef a) \<noteq> None"

definition filled_entry :: "exfat \<Rightarrow> addr \<Rightarrow> filled" where
  "filled_entry ef a = (takeWhile (\<lambda>b. b \<noteq> 0) (the (exfat_get_name (node_at ef a))), Some (exfat_stat ef (node_at ef a)))"

lemma readdir_loop_lists:
  assumes "children ef d xs" "list_all (\<lambda>x. quiet (node_at ef x)) xs" "i \<le> length xs"
  shows "fuse_readdir_loop ef \<lparr>it_parent = Some d, it_current = current_at xs i\<rparr> =
    (if list_all (name_converts ef) (drop i xs) then Some (map (filled_entry ef) (drop i xs), \<lparr>it_parent = Some d, it_current = None\<rparr>, ef) else None)"
  using assms(3)
proof (induction "length xs - i" arbitrary: i)
  case 0
  then have "i = length xs" by simp
  then show ?case using readdir_end [OF assms(1)] by (subst fuse_readdir_loop.simps) simp
next
  case (Suc k)
  then have i: "i < length xs" by simp
  obtain n where n: "ef_nodes ef (xs ! i) = Some n" using assms(1) i by (auto simp: children_def)
  have q: "quiet n" using assms(2) i n by (auto simp: list_all_length node_at_def)
  have nd: "ef_nodes (pin ef (xs ! i)) (xs ! i) = Some (n\<lparr>n_references := n_references n + 1\<rparr>)" using n by (simp add: pin_node)
  have dr: "drop i xs = xs ! i # drop (Suc i) xs" using i by (simp add: Cons_nth_drop_Suc)
  have "k = length xs - Suc i" "Suc i \<le> length xs" using Suc(2) i by simp_all
  note IH = Suc(1) [OF this]
  show ?case
    using readdir_at [OF assms(1) i] nd put_node_pin [OF n q] IH n unfolding dr
    by (subst fuse_readdir_loop.simps) (auto simp: exfat_get_name_refs name_converts_def filled_entry_def node_at_def)
qed

text \<open>The three outcomes of a walk.\<close>

lemma walk_cases:
  obtains (none) "walk ef kids d cs = None" | (err) rc where "walk ef kids d cs = Some (Inl rc)" "rc \<noteq> 0" | (found) a where "walk ef kids d cs = Some (Inr a)"
  using walk_error [of ef kids d cs] by (metis option.exhaust sum.exhaust)

section \<open>Properties\<close>

text \<open>
  The attributes of a path: those of the node that the walk along its components leads to, or the error of the walk; nothing is changed.
\<close>

theorem fuse_getattr_correct:
  assumes "cached_tree ef kids" "ef_root ef \<in> dom (ef_nodes ef)"
  shows "fuse_exfat_getattr ef path =
    (case walk ef kids (ef_root ef) (path_comps path) of
       None \<Rightarrow> None
     | Some (Inl rc) \<Rightarrow> Some (rc, None, ef)
     | Some (Inr a) \<Rightarrow> Some (0, Some (exfat_stat ef (node_at ef a)), ef))"
proof (cases rule: walk_cases [of ef kids "ef_root ef" "path_comps path"])
  case (found a)
  then obtain n where n: "ef_nodes ef a = Some n" using walk_node [OF assms(1) _ assms(2)] by blast
  have "quiet n" using tree_node [OF assms(1) n] by blast
  then show ?thesis
    using found n put_node_pin [OF n] by (simp add: fuse_exfat_getattr_def lookup_walks [OF assms] lookup_result_def pin_node node_at_def Let_def)
qed (simp_all add: fuse_exfat_getattr_def lookup_walks [OF assms] lookup_result_def)

text \<open>
  C11: reading a directory.  The entries are the two dots and then every child of the directory, once and in order, with its name and its
  attributes, and nothing is changed; a path that leads to a file is refused.  There is no result, that is \<^verbatim>\<open>exfat_bug\<close> ends the file system,
  exactly if the path leads through a file or one of the names in the directory does not convert.
\<close>

theorem fuse_readdir_lists:
  assumes "cached_tree ef kids" "ef_root ef \<in> dom (ef_nodes ef)"
  shows "fuse_exfat_readdir ef path =
    (case walk ef kids (ef_root ef) (path_comps path) of
       None \<Rightarrow> None
     | Some (Inl rc) \<Rightarrow> Some (rc, [], ef)
     | Some (Inr a) \<Rightarrow>
         if \<not> is_dir (node_at ef a) then Some (- ENOTDIR, [], ef)
         else if list_all (name_converts ef) (the (kids a))
         then Some (0, ([0x2e], None) # ([0x2e, 0x2e], None) # map (filled_entry ef) (the (kids a)), ef)
         else None)"
proof (cases rule: walk_cases [of ef kids "ef_root ef" "path_comps path"])
  case (found a)
  then obtain n where n: "ef_nodes ef a = Some n" using walk_node [OF assms(1) _ assms(2)] by blast
  have q: "quiet n" using tree_node [OF assms(1) n] by blast
  have pn: "ef_nodes (pin ef a) a = Some (n\<lparr>n_references := n_references n + 1\<rparr>)" using n by (simp add: pin_node)
  have qp: "quiet (n\<lparr>n_references := n_references n + 1\<rparr>)" using q by (auto simp: quiet_def exfat_get_name_refs)
  note look = lookup_walks [OF assms, of path] and put = put_node_pin [OF n q] put_node_pin [OF pn qp]
  show ?thesis
  proof (cases "is_dir n")
    case False
    then show ?thesis using found n pn put(1) by (simp add: fuse_exfat_readdir_def look lookup_result_def node_at_def is_dir_def)
  next
    case True
    then obtain xs where xs: "kids a = Some xs" "n_is_cached n" "children ef a xs"
      using tree_file [OF assms(1) n] tree_dir [OF assms(1) n] by (cases "kids a") auto
    let ?e = "pin (pin ef a) a"
    have op: "exfat_opendir (pin ef a) a = Some (0, \<lparr>it_parent = Some a, it_current = current_at xs 0\<rparr>, ?e)"
      using xs(2) n by (simp add: exfat_opendir_def get_node_pin [OF pn] exfat_cache_directory_def current_at_def pin_node Let_def)
    have x: "x \<noteq> a \<and> (\<exists>m. ef_nodes ef x = Some m \<and> quiet m)" if "x \<in> set xs" for x
      using that xs(3) tree_node [OF assms(1)] by (auto simp: children_def in_set_conv_nth)
    then have same: "node_at ?e x = node_at ef x" "quiet (node_at ?e x)" if "x \<in> set xs" for x
      using that by (fastforce simp: node_at_def pin_node)+
    have "children ?e a xs" using xs(3) by simp
    then have "fuse_readdir_loop ?e \<lparr>it_parent = Some a, it_current = current_at xs 0\<rparr> =
      (if list_all (name_converts ?e) xs then Some (map (filled_entry ?e) xs, \<lparr>it_parent = Some a, it_current = None\<rparr>, ?e) else None)"
      using readdir_loop_lists [of ?e a xs 0] same(2) by (simp add: list_all_iff)
    moreover have "list_all (name_converts ?e) xs = list_all (name_converts ef) xs" "map (filled_entry ?e) xs = map (filled_entry ef) xs"
      using same(1) by (auto simp: list_all_iff name_converts_def filled_entry_def)
    ultimately show ?thesis
      using found n pn True xs(1) op put
      by (simp add: fuse_exfat_readdir_def look lookup_result_def node_at_def is_dir_def exfat_closedir_def)
  qed
qed (simp_all add: fuse_exfat_readdir_def lookup_walks [OF assms] lookup_result_def)

end
