(* ===== verification/Tools.thy ===== *)
theory Tools
  imports Mount
begin

text \<open>
  The command line tools: checking (\<^verbatim>\<open>fsck/main.c\<close>), attributes (\<^verbatim>\<open>attrib/main.c\<close>), the label (\<^verbatim>\<open>label/main.c\<close>) and dumping
  (\<^verbatim>\<open>dump/main.c\<close>).  What is printed is left out where it has no effect on the rest; the parsing of the command line by \<^verbatim>\<open>getopt\<close> is
  left out as well.
\<close>

section \<open>Checking\<close>

text \<open>\<open>clusters\<close> is what is left of the loop counter.\<close>

fun nodeck_loop :: "exfat \<Rightarrow> exfat_node \<Rightarrow> nat \<Rightarrow> cluster_t \<Rightarrow> int \<Rightarrow> int option" where
  "nodeck_loop ef node 0 c rc = Some rc"
| "nodeck_loop ef node (Suc clusters) c rc =
     (if CLUSTER_INVALID (ef_sb ef) c then do { name \<leftarrow> exfat_get_name node; Some 1 }
      else do {
        rc \<leftarrow> (if BMAP_GET (cm_chunk (ef_cmap ef)) (unat (c - EXFAT_FIRST_DATA_CLUSTER)) = 0
               then do { name \<leftarrow> exfat_get_name node; Some 1 } else Some rc);
        c \<leftarrow> exfat_next_cluster ef node c;
        nodeck_loop ef node clusters c rc
      })"

definition nodeck :: "exfat \<Rightarrow> exfat_node \<Rightarrow> int option" where
  "nodeck ef node =
     (let cluster_size = (of_nat (CLUSTER_SIZE (ef_sb ef)) :: u32);
          clusters = (ucast (DIV_ROUND_UP (n_size node) (ucast cluster_size)) :: u32)
      in nodeck_loop ef node (unat clusters) (n_start_cluster node) 0)"

text \<open>
  The two counters are the number of files and of directories.  \<open>Enter path\<close> is a call of \<^verbatim>\<open>dirck\<close>; \<open>Go_on path parent it\<close> is its loop,
  in the directory \<open>parent\<close> at \<open>it\<close>, and what follows the loop.
\<close>

datatype dirck_at = Enter "u8 list" | Go_on "u8 list" addr exfat_iterator

type_synonym counts = "u64 \<times> u64"

partial_function (option) dirck_run :: "exfat \<Rightarrow> counts \<Rightarrow> dirck_at \<Rightarrow> (counts \<times> exfat) option" where
  "dirck_run ef counts p =
     (case p of
        Enter path \<Rightarrow> do {
          (rc, parent, ef) \<leftarrow> exfat_lookup ef path;
          if rc \<noteq> 0 then None
          else do {
            a \<leftarrow> parent;
            n \<leftarrow> ef_nodes ef a;
            if \<not> is_dir n then None
            else do {
              rc \<leftarrow> nodeck ef n;
              if rc \<noteq> 0 \<or> \<not> h_malloc (ef_host ef) (length path + 1 + EXFAT_UTF8_NAME_BUFFER_MAX)
              then do { ef \<leftarrow> exfat_put_node ef a; Some (counts, ef) }
              else do {
                (rc, it, ef) \<leftarrow> exfat_opendir ef a;
                if rc \<noteq> 0 then do { ef \<leftarrow> exfat_put_node ef a; Some (counts, ef) }
                else dirck_run ef counts (Go_on path a it)
              }
            }
          }
        }
      | Go_on path a it \<Rightarrow> do {
          (node, it, ef) \<leftarrow> exfat_readdir ef it;
          (case node of
             None \<Rightarrow> do {
               ef \<leftarrow> exfat_closedir ef it;
               (_, ef) \<leftarrow> exfat_flush_node ef a;
               ef \<leftarrow> exfat_put_node ef a;
               Some (counts, ef)
             }
           | Some c \<Rightarrow> do {
               n \<leftarrow> ef_nodes ef c;
               name \<leftarrow> exfat_get_name n;
               let entry_path = path @ 0x2f # takeWhile (\<lambda>b. b \<noteq> 0) name;
               (counts, ef) \<leftarrow>
                 (if is_dir n then dirck_run ef (fst counts, snd counts + 1) (Enter entry_path)
                  else do { _ \<leftarrow> nodeck ef n; Some ((fst counts + 1, snd counts), ef) });
               (_, ef) \<leftarrow> exfat_flush_node ef c;
               ef \<leftarrow> exfat_put_node ef c;
               dirck_run ef counts (Go_on path a it)
             })
        })"

definition dirck :: "exfat \<Rightarrow> counts \<Rightarrow> u8 list \<Rightarrow> (counts \<times> exfat) option" where
  "dirck ef counts path = dirck_run ef counts (Enter path)"

text \<open>Whether checking has started, the numbers of files and directories if it has finished, and the device afterwards.\<close>

definition fsck :: "host \<Rightarrow> devnode \<Rightarrow> string \<Rightarrow> (bool \<times> counts option \<times> exfat_dev option) option" where
  "fsck host spec options =
     do {
       (rc, dev, ef) \<leftarrow> exfat_mount host spec options;
       if rc = - ENODEV then Some (False, None, dev)
       else if rc \<noteq> 0 then Some (True, None, dev)
       else do {
         ef \<leftarrow> ef;
         info \<leftarrow> exfat_print_info (ef_sb ef) (exfat_count_free_clusters ef);
         let ef = snd (exfat_soil_super_block ef);
         (counts, ef) \<leftarrow> dirck ef (0, 0) [];
         dev \<leftarrow> exfat_unmount ef;
         Some (True, Some counts, Some dev)
       }
     }"

section \<open>Attributes\<close>

text \<open>The flags that are shown, in the order of the output, are the second part of the result; none if attributes are set.\<close>

definition SHOWN_ATTRIBS :: "u16 list" where
  "SHOWN_ATTRIBS = [EXFAT_ATTRIB_RO, EXFAT_ATTRIB_HIDDEN, EXFAT_ATTRIB_SYSTEM, EXFAT_ATTRIB_ARCH, EXFAT_ATTRIB_VOLUME, EXFAT_ATTRIB_DIR]"

definition attribute :: "exfat \<Rightarrow> addr \<Rightarrow> u16 \<Rightarrow> u16 \<Rightarrow> (int \<times> bool list \<times> exfat) option" where
  "attribute ef a add_flags clear_flags =
     do {
       node \<leftarrow> ef_nodes ef a;
       if add_flags OR clear_flags \<noteq> 0 then do {
         let attrib = (n_attrib node OR add_flags) AND NOT clear_flags;
         if n_attrib node \<noteq> attrib then do {
           (ret, ef) \<leftarrow> exfat_flush_node (set_node ef a (node\<lparr>n_attrib := attrib, n_is_dirty := True\<rparr>)) a;
           if ret \<noteq> 0 then do { node \<leftarrow> ef_nodes ef a; name \<leftarrow> exfat_get_name node; Some (1, [], ef) }
           else Some (0, [], ef)
         }
         else Some (0, [], ef)
       }
       else Some (0, map (\<lambda>f. n_attrib node AND f \<noteq> 0) SHOWN_ATTRIBS, ef)
     }"

definition attrib_main :: "host \<Rightarrow> devnode \<Rightarrow> u8 list \<Rightarrow> u16 \<Rightarrow> u16 \<Rightarrow> (int \<times> bool list \<times> exfat_dev option) option" where
  "attrib_main host spec file_path add_flags clear_flags =
     (if add_flags AND clear_flags \<noteq> 0 then Some (1, [], None)
      else do {
        (ret, dev, ef) \<leftarrow> exfat_mount host spec (if add_flags OR clear_flags = 0 then ''ro'' else []);
        if ret \<noteq> 0 then Some (1, [], dev)
        else do {
          ef \<leftarrow> ef;
          (ret, node, ef) \<leftarrow> exfat_lookup ef file_path;
          if ret \<noteq> 0 then do { dev \<leftarrow> exfat_unmount ef; Some (1, [], Some dev) }
          else do {
            a \<leftarrow> node;
            (ret, shown, ef) \<leftarrow> attribute ef a add_flags clear_flags;
            ef \<leftarrow> exfat_put_node ef a;
            dev \<leftarrow> exfat_unmount ef;
            Some (ret, shown, Some dev)
          }
        }
      })"

section \<open>The label\<close>

text \<open>With a label to set, or without one to show it; the exit status, the label that is printed and the device.\<close>

definition label_main :: "host \<Rightarrow> devnode \<Rightarrow> u8 list option \<Rightarrow> (int \<times> u8 list option \<times> exfat_dev option) option" where
  "label_main host spec label =
     do {
       (rc, dev, ef) \<leftarrow> exfat_mount host spec (case label of Some _ \<Rightarrow> [] | None \<Rightarrow> ''ro'');
       if rc \<noteq> 0 then Some (1, None, dev)
       else do {
         ef \<leftarrow> ef;
         (case label of
            Some label \<Rightarrow> do {
              (rc, ef) \<leftarrow> exfat_set_label ef label;
              dev \<leftarrow> exfat_unmount ef;
              Some (if rc \<noteq> 0 then 1 else 0, None, Some dev)
            }
          | None \<Rightarrow> do {
              dev \<leftarrow> exfat_unmount ef;
              Some (0, Some (exfat_get_label ef), Some dev)
            })
       }
     }"

section \<open>Dumping\<close>

text \<open>The super block of a device, without mounting: \<open>None\<close> if it cannot be opened or read, or is not an exFAT volume.\<close>

definition dump_sb :: "host \<Rightarrow> devnode \<Rightarrow> exfat_super_block option" where
  "dump_sb host spec =
     (case exfat_open spec EXFAT_MODE_RO of
        None \<Rightarrow> None
      | Some dev \<Rightarrow>
          let (n, bytes, dev) = exfat_read dev (map (h_garbage host) [0..<512]) 512; sb = sb_of_bytes bytes
          in if n < 0 then None else if sb_oem_name sb \<noteq> EXFAT_OEM_NAME then None else Some sb)"

partial_function (option) dump_sectors :: "exfat \<Rightarrow> off_t \<Rightarrow> off_t \<Rightarrow> (off_t \<times> off_t) list option" where
  "dump_sectors ef a b =
     do {
       r \<leftarrow> exfat_find_used_sectors ef a b;
       (case r of
          None \<Rightarrow> Some []
        | Some (a, b) \<Rightarrow> do { rest \<leftarrow> dump_sectors ef a b; Some ((a, b) # rest) })
     }"

text \<open>The numbers that are shown besides the super block.\<close>

record volume_dump =
  vd_label :: "u8 list"
  vd_sb :: exfat_super_block
  vd_free_sectors :: u64
  vd_free_clusters :: u32
  vd_used_sectors :: "(off_t \<times> off_t) list"

definition dump_full :: "host \<Rightarrow> devnode \<Rightarrow> bool \<Rightarrow> (volume_dump + int) option" where
  "dump_full host spec used_sectors =
     do {
       (rc, dev, ef) \<leftarrow> exfat_mount host spec ''ro'';
       if rc \<noteq> 0 then Some (Inr 1)
       else do {
         ef \<leftarrow> ef;
         let free_clusters = exfat_count_free_clusters ef;
         let free_sectors = (push_bit (unat (sb_spc_bits (ef_sb ef))) (ucast free_clusters) :: u64);
         used \<leftarrow> (if used_sectors then dump_sectors ef 0 0 else Some []);
         dev \<leftarrow> exfat_unmount ef;
         Some (Inl \<lparr>vd_label = exfat_get_label ef, vd_sb = ef_sb ef, vd_free_sectors = free_sectors, vd_free_clusters = free_clusters,
                     vd_used_sectors = used\<rparr>)
       }
     }"

text \<open>The fragments of a file, each with its offset on the device and its size, and the return code.\<close>

function fragments_loop :: "exfat \<Rightarrow> exfat_node \<Rightarrow> cluster_t \<Rightarrow> cluster_t \<Rightarrow> off_t \<Rightarrow> off_t \<Rightarrow> ((off_t \<times> off_t) list \<times> int) option" where
  "fragments_loop ef node cluster fragment_start_cluster remainder fragment_size =
     (if remainder \<le> 0 then Some ([], 0)
      else if CLUSTER_INVALID (ef_sb ef) cluster then Some ([], 1)
      else do {
        let lsize = min (int (CLUSTER_SIZE (ef_sb ef))) remainder;
        let fragment_size = fragment_size + lsize;
        let remainder = remainder - lsize;
        next_cluster \<leftarrow> exfat_next_cluster ef node cluster;
        if next_cluster \<noteq> cluster + 1 \<or> remainder = 0 then do {
          off \<leftarrow> exfat_c2o ef fragment_start_cluster;
          (fragments, rc) \<leftarrow> fragments_loop ef node next_cluster next_cluster remainder 0;
          Some ((off, fragment_size) # fragments, rc)
        }
        else fragments_loop ef node next_cluster fragment_start_cluster remainder fragment_size
      })"
  by pat_completeness auto
termination
  by (relation "measure (\<lambda>(ef, node, cluster, start, remainder, sz). nat remainder)") (auto simp: CLUSTER_SIZE_def min_def)

declare fragments_loop.simps [simp del]

definition dump_file_fragments :: "host \<Rightarrow> devnode \<Rightarrow> u8 list \<Rightarrow> (int \<times> (off_t \<times> off_t) list) option" where
  "dump_file_fragments host spec path =
     do {
       (rc, dev, ef) \<leftarrow> exfat_mount host spec ''ro'';
       if rc \<noteq> 0 then Some (1, [])
       else do {
         ef \<leftarrow> ef;
         (rc, node, ef) \<leftarrow> exfat_lookup ef path;
         if rc \<noteq> 0 then do { dev \<leftarrow> exfat_unmount ef; Some (1, []) }
         else do {
           a \<leftarrow> node;
           n \<leftarrow> ef_nodes ef a;
           (fragments, rc) \<leftarrow> fragments_loop ef n (n_start_cluster n) (n_start_cluster n) (sint (n_size n)) 0;
           ef \<leftarrow> exfat_put_node ef a;
           dev \<leftarrow> exfat_unmount ef;
           Some (rc, fragments)
         }
       }
     }"

end
