(* ===== verification/ToolsFacts.thy ===== *)
theory ToolsFacts
  imports Tools Resolve
begin

text \<open>What the command line tools find out about a file: whether its clusters are in order, and where its bytes are.\<close>

section \<open>Checking the clusters of a node\<close>

text \<open>\<open>good_chain ef node k c\<close>: the \<open>k\<close> clusters of the node from \<open>c\<close> on are clusters of the volume and marked as allocated.\<close>

fun good_chain :: "exfat \<Rightarrow> exfat_node \<Rightarrow> nat \<Rightarrow> cluster_t \<Rightarrow> bool" where
  "good_chain ef node 0 c \<longleftrightarrow> True"
| "good_chain ef node (Suc k) c \<longleftrightarrow> valid ef c \<and> alloc ef c \<and> good_chain ef node k (succ_of ef node c)"

lemma alloc_bit: "valid ef c \<Longrightarrow> BMAP_GET (cm_chunk (ef_cmap ef)) (unat (c - EXFAT_FIRST_DATA_CLUSTER)) = 0 \<longleftrightarrow> \<not> alloc ef c"
proof -
  assume "valid ef c"
  then have "2 \<le> unat c" unfolding valid_unat by simp
  then have "unat (c - EXFAT_FIRST_DATA_CLUSTER) = unat c - 2"
    by (simp add: EXFAT_FIRST_DATA_CLUSTER_def unat_sub word_le_nat_alt)
  then show ?thesis by (simp add: alloc_def BMAP_GET_eq_0)
qed

lemma nodeck_loop_correct:
  "vol_ok ef \<Longrightarrow> exfat_get_name node \<noteq> None \<Longrightarrow> rc = 0 \<or> rc = 1 \<Longrightarrow>
     nodeck_loop ef node k c rc = Some (if rc = 0 \<and> good_chain ef node k c then 0 else 1)"
proof (induction k arbitrary: c rc)
  case (Suc k)
  then show ?case
    using next_cluster_eq [OF Suc.prems(1), of c node] alloc_bit [of ef c] Suc.IH [of 0 "succ_of ef node c"] Suc.IH [of 1 "succ_of ef node c"]
    by auto
qed auto

theorem nodeck_correct:
  assumes "vol_ok ef" "exfat_get_name node \<noteq> None" "geometry_ok (ef_sb ef)" "DIV_ROUND_UP (unat (n_size node)) (CLUSTER_SIZE (ef_sb ef)) < 2 ^ 32"
  shows "nodeck ef node =
    Some (if good_chain ef node (DIV_ROUND_UP (unat (n_size node)) (CLUSTER_SIZE (ef_sb ef))) (n_start_cluster node) then 0 else 1)"
proof -
  have "(ucast (of_nat (CLUSTER_SIZE (ef_sb ef)) :: u32) :: u64) = of_nat (CLUSTER_SIZE (ef_sb ef))"
  proof -
    have "CLUSTER_SIZE (ef_sb ef) < 2 ^ 32" using assms(3) power_strict_increasing [of "unat (sb_sector_bits (ef_sb ef)) + unat (sb_spc_bits (ef_sb ef))" 32 "2 :: nat"]
      by (simp add: CLUSTER_SIZE_def SECTOR_SIZE_def power_add geometry_ok_def)
    then have "unat (ucast (of_nat (CLUSTER_SIZE (ef_sb ef)) :: u32) :: u64) = unat (of_nat (CLUSTER_SIZE (ef_sb ef)) :: u64)"
      by (simp add: unsigned_ucast_eq unat_of_nat take_bit_nat_eq_self)
    then show ?thesis by (simp add: word_unat_eq_iff)
  qed
  then have "unat (ucast (DIV_ROUND_UP (n_size node) (ucast (of_nat (CLUSTER_SIZE (ef_sb ef)) :: u32))) :: u32) =
      unat (bytes2clusters ef (n_size node))"
    by (simp add: bytes2clusters_def)
  also have "\<dots> = DIV_ROUND_UP (unat (n_size node)) (CLUSTER_SIZE (ef_sb ef))" by (rule bytes2clusters_eq [OF assms(3,4)])
  finally show ?thesis using nodeck_loop_correct [OF assms(1,2)] by (simp add: nodeck_def Let_def)
qed

section \<open>The fragments of a file\<close>

lemma sint_small: "unat x < 2 ^ 63 \<Longrightarrow> sint x = int (unat x)" for x :: u64
proof -
  assume "unat x < 2 ^ 63"
  then have "uint x < 2 ^ 63" unfolding uint_nat by (metis of_nat_less_iff of_nat_numeral of_nat_power)
  moreover have "- (2 ^ 63) \<le> uint x" by (rule order_trans [OF _ uint_ge_0]) simp
  ultimately have "signed_take_bit 63 (uint x) = uint x" by (intro signed_take_bit_int_eq_self)
  moreover have "LENGTH(64) - Suc 0 = 63" by simp
  ultimately show ?thesis using sint_uint [of x] by (metis uint_nat)
qed

text \<open>The bytes of the device that fragments stand for.\<close>

definition fragment_bytes :: "exfat \<Rightarrow> (off_t \<times> off_t) list \<Rightarrow> u8 list" where
  "fragment_bytes ef fs = concat (map (\<lambda>(off, n). map (dev_data (ef_dev ef)) [nat off..<nat off + nat n]) fs)"

lemma fragment_bytes_simps [simp]:
  "fragment_bytes ef [] = []"
  "fragment_bytes ef ((int off, int n) # fs) = map (dev_data (ef_dev ef)) [off..<off + n] @ fragment_bytes ef fs"
  by (simp_all add: fragment_bytes_def)

text \<open>The clusters from \<open>j\<close> to \<open>i\<close> follow one another on the device.\<close>

definition run_of :: "cluster_t list \<Rightarrow> nat \<Rightarrow> nat \<Rightarrow> bool" where
  "run_of cs j i \<longleftrightarrow> j \<le> i \<and> i < length cs \<and> (\<forall>k. j \<le> k \<and> k \<le> i \<longrightarrow> unat (cs ! k) = unat (cs ! j) + (k - j))"

lemma run_ofD: "run_of cs j i \<Longrightarrow> j \<le> k \<Longrightarrow> k \<le> i \<Longrightarrow> unat (cs ! k) = unat (cs ! j) + (k - j)"
  unfolding run_of_def by blast

lemma run_of_le: "run_of cs j i \<Longrightarrow> j \<le> i" "run_of cs j i \<Longrightarrow> i < length cs"
  unfolding run_of_def by blast+

lemma cluster_off_plus:
  assumes "unat d = unat c + q" "2 \<le> unat c"
  shows "cluster_off ef d = cluster_off ef c + q * CLUSTER_SIZE (ef_sb ef)"
proof -
  have "unat d - 2 = (unat c - 2) + q" using assms by simp
  then show ?thesis by (simp only: cluster_off_def add_mult_distrib add.assoc)
qed

lemma run_bytes:
  assumes "run_of cs j i" "2 \<le> unat (cs ! j)" "n \<le> (i - j + 1) * CLUSTER_SIZE (ef_sb ef)"
  shows "map (dev_data (ef_dev ef)) [cluster_off ef (cs ! j)..<cluster_off ef (cs ! j) + n] =
    map (file_byte ef cs) [j * CLUSTER_SIZE (ef_sb ef)..<j * CLUSTER_SIZE (ef_sb ef) + n]"
proof (rule nth_equalityI)
  fix t
  let ?s = "CLUSTER_SIZE (ef_sb ef)"
  assume "t < length (map (dev_data (ef_dev ef)) [cluster_off ef (cs ! j)..<cluster_off ef (cs ! j) + n])"
  then have t: "t < n" by simp
  have d: "(j * ?s + t) div ?s = j + t div ?s" "(j * ?s + t) mod ?s = t mod ?s" by simp_all
  have "t div ?s < i - j + 1" using t assms(3) by (simp add: less_mult_imp_div_less)
  then have "unat (cs ! (j + t div ?s)) = unat (cs ! j) + t div ?s" using run_ofD [OF assms(1), of "j + t div ?s"] run_of_le [OF assms(1)] by simp
  then have "cluster_off ef (cs ! (j + t div ?s)) = cluster_off ef (cs ! j) + t div ?s * ?s" by (rule cluster_off_plus [OF _ assms(2)])
  then have "cluster_off ef (cs ! (j + t div ?s)) + t mod ?s = cluster_off ef (cs ! j) + t" by (simp only: add.assoc div_mult_mod_eq)
  then have "file_byte ef cs (j * ?s + t) = dev_data (ef_dev ef) (cluster_off ef (cs ! j) + t)" by (simp only: file_byte_def d)
  then show "map (dev_data (ef_dev ef)) [cluster_off ef (cs ! j)..<cluster_off ef (cs ! j) + n] ! t =
    map (file_byte ef cs) [j * ?s..<j * ?s + n] ! t"
    using t by simp
qed simp

lemma valid_plus_1: "valid ef (c + 1) \<Longrightarrow> unat c + 1 < 2 ^ 32"
proof (rule ccontr)
  assume v: "valid ef (c + 1)" and "\<not> unat c + 1 < 2 ^ 32"
  then have "unat c = 2 ^ 32 - 1" using unsigned_less [of c, where 'a = nat] by simp
  then have "unat (c + 1) = 0" by (simp add: unat_word_ariths)
  then show False using v by (simp add: valid_unat)
qed

lemma run_step:
  assumes "run_of cs j i" "Suc i < length cs" "cs ! Suc i = cs ! i + 1" "unat (cs ! i) + 1 < 2 ^ 32"
  shows "run_of cs j (Suc i)"
proof -
  have "unat (cs ! Suc i) = unat (cs ! i) + 1" using assms(3,4) by (simp add: unat_word_ariths)
  moreover have ji: "unat (cs ! i) = unat (cs ! j) + (i - j)" "j \<le> i" using run_ofD [OF assms(1), of i] run_of_le [OF assms(1)] by blast+
  ultimately have top: "unat (cs ! Suc i) = unat (cs ! j) + (Suc i - j)" by (simp add: Suc_diff_le)
  have "unat (cs ! k) = unat (cs ! j) + (k - j)" if "j \<le> k" "k \<le> Suc i" for k
    using that top run_ofD [OF assms(1), of k] by (metis le_SucE)
  then show ?thesis using ji(2) assms(2) unfolding run_of_def by (meson le_SucI)
qed

lemma fragment_last:
  assumes "vol_ok ef" "valid ef c" "valid ef st" "0 < rem" "rem \<le> int (CLUSTER_SIZE (ef_sb ef))"
  shows "fragments_loop ef node c st rem sz = Some ([(int (cluster_off ef st), sz + rem)], 0)"
  using assms(2,4,5)
  by (subst fragments_loop.simps) (simp add: next_cluster_eq [OF assms(1,2)] c2o_eq [OF assms(3)] fragments_loop.simps [where remainder = 0])

lemma fragment_next:
  assumes "vol_ok ef" "valid ef c" "valid ef st" "int (CLUSTER_SIZE (ef_sb ef)) < rem"
  shows "fragments_loop ef node c st rem sz =
    (let d = succ_of ef node c; s = int (CLUSTER_SIZE (ef_sb ef))
     in if d = c + 1 then fragments_loop ef node d st (rem - s) (sz + s)
        else map_option (\<lambda>(fs, rc). ((int (cluster_off ef st), sz + s) # fs, rc)) (fragments_loop ef node d d (rem - s) 0))"
  using assms(2,4)
  by (subst fragments_loop.simps) (auto simp: next_cluster_eq [OF assms(1,2)] c2o_eq [OF assms(3)] Let_def map_option_case split: option.splits)

lemma fragments_loop_correct:
  assumes "vol_ok ef" "owns ef node cs" "length cs = DIV_ROUND_UP m (CLUSTER_SIZE (ef_sb ef))"
    and "run_of cs j i"
  shows "\<exists>fs. fragments_loop ef node (cs ! i) (cs ! j) (int m - int (i * CLUSTER_SIZE (ef_sb ef))) (int ((i - j) * CLUSTER_SIZE (ef_sb ef))) = Some (fs, 0) \<and>
    fragment_bytes ef fs = map (file_byte ef cs) [j * CLUSTER_SIZE (ef_sb ef)..<m]"
  using assms(4)
proof (induction "length cs - i" arbitrary: i j rule: less_induct)
  case less
  let ?s = "CLUSTER_SIZE (ef_sb ef)"
  have s0: "0 < ?s" by (simp add: CLUSTER_SIZE_def SECTOR_SIZE_def)
  have ij: "j \<le> i" "i < length cs" using run_of_le [OF less(2)] by blast+
  have v: "valid ef (cs ! i)" "valid ef (cs ! j)" using assms(2) ij by (auto simp: owns_def)
  have in_file: "k < length cs \<longleftrightarrow> k * ?s < m" for k
    using assms(3) s0 by (cases m) (auto simp: DIV_ROUND_UP_nat less_Suc_eq_le less_eq_div_iff_mult_less_eq)
  have im: "i * ?s < m" using ij in_file by blast
  have js: "j * ?s \<le> i * ?s" using ij by simp
  have sz: "int ((i - j) * ?s) = int (i * ?s) - int (j * ?s)" using ij by (simp add: diff_mult_distrib of_nat_diff)
  have v2: "2 \<le> unat (cs ! j)" using v(2) by (simp add: valid_unat)
  show ?case
  proof (cases "Suc i < length cs")
    case False
    then have le: "m \<le> Suc i * ?s" using in_file [of "Suc i"] by simp
    have "m - j * ?s \<le> (i - j + 1) * ?s" using le js ij by (simp add: diff_mult_distrib)
    moreover have "j * ?s + (m - j * ?s) = m" by (rule le_add_diff_inverse) (use im js in linarith)
    ultimately have "map (dev_data (ef_dev ef)) [cluster_off ef (cs ! j)..<cluster_off ef (cs ! j) + (m - j * ?s)] = map (file_byte ef cs) [j * ?s..<m]"
      using run_bytes [OF less(2) v2] by metis
    moreover have "int ((i - j) * ?s) + (int m - int (i * ?s)) = int (m - j * ?s)" using sz im js by (simp only: of_nat_diff)
    moreover have "fragments_loop ef node (cs ! i) (cs ! j) (int m - int (i * ?s)) (int ((i - j) * ?s)) =
      Some ([(int (cluster_off ef (cs ! j)), int ((i - j) * ?s) + (int m - int (i * ?s)))], 0)"
      using im le by (intro fragment_last [OF assms(1) v]) (simp_all flip: of_nat_add of_nat_mult)
    ultimately show ?thesis by simp
  next
    case True
    then have lt: "Suc i * ?s < m" using in_file [of "Suc i"] by simp
    have nxt: "succ_of ef node (cs ! i) = cs ! Suc i" using assms(2) True by (auto simp: owns_def successively_conv_nth)
    have "int ?s < int m - int (i * ?s)" using lt by (simp flip: of_nat_add of_nat_mult)
    moreover have "int m - int (i * ?s) - int ?s = int m - int (Suc i * ?s)" by simp
    moreover have "int ((i - j) * ?s) + int ?s = int ((Suc i - j) * ?s)" using ij by (simp add: Suc_diff_le)
    ultimately have go: "fragments_loop ef node (cs ! i) (cs ! j) (int m - int (i * ?s)) (int ((i - j) * ?s)) =
      (if cs ! Suc i = cs ! i + 1 then fragments_loop ef node (cs ! Suc i) (cs ! j) (int m - int (Suc i * ?s)) (int ((Suc i - j) * ?s))
       else map_option (\<lambda>(fs, rc). ((int (cluster_off ef (cs ! j)), int ((Suc i - j) * ?s)) # fs, rc))
              (fragments_loop ef node (cs ! Suc i) (cs ! Suc i) (int m - int (Suc i * ?s)) 0))"
      by (simp only: fragment_next [OF assms(1) v] nxt Let_def)
    have dec: "length cs - Suc i < length cs - i" using True by simp
    show ?thesis
    proof (cases "cs ! Suc i = cs ! i + 1")
      case step: True
      have "valid ef (cs ! i + 1)" using assms(2) True step by (metis nth_mem owns_def)
      then have "unat (cs ! i) + 1 < 2 ^ 32" by (rule valid_plus_1)
      then have "run_of cs j (Suc i)" by (rule run_step [OF less(2) True step])
      from less(1) [OF dec this] show ?thesis by (simp only: go step nxt Let_def refl if_True flip: step)
    next
      case jump: False
      have "run_of cs (Suc i) (Suc i)" using True by (auto simp: run_of_def)
      from less(1) [OF dec this] obtain fs where fs: "fragments_loop ef node (cs ! Suc i) (cs ! Suc i) (int m - int (Suc i * ?s)) 0 = Some (fs, 0)"
        "fragment_bytes ef fs = map (file_byte ef cs) [Suc i * ?s..<m]" by auto
      have "(Suc i - j) * ?s \<le> (i - j + 1) * ?s" using ij by (simp add: Suc_diff_le)
      moreover have "j * ?s + (Suc i - j) * ?s = Suc i * ?s" using ij by (simp flip: add_mult_distrib)
      ultimately have "map (dev_data (ef_dev ef)) [cluster_off ef (cs ! j)..<cluster_off ef (cs ! j) + (Suc i - j) * ?s] = map (file_byte ef cs) [j * ?s..<Suc i * ?s]"
        using run_bytes [OF less(2) v2, of "(Suc i - j) * ?s" ef] by metis
      moreover have "[j * ?s..<m] = [j * ?s..<Suc i * ?s] @ [Suc i * ?s..<m]" using lt js le_add_diff_inverse [of "Suc i * ?s" m] upt_add_eq_append [of "j * ?s" "Suc i * ?s" "m - Suc i * ?s"] mult_le_mono1 [of j "Suc i" ?s] ij by (metis le_SucI less_imp_le)
      moreover have "fragments_loop ef node (cs ! i) (cs ! j) (int m - int (i * ?s)) (int ((i - j) * ?s)) =
        Some ((int (cluster_off ef (cs ! j)), int ((Suc i - j) * ?s)) # fs, 0)"
        unfolding go if_not_P [OF jump] fs(1) by simp
      ultimately show ?thesis using fs(2) by (metis fragment_bytes_simps(2) map_append)
    qed
  qed
qed

text \<open>
  C30: the fragments that are printed for a file.  Read one after the other they are the bytes of the file, from the first to the last, and there
  is no error.
\<close>

theorem fragments_are_the_file:
  assumes "vol_ok ef" "file_ok ef node cs" "unat (n_size node) < 2 ^ 63"
  shows "\<exists>fs. fragments_loop ef node (n_start_cluster node) (n_start_cluster node) (sint (n_size node)) 0 = Some (fs, 0) \<and>
    fragment_bytes ef fs = map (file_byte ef cs) [0..<unat (n_size node)]"
proof -
  have sz: "sint (n_size node) = int (unat (n_size node))" using assms(3) sint_small [of "n_size node"] by simp
  have own: "owns ef node cs" "length cs = DIV_ROUND_UP (unat (n_size node)) (CLUSTER_SIZE (ef_sb ef))" using assms(2) by (auto simp: file_ok_def)
  show ?thesis
  proof (cases cs)
    case Nil
    then have "unat (n_size node) = 0" using own(2) by (auto simp: DIV_ROUND_UP_nat CLUSTER_SIZE_def SECTOR_SIZE_def split: if_splits)
    then show ?thesis using sz by (simp add: fragments_loop.simps)
  next
    case (Cons c cs')
    then have "run_of cs 0 0" "n_start_cluster node = cs ! 0" using own(1) by (auto simp: run_of_def owns_def fptr_ok_def)
    then show ?thesis using fragments_loop_correct [OF assms(1) own, of 0 0] sz by simp
  qed
qed

end
