(* ===== verification/SampleTools.thy ===== *)
theory SampleTools
  imports SampleTree FuseFacts ToolsFacts
begin

text \<open>The FUSE front end and the command line tools on the sample volume.\<close>

text \<open>The root directory of the sample tree has a directory \<^verbatim>\<open>A\<close> with one file \<^verbatim>\<open>C\<close>.\<close>

theorem fuse_readdir_witness:
  "fuse_exfat_readdir tree_ef [0x2f, 0x41] = Some (0, [([0x2e], None), ([0x2e, 0x2e], None), filled_entry tree_ef 3], tree_ef) \<and>
   fst (filled_entry tree_ef 3) = [0x43]"
proof -
  have "exfat_utf16_to_utf8 (0x43 # replicate 255 0) 766 255 = (0, [0x43, 0])" by code_simp
  then have n: "exfat_get_name tree_C = Some [0x43, 0]" by (simp add: exfat_get_name_def tree_C_def name_consts)
  have "path_comps [0x2f, 0x41] = [[0x41]]" by (simp add: path_comps_def)
  then have "walk tree_ef tree_kids (ef_root tree_ef) (path_comps [0x2f, 0x41]) = Some (Inr 1)"
    using tree_find tree_names by (simp add: name_consts tree_kids_def)
  moreover have "is_dir (node_at tree_ef 1)" by (simp add: node_at_def is_dir_def tree_A_def EXFAT_ATTRIB_DIR_def)
  moreover have "ef_root tree_ef \<in> dom (ef_nodes tree_ef)" by simp
  ultimately show ?thesis
    using fuse_readdir_lists [OF tree_cached, of "[0x2f, 0x41]"] n
    by (simp add: tree_kids_def name_converts_def filled_entry_def node_at_def)
qed

text \<open>A contiguous file of two clusters.\<close>

theorem fragments_are_the_file_witness:
  "\<exists>fs. fragments_loop sample_ef sample_node 2 2 (sint (n_size sample_node)) 0 = Some (fs, 0) \<and>
    fragment_bytes sample_ef fs = map (file_byte sample_ef [2, 3]) [0..<700]"
  using fragments_are_the_file [OF sample_vol_ok sample_file_ok] by (simp add: sample_node_def zero_node_def)

end
