(* ===== verification/Spec2Isabelle.thy ===== *)
theory Spec2Isabelle
  imports SampleBoot SampleAmiga Small SampleStream SampleTools
begin

text \<open>
  A verification development for the exFAT implementation under \<^verbatim>\<open>src/\<close>: a library for the file system (\<^verbatim>\<open>libexfat\<close>), a formatter
  (\<^verbatim>\<open>mkfs\<close>), a front end for FUSE (\<^verbatim>\<open>fuse\<close>), command line tools (\<^verbatim>\<open>fsck\<close>, \<^verbatim>\<open>attrib\<close>, \<^verbatim>\<open>label\<close>, \<^verbatim>\<open>dump\<close>), and a file system handler
  for AmigaOS (\<^verbatim>\<open>amiga\<close>) that is linked against the same library.

  \<^bold>\<open>The program.\<close>  The library reads and changes a volume on a block device.  A volume is a boot region with the super block, a table that
  links the clusters of files, and the clusters themselves, in which the root directory, the allocation bitmap and the case table are files like
  others.  \<^verbatim>\<open>io.c\<close> is the access to the device and to the contents of files, \<^verbatim>\<open>cluster.c\<close> the table and the bitmap, \<^verbatim>\<open>node.c\<close> the nodes in memory,
  their reference counts and the entry sets in the directories, \<^verbatim>\<open>lookup.c\<close> the resolution of paths, \<^verbatim>\<open>mount.c\<close> the checks before a volume is
  used.  The front ends turn requests into calls of the library: the FUSE operations work on paths, the AmigaOS handler on packets that name
  locks and open files, of which it keeps lists of its own.  The handler gets at the medium through \<^verbatim>\<open>amiga/dev_io.c\<close> instead of the POSIX
  calls, and finds the volume with \<^verbatim>\<open>amiga/parttable.c\<close>.

  \<^bold>\<open>Conventions.\<close>  Fixed-width integers of the sources are words of that width (\<open>u8\<close> to \<open>u64\<close>), so arithmetic wraps where it wraps in C;
  \<open>off_t\<close>, \<open>time_t\<close> and \<^verbatim>\<open>int\<close> are \<open>int\<close>, cut to their width where the sources can leave it (\<open>c_int\<close>; times are not cut, the properties are about
  those that the format can express), and sizes in memory are \<open>nat\<close>.
  A structure is a record, packed structures have their bytes in both directions.  A function that changes the volume, a node or the state of
  the handler returns the new one.  Error codes are values as in C, negative numbers in the library and error numbers in the replies of the
  handler.  A result in \<open>option\<close> is \<open>None\<close> where the C program has none: \<^verbatim>\<open>exfat_bug\<close>, which ends the process, a pointer to nothing, an
  access outside an array, or a loop that does not end.  So an equation with \<open>Some\<close> says that the function returns.

  Nodes are in a heap of addresses (\<open>ef_nodes\<close>), locks and files of the handler in heaps of their own.  The medium is a function from
  positions to bytes with two predicates that say which transfers fail; these do not change with time.  The current time, the success of
  \<^verbatim>\<open>malloc\<close>, the contents of buffers that have not been initialised and the answers of the user are a record \<open>host\<close>; for the AmigaOS handler
  the decisions of the system are a record as well.  The Exec driver behind \<^verbatim>\<open>amiga/dev_io.c\<close> is a parameter, with its documented behaviour as
  a hypothesis (\<open>driver_laws\<close>) that a driver on a memory card satisfies (\<open>ram_driver\<close>).  The build is that for Linux (LP64, a bitmap of
  64-bit words, without ublio), and for \<^verbatim>\<open>amiga/\<close> that for AmigaOS, where \<^verbatim>\<open>long\<close> has 32 bits.

  \<^bold>\<open>Loops.\<close>  A loop over a structure is a recursive function, one with a decreasing number a \<open>function\<close> with its termination proof, and one
  that depends on the medium or on the links between nodes is a \<open>partial_function\<close> into \<open>option\<close>.  The properties show that these return:
  their conclusions are equations with \<open>Some\<close>, except where a property says which inputs have no result.  Fuel occurs in two places: a scan is the answers to \<open>k\<close>
  requests for the next entry, with \<open>k\<close> greater than the number of entries, and a run of the handler is \<open>k\<close> packets and exchanges of cards with
  \<open>k < 2 ^ 32\<close>, so that the counters of locks and files do not wrap.

  \<^bold>\<open>The library.\<close>
  \<^item> \<open>Prelude\<close> has the types, the error numbers, little-endian fields (\<^verbatim>\<open>byteorder.h\<close>) and windows of lists of bytes.
  \<^item> \<open>OnDisk\<close> has the packed structures of \<^verbatim>\<open>exfatfs.h\<close>, and that reading them is the inverse of storing them.
  \<^item> \<open>Device\<close> is the device part of \<^verbatim>\<open>io.c\<close>.  The locale \<open>byte_device\<close> is the contract, a read returns what was stored last, and is interpreted
    on the POSIX calls.
  \<^item> \<open>Exfat\<close> has the node, the mounted volume and the macros of \<^verbatim>\<open>exfat.h\<close>; \<open>Utf\<close>, \<open>Utils\<close> and \<open>Time\<close> are \<^verbatim>\<open>utf.c\<close>, \<^verbatim>\<open>utils.c\<close> and \<^verbatim>\<open>time.c\<close>:
    the conversion of names and of times are round trips and stay inside their buffers, the checksum notices a changed byte.
  \<^item> \<open>Cluster\<close> is \<^verbatim>\<open>cluster.c\<close>.  \<open>Chain\<close> says what it promises: \<open>owns\<close> is that a file has a given list of clusters, through the table or in
    sequence, and growing and shrinking append to this list or cut it, leave every other file alone and undo themselves when the space runs out.
    The locale \<open>fat_table\<close> is the table as an array.  The search for a free bit, the count of the free clusters and the cached position in
    a chain are compared with their definitions.
  \<^item> \<open>Truncate\<close>, \<open>FileIO\<close> and \<open>FileTrace\<close> are about contents: \<open>contents\<close> is the sequence of bytes of a file, reading returns a window of it,
    writing and truncating change it as they change a sequence, and so do all sequences of such operations (a simulation of the steps
    \<open>file_step\<close>, for files whose bytes are all valid); reads, and writes that end inside the file, cannot fail on a healthy medium
    (\<open>operations_succeed\<close>).
  \<^item> \<open>Node\<close>, \<open>Directory\<close>, \<open>Namespace\<close> are \<^verbatim>\<open>node.c\<close>, \<open>Repair\<close> is \<^verbatim>\<open>repair.c\<close>, \<open>Lookup\<close> is \<^verbatim>\<open>lookup.c\<close>.  \<open>EntrySets\<close> shows what sequences of
    entries are accepted, and that what is created, flushed or renamed is read back as that; a renamed entry set keeps its two first entries but for
    the fields of the name, and loses vendor entries behind the name.  \<open>Links\<close> shows that the doubly linked children of
    a directory are a list, under the contract \<open>child_list\<close>.  \<open>Resolve\<close> shows that resolving a path in a tree of cached directories is a walk
    along its components, and which paths end the process instead.
  \<^item> \<open>Mount\<close> is \<^verbatim>\<open>mount.c\<close>; \<open>MountFacts\<close> has the options, the root directory (its chain is followed to an end on every medium) and the
    percentage in use.
  \<^item> \<open>Mkfs\<close> is \<^verbatim>\<open>mkfs/\<close> and \<^verbatim>\<open>amiga/format.c\<close>.  \<open>Layout\<close> shows that the super block describes the places where the objects of a volume are, and
    \<open>Boot\<close> that the boot region is accepted when it is mounted.

  \<^bold>\<open>The front ends on the host.\<close>
  \<^item> \<open>Fuse\<close> is \<^verbatim>\<open>fuse/main.c\<close>: every operation of the table, and the strings of options.  \<open>FuseFacts\<close> shows that the attributes and the listing
    of a path are those of the node that the walk along the path leads to, without any change of the volume.
  \<^item> \<open>Tools\<close> is \<^verbatim>\<open>fsck\<close>, \<^verbatim>\<open>attrib\<close>, \<^verbatim>\<open>label\<close> and \<^verbatim>\<open>dump\<close>.  \<open>ToolsFacts\<close> shows that the check of a file accepts exactly chains of allocated
    clusters of the volume, and that the fragments that are printed for a file are its bytes.

  \<^bold>\<open>AmigaOS.\<close>
  \<^item> \<open>Small\<close> is \<^verbatim>\<open>small.c\<close>, \<open>AmigaText\<close> and \<open>AmigaTextFacts\<close> are \<^verbatim>\<open>amigaos.c\<close>: division, printing and parsing of numbers, names in the 8-bit
    character set, date stamps.
  \<^item> \<open>AmigaDev\<close> and \<open>AmigaDevFacts\<close> are \<^verbatim>\<open>dev_io.c\<close>: requests at any position are transferred exactly, in blocks and chunks that the driver can
    take, directly or through the block in memory, as long as that block is a true copy of the medium (\<open>coherent\<close>).  It stays one when the driver
    accepts every address, and then the device has the results of the POSIX calls (\<open>device_view_refined\<close>); a read through it, and an exchange of
    the card, can make it wrong (\<open>stale_block\<close>, \<open>held_block_answers\<close>), which only requests of whole blocks never notice.
  \<^item> \<open>PartTable\<close> is \<^verbatim>\<open>parttable.c\<close>: the search returns for every card and every pattern of read errors, except for a GPT with a bad entry size, finds at
    most as many partitions as asked for, and each is exFAT.  The locale \<open>sector_reader\<close> is what it relies on, interpreted on reads with errors.
  \<^item> \<open>AmigaLock\<close>, \<open>Packets\<close> and \<open>Handler\<close> are \<^verbatim>\<open>handler.c\<close> in the order of the file: locks, paths and descriptions of objects; the packets; the
    card, inhibiting, formatting and the loop.  The volume that is mounted goes on with the device it opened; an exchange of the card replaces
    the bytes below it, and leaves the device with the block it has in memory (\<open>hd_held\<close>).  The library below the packets is modelled on the
    POSIX calls, which is right while that block is true; only the comparison of an exchanged card with the volume, \<open>same_volume\<close>, is modelled with it.
  \<^item> \<open>Accounts\<close> shows that the counters and the list of locks are exact after any sequence of packets, \<open>Eject\<close> that a card that is put in
    while the handler is inhibited is not written until the inhibition ends or it is formatted, if the blocks of the device are not larger than the
    boot sector (with larger blocks it can be: \<open>held_boot_block_accepted\<close>), \<open>Paths\<close> that an AmigaDOS path is a walk, \<open>Scan\<close> that a directory is listed completely and
    every name can be shown, and \<open>Streams\<close> that an open file whose bytes are all valid is a sequence of bytes with a position, on a device that passes for a
    store of bytes (\<open>device_transparent\<close>).

  The theories \<open>Sample\<close>, \<open>SampleTree\<close>, \<open>SampleBoot\<close>, \<open>SampleAmiga\<close>, \<open>SampleHandler\<close>, \<open>SampleStream\<close> and \<open>SampleTools\<close> have concrete volumes and
  handlers to which the properties apply.

  \<^bold>\<open>Where the program is not right.\<close>  Some properties show a defect: \<open>pwrite_exposes_gap\<close> (a write behind the valid part of a file makes
  bytes of the medium readable), \<open>split_aborts\<close> and the paths without a result in \<open>lookup_correct\<close> (they end the process), \<open>stale_block\<close> (the
  block in memory after a transfer through it), \<open>fuse_readdir_lists\<close> (a name that does not convert ends the process),
  \<open>rename_then_parse\<close> (vendor entries are lost).  Others are lemmas: \<open>held_boot_block_accepted\<close>,
  \<open>humanize_wraps\<close>, \<open>allocated_percent_wraps\<close>, \<open>fat_overlaps_bitmap\<close>, \<open>vbr_write_length\<close>, \<open>gpt_entry_size_unchecked\<close>, \<open>phantom_partition\<close>,
  \<open>scan_repeats_entry\<close>, \<open>die_then_lock\<close>.

  \<^bold>\<open>Not modelled.\<close>
  \<^item> Output: \<^verbatim>\<open>log.c\<close>, and the text that the tools print.  The command lines of the tools are read by \<^verbatim>\<open>getopt\<close>; the model begins behind it.
  \<^item> The library functions that only call the system: \<^verbatim>\<open>exfat_tzset\<close>, the allocator on \<^verbatim>\<open>AllocVec\<close>, \<^verbatim>\<open>fuse_main\<close>.
  \<^item> In the handler the membership of the volume in the list of DOS, message ports and signals (the packets are a list), the semaphore
    that keeps two handlers from one partition (\<^verbatim>\<open>claim_partition\<close>, \<^verbatim>\<open>release_partition\<close>) and the publication of further partitions
    (\<^verbatim>\<open>publish_partition\<close>, \<^verbatim>\<open>activate_partitions\<close>): these are shared data of other programs and of the system.
  \<^item> Packets are served one after the other by one process, so there is no interleaving inside an operation; FUSE runs with \<^verbatim>\<open>-s\<close>, in one
    thread, too.  Power loss in the middle of an operation is not modelled.
  \<^item> The AmigaOS commands \<^verbatim>\<open>exfatctl\<close>, \<^verbatim>\<open>exfatres\<close>, \<^verbatim>\<open>mbrscan\<close>, the resident tag and the assembly entries, the case table of new volumes
    (\<^verbatim>\<open>mkfs/uctc.c\<close>, bytes without code, which the model takes as an argument), the tests and the build files.
\<close>

end
